(* ===== verification/Prelude.thy ===== *)
theory Prelude
  imports Main "HOL-Library.Word" "HOL-Library.AList"
begin

section \<open>Prelude: bytes, little-endian integers, keyed containers\<close>

text \<open>
  What every component of the GoodNet development shares: names for the machine types of
  the C++ sources, the little-endian byte codec behind the packed structs, C strings, and the
  association lists that stand for \<open>std::unordered_map\<close>.

  An \<open>unordered_map\<close> is an association list with distinct keys: \<open>map_of\<close> is \<open>find\<close>,
  \<open>AList.update\<close> is \<open>operator[]\<close> assignment, \<open>erase\<close> is \<open>erase\<close>. A loop over the
  map visits the list in its order, which stands for the iteration order the C++ standard
  leaves open; no theorem depends on that order unless it says so.
\<close>

named_theorems codec_simps \<open>round-trip and length facts of byte codecs\<close>
named_theorems store_simps \<open>lookups in updated keyed containers\<close>

type_synonym byte = "8 word"
type_synonym bytes = "8 word list"
type_synonym u8 = "8 word"
type_synonym u16 = "16 word"
type_synonym u32 = "32 word"
type_synonym u64 = "64 word"

subsection \<open>Little-endian integers\<close>

fun le_enc :: "nat \<Rightarrow> nat \<Rightarrow> bytes" where
  "le_enc 0 v = []"
| "le_enc (Suc n) v = word_of_nat (v mod 256) # le_enc n (v div 256)"

fun le_dec :: "bytes \<Rightarrow> nat" where
  "le_dec [] = 0"
| "le_dec (b # bs) = unat b + 256 * le_dec bs"

lemma length_le_enc [simp, codec_simps]: "length (le_enc n v) = n"
  by (induction n arbitrary: v) simp_all

lemma unat_byte_less [simp]: "unat (b :: byte) < 256"
  using unsigned_less [of b] by simp

lemma le_dec_bound: "le_dec bs < 256 ^ length bs"
proof (induction bs)
  case Nil
  show ?case by simp
next
  case (Cons b bs)
  have "unat b < 256" by (rule unat_byte_less)
  with Cons have "unat b + 256 * le_dec bs < 256 + 256 * (256 ^ length bs - 1)"
    by linarith
  also have "\<dots> = 256 ^ length (b # bs)"
    by (simp add: algebra_simps)
  finally show ?case by simp
qed

lemma unat_word_of_nat_byte [simp]: "unat (word_of_nat n :: byte) = n mod 256"
  by (simp add: unat_of_nat)

lemma le_dec_enc: "le_dec (le_enc n v) = v mod 256 ^ n"
proof (induction n arbitrary: v)
  case 0
  show ?case by simp
next
  case (Suc n)
  have "v mod 256 ^ Suc n = v mod 256 + 256 * (v div 256 mod 256 ^ n)"
    by (simp add: mod_mult2_eq)
  with Suc show ?case by simp
qed

lemma le_enc_dec: "le_enc (length bs) (le_dec bs) = bs"
proof (induction bs)
  case Nil
  show ?case by simp
next
  case (Cons b bs)
  have "(unat b + 256 * le_dec bs) mod 256 = unat b"
    by (simp add: mod_mult_self2)
  moreover have "(unat b + 256 * le_dec bs) div 256 = le_dec bs"
    by simp
  ultimately show ?case using Cons by simp
qed

subsection \<open>Fixed-width fields of a packed struct\<close>

definition put_u8 :: "u8 \<Rightarrow> bytes" where "put_u8 w = [w]"
definition put_u16 :: "u16 \<Rightarrow> bytes" where "put_u16 w = le_enc 2 (unat w)"
definition put_u32 :: "u32 \<Rightarrow> bytes" where "put_u32 w = le_enc 4 (unat w)"
definition put_u64 :: "u64 \<Rightarrow> bytes" where "put_u64 w = le_enc 8 (unat w)"

definition get_u8 :: "nat \<Rightarrow> bytes \<Rightarrow> u8" where
  "get_u8 off bs = (case drop off bs of [] \<Rightarrow> 0 | b # _ \<Rightarrow> b)"
definition get_u16 :: "nat \<Rightarrow> bytes \<Rightarrow> u16" where
  "get_u16 off bs = word_of_nat (le_dec (take 2 (drop off bs)))"
definition get_u32 :: "nat \<Rightarrow> bytes \<Rightarrow> u32" where
  "get_u32 off bs = word_of_nat (le_dec (take 4 (drop off bs)))"
definition get_u64 :: "nat \<Rightarrow> bytes \<Rightarrow> u64" where
  "get_u64 off bs = word_of_nat (le_dec (take 8 (drop off bs)))"
definition get_arr :: "nat \<Rightarrow> nat \<Rightarrow> bytes \<Rightarrow> bytes" where
  "get_arr off n bs = take n (drop off bs)"

lemma length_put [simp, codec_simps]:
  "length (put_u8 z) = 1" "length (put_u16 a) = 2" "length (put_u32 b) = 4" "length (put_u64 c) = 8"
  by (simp_all add: put_u8_def put_u16_def put_u32_def put_u64_def)

lemma length_get_arr [simp, codec_simps]:
  "off + n \<le> length bs \<Longrightarrow> length (get_arr off n bs) = n"
  by (simp add: get_arr_def)

lemma word_le_roundtrip:
  assumes "256 ^ n = (2::nat) ^ LENGTH('a::len)"
  shows "(word_of_nat (le_dec (le_enc n (unat (w :: 'a word)))) :: 'a word) = w"
proof -
  have "unat w < 2 ^ LENGTH('a)" by (rule unsigned_less)
  with assms show ?thesis by (simp add: le_dec_enc)
qed

lemma get_put_word [simp, codec_simps]:
  "word_of_nat (le_dec (put_u16 a)) = a"
  "word_of_nat (le_dec (put_u32 b)) = b"
  "word_of_nat (le_dec (put_u64 c)) = c"
  unfolding put_u16_def put_u32_def put_u64_def
  by (simp_all add: word_le_roundtrip)

lemma put_get_word:
  "length bs = 2 \<Longrightarrow> put_u16 (word_of_nat (le_dec bs)) = bs"
  "length bs = 4 \<Longrightarrow> put_u32 (word_of_nat (le_dec bs)) = bs"
  "length bs = 8 \<Longrightarrow> put_u64 (word_of_nat (le_dec bs)) = bs"
  using le_dec_bound [of bs] le_enc_dec [of bs]
  by (simp_all add: put_u16_def put_u32_def put_u64_def unat_of_nat)

text \<open>
  Reading the fields of a concatenation: an offset that points past a prefix of known length
  moves into the rest.
\<close>

lemma get_skip [simp, codec_simps]:
  "length xs \<le> off \<Longrightarrow> get_u8 off (xs @ ys) = get_u8 (off - length xs) ys"
  "length xs \<le> off \<Longrightarrow> get_u16 off (xs @ ys) = get_u16 (off - length xs) ys"
  "length xs \<le> off \<Longrightarrow> get_u32 off (xs @ ys) = get_u32 (off - length xs) ys"
  "length xs \<le> off \<Longrightarrow> get_u64 off (xs @ ys) = get_u64 (off - length xs) ys"
  "length xs \<le> off \<Longrightarrow> get_arr off n (xs @ ys) = get_arr (off - length xs) n ys"
  by (simp_all add: get_u8_def get_u16_def get_u32_def get_u64_def get_arr_def)

lemma get_here [simp, codec_simps]:
  "get_u8 0 (put_u8 z @ ys) = z"
  "get_u16 0 (put_u16 a @ ys) = a"
  "get_u32 0 (put_u32 b @ ys) = b"
  "get_u64 0 (put_u64 c @ ys) = c"
  "length xs = n \<Longrightarrow> get_arr 0 n (xs @ ys) = xs"
  by (simp_all add: put_u8_def get_u8_def get_u16_def get_u32_def get_u64_def get_arr_def)

lemma get_here_end [simp, codec_simps]:
  "get_u8 0 (put_u8 z) = z"
  "get_u16 0 (put_u16 a) = a"
  "get_u32 0 (put_u32 b) = b"
  "get_u64 0 (put_u64 c) = c"
  "length xs = n \<Longrightarrow> get_arr 0 n xs = xs"
  by (simp_all add: put_u8_def get_u8_def get_u16_def get_u32_def get_u64_def get_arr_def)

lemma get_u8_Cons [simp, codec_simps]: "get_u8 0 (b # ys) = b"
  by (simp add: get_u8_def)

lemma get_Cons [simp, codec_simps]:
  "0 < off \<Longrightarrow> get_u8 off (x # ys) = get_u8 (off - 1) ys"
  "0 < off \<Longrightarrow> get_u16 off (x # ys) = get_u16 (off - 1) ys"
  "0 < off \<Longrightarrow> get_u32 off (x # ys) = get_u32 (off - 1) ys"
  "0 < off \<Longrightarrow> get_u64 off (x # ys) = get_u64 (off - 1) ys"
  "0 < off \<Longrightarrow> get_arr off n (x # ys) = get_arr (off - 1) n ys"
  by (simp_all add: get_u8_def get_u16_def get_u32_def get_u64_def get_arr_def drop_Cons')

text \<open>Writing back what was read rebuilds the bytes: the other half of a packed struct.\<close>

lemma put_get_field:
  "off + 1 \<le> length bs \<Longrightarrow> put_u8 (get_u8 off bs) = get_arr off 1 bs"
  "off + 2 \<le> length bs \<Longrightarrow> put_u16 (get_u16 off bs) = get_arr off 2 bs"
  "off + 4 \<le> length bs \<Longrightarrow> put_u32 (get_u32 off bs) = get_arr off 4 bs"
  "off + 8 \<le> length bs \<Longrightarrow> put_u64 (get_u64 off bs) = get_arr off 8 bs"
  by (simp_all add: get_u16_def get_u32_def get_u64_def get_u8_def put_u8_def get_arr_def
      put_get_word split: list.split)

lemma get_arr_join:
  "off' = off + n \<Longrightarrow> get_arr off n bs @ get_arr off' m bs = get_arr off (n + m) bs"
  "off' = off + n \<Longrightarrow> get_arr off n bs @ get_arr off' m bs @ r = get_arr off (n + m) bs @ r"
proof -
  show join: "off' = off + n \<Longrightarrow> get_arr off n bs @ get_arr off' m bs = get_arr off (n + m) bs"
    by (simp add: get_arr_def take_add drop_drop add.commute [of off n])
  show "off' = off + n \<Longrightarrow> get_arr off n bs @ get_arr off' m bs @ r = get_arr off (n + m) bs @ r"
    using join by (metis append_assoc)
qed

lemma get_arr_0: "get_arr 0 n bs = take n bs"
  by (simp add: get_arr_def)

subsection \<open>C strings\<close>

definition byte_of_char :: "char \<Rightarrow> byte" where "byte_of_char c = word_of_nat (of_char c)"
definition char_of_byte :: "byte \<Rightarrow> char" where "char_of_byte b = char_of (unat b)"

definition bytes_of_string :: "string \<Rightarrow> bytes" where "bytes_of_string = map byte_of_char"
definition string_of_bytes :: "bytes \<Rightarrow> string" where "string_of_bytes = map char_of_byte"

lemma char_of_byte_of_char [simp]: "char_of_byte (byte_of_char c) = c"
  by (simp add: char_of_byte_def byte_of_char_def)

lemma byte_of_char_of_byte [simp]: "byte_of_char (char_of_byte b) = b"
  by (simp add: char_of_byte_def byte_of_char_def)

lemma string_of_bytes_of_string [simp]: "string_of_bytes (bytes_of_string s) = s"
  by (simp add: string_of_bytes_def bytes_of_string_def comp_def)

lemma length_bytes_of_string [simp]: "length (bytes_of_string s) = length s"
  by (simp add: bytes_of_string_def)

text \<open>
  \<open>strncpy(dst, s, n - 1); dst[n - 1] = 0\<close> into an \<open>n\<close>-byte field: at most \<open>n - 1\<close>
  characters, zero padded. \<open>cstr\<close> reads a field back up to its first NUL, which is what
  \<open>std::string(ptr)\<close> and \<open>strnlen\<close> do.
\<close>

definition pad_to :: "nat \<Rightarrow> bytes \<Rightarrow> bytes" where
  "pad_to n bs = take n (bs @ replicate n 0)"

definition strn_field :: "nat \<Rightarrow> string \<Rightarrow> bytes" where
  "strn_field n s = pad_to n (take (n - 1) (takeWhile (\<lambda>b. b \<noteq> 0) (bytes_of_string s)))"

definition cstr :: "bytes \<Rightarrow> string" where
  "cstr bs = string_of_bytes (takeWhile (\<lambda>b. b \<noteq> 0) bs)"

definition nul_free :: "string \<Rightarrow> bool" where
  "nul_free s \<longleftrightarrow> (0 :: byte) \<notin> set (bytes_of_string s)"

lemma length_pad_to [simp, codec_simps]: "length (pad_to n bs) = n"
  by (simp add: pad_to_def)

lemma length_strn_field [simp, codec_simps]: "length (strn_field n s) = n"
  by (simp add: strn_field_def)

lemma takeWhile_pad:
  "\<forall>b \<in> set bs. P b \<Longrightarrow> \<not> P 0 \<Longrightarrow> takeWhile P (bs @ replicate n 0) = bs"
  by (cases n) (simp_all add: takeWhile_append2)

lemma pad_to_short: "length bs \<le> n \<Longrightarrow> pad_to n bs = bs @ replicate (n - length bs) 0"
  by (simp add: pad_to_def min_def)

lemma cstr_strn_field [simp, codec_simps]:
  assumes "nul_free s" "length s < n"
  shows "cstr (strn_field n s) = s"
proof -
  have nz: "\<forall>b \<in> set (bytes_of_string s). b \<noteq> 0"
    using assms(1) by (auto simp: nul_free_def)
  have tw: "takeWhile (\<lambda>b. b \<noteq> 0) (bytes_of_string s) = bytes_of_string s"
    using nz by simp
  have "strn_field n s = bytes_of_string s @ replicate (n - length s) 0"
    using assms(2) by (simp add: strn_field_def tw pad_to_short)
  then show ?thesis
    using nz by (simp add: cstr_def takeWhile_pad)
qed

subsection \<open>Keyed containers\<close>

definition erase :: "'k \<Rightarrow> ('k \<times> 'v) list \<Rightarrow> ('k \<times> 'v) list" where
  "erase k m = filter (\<lambda>p. fst p \<noteq> k) m"

lemma map_of_erase [simp, store_simps]:
  "map_of (erase k m) j = (if j = k then None else map_of m j)"
  by (induction m) (auto simp: erase_def)

lemma map_of_update [simp, store_simps]:
  "map_of (AList.update k v m) j = (if j = k then Some v else map_of m j)"
  by (simp add: update_conv')

lemma distinct_erase [simp]: "distinct (map fst m) \<Longrightarrow> distinct (map fst (erase k m))"
  unfolding erase_def by (induction m) auto

lemma set_fst_erase: "fst ` set (erase k m) = fst ` set m - {k}"
  by (auto simp: erase_def)

lemma set_erase: "set (erase k m) = {p \<in> set m. fst p \<noteq> k}"
  by (auto simp: erase_def)

lemma erase_absent: "k \<notin> fst ` set m \<Longrightarrow> erase k m = m"
  unfolding erase_def by (induction m) auto

lemma update_absent: "k \<notin> fst ` set m \<Longrightarrow> AList.update k v m = m @ [(k, v)]"
  by (induction m) auto

text \<open>Replacing the value of a key in place, for a record mutated through its pointer.\<close>

definition modify :: "'k \<Rightarrow> ('v \<Rightarrow> 'v) \<Rightarrow> ('k \<times> 'v) list \<Rightarrow> ('k \<times> 'v) list" where
  "modify k f m = map (\<lambda>(j, v). (j, if j = k then f v else v)) m"

lemma map_of_modify [simp, store_simps]:
  "map_of (modify k f m) j = (if j = k then map_option f (map_of m j) else map_of m j)"
  by (induction m) (auto simp: modify_def)

lemma fst_modify [simp, store_simps]: "map fst (modify k f m) = map fst m"
  by (induction m) (auto simp: modify_def)

lemma set_fst_modify [simp]: "fst ` set (modify k f m) = fst ` set m"
  using fst_modify [of k f m] by (metis list.set_map)

lemma modify_id: "(\<And>v. map_of m k = Some v \<Longrightarrow> f v = v) \<Longrightarrow> distinct (map fst m) \<Longrightarrow> modify k f m = m"
  unfolding modify_def by (intro map_idI) (auto dest: map_of_is_SomeI)

end
