(* ===== verification/Stun.thy ===== *)
theory Stun
  imports Prelude
begin

section \<open>STUN messages\<close>

text \<open>
  \<open>plugins/connectors/ice/stun.hpp\<close> and the first part of \<open>stun.cpp\<close>: big-endian integers,
  the CRC of the FINGERPRINT attribute, the builders and the parsers of Binding requests and
  responses. HMAC-SHA1 (OpenSSL) is the parameter \<open>hmac\<close>; a transaction id drawn at random is
  an argument. A pointer into a buffer is the rest of the buffer from there. A \<open>memcpy\<close> or
  \<open>memcmp\<close> that leaves its buffer is the result \<open>Inl\<close> of a fault; integers keep the widths
  of the code.
\<close>

unbundle bit_operations_syntax

named_theorems stun_consts \<open>constants of the STUN protocol\<close>

subsection \<open>Constants and types\<close>

definition STUN_BINDING_REQUEST :: u16 where [stun_consts]: "STUN_BINDING_REQUEST = 0x0001"
definition STUN_BINDING_RESPONSE :: u16 where [stun_consts]: "STUN_BINDING_RESPONSE = 0x0101"

definition STUN_ATTR_MAPPED_ADDRESS :: u16 where [stun_consts]: "STUN_ATTR_MAPPED_ADDRESS = 0x0001"
definition STUN_ATTR_USERNAME :: u16 where [stun_consts]: "STUN_ATTR_USERNAME = 0x0006"
definition STUN_ATTR_MESSAGE_INTEGRITY :: u16 where [stun_consts]: "STUN_ATTR_MESSAGE_INTEGRITY = 0x0008"
definition STUN_ATTR_XOR_MAPPED_ADDRESS :: u16 where [stun_consts]: "STUN_ATTR_XOR_MAPPED_ADDRESS = 0x0020"
definition STUN_ATTR_PRIORITY :: u16 where [stun_consts]: "STUN_ATTR_PRIORITY = 0x0024"
definition STUN_ATTR_USE_CANDIDATE :: u16 where [stun_consts]: "STUN_ATTR_USE_CANDIDATE = 0x0025"
definition STUN_ATTR_FINGERPRINT :: u16 where [stun_consts]: "STUN_ATTR_FINGERPRINT = 0x8028"
definition STUN_ATTR_ICE_CONTROLLED :: u16 where [stun_consts]: "STUN_ATTR_ICE_CONTROLLED = 0x8029"
definition STUN_ATTR_ICE_CONTROLLING :: u16 where [stun_consts]: "STUN_ATTR_ICE_CONTROLLING = 0x802A"

definition STUN_MAGIC_COOKIE :: u32 where "STUN_MAGIC_COOKIE = 0x2112A442"
definition STUN_HEADER_SIZE :: nat where [stun_consts]: "STUN_HEADER_SIZE = 20"
definition STUN_HMAC_SIZE :: nat where [stun_consts]: "STUN_HMAC_SIZE = 20"

text \<open>\<open>boost::asio::ip::address\<close>: four or sixteen bytes; the default is 0.0.0.0.\<close>

datatype ip_address = V4 (ip_bytes: bytes) | V6 (ip_bytes: bytes)

definition ip_wf :: "ip_address \<Rightarrow> bool" where
  "ip_wf a = (case a of V4 b \<Rightarrow> length b = 4 | V6 b \<Rightarrow> length b = 16)"

record stun_address =
  sa_ip :: ip_address
  sa_port :: u16

record stun_result =
  sr_mapped :: stun_address
  sr_txn_id :: bytes

record stun_request =
  rq_txn_id :: bytes
  rq_priority :: u32
  rq_use_candidate :: bool
  rq_username :: string

datatype stun_fault = Write_past_end | Read_past_end

subsection \<open>Big-endian integers\<close>

definition read_u16 :: "bytes \<Rightarrow> u16" where
  "read_u16 p = push_bit 8 (ucast (get_u8 0 p)) OR ucast (get_u8 1 p)"

definition read_u32 :: "bytes \<Rightarrow> u32" where
  "read_u32 p = push_bit 24 (ucast (get_u8 0 p)) OR push_bit 16 (ucast (get_u8 1 p))
     OR push_bit 8 (ucast (get_u8 2 p)) OR ucast (get_u8 3 p)"

definition write_u16 :: "u16 \<Rightarrow> bytes" where
  "write_u16 v = [ucast (drop_bit 8 v), ucast v]"

definition write_u32 :: "u32 \<Rightarrow> bytes" where
  "write_u32 v = [ucast (drop_bit 24 v), ucast (drop_bit 16 v), ucast (drop_bit 8 v), ucast v]"

text \<open>\<open>write_u64\<close> fills the field from its last byte, shifting the value right by eight.\<close>

fun write_u64_loop :: "nat \<Rightarrow> u64 \<Rightarrow> bytes" where
  "write_u64_loop 0 v = []"
| "write_u64_loop (Suc i) v = write_u64_loop i (drop_bit 8 v) @ [ucast v]"

definition write_u64 :: "u64 \<Rightarrow> bytes" where
  "write_u64 v = write_u64_loop 8 v"

text \<open>Overwriting bytes of a buffer at a position.\<close>

definition write_at :: "nat \<Rightarrow> bytes \<Rightarrow> bytes \<Rightarrow> bytes" where
  "write_at pos bs buf = take pos buf @ bs @ drop (pos + length bs) buf"

subsection \<open>CRC32 and the fingerprint\<close>

definition crc_step :: "u32 \<Rightarrow> u32" where
  "crc_step crc = drop_bit 1 crc XOR (if crc AND 1 \<noteq> 0 then 0xEDB88320 else 0)"

definition crc32_table :: "nat \<Rightarrow> u32" where
  "crc32_table i = (crc_step ^^ 8) (word_of_nat i)"

definition compute_crc32 :: "bytes \<Rightarrow> u32" where
  "compute_crc32 data =
     foldl (\<lambda>crc b. drop_bit 8 crc XOR crc32_table (unat ((crc XOR ucast b) AND 0xFF))) 0xFFFFFFFF data
       XOR 0xFFFFFFFF"

definition stun_fingerprint :: "bytes \<Rightarrow> u32" where
  "stun_fingerprint data = compute_crc32 data XOR 0x5354554E"

subsection \<open>Builders\<close>

definition attr_pad :: "u16 \<Rightarrow> u32" where
  "attr_pad l = (ucast l + 3) AND NOT 3"

definition append_attr :: "u16 \<Rightarrow> bytes \<Rightarrow> u16 \<Rightarrow> bytes \<Rightarrow> stun_fault + bytes" where
  "append_attr type value value_len buf =
     (let padded = (ucast (attr_pad value_len) :: u16)
      in if value_len > padded then Inl Write_past_end
         else Inr (buf @ write_u16 type @ write_u16 value_len @ take (unat value_len) value
                   @ replicate (unat padded - unat value_len) 0))"

definition append_attr_u32 :: "u16 \<Rightarrow> u32 \<Rightarrow> bytes \<Rightarrow> stun_fault + bytes" where
  "append_attr_u32 type v buf = append_attr type (write_u32 v) 4 buf"

definition append_attr_u64 :: "u16 \<Rightarrow> u64 \<Rightarrow> bytes \<Rightarrow> stun_fault + bytes" where
  "append_attr_u64 type v buf = append_attr type (write_u64 v) 8 buf"

definition update_msg_length :: "bytes \<Rightarrow> bytes" where
  "update_msg_length buf = write_at 2 (write_u16 (word_of_nat (length buf - STUN_HEADER_SIZE))) buf"

definition write_header :: "u16 \<Rightarrow> bytes \<Rightarrow> bytes" where
  "write_header type txn = write_u16 type @ write_u16 0 @ write_u32 STUN_MAGIC_COOKIE @ txn"

definition and_then :: "'e + 'a \<Rightarrow> ('a \<Rightarrow> 'e + 'b) \<Rightarrow> 'e + 'b" where
  "and_then m f = (case m of Inl e \<Rightarrow> Inl e | Inr x \<Rightarrow> f x)"

definition append_integrity_and_fingerprint ::
  "(bytes \<Rightarrow> string \<Rightarrow> bytes) \<Rightarrow> string \<Rightarrow> bytes \<Rightarrow> stun_fault + bytes" where
  "append_integrity_and_fingerprint hmac password buf =
     (let buf1 = write_at 2 (write_u16 (word_of_nat (length buf - STUN_HEADER_SIZE + 4 + STUN_HMAC_SIZE))) buf
      in and_then (append_attr STUN_ATTR_MESSAGE_INTEGRITY (hmac buf1 password) (word_of_nat STUN_HMAC_SIZE) buf1)
           (\<lambda>buf2. let buf3 = write_at 2 (write_u16 (word_of_nat (length buf2 - STUN_HEADER_SIZE + 8))) buf2
                    in and_then (append_attr_u32 STUN_ATTR_FINGERPRINT (stun_fingerprint buf3) buf3)
                         (\<lambda>buf4. Inr (update_msg_length buf4))))"

definition build_binding_request :: "bytes \<Rightarrow> bytes" where
  "build_binding_request txn = update_msg_length (write_header STUN_BINDING_REQUEST txn)"

definition build_check_request ::
  "(bytes \<Rightarrow> string \<Rightarrow> bytes) \<Rightarrow> bytes \<Rightarrow> string \<Rightarrow> string \<Rightarrow> u32 \<Rightarrow> bool \<Rightarrow> bool \<Rightarrow> u64 \<Rightarrow> stun_fault + bytes" where
  "build_check_request hmac txn username password priority use_candidate controlling tie_breaker =
     and_then (append_attr STUN_ATTR_USERNAME (bytes_of_string username) (word_of_nat (length username))
                (write_header STUN_BINDING_REQUEST txn)) (\<lambda>b1.
     and_then (append_attr_u32 STUN_ATTR_PRIORITY priority b1) (\<lambda>b2.
     and_then (if controlling then append_attr_u64 STUN_ATTR_ICE_CONTROLLING tie_breaker b2
               else append_attr_u64 STUN_ATTR_ICE_CONTROLLED tie_breaker b2) (\<lambda>b3.
     and_then (if use_candidate then append_attr STUN_ATTR_USE_CANDIDATE [] 0 b3 else Inr b3) (\<lambda>b4.
     append_integrity_and_fingerprint hmac password b4))))"

definition xor_bytes :: "bytes \<Rightarrow> bytes \<Rightarrow> bytes" where
  "xor_bytes xs ys = map2 (\<lambda>x y. x XOR y) xs ys"

definition xor_key :: "bytes \<Rightarrow> bytes" where
  "xor_key txn = write_u32 STUN_MAGIC_COOKIE @ txn"

definition xor_port :: "u16 \<Rightarrow> u16" where
  "xor_port p = p XOR ucast (drop_bit 16 STUN_MAGIC_COOKIE)"

definition build_check_response ::
  "(bytes \<Rightarrow> string \<Rightarrow> bytes) \<Rightarrow> bytes \<Rightarrow> stun_address \<Rightarrow> string \<Rightarrow> stun_fault + bytes" where
  "build_check_response hmac txn mapped_addr password =
     (let buf = write_header STUN_BINDING_RESPONSE txn
      in and_then
           (case sa_ip mapped_addr of
              V4 v4 \<Rightarrow> append_attr STUN_ATTR_XOR_MAPPED_ADDRESS
                ([0, 0x01] @ write_u16 (xor_port (sa_port mapped_addr))
                  @ write_u32 (read_u32 v4 XOR STUN_MAGIC_COOKIE)) 8 buf
            | V6 v6 \<Rightarrow> append_attr STUN_ATTR_XOR_MAPPED_ADDRESS
                ([0, 0x02] @ write_u16 (xor_port (sa_port mapped_addr)) @ xor_bytes v6 (xor_key txn)) 20 buf)
           (append_integrity_and_fingerprint hmac password))"

subsection \<open>Parsers\<close>

text \<open>
  Both parsers walk the attributes with the same loop; \<open>f\<close> is its body, given the position
  and type of the attribute, its length and the bytes from its value on.
\<close>

function attr_loop :: "(nat \<Rightarrow> u16 \<Rightarrow> u16 \<Rightarrow> bytes \<Rightarrow> 'a \<Rightarrow> 'a) \<Rightarrow> bytes \<Rightarrow> nat \<Rightarrow> nat \<Rightarrow> 'a \<Rightarrow> 'a" where
  "attr_loop f data pos stop acc =
     (if pos + 4 \<le> stop
      then let attr_type = read_u16 (drop pos data); attr_len = read_u16 (drop (pos + 2) data);
               attr_padded = unat (attr_pad attr_len)
           in if pos + 4 + attr_padded > stop then acc
              else attr_loop f data (pos + 4 + attr_padded) stop (f pos attr_type attr_len (drop (pos + 4) data) acc)
      else acc)"
  by pat_completeness auto
termination by (relation "measure (\<lambda>(f, data, pos, stop, acc). stop - pos)") auto

declare attr_loop.simps [simp del]

text \<open>The header checks common to both parsers; the result is the end of the attributes.\<close>

definition parse_header :: "u16 \<Rightarrow> bytes \<Rightarrow> nat option" where
  "parse_header type data =
     (if length data < STUN_HEADER_SIZE then None
      else if read_u16 data \<noteq> type then None
      else if read_u32 (drop 4 data) \<noteq> STUN_MAGIC_COOKIE then None
      else let msg_len = unat (read_u16 (drop 2 data))
           in if length data < STUN_HEADER_SIZE + msg_len then None else Some (STUN_HEADER_SIZE + msg_len))"

definition response_attr :: "nat \<Rightarrow> u16 \<Rightarrow> u16 \<Rightarrow> bytes \<Rightarrow> stun_result \<times> bool \<Rightarrow> stun_result \<times> bool" where
  "response_attr pos attr_type attr_len attr_data acc =
     (let (res, found_mapped) = acc; family = get_u8 1 attr_data
      in if attr_type = STUN_ATTR_XOR_MAPPED_ADDRESS \<and> attr_len \<ge> 8
         then let res1 = res\<lparr> sr_mapped := (sr_mapped res)\<lparr> sa_port := xor_port (read_u16 (drop 2 attr_data)) \<rparr> \<rparr>
              in if family = 0x01 \<and> attr_len \<ge> 8
                 then (res1\<lparr> sr_mapped := (sr_mapped res1)
                         \<lparr> sa_ip := V4 (write_u32 (read_u32 (drop 4 attr_data) XOR STUN_MAGIC_COOKIE)) \<rparr> \<rparr>, True)
                 else if family = 0x02 \<and> attr_len \<ge> 20
                 then (res1\<lparr> sr_mapped := (sr_mapped res1)
                         \<lparr> sa_ip := V6 (xor_bytes (get_arr 4 16 attr_data) (xor_key (sr_txn_id res1))) \<rparr> \<rparr>, True)
                 else (res1, found_mapped)
         else if attr_type = STUN_ATTR_MAPPED_ADDRESS \<and> \<not> found_mapped \<and> attr_len \<ge> 8
         then let res1 = res\<lparr> sr_mapped := (sr_mapped res)\<lparr> sa_port := read_u16 (drop 2 attr_data) \<rparr> \<rparr>
              in if family = 0x01
                 then (res1\<lparr> sr_mapped := (sr_mapped res1)\<lparr> sa_ip := V4 (get_arr 4 4 attr_data) \<rparr> \<rparr>, True)
                 else (res1, found_mapped)
         else acc)"

definition no_address :: stun_address where
  "no_address = \<lparr> sa_ip = V4 [0, 0, 0, 0], sa_port = 0 \<rparr>"

definition parse_binding_response :: "bytes \<Rightarrow> stun_result option" where
  "parse_binding_response data =
     (case parse_header STUN_BINDING_RESPONSE data of None \<Rightarrow> None
      | Some stop \<Rightarrow>
          let (res, found_mapped) = attr_loop response_attr data STUN_HEADER_SIZE stop
                (\<lparr> sr_mapped = no_address, sr_txn_id = get_arr 8 12 data \<rparr>, False)
          in if found_mapped then Some res else None)"

definition request_attr :: "nat \<Rightarrow> u16 \<Rightarrow> u16 \<Rightarrow> bytes \<Rightarrow> stun_request \<times> nat \<Rightarrow> stun_request \<times> nat" where
  "request_attr pos attr_type attr_len attr_data acc =
     (let (req, mi_offset) = acc
      in if attr_type = STUN_ATTR_USERNAME
         then (req\<lparr> rq_username := string_of_bytes (take (unat attr_len) attr_data) \<rparr>, mi_offset)
         else if attr_type = STUN_ATTR_PRIORITY
         then (if attr_len \<ge> 4 then req\<lparr> rq_priority := read_u32 attr_data \<rparr> else req, mi_offset)
         else if attr_type = STUN_ATTR_USE_CANDIDATE then (req\<lparr> rq_use_candidate := True \<rparr>, mi_offset)
         else if attr_type = STUN_ATTR_MESSAGE_INTEGRITY then (req, pos)
         else acc)"

text \<open>
  The digest of the packet is compared with \<open>memcmp\<close> without a look at the length of the
  attribute: the comparison may read the memory behind the packet, which is the argument
  \<open>beyond\<close>.
\<close>

definition check_integrity ::
  "(bytes \<Rightarrow> string \<Rightarrow> bytes) \<Rightarrow> string \<Rightarrow> bytes \<Rightarrow> bytes \<Rightarrow> nat \<Rightarrow> stun_fault + bool" where
  "check_integrity hmac password data beyond mi_offset =
     (let check = write_at 2 (write_u16 (word_of_nat (mi_offset - STUN_HEADER_SIZE + 4 + STUN_HMAC_SIZE)))
                    (take mi_offset data);
          expected_hmac = hmac check password
      in if length (data @ beyond) < mi_offset + 4 + STUN_HMAC_SIZE then Inl Read_past_end
         else Inr (expected_hmac = get_arr (mi_offset + 4) STUN_HMAC_SIZE (data @ beyond)))"

definition parse_binding_request ::
  "(bytes \<Rightarrow> string \<Rightarrow> bytes) \<Rightarrow> bytes \<Rightarrow> bytes \<Rightarrow> string \<Rightarrow> stun_fault + stun_request option" where
  "parse_binding_request hmac data beyond expected_password =
     (case parse_header STUN_BINDING_REQUEST data of None \<Rightarrow> Inr None
      | Some stop \<Rightarrow>
          let (req, mi_offset) = attr_loop request_attr data STUN_HEADER_SIZE stop
                (\<lparr> rq_txn_id = get_arr 8 12 data, rq_priority = 0, rq_use_candidate = False, rq_username = [] \<rparr>, 0)
          in if mi_offset > 0 \<and> expected_password \<noteq> []
             then and_then (check_integrity hmac expected_password data beyond mi_offset)
                    (\<lambda>ok. Inr (if ok then Some req else None))
             else Inr (Some req))"

definition is_stun_packet :: "bytes \<Rightarrow> bool" where
  "is_stun_packet data =
     (if length data < STUN_HEADER_SIZE then False
      else if get_u8 0 data AND 0xC0 \<noteq> 0 then False
      else read_u32 (drop 4 data) = STUN_MAGIC_COOKIE)"

subsection \<open>Integers survive the wire\<close>

lemma length_write [simp, codec_simps]: "length (write_u16 a) = 2" "length (write_u32 b) = 4" "length (write_u64 c) = 8"
proof -
  have "length (write_u64_loop n v) = n" for n v by (induction n arbitrary: v) simp_all
  then show "length (write_u64 c) = 8" by (simp add: write_u64_def)
qed (simp_all add: write_u16_def write_u32_def)

lemma read_write_u16 [simp, codec_simps]: "read_u16 (write_u16 v @ r) = v"
  by (rule bit_word_eqI) (auto simp: read_u16_def write_u16_def bit_simps)

lemma read_write_u32 [simp, codec_simps]: "read_u32 (write_u32 v @ r) = v"
proof (rule bit_word_eqI)
  fix n
  assume "n < LENGTH(32)"
  then consider "n < 8" | "8 \<le> n" "n < 16" | "16 \<le> n" "n < 24" | "24 \<le> n" "n < 32" by force
  then show "bit (read_u32 (write_u32 v @ r)) n = bit v n"
    by cases (auto simp: read_u32_def write_u32_def bit_simps)
qed

lemma bit_byte_high: "8 \<le> n \<Longrightarrow> \<not> bit (b :: byte) n"
  by (auto dest: bit_imp_le_length)

lemma write_read_u32:
  assumes "length bs = 4"
  shows "write_u32 (read_u32 (bs @ r)) = bs"
proof -
  obtain a b c d where "bs = [a, b, c, d]" using assms by (auto simp: numeral_eq_Suc length_Suc_conv)
  then show ?thesis
    by (auto simp: read_u32_def write_u32_def bit_simps bit_byte_high intro!: bit_word_eqI)
qed

lemma read_write_end [simp]: "read_u16 (write_u16 v) = v" "read_u32 (write_u32 w) = w"
  using read_write_u16 [of v "[]"] read_write_u32 [of w "[]"] by simp_all

lemma attr_pad_unat: "unat (attr_pad l) = 4 * ((unat l + 3) div 4)"
proof -
  have 3: "(3 :: u32) = mask 2" by (simp add: mask_eq_exp_minus_1)
  have "x AND NOT (mask 2) = (push_bit 2 (drop_bit 2 x) :: u32)" for x
    by (rule bit_word_eqI) (auto simp: bit_simps simp del: add_2_eq_Suc add_2_eq_Suc')
  then have a: "attr_pad l = push_bit 2 (drop_bit 2 (ucast l + 3))" unfolding attr_pad_def 3 by (simp add: 3 [symmetric])
  have b: "unat l < 65536" using unsigned_less [of l] by simp
  have u: "unat (ucast l + 3 :: u32) = unat l + 3"
    using b by (simp add: unat_word_ariths unsigned_ucast_eq take_bit_nat_eq_self)
  have "4 * ((unat l + 3) div 4) \<le> unat l + 3" by simp
  also have "\<dots> < 2 ^ 32" using b by simp
  finally show ?thesis
    unfolding a unsigned_push_bit_eq unsigned_drop_bit_eq u
    by (simp add: push_bit_eq_mult drop_bit_eq_div take_bit_nat_eq_self mult.commute)
qed

lemma length_write_at [simp]: "pos + length bs \<le> length buf \<Longrightarrow> length (write_at pos bs buf) = length buf"
  by (simp add: write_at_def)

lemma write_at_twice:
  "length bs = length cs \<Longrightarrow> pos + length cs \<le> length buf \<Longrightarrow> write_at pos bs (write_at pos cs buf) = write_at pos bs buf"
  by (simp add: write_at_def)

lemma write_at_append:
  "pos + length bs \<le> length buf \<Longrightarrow> write_at pos bs (buf @ r) = write_at pos bs buf @ r"
  by (simp add: write_at_def)

subsection \<open>The CRC\<close>

lemma crc_step_bit: "crc_step x = drop_bit 1 x XOR (if bit x 0 then 0xEDB88320 else 0)"
  by (simp add: crc_step_def and_one_eq bit_0 odd_iff_mod_2_eq_one)

lemma crc_step_linear: "crc_step (x XOR y) = crc_step x XOR crc_step y"
  by (rule bit_word_eqI) (auto simp: crc_step_bit bit_simps)

lemma crc_steps_linear: "(crc_step ^^ n) (x XOR y) = (crc_step ^^ n) x XOR (crc_step ^^ n) y"
  by (induction n) (simp_all add: crc_step_linear)

lemma crc_steps_shift: "\<forall>i < n. \<not> bit x i \<Longrightarrow> (crc_step ^^ n) x = drop_bit n x"
proof (induction n)
  case (Suc n)
  then have "(crc_step ^^ n) x = drop_bit n x" "\<not> bit x n" by simp_all
  then show ?case by (simp add: crc_step_bit [of "drop_bit n x"] bit_simps)
qed simp

lemma crc_byte:
  "drop_bit 8 crc XOR crc32_table (unat ((crc XOR ucast (b :: byte)) AND 0xFF)) = (crc_step ^^ 8) (crc XOR ucast b)"
proof -
  let ?x = "crc XOR ucast b"
  have FF: "(0xFF :: u32) = mask 8" by (simp add: mask_eq_exp_minus_1)
  have lo: "crc32_table (unat (?x AND 0xFF)) = (crc_step ^^ 8) (?x AND 0xFF)" by (simp add: crc32_table_def)
  have "(crc_step ^^ 8) (?x AND NOT (mask 8)) = drop_bit 8 (?x AND NOT (mask 8))"
    by (rule crc_steps_shift) (simp add: bit_simps)
  also have "\<dots> = drop_bit 8 crc"
    by (rule bit_word_eqI) (auto simp: bit_simps bit_byte_high dest: bit_imp_le_length)
  finally have hi: "(crc_step ^^ 8) (?x AND NOT (mask 8)) = drop_bit 8 crc" .
  have "?x = (?x AND NOT (mask 8)) XOR (?x AND 0xFF)"
    unfolding FF by (rule bit_word_eqI) (auto simp: bit_simps)
  then have "(crc_step ^^ 8) ?x = (crc_step ^^ 8) (?x AND NOT (mask 8)) XOR (crc_step ^^ 8) (?x AND 0xFF)"
    using crc_steps_linear by metis
  then show ?thesis unfolding hi lo by simp
qed

text \<open>The reference: a shift register fed with the bits of the message, least significant first.\<close>

definition crc_serial :: "u32 \<Rightarrow> bool list \<Rightarrow> u32" where
  "crc_serial = foldl (\<lambda>crc b. crc_step (crc XOR of_bool b))"

definition message_bits :: "bytes \<Rightarrow> bool list" where
  "message_bits data = concat (map (\<lambda>b. map (bit b) [0..<8]) data)"

lemma crc_serial_bits:
  "n \<le> 8 \<Longrightarrow> crc_serial crc (map (bit (b :: byte)) [0..<n]) = (crc_step ^^ n) (crc XOR take_bit n (ucast b))"
proof (induction n)
  case 0
  show ?case by (simp add: crc_serial_def)
next
  case (Suc n)
  have one: "(crc_step ^^ n) (push_bit n (of_bool (bit b n))) = of_bool (bit b n)"
    using Suc.prems by (subst crc_steps_shift) (auto simp: bit_simps intro!: bit_word_eqI)
  have "take_bit (Suc n) (ucast b :: u32) = take_bit n (ucast b) XOR push_bit n (of_bool (bit b n))"
    using Suc.prems by (intro bit_word_eqI) (auto simp: bit_simps less_Suc_eq)
  then have "(crc_step ^^ n) (crc XOR take_bit (Suc n) (ucast b))
      = (crc_step ^^ n) (crc XOR take_bit n (ucast b)) XOR of_bool (bit b n)"
    using one by (simp add: crc_steps_linear xor.assoc)
  then show ?case using Suc by (simp add: crc_serial_def)
qed

lemma crc_serial_byte: "crc_serial crc (map (bit (b :: byte)) [0..<8]) = (crc_step ^^ 8) (crc XOR ucast b)"
proof -
  have "take_bit 8 (ucast b :: u32) = ucast b"
    by (rule bit_word_eqI) (auto simp: bit_simps dest: bit_imp_le_length)
  then show ?thesis using crc_serial_bits [of 8 crc b] by simp
qed

lemma compute_crc32_serial: "compute_crc32 data = crc_serial 0xFFFFFFFF (message_bits data) XOR 0xFFFFFFFF"
proof -
  have "foldl (\<lambda>crc b. drop_bit 8 crc XOR crc32_table (unat ((crc XOR ucast b) AND 0xFF))) crc data
      = crc_serial crc (message_bits data)" for crc
  proof (induction data arbitrary: crc)
    case (Cons b data)
    then show ?case
      using crc_serial_byte [of crc b] by (simp add: crc_byte message_bits_def crc_serial_def)
  qed (simp add: message_bits_def crc_serial_def)
  then show ?thesis by (simp add: compute_crc32_def)
qed

lemma xor_cancel: "a XOR c = b XOR c \<Longrightarrow> a = (b :: 'a :: len word)"
  by (metis xor.assoc xor.right_neutral xor_self_eq)

lemma crc_step_inj: "crc_step x = crc_step y \<Longrightarrow> x = y"
proof -
  assume eq: "crc_step x = crc_step y"
  have top: "bit (crc_step z) 31 = bit z 0" for z by (auto simp: crc_step_bit bit_simps dest: bit_imp_le_length)
  then have 0: "bit x 0 = bit y 0" using eq by metis
  have "drop_bit 1 x = drop_bit 1 y"
    using eq unfolding crc_step_bit 0 by (rule xor_cancel)
  then have "bit (drop_bit 1 x) n = bit (drop_bit 1 y) n" for n by (rule arg_cong)
  then have "bit x (Suc n) = bit y (Suc n)" for n by (simp add: bit_simps)
  then have "bit x n = bit y n" for n using 0 by (cases n) auto
  then show "x = y" by (intro bit_word_eqI)
qed

subsection \<open>What the builders write\<close>

definition stun_head :: "u16 \<Rightarrow> u16 \<Rightarrow> bytes \<Rightarrow> bytes" where
  "stun_head t l txn = write_u16 t @ write_u16 l @ write_u32 STUN_MAGIC_COOKIE @ txn"

definition attr_enc :: "u16 \<Rightarrow> bytes \<Rightarrow> bytes" where
  "attr_enc t v = write_u16 t @ write_u16 (word_of_nat (length v)) @ v @ replicate (4 * ((length v + 3) div 4) - length v) 0"

definition attrs_enc :: "(u16 \<times> bytes) list \<Rightarrow> bytes" where
  "attrs_enc as = concat (map (\<lambda>(t, v). attr_enc t v) as)"

definition attr_size :: "bytes \<Rightarrow> nat" where
  "attr_size v = 4 + 4 * ((length v + 3) div 4)"

lemma length_attr_enc [simp]: "length (attr_enc t v) = attr_size v"
  by (simp add: attr_enc_def attr_size_def)

lemma attrs_enc_simps [simp]:
  "attrs_enc [] = []" "attrs_enc ((t, v) # as) = attr_enc t v @ attrs_enc as" "attrs_enc (as @ bs) = attrs_enc as @ attrs_enc bs"
  by (simp_all add: attrs_enc_def)

lemma length_stun_head [simp]: "length txn = 12 \<Longrightarrow> length (stun_head t l txn) = 20"
  by (simp add: stun_head_def)

lemma write_header_head: "write_header t txn = stun_head t 0 txn"
  by (simp add: write_header_def stun_head_def)

lemma write_at_head [simp]:
  "write_at 2 (write_u16 l) (stun_head t l0 txn) = stun_head t l txn"
  "write_at 2 (write_u16 l) (stun_head t l0 txn @ r) = stun_head t l txn @ r"
  by (simp_all add: write_at_def stun_head_def)

lemma head_fields [simp]:
  "read_u16 (stun_head t l txn @ r) = t" "read_u16 (drop 2 (stun_head t l txn @ r)) = l"
  "read_u32 (drop 4 (stun_head t l txn @ r)) = STUN_MAGIC_COOKIE"
  "length txn = 12 \<Longrightarrow> get_arr 8 12 (stun_head t l txn @ r) = txn"
  by (simp_all add: stun_head_def)

lemma head_fields_drop [simp]:
  "length txn = 12 \<Longrightarrow> read_u16 (drop 2 (stun_head t l txn) @ r) = l"
  "length txn = 12 \<Longrightarrow> read_u32 (drop 4 (stun_head t l txn) @ r) = STUN_MAGIC_COOKIE"
  by (simp_all add: stun_head_def)

lemma append_attr_ok:
  assumes "length v \<le> 65532"
  shows "append_attr t v (word_of_nat (length v)) buf = Inr (buf @ attr_enc t v)"
proof -
  let ?n = "length v"
  have l: "unat (word_of_nat ?n :: u16) = ?n" using assms by (simp add: unat_of_nat)
  have "4 * ((?n + 3) div 4) \<le> 65532" using assms by presburger
  then have p: "unat (ucast (attr_pad (word_of_nat ?n)) :: u16) = 4 * ((?n + 3) div 4)"
    by (simp add: unsigned_ucast_eq attr_pad_unat l take_bit_nat_eq_self)
  moreover have "?n \<le> 4 * ((?n + 3) div 4)" by presburger
  ultimately show ?thesis
    by (simp add: append_attr_def Let_def word_less_nat_alt l attr_enc_def)
qed

lemma append_attr_at:
  "length v \<le> 65532 \<Longrightarrow> n = word_of_nat (length v) \<Longrightarrow> append_attr t v n buf = Inr (buf @ attr_enc t v)"
  by (simp add: append_attr_ok)

lemma append_attr_ints [simp]:
  "append_attr_u32 t v buf = Inr (buf @ attr_enc t (write_u32 v))"
  "append_attr_u64 t w buf = Inr (buf @ attr_enc t (write_u64 w))"
  by (simp_all add: append_attr_u32_def append_attr_u64_def append_attr_at)

lemma and_then_simps [simp]: "and_then (Inl e) f = Inl e" "and_then (Inr x) f = f x"
  by (simp_all add: and_then_def)

text \<open>SHA-1 digests have twenty bytes: all that is relied on of the HMAC.\<close>

definition hmac_sized :: "(bytes \<Rightarrow> string \<Rightarrow> bytes) \<Rightarrow> bool" where
  "hmac_sized hmac \<longleftrightarrow> (\<forall>m k. length (hmac m k) = 20)"

lemma hmac_length [simp]: "hmac_sized hmac \<Longrightarrow> length (hmac m k) = 20"
  by (simp add: hmac_sized_def)

text \<open>The message a builder signs, and the one it returns.\<close>

definition signed_part :: "u16 \<Rightarrow> bytes \<Rightarrow> (u16 \<times> bytes) list \<Rightarrow> bytes" where
  "signed_part t txn as = stun_head t (word_of_nat (length (attrs_enc as) + 24)) txn @ attrs_enc as"

definition sealed_attrs :: "(bytes \<Rightarrow> string \<Rightarrow> bytes) \<Rightarrow> string \<Rightarrow> u16 \<Rightarrow> bytes \<Rightarrow> (u16 \<times> bytes) list \<Rightarrow> (u16 \<times> bytes) list" where
  "sealed_attrs hmac pw t txn as =
     (let as1 = as @ [(STUN_ATTR_MESSAGE_INTEGRITY, hmac (signed_part t txn as) pw)];
          fp = stun_fingerprint (stun_head t (word_of_nat (length (attrs_enc as1) + 8)) txn @ attrs_enc as1)
      in as1 @ [(STUN_ATTR_FINGERPRINT, write_u32 fp)])"

definition stun_message :: "u16 \<Rightarrow> bytes \<Rightarrow> (u16 \<times> bytes) list \<Rightarrow> bytes" where
  "stun_message t txn as = stun_head t (word_of_nat (length (attrs_enc as))) txn @ attrs_enc as"

lemma integrity_seals:
  assumes "hmac_sized hmac" "length txn = 12"
  shows "append_integrity_and_fingerprint hmac pw (stun_head t l txn @ attrs_enc as)
    = Inr (stun_message t txn (sealed_attrs hmac pw t txn as))"
  using assms
  by (simp add: append_integrity_and_fingerprint_def Let_def stun_consts append_attr_at signed_part_def sealed_attrs_def
      stun_message_def update_msg_length_def attr_size_def add.commute)

definition request_attrs :: "string \<Rightarrow> u32 \<Rightarrow> bool \<Rightarrow> bool \<Rightarrow> u64 \<Rightarrow> (u16 \<times> bytes) list" where
  "request_attrs username priority use_candidate controlling tie_breaker =
     [(STUN_ATTR_USERNAME, bytes_of_string username), (STUN_ATTR_PRIORITY, write_u32 priority),
      (if controlling then STUN_ATTR_ICE_CONTROLLING else STUN_ATTR_ICE_CONTROLLED, write_u64 tie_breaker)]
     @ (if use_candidate then [(STUN_ATTR_USE_CANDIDATE, [])] else [])"

lemma build_check_request_seals:
  assumes "hmac_sized hmac" "length txn = 12" "length username \<le> 65532"
  shows "build_check_request hmac txn username pw prio uc ctl tb
    = Inr (stun_message STUN_BINDING_REQUEST txn
        (sealed_attrs hmac pw STUN_BINDING_REQUEST txn (request_attrs username prio uc ctl tb)))"
  using assms integrity_seals [OF assms(1,2), of pw STUN_BINDING_REQUEST 0 "request_attrs username prio uc ctl tb"]
  by (simp add: build_check_request_def write_header_head append_attr_at request_attrs_def split: if_splits)

definition mapped_attr :: "bytes \<Rightarrow> stun_address \<Rightarrow> u16 \<times> bytes" where
  "mapped_attr txn a = (STUN_ATTR_XOR_MAPPED_ADDRESS,
     case sa_ip a of V4 v4 \<Rightarrow> [0, 0x01] @ write_u16 (xor_port (sa_port a)) @ write_u32 (read_u32 v4 XOR STUN_MAGIC_COOKIE)
     | V6 v6 \<Rightarrow> [0, 0x02] @ write_u16 (xor_port (sa_port a)) @ xor_bytes v6 (xor_key txn))"

lemma length_xor_bytes [simp]: "length (xor_bytes xs ys) = min (length xs) (length ys)"
  by (simp add: xor_bytes_def)

lemma build_check_response_seals:
  assumes "hmac_sized hmac" "length txn = 12" "ip_wf (sa_ip a)"
  shows "build_check_response hmac txn a pw
    = Inr (stun_message STUN_BINDING_RESPONSE txn
        (sealed_attrs hmac pw STUN_BINDING_RESPONSE txn [mapped_attr txn a]))"
  using assms integrity_seals [OF assms(1,2), of pw STUN_BINDING_RESPONSE 0 "[mapped_attr txn a]"]
  by (auto simp: build_check_response_def write_header_head append_attr_at mapped_attr_def ip_wf_def xor_key_def Let_def
      split: ip_address.splits)

subsection \<open>What the parsers see\<close>

fun attr_fold :: "(nat \<Rightarrow> u16 \<Rightarrow> u16 \<Rightarrow> bytes \<Rightarrow> 'a \<Rightarrow> 'a) \<Rightarrow> nat \<Rightarrow> (u16 \<times> bytes) list \<Rightarrow> bytes \<Rightarrow> 'a \<Rightarrow> 'a" where
  "attr_fold f pos [] post acc = acc"
| "attr_fold f pos ((t, v) # as) post acc = attr_fold f (pos + attr_size v) as post
     (f pos t (word_of_nat (length v)) (v @ replicate (4 * ((length v + 3) div 4) - length v) 0 @ attrs_enc as @ post) acc)"

lemma attr_loop_stop: "stop < pos + 4 \<Longrightarrow> attr_loop f data pos stop acc = acc"
  by (simp add: attr_loop.simps)

lemma attr_loop_step:
  assumes "length v \<le> 65532" "length pre + attr_size v \<le> stop"
  shows "attr_loop f (pre @ attr_enc t v @ post) (length pre) stop acc =
    attr_loop f (pre @ attr_enc t v @ post) (length pre + attr_size v) stop
      (f (length pre) t (word_of_nat (length v)) (v @ replicate (4 * ((length v + 3) div 4) - length v) 0 @ post) acc)"
proof -
  have l: "unat (word_of_nat (length v) :: u16) = length v" using assms(1) by (simp add: unat_of_nat)
  show ?thesis
    using assms(2) by (subst attr_loop.simps) (simp add: Let_def attr_enc_def attr_pad_unat l attr_size_def add.assoc)
qed

lemma attr_loop_fold:
  assumes "\<forall>(t, v) \<in> set as. length v \<le> 65532"
  shows "attr_loop f (pre @ attrs_enc as @ post) (length pre) (length pre + length (attrs_enc as)) acc
    = attr_fold f (length pre) as post acc"
  using assms
proof (induction as arbitrary: pre acc)
  case Nil
  show ?case by (simp add: attr_loop_stop)
next
  case (Cons a as)
  obtain t v where a: "a = (t, v)" by fastforce
  have lv: "length v \<le> 65532" using Cons.prems a by simp
  have st: "length pre + attr_size v \<le> length pre + length (attrs_enc (a # as))" using a by simp
  show ?case
    using attr_loop_step [OF lv st, of f t "attrs_enc as @ post" acc] a
      Cons.IH [of "pre @ attr_enc t v"] Cons.prems by (simp add: add.assoc)
qed

lemma parse_header_message:
  assumes "length txn = 12" "length (attrs_enc as) \<le> 65535"
  shows "parse_header t (stun_message t txn as) = Some (20 + length (attrs_enc as))"
  using assms by (simp add: parse_header_def stun_message_def stun_consts unat_of_nat Let_def)

lemma stun_message_is_stun:
  assumes "length txn = 12" "t AND 0xC000 = 0"
  shows "is_stun_packet (stun_message t txn as)"
proof -
  have "(ucast (drop_bit 8 t) :: byte) AND 0xC0 = ucast (drop_bit 8 (t AND 0xC000))"
    by (rule bit_word_eqI) (auto simp: bit_simps)
  then have "get_u8 0 (stun_message t txn as) AND 0xC0 = 0"
    using assms(2) by (simp add: stun_message_def stun_head_def write_u16_def)
  then show ?thesis using assms(1) by (simp add: is_stun_packet_def stun_consts) (simp add: stun_message_def)
qed

lemma message_loop:
  assumes "length txn = 12" "\<forall>(t, v) \<in> set as. length v \<le> 65532"
  shows "attr_loop f (stun_message t txn as) 20 (20 + length (attrs_enc as)) acc = attr_fold f 20 as [] acc"
  using attr_loop_fold [OF assms(2), of f "stun_head t (word_of_nat (length (attrs_enc as))) txn" "[]" acc] assms(1)
  by (simp add: stun_message_def)

lemma message_txn: "length txn = 12 \<Longrightarrow> get_arr 8 12 (stun_message t txn as) = txn"
  by (simp add: stun_message_def)

lemma parse_request_message:
  assumes "length txn = 12" "\<forall>(t, v) \<in> set as. length v \<le> 65532" "length (attrs_enc as) \<le> 65535"
  shows "parse_binding_request hmac (stun_message STUN_BINDING_REQUEST txn as) beyond pw =
    (let (req, mi_offset) = attr_fold request_attr 20 as []
           (\<lparr> rq_txn_id = txn, rq_priority = 0, rq_use_candidate = False, rq_username = [] \<rparr>, 0)
     in if mi_offset > 0 \<and> pw \<noteq> []
        then and_then (check_integrity hmac pw (stun_message STUN_BINDING_REQUEST txn as) beyond mi_offset)
               (\<lambda>ok. Inr (if ok then Some req else None))
        else Inr (Some req))"
  using assms by (simp add: parse_binding_request_def parse_header_message STUN_HEADER_SIZE_def message_loop message_txn)

lemma request_fold:
  assumes "length username \<le> 65532"
  shows "attr_fold request_attr 20 (sealed_attrs hmac pw t txn (request_attrs username prio uc ctl tb)) post
      (\<lparr> rq_txn_id = x, rq_priority = 0, rq_use_candidate = False, rq_username = [] \<rparr>, 0)
    = (\<lparr> rq_txn_id = x, rq_priority = prio, rq_use_candidate = uc, rq_username = username \<rparr>,
       20 + length (attrs_enc (request_attrs username prio uc ctl tb)))"
  using assms by (simp add: sealed_attrs_def request_attrs_def Let_def request_attr_def stun_consts unat_of_nat)

lemma request_check:
  assumes "hmac_sized hmac" "length txn = 12"
  shows "check_integrity hmac pw' (stun_message t txn (sealed_attrs hmac pw t txn as)) beyond (20 + length (attrs_enc as))
    = Inr (hmac (signed_part t txn as) pw' = hmac (signed_part t txn as) pw)"
  using assms
  by (simp add: check_integrity_def Let_def stun_consts stun_message_def sealed_attrs_def signed_part_def attr_enc_def attr_size_def
      add.commute [of 24])

lemma length_sealed:
  "hmac_sized hmac \<Longrightarrow> length (attrs_enc (sealed_attrs hmac pw t txn as)) = length (attrs_enc as) + 32"
  by (simp add: sealed_attrs_def Let_def attr_size_def)

lemma length_request_attrs: "length (attrs_enc (request_attrs u p uc ctl tb)) \<le> length u + 32"
proof -
  have "4 * ((n + 3) div 4) \<le> n + 3" for n :: nat by simp
  from this [of "length u"] show ?thesis by (simp add: request_attrs_def attr_size_def del: times_div_less_eq_dividend)
qed

lemma response_fold:
  assumes "ip_wf (sa_ip a)" "length txn = 12"
  shows "attr_fold response_attr 20 (sealed_attrs hmac pw t txn [mapped_attr txn a]) post
      (\<lparr> sr_mapped = no_address, sr_txn_id = txn \<rparr>, False) = (\<lparr> sr_mapped = a, sr_txn_id = txn \<rparr>, True)"
proof -
  have port: "xor_port (xor_port p) = p" for p by (simp add: xor_port_def xor.assoc)
  have v4: "write_u32 (read_u32 b XOR STUN_MAGIC_COOKIE XOR STUN_MAGIC_COOKIE) = b" if "length b = 4" for b
    using write_read_u32 [OF that, of "[]"] by (simp add: xor.assoc)
  have v6: "xor_bytes (xor_bytes b k) k = b" if "length b = length k" for b k
    using that by (induction b k rule: list_induct2) (simp_all add: xor_bytes_def xor.assoc)
  have rest: "attr_fold response_attr pos [(STUN_ATTR_MESSAGE_INTEGRITY, x), (STUN_ATTR_FINGERPRINT, y)] post acc = acc"
    for pos x y acc by (simp add: response_attr_def stun_consts Let_def split: prod.splits)
  obtain ip p where a: "a = \<lparr> sa_ip = ip, sa_port = p \<rparr>" by (cases a)
  show ?thesis
  proof (cases ip)
    case (V4 b)
    then show ?thesis using assms a port v4 rest
      by (simp add: sealed_attrs_def Let_def mapped_attr_def response_attr_def stun_consts ip_wf_def xor.assoc no_address_def
          del: attr_fold.simps(1))
  next
    case (V6 b)
    then have "length b = 16" "length (xor_key txn) = 16" using assms a by (simp_all add: ip_wf_def xor_key_def)
    then show ?thesis using V6 a port v6 rest
      by (simp add: sealed_attrs_def Let_def mapped_attr_def response_attr_def stun_consts no_address_def del: attr_fold.simps(1))
  qed
qed

lemma parse_response_message:
  assumes "hmac_sized hmac" "length txn = 12" "ip_wf (sa_ip a)"
  shows "parse_binding_response (stun_message STUN_BINDING_RESPONSE txn
      (sealed_attrs hmac pw STUN_BINDING_RESPONSE txn [mapped_attr txn a])) = Some \<lparr> sr_mapped = a, sr_txn_id = txn \<rparr>"
proof -
  let ?ss = "sealed_attrs hmac pw STUN_BINDING_RESPONSE txn [mapped_attr txn a]"
  have l: "length (snd (mapped_attr txn a)) \<le> 20"
    using assms by (auto simp: mapped_attr_def ip_wf_def split: ip_address.splits)
  then have lv: "\<forall>(t, v) \<in> set ?ss. length v \<le> 65532"
    using assms by (cases "mapped_attr txn a") (auto simp: sealed_attrs_def Let_def)
  have "length (attrs_enc [mapped_attr txn a]) \<le> 27"
    using l by (cases "mapped_attr txn a") (simp add: attr_size_def)
  then have lr: "length (attrs_enc ?ss) \<le> 65535" using assms by (simp add: length_sealed)
  then show ?thesis
    using assms lr lv
    by (simp add: parse_binding_response_def parse_header_message STUN_HEADER_SIZE_def message_loop message_txn response_fold)
qed

lemma stun_request_read:
  fixes txn :: bytes
  defines "t \<equiv> STUN_BINDING_REQUEST"
  assumes "hmac_sized hmac" "length txn = 12" "length username \<le> 65000"
  shows "parse_binding_request hmac (stun_message t txn (sealed_attrs hmac pw t txn (request_attrs username prio uc ctl tb))) beyond pw' =
    Inr (if pw' = [] \<or> hmac (signed_part t txn (request_attrs username prio uc ctl tb)) pw'
            = hmac (signed_part t txn (request_attrs username prio uc ctl tb)) pw
         then Some \<lparr> rq_txn_id = txn, rq_priority = prio, rq_use_candidate = uc, rq_username = username \<rparr> else None)"
proof -
  let ?as = "request_attrs username prio uc ctl tb"
  let ?ss = "sealed_attrs hmac pw t txn ?as"
  have lr: "length (attrs_enc ?ss) \<le> 65535"
    using length_request_attrs [of username prio uc ctl tb] assms by (simp add: length_sealed)
  have lv: "\<forall>(t, v) \<in> set ?ss. length v \<le> 65532"
    using assms by (auto simp: sealed_attrs_def request_attrs_def Let_def)
  show ?thesis
    using assms lr lv by (simp add: t_def parse_request_message request_fold request_check)
qed

subsection \<open>Properties\<close>

text \<open>
  The table-driven checksum of the FINGERPRINT attribute is the CRC-32 of the
  message: the result of the bit-serial shift register with the reflected polynomial 0xEDB88320,
  complemented and masked with 0x5354554E.
\<close>

theorem fingerprint_is_crc32:
  "stun_fingerprint data = (crc_serial 0xFFFFFFFF (message_bits data) XOR 0xFFFFFFFF) XOR 0x5354554E"
  by (simp add: stun_fingerprint_def compute_crc32_serial)

text \<open>
  Property C30. A connectivity check built by one peer is recognised as STUN and read back by the
  other with the same transaction id, user name, priority and USE-CANDIDATE flag, exactly when
  the receiver's password gives the same HMAC over the signed part (or is empty, when nothing is
  checked).
\<close>

theorem stun_request_roundtrip:
  assumes "hmac_sized hmac" "length txn = 12" "length username \<le> 65000"
  shows "\<exists>pkt signed. build_check_request hmac txn username pw prio uc ctl tb = Inr pkt \<and> is_stun_packet pkt
    \<and> (\<forall>pw' beyond. parse_binding_request hmac pkt beyond pw' =
        Inr (if pw' = [] \<or> hmac signed pw' = hmac signed pw
             then Some \<lparr> rq_txn_id = txn, rq_priority = prio, rq_use_candidate = uc, rq_username = username \<rparr> else None))"
proof -
  have "is_stun_packet (stun_message STUN_BINDING_REQUEST txn as)" for as
    by (rule stun_message_is_stun) (simp_all add: assms stun_consts)
  moreover have "length username \<le> 65532" using assms(3) by simp
  ultimately show ?thesis
    using stun_request_read [OF assms] by (simp add: build_check_request_seals [OF assms(1,2)]) blast
qed

definition toy_hmac :: "bytes \<Rightarrow> string \<Rightarrow> bytes" where
  "toy_hmac m k = pad_to 20 (bytes_of_string k @ m)"

lemma toy_hmac_sized [simp]: "hmac_sized toy_hmac"
  by (simp add: hmac_sized_def toy_hmac_def)

theorem stun_request_roundtrip_witness:
  "\<exists>pkt. build_check_request toy_hmac (replicate 12 7) ''ab:cd'' ''secret'' 5 True True 9 = Inr pkt
     \<and> parse_binding_request toy_hmac pkt [] ''secret'' = Inr (Some \<lparr> rq_txn_id = replicate 12 7, rq_priority = 5,
          rq_use_candidate = True, rq_username = ''ab:cd'' \<rparr>)"
  using stun_request_roundtrip [OF toy_hmac_sized, of "replicate 12 7" "''ab:cd''" "''secret''" 5 True True 9]
  by fastforce

text \<open>
  A response built for a peer's address is read back with that address, IPv4 or
  IPv6, and the transaction id: the XOR masking of port and address is undone.
\<close>

theorem stun_response_roundtrip:
  assumes "hmac_sized hmac" "length txn = 12" "ip_wf (sa_ip a)"
  shows "\<exists>pkt. build_check_response hmac txn a pw = Inr pkt \<and> is_stun_packet pkt
    \<and> parse_binding_response pkt = Some \<lparr> sr_mapped = a, sr_txn_id = txn \<rparr>"
  using build_check_response_seals [OF assms] parse_response_message [OF assms]
    stun_message_is_stun [OF assms(2), of STUN_BINDING_RESPONSE] by (simp add: STUN_BINDING_RESPONSE_def)

theorem stun_response_roundtrip_witness:
  "\<exists>pkt. build_check_response toy_hmac (replicate 12 7) \<lparr> sa_ip = V4 [192, 0, 2, 1], sa_port = 3478 \<rparr> ''pw'' = Inr pkt
     \<and> parse_binding_response pkt = Some \<lparr> sr_mapped = \<lparr> sa_ip = V4 [192, 0, 2, 1], sa_port = 3478 \<rparr>, sr_txn_id = replicate 12 7 \<rparr>"
  using stun_response_roundtrip [OF toy_hmac_sized, of "replicate 12 7" "\<lparr> sa_ip = V4 [192, 0, 2, 1], sa_port = 3478 \<rparr>" "''pw''"]
  by (auto simp: ip_wf_def)

text \<open>
  The integrity check can be left out by the sender: a request without a
  MESSAGE-INTEGRITY attribute is accepted whatever the password, and one with an empty attribute
  at its end is compared with the twenty bytes that happen to follow the packet in memory.
\<close>

theorem unsigned_check_accepted:
  assumes "length txn = 12"
  shows "parse_binding_request hmac (stun_message STUN_BINDING_REQUEST txn [(STUN_ATTR_USE_CANDIDATE, [])]) beyond pw
      = Inr (Some \<lparr> rq_txn_id = txn, rq_priority = 0, rq_use_candidate = True, rq_username = [] \<rparr>)
    \<and> parse_binding_request hmac (stun_message STUN_BINDING_REQUEST txn [(STUN_ATTR_MESSAGE_INTEGRITY, [])]) beyond (ch # pw)
      = (if length beyond < 20 then Inl Read_past_end
         else Inr (if hmac (signed_part STUN_BINDING_REQUEST txn []) (ch # pw) = take 20 beyond
           then Some \<lparr> rq_txn_id = txn, rq_priority = 0, rq_use_candidate = False, rq_username = [] \<rparr> else None))"
proof -
  let ?m = "stun_message STUN_BINDING_REQUEST txn [(STUN_ATTR_MESSAGE_INTEGRITY, [])]"
  have m: "length ?m = 24" using assms by (simp add: stun_message_def attr_size_def)
  have t: "take 20 ?m = stun_head STUN_BINDING_REQUEST 4 txn" using assms by (simp add: stun_message_def attr_size_def)
  have c: "check_integrity hmac k ?m beyond 20 = (if length beyond < 20 then Inl Read_past_end
      else Inr (hmac (signed_part STUN_BINDING_REQUEST txn []) k = take 20 beyond))" for k
    using m t by (simp add: check_integrity_def STUN_HMAC_SIZE_def STUN_HEADER_SIZE_def Let_def signed_part_def get_arr_0)
  have f: "attr_fold request_attr 20 [(STUN_ATTR_USE_CANDIDATE, [])] [] (q, 0) = (q\<lparr> rq_use_candidate := True \<rparr>, 0)"
    "attr_fold request_attr 20 [(STUN_ATTR_MESSAGE_INTEGRITY, [])] [] (q, 0) = (q, 20)" for q
    by (simp_all add: request_attr_def stun_consts)
  show ?thesis
    using assms by (simp add: parse_request_message attr_size_def f c del: attr_fold.simps)
qed

theorem unsigned_check_accepted_witness:
  "parse_binding_request toy_hmac (stun_message STUN_BINDING_REQUEST (replicate 12 1) [(STUN_ATTR_USE_CANDIDATE, [])]) [] ''secret''
     = Inr (Some \<lparr> rq_txn_id = replicate 12 1, rq_priority = 0, rq_use_candidate = True, rq_username = [] \<rparr>)"
  using unsigned_check_accepted [of "replicate 12 1" toy_hmac "[]" "''secret''"] by simp

end
