(* ===== verification/Stun_Client.thy ===== *)
theory Stun_Client
  imports Stun "HOL-Library.Multiset"
begin

section \<open>The STUN client\<close>

text \<open>
  \<open>StunClient\<close> of \<open>stun.cpp\<close>: one outstanding query for the address a STUN server sees,
  retransmitted on a timer. Boost.Asio is a parameter: a name resolver, the success of each
  \<open>send_to\<close>, the random transaction ids. A timer is the wait it may have pending and the number of
  expired handlers already queued: \<open>cancel\<close> and \<open>expires_after\<close> drop the pending wait but
  cannot take back a queued handler. The operations return the datagrams sent and the callback
  calls made; a callback is named by a value of type \<open>'k\<close>. A callback runs after the operation that
  calls it, in the code inside of it. This differs only when \<open>resolve\<close> interrupts a query whose callback
  calls \<open>resolve\<close> again; the ICE session, the one owner of a client, calls \<open>resolve\<close> when no query is
  under way.
\<close>

type_synonym udp_endpoint = "ip_address \<times> u16"

record asio_env =
  w_hmac :: "bytes \<Rightarrow> string \<Rightarrow> bytes"
  w_rand :: "nat \<Rightarrow> nat \<Rightarrow> bytes"
  w_resolve :: "string \<Rightarrow> u16 \<Rightarrow> udp_endpoint option"
  w_send_ok :: "udp_endpoint \<Rightarrow> bytes \<Rightarrow> bool"
  w_probe :: "udp_endpoint \<Rightarrow> ip_address option"
  w_local_port :: u16

subsection \<open>Timers\<close>

record timer =
  t_pending :: bool
  t_queued :: nat

definition idle_timer :: timer where "idle_timer = \<lparr> t_pending = False, t_queued = 0 \<rparr>"
definition timer_start :: "timer \<Rightarrow> timer" where "timer_start t = t\<lparr> t_pending := True \<rparr>"
definition timer_cancel :: "timer \<Rightarrow> timer" where "timer_cancel t = t\<lparr> t_pending := False \<rparr>"
definition timer_expire :: "timer \<Rightarrow> timer" where
  "timer_expire t = (if t_pending t then t\<lparr> t_pending := False, t_queued := t_queued t + 1 \<rparr> else t)"
definition timer_take :: "timer \<Rightarrow> timer" where "timer_take t = t\<lparr> t_queued := t_queued t - 1 \<rparr>"

subsection \<open>The client\<close>

definition MAX_RETRIES :: nat where "MAX_RETRIES = 3"

record 'k stun_client =
  sc_timer :: timer
  sc_pending_txn :: bytes
  sc_pending_cb :: "'k option"
  sc_pending_sock :: bool
  sc_stun_ep :: udp_endpoint
  sc_retries :: nat
  sc_active :: bool

type_synonym sends = "(udp_endpoint \<times> bytes) list"
type_synonym 'k calls = "('k \<times> stun_address option) list"

definition fresh_client :: "'k stun_client" where
  "fresh_client = \<lparr> sc_timer = idle_timer, sc_pending_txn = replicate 12 0, sc_pending_cb = None, sc_pending_sock = False,
     sc_stun_ep = (V4 [0, 0, 0, 0], 0), sc_retries = 0, sc_active = False \<rparr>"

definition sc_finish :: "stun_address option \<Rightarrow> 'k stun_client \<Rightarrow> 'k stun_client \<times> 'k calls" where
  "sc_finish result c =
     (c\<lparr> sc_active := False, sc_pending_sock := False, sc_pending_cb := None \<rparr>,
      case sc_pending_cb c of Some k \<Rightarrow> [(k, result)] | None \<Rightarrow> [])"

definition schedule_retry :: "'k stun_client \<Rightarrow> 'k stun_client" where
  "schedule_retry c = c\<lparr> sc_timer := timer_start (sc_timer c) \<rparr>"

definition send_request :: "asio_env \<Rightarrow> bytes \<Rightarrow> 'k stun_client \<Rightarrow> 'k stun_client \<times> sends \<times> 'k calls" where
  "send_request W txn c =
     (let c1 = c\<lparr> sc_pending_txn := txn \<rparr>; pkt = build_binding_request txn
      in if \<not> w_send_ok W (sc_stun_ep c1) pkt
         then let (c2, calls) = sc_finish None c1 in (c2, [], calls)
         else (schedule_retry c1, [(sc_stun_ep c1, pkt)], []))"

definition resolve :: "asio_env \<Rightarrow> bytes \<Rightarrow> string \<Rightarrow> u16 \<Rightarrow> 'k \<Rightarrow> 'k stun_client \<Rightarrow> 'k stun_client \<times> sends \<times> 'k calls" where
  "resolve W txn stun_server stun_port cb c =
     (let (c0, calls0) = (if sc_active c then sc_finish None c else (c, []));
          c1 = c0\<lparr> sc_pending_cb := Some cb, sc_pending_sock := True, sc_retries := 0, sc_active := True \<rparr>
      in case w_resolve W stun_server stun_port of
           None \<Rightarrow> let (c2, calls) = sc_finish None c1 in (c2, [], calls0 @ calls)
         | Some ep \<Rightarrow> let (c2, sent, calls) = send_request W txn (c1\<lparr> sc_stun_ep := ep \<rparr>) in (c2, sent, calls0 @ calls))"

definition feed :: "bytes \<Rightarrow> 'k stun_client \<Rightarrow> bool \<times> 'k stun_client \<times> 'k calls" where
  "feed data c =
     (if \<not> sc_active c then (False, c, [])
      else if \<not> is_stun_packet data then (False, c, [])
      else case parse_binding_response data of
             None \<Rightarrow> (False, c, [])
           | Some res \<Rightarrow>
               if sr_txn_id res \<noteq> sc_pending_txn c then (False, c, [])
               else (True, sc_finish (Some (sr_mapped res)) (c\<lparr> sc_timer := timer_cancel (sc_timer c) \<rparr>)))"

definition sc_cancel :: "'k stun_client \<Rightarrow> 'k stun_client \<times> 'k calls" where
  "sc_cancel c = (if sc_active c then sc_finish None (c\<lparr> sc_timer := timer_cancel (sc_timer c) \<rparr>) else (c, []))"

text \<open>The handler of the retry timer, when it runs without an error code.\<close>

definition on_retry :: "asio_env \<Rightarrow> bytes \<Rightarrow> 'k stun_client \<Rightarrow> 'k stun_client \<times> sends \<times> 'k calls" where
  "on_retry W txn c =
     (if \<not> sc_active c then (c, [], [])
      else let c1 = c\<lparr> sc_retries := sc_retries c + 1 \<rparr>
           in if sc_retries c1 \<ge> MAX_RETRIES
              then let (c2, calls) = sc_finish None c1 in (c2, [], calls)
              else let c2 = c1\<lparr> sc_pending_txn := txn \<rparr>; pkt = build_binding_request txn
                   in (schedule_retry c2, if w_send_ok W (sc_stun_ep c2) pkt then [(sc_stun_ep c2, pkt)] else [], []))"

subsection \<open>Runs of the client\<close>

text \<open>
  One call of the owner, one datagram or one timer handler at a time. \<open>started\<close> are the callbacks
  handed to \<open>resolve\<close>, \<open>made\<close> the calls made so far.
\<close>

inductive client_run :: "asio_env \<Rightarrow> 'k stun_client \<Rightarrow> 'k list \<Rightarrow> 'k calls \<Rightarrow> bool" for W where
  start: "client_run W fresh_client [] []"
| resolve: "client_run W c ks made \<Longrightarrow> resolve W txn host port k c = (c', sent, calls)
    \<Longrightarrow> client_run W c' (k # ks) (made @ calls)"
| feed: "client_run W c ks made \<Longrightarrow> feed data c = (b, c', calls) \<Longrightarrow> client_run W c' ks (made @ calls)"
| cancel: "client_run W c ks made \<Longrightarrow> sc_cancel c = (c', calls) \<Longrightarrow> client_run W c' ks (made @ calls)"
| expire: "client_run W c ks made \<Longrightarrow> client_run W (c\<lparr> sc_timer := timer_expire (sc_timer c) \<rparr>) ks made"
| retry: "client_run W c ks made \<Longrightarrow> 0 < t_queued (sc_timer c)
    \<Longrightarrow> on_retry W txn (c\<lparr> sc_timer := timer_take (sc_timer c) \<rparr>) = (c', sent, calls)
    \<Longrightarrow> client_run W c' ks (made @ calls)"

definition pending_list :: "'k stun_client \<Rightarrow> 'k list" where
  "pending_list c = (case sc_pending_cb c of Some k \<Rightarrow> [k] | None \<Rightarrow> [])"

definition client_ok :: "'k stun_client \<Rightarrow> bool" where
  "client_ok c \<longleftrightarrow> (sc_active c \<longleftrightarrow> sc_pending_cb c \<noteq> None) \<and> (sc_active c \<longleftrightarrow> sc_pending_sock c)
     \<and> (sc_active c \<longrightarrow> sc_retries c < MAX_RETRIES \<and> (t_pending (sc_timer c) \<or> 0 < t_queued (sc_timer c)))"

subsection \<open>Every query is answered once\<close>

lemmas client_defs = client_ok_def pending_list_def sc_finish_def Let_def timer_start_def timer_cancel_def
  timer_expire_def timer_take_def schedule_retry_def MAX_RETRIES_def

lemma pending_timer [simp]: "pending_list (c\<lparr> sc_timer := t \<rparr>) = pending_list c"
  by (simp add: pending_list_def)

lemma finish_ok: "sc_finish r c = (c', calls) \<Longrightarrow>
    client_ok c' \<and> mset (map fst calls) + mset (pending_list c') = mset (pending_list c)"
  by (auto simp: client_defs split: option.splits)

lemma send_request_ok:
  assumes "send_request W txn c = (c', sent, calls)" "sc_active c" "sc_pending_cb c \<noteq> None" "sc_pending_sock c" "sc_retries c < MAX_RETRIES"
  shows "client_ok c' \<and> mset (map fst calls) + mset (pending_list c') = mset (pending_list c)"
  using assms by (auto simp: send_request_def client_defs split: if_splits)

lemma resolve_ok:
  assumes "resolve W txn host port k c = (c', sent, calls)" "client_ok c"
  shows "client_ok c' \<and> mset (map fst calls) + mset (pending_list c') = add_mset k (mset (pending_list c))"
proof -
  obtain c0 calls0 where c0: "(if sc_active c then sc_finish None c else (c, [])) = (c0, calls0)" by fastforce
  have p0: "mset (map fst calls0) = mset (pending_list c)"
    using c0 assms(2) by (auto simp: client_defs split: if_splits option.splits)
  define c1 where "c1 = c0\<lparr> sc_pending_cb := Some k, sc_pending_sock := True, sc_retries := 0, sc_active := True \<rparr>"
  have p1: "mset (pending_list c1) = {#k#}" by (simp add: c1_def pending_list_def)
  show ?thesis
  proof (cases "w_resolve W host port")
    case None
    then obtain calls1 where f: "sc_finish None c1 = (c', calls1)" and calls: "calls = calls0 @ calls1"
      using assms(1) c0 by (auto simp: resolve_def c1_def split: prod.splits)
    show ?thesis using finish_ok [OF f] p0 p1 calls by simp
  next
    case (Some ep)
    then obtain calls1 where f: "send_request W txn (c1\<lparr> sc_stun_ep := ep \<rparr>) = (c', sent, calls1)" and calls: "calls = calls0 @ calls1"
      using assms(1) c0 by (auto simp: resolve_def c1_def split: prod.splits)
    have "client_ok c' \<and> mset (map fst calls1) + mset (pending_list c') = {#k#}"
      using send_request_ok [OF f] by (simp add: c1_def pending_list_def MAX_RETRIES_def)
    then show ?thesis using p0 calls by simp
  qed
qed

lemma feed_ok:
  assumes "feed data c = (b, c', calls)" "client_ok c"
  shows "client_ok c' \<and> mset (map fst calls) + mset (pending_list c') = mset (pending_list c)"
  using assms finish_ok [of _ "c\<lparr> sc_timer := timer_cancel (sc_timer c) \<rparr>" c' calls]
  by (auto simp: feed_def split: if_splits option.splits)

lemma cancel_ok:
  assumes "sc_cancel c = (c', calls)" "client_ok c"
  shows "client_ok c' \<and> mset (map fst calls) + mset (pending_list c') = mset (pending_list c)"
  using assms finish_ok [of _ "c\<lparr> sc_timer := timer_cancel (sc_timer c) \<rparr>" c' calls]
  by (auto simp: sc_cancel_def split: if_splits)

lemma on_retry_ok:
  assumes "on_retry W txn (c\<lparr> sc_timer := timer_take (sc_timer c) \<rparr>) = (c', sent, calls)" "client_ok c"
  shows "client_ok c' \<and> mset (map fst calls) + mset (pending_list c') = mset (pending_list c)"
  using assms by (auto simp: on_retry_def client_defs split: if_splits option.splits)

lemma expire_ok: "client_ok c \<Longrightarrow> client_ok (c\<lparr> sc_timer := timer_expire (sc_timer c) \<rparr>)"
  by (auto simp: client_defs)

lemma client_run_balance:
  "client_run W c ks made \<Longrightarrow> client_ok c \<and> mset ks = mset (map fst made) + mset (pending_list c)"
proof (induction rule: client_run.induct)
  case start
  show ?case by (simp add: fresh_client_def client_defs)
next
  case (resolve c ks made txn host port k c' sent calls)
  then show ?case using resolve_ok [OF resolve(2)] by (simp add: add.assoc)
next
  case (feed c ks made data b c' calls)
  then show ?case using feed_ok [OF feed(2)] by (simp add: add.assoc)
next
  case (cancel c ks made c' calls)
  then show ?case using cancel_ok [OF cancel(2)] by (simp add: add.assoc)
next
  case (expire c ks made)
  then show ?case using expire_ok by (auto simp: pending_list_def)
next
  case (retry c ks made txn c' sent calls)
  then show ?case using on_retry_ok [OF retry(3)] by (simp add: add.assoc)
qed

text \<open>A stretch of time in which only the retry timer runs, with the ids drawn on each run.\<close>

fun ticks :: "asio_env \<Rightarrow> bytes list \<Rightarrow> 'k stun_client \<Rightarrow> 'k stun_client \<times> 'k calls" where
  "ticks W [] c = (c, [])"
| "ticks W (txn # txns) c =
     (let (c1, _, calls) = on_retry W txn (c\<lparr> sc_timer := timer_take (timer_expire (sc_timer c)) \<rparr>);
          (c2, calls2) = ticks W txns c1
      in (c2, calls @ calls2))"

lemma ticks_end:
  assumes "sc_active c" "sc_pending_cb c = Some k" "sc_retries c < MAX_RETRIES" "length txns = MAX_RETRIES - sc_retries c"
  shows "\<exists>c'. ticks W txns c = (c', [(k, None)]) \<and> \<not> sc_active c' \<and> sc_pending_cb c' = None"
  using assms
proof (induction txns arbitrary: c)
  case Nil
  then show ?case by simp
next
  case (Cons txn txns)
  show ?case
  proof (cases "sc_retries c + 1 \<ge> MAX_RETRIES")
    case True
    with Cons.prems have "txns = []" by (cases txns) auto
    with True Cons.prems show ?thesis by (simp add: on_retry_def sc_finish_def)
  next
    case False
    define c1 where "c1 = fst (on_retry W txn (c\<lparr> sc_timer := timer_take (timer_expire (sc_timer c)) \<rparr>))"
    have c1: "sc_active c1" "sc_pending_cb c1 = Some k" "sc_retries c1 = sc_retries c + 1"
      "\<exists>sent. on_retry W txn (c\<lparr> sc_timer := timer_take (timer_expire (sc_timer c)) \<rparr>) = (c1, sent, [])"
      using Cons.prems False by (simp_all add: c1_def on_retry_def schedule_retry_def Let_def)
    then show ?thesis using Cons.IH [of c1] Cons.prems False by auto
  qed
qed

subsection \<open>Properties\<close>

text \<open>
  Property C31. Every callback handed to \<open>resolve\<close> is called exactly once, except the one that is
  still pending, in any sequence of queries, datagrams, cancellations and timer handlers, stale
  ones included; and a pending one is called with no address after at most three runs of the
  retry timer.
\<close>

theorem stun_client_answers_once:
  assumes "client_run W c ks made"
  shows "mset ks = mset (map fst made) + mset (pending_list c)
    \<and> (\<forall>k txns. sc_pending_cb c = Some k \<and> length txns = MAX_RETRIES - sc_retries c
        \<longrightarrow> (\<exists>c'. ticks W txns c = (c', [(k, None)]) \<and> sc_pending_cb c' = None))"
proof -
  have ok: "client_ok c" and bal: "mset ks = mset (map fst made) + mset (pending_list c)"
    using client_run_balance [OF assms] by blast+
  have "\<exists>c'. ticks W txns c = (c', [(k, None)]) \<and> sc_pending_cb c' = None"
    if "sc_pending_cb c = Some k" "length txns = MAX_RETRIES - sc_retries c" for k txns
    using ticks_end [of c k txns W] ok that by (auto simp: client_ok_def)
  with bal show ?thesis by blast
qed

definition demo_asio :: asio_env where
  "demo_asio = \<lparr> w_hmac = toy_hmac, w_rand = (\<lambda>n k. replicate k (word_of_nat n)),
     w_resolve = (\<lambda>h p. Some (V4 [192, 0, 2, 53], p)), w_send_ok = (\<lambda>_ _. True),
     w_probe = (\<lambda>_. Some (V4 [10, 0, 0, 1])), w_local_port = 5000 \<rparr>"

definition demo_client :: "nat stun_client" where
  "demo_client = fst (resolve demo_asio (replicate 12 1) ''stun.example'' 3478 7 fresh_client)"

theorem stun_client_answers_once_witness:
  "\<exists>c'. ticks demo_asio (replicate 3 (replicate 12 2)) demo_client = (c', [(7, None)]) \<and> sc_pending_cb c' = None"
proof -
  let ?r = "resolve demo_asio (replicate 12 1) ''stun.example'' 3478 7 fresh_client :: nat stun_client \<times> _"
  have r: "?r = (demo_client, fst (snd ?r), snd (snd ?r))" by (simp add: demo_client_def)
  have "sc_pending_cb demo_client = Some 7" "sc_retries demo_client = 0"
    by (simp_all add: demo_client_def resolve_def demo_asio_def send_request_def fresh_client_def schedule_retry_def)
  then show ?thesis
    using stun_client_answers_once [OF client_run.resolve [OF client_run.start r]] by (simp add: MAX_RETRIES_def)
qed

text \<open>
  The answer to the first transmission of a query is lost once the query was sent
  again: the retransmission draws a new transaction id, and \<open>feed\<close> refuses the response to the old
  one.
\<close>

theorem retransmission_forgets_query:
  assumes "sc_active c" "sc_retries c + 1 < MAX_RETRIES" "parse_binding_response data = Some res"
    "sr_txn_id res = sc_pending_txn c" "txn \<noteq> sc_pending_txn c"
  shows "let (c', sent, calls) = on_retry W txn c in feed data c' = (False, c', [])"
  using assms by (simp add: on_retry_def feed_def schedule_retry_def Let_def)

lemma demo_answer:
  "parse_binding_response (stun_message STUN_BINDING_RESPONSE (replicate 12 1)
     (sealed_attrs toy_hmac [] STUN_BINDING_RESPONSE (replicate 12 1)
       [mapped_attr (replicate 12 1) \<lparr> sa_ip = V4 [192, 0, 2, 1], sa_port = 3478 \<rparr>]))
   = Some \<lparr> sr_mapped = \<lparr> sa_ip = V4 [192, 0, 2, 1], sa_port = 3478 \<rparr>, sr_txn_id = replicate 12 1 \<rparr>"
  by (rule parse_response_message) (simp_all add: ip_wf_def)

theorem retransmission_forgets_query_witness:
  "\<exists>data res. parse_binding_response data = Some res \<and> sr_txn_id res = sc_pending_txn demo_client
     \<and> (let (c', sent, calls) = on_retry demo_asio (replicate 12 2) demo_client in feed data c' = (False, c', []))"
proof -
  have c: "sc_active demo_client" "sc_retries demo_client = 0" "sc_pending_txn demo_client = replicate 12 1"
    by (simp_all add: demo_client_def resolve_def demo_asio_def send_request_def fresh_client_def schedule_retry_def)
  then show ?thesis
    using retransmission_forgets_query [OF c(1) _ demo_answer, of "replicate 12 2" demo_asio] demo_answer
    by (intro exI conjI) (auto simp: MAX_RETRIES_def)
qed

end
