(* ===== verification/Wire.thy ===== *)
theory Wire
  imports Prelude
begin

section \<open>Wire format: the frame header and the packed payload structs\<close>

text \<open>
  \<open>sdk/types.h\<close> (constants, \<open>header_t\<close>, \<open>endpoint_t\<close>), \<open>core/data/messages.hpp\<close> (the
  packed payload structs) and \<open>sdk/cpp/data.hpp\<close> (\<open>PodData\<close>). A packed struct is a record
  with an encoder (its bytes in memory on the little-endian hosts the project targets, which is
  what \<open>memcpy\<close> puts on the wire) and a decoder (\<open>reinterpret_cast\<close> on received bytes).
  Fixed-size arrays are byte lists; the predicate \<open>..._wf\<close> fixes their lengths.
\<close>

named_theorems wire_consts \<open>values of the protocol constants\<close>

subsection \<open>Protocol constants\<close>

type_synonym conn_id = u64

definition GNET_MAGIC :: u32 where [wire_consts]: "GNET_MAGIC = 0x474E4554"
definition GNET_PROTO_VER :: u8 where [wire_consts]: "GNET_PROTO_VER = 3"
definition GNET_FLAG_TRUSTED :: u8 where [wire_consts]: "GNET_FLAG_TRUSTED = 1"
definition CONN_ID_INVALID :: conn_id where [wire_consts]: "CONN_ID_INVALID = 0"

definition MSG_TYPE_NOISE_INIT :: u32 where [wire_consts]: "MSG_TYPE_NOISE_INIT = 1"
definition MSG_TYPE_NOISE_RESP :: u32 where [wire_consts]: "MSG_TYPE_NOISE_RESP = 2"
definition MSG_TYPE_NOISE_FIN :: u32 where [wire_consts]: "MSG_TYPE_NOISE_FIN = 3"
definition MSG_TYPE_HEARTBEAT :: u32 where [wire_consts]: "MSG_TYPE_HEARTBEAT = 4"
definition MSG_TYPE_RELAY :: u32 where [wire_consts]: "MSG_TYPE_RELAY = 10"
definition MSG_TYPE_ICE_SIGNAL :: u32 where [wire_consts]: "MSG_TYPE_ICE_SIGNAL = 11"
definition MSG_TYPE_SYS_BASE :: u32 where [wire_consts]: "MSG_TYPE_SYS_BASE = 0x0100"
definition MSG_TYPE_SYS_MAX :: u32 where [wire_consts]: "MSG_TYPE_SYS_MAX = 0x0FFF"

definition EP_FLAG_TRUSTED :: u8 where [wire_consts]: "EP_FLAG_TRUSTED = 1"
definition EP_FLAG_OUTBOUND :: u8 where [wire_consts]: "EP_FLAG_OUTBOUND = 2"

definition CORE_CAP_ZSTD :: u32 where [wire_consts]: "CORE_CAP_ZSTD = 1"
definition CORE_CAP_ICE :: u32 where [wire_consts]: "CORE_CAP_ICE = 2"
definition CORE_CAP_KEYROT :: u32 where [wire_consts]: "CORE_CAP_KEYROT = 4"
definition CORE_CAP_RELAY :: u32 where [wire_consts]: "CORE_CAP_RELAY = 8"

definition GN_CORE_VERSION :: u32 where [wire_consts]: "GN_CORE_VERSION = 0x100"

definition HANDSHAKE_MAX_SCHEMES :: nat where [wire_consts]: "HANDSHAKE_MAX_SCHEMES = 8"
definition HANDSHAKE_SCHEME_LEN :: nat where [wire_consts]: "HANDSHAKE_SCHEME_LEN = 16"
definition HEARTBEAT_MAX_PATHS :: nat where [wire_consts]: "HEARTBEAT_MAX_PATHS = 8"

datatype conn_state_t =
  STATE_CONNECTING | STATE_NOISE_HANDSHAKE | STATE_ESTABLISHED | STATE_CLOSING | STATE_CLOSED

datatype propagation_t = PROPAGATION_CONTINUE | PROPAGATION_CONSUMED | PROPAGATION_REJECT

subsection \<open>PodData: the contract of a packed struct\<close>

text \<open>
  \<open>PodData<T>::serialize\<close> copies the struct out; \<open>deserialize\<close> throws when the buffer is
  shorter than the struct. The locale states what makes a packed struct a faithful codec;
  every struct below is an interpretation of it.
\<close>

datatype pod_error = Buffer_too_small

definition pod_serialize :: "('a \<Rightarrow> bytes) \<Rightarrow> 'a \<Rightarrow> bytes" where
  "pod_serialize enc v = enc v"

definition pod_deserialize :: "nat \<Rightarrow> (bytes \<Rightarrow> 'a) \<Rightarrow> bytes \<Rightarrow> pod_error + 'a" where
  "pod_deserialize sz dec b = (if length b < sz then Inl Buffer_too_small else Inr (dec b))"

locale pod =
  fixes enc :: "'a \<Rightarrow> bytes" and dec :: "bytes \<Rightarrow> 'a" and sz :: nat and wf :: "'a \<Rightarrow> bool"
  assumes length_enc: "wf x \<Longrightarrow> length (enc x) = sz"
    and dec_enc: "wf x \<Longrightarrow> dec (enc x @ rest) = x"
    and wf_dec: "sz \<le> length bs \<Longrightarrow> wf (dec bs)"
    and enc_dec: "sz \<le> length bs \<Longrightarrow> enc (dec bs) = get_arr 0 sz bs"
begin

lemma deserialize_serialize:
  "wf x \<Longrightarrow> pod_deserialize sz dec (pod_serialize enc x @ rest) = Inr x"
  by (simp add: pod_deserialize_def pod_serialize_def length_enc dec_enc)

lemma deserialize_short: "length b < sz \<Longrightarrow> pod_deserialize sz dec b = Inl Buffer_too_small"
  by (simp add: pod_deserialize_def)

lemma serialize_deserialize:
  "pod_deserialize sz dec b = Inr x \<Longrightarrow> pod_serialize enc x = take sz b \<and> wf x"
  by (auto simp: pod_deserialize_def pod_serialize_def enc_dec wf_dec get_arr_0 split: if_splits)

lemma enc_inject: "wf x \<Longrightarrow> wf y \<Longrightarrow> enc x = enc y \<Longrightarrow> x = y"
  using dec_enc [of x "[]"] dec_enc [of y "[]"] by simp

lemma dec_exact: "wf x \<Longrightarrow> dec (enc x) = x"
  using dec_enc [of x "[]"] by simp

lemma drop_enc: "wf x \<Longrightarrow> drop sz (enc x @ rest) = rest"
  by (simp add: length_enc)

end

lemmas pod_join = put_get_field get_arr_join

subsection \<open>The frame header\<close>

record header_t =
  magic :: u32
  proto_ver :: u8
  hflags :: u8
  payload_type :: u16
  payload_len :: u32
  packet_id :: u64

definition HDR :: nat where [wire_consts]: "HDR = 20"

definition header_enc :: "header_t \<Rightarrow> bytes" where
  "header_enc h = put_u32 (magic h) @ put_u8 (proto_ver h) @ put_u8 (hflags h)
     @ put_u16 (payload_type h) @ put_u32 (payload_len h) @ put_u64 (packet_id h)"

definition header_dec :: "bytes \<Rightarrow> header_t" where
  "header_dec bs = \<lparr> magic = get_u32 0 bs, proto_ver = get_u8 4 bs, hflags = get_u8 5 bs,
     payload_type = get_u16 6 bs, payload_len = get_u32 8 bs, packet_id = get_u64 12 bs \<rparr>"

interpretation header: pod header_enc header_dec 20 "\<lambda>_. True"
  by unfold_locales (simp_all add: header_enc_def header_dec_def pod_join)


lemma length_header_enc [simp, codec_simps]: "length (header_enc h) = 20"
  using header.length_enc by simp

lemma header_dec_enc [simp, codec_simps]: "header_dec (header_enc h @ r) = h"
  using header.dec_enc by simp

subsection \<open>The remote peer descriptor\<close>

text \<open>
  \<open>endpoint_t\<close> is never sent; its \<open>address\<close> is the NUL-terminated string it holds. The key
  of the URI index is \<open>address + ":" + to_string(port)\<close>.
\<close>

record endpoint_t =
  ep_address :: string
  ep_port :: u16
  ep_pubkey :: bytes
  ep_peer_id :: u64
  ep_flags :: u8

fun digits :: "nat \<Rightarrow> string" where
  "digits n = (if n < 10 then [char_of (48 + n)] else digits (n div 10) @ [char_of (48 + n mod 10)])"

declare digits.simps [simp del]

definition to_string :: "nat \<Rightarrow> string" where "to_string n = digits n"

definition addr_key :: "endpoint_t \<Rightarrow> string" where
  "addr_key ep = ep_address ep @ '':'' @ to_string (unat (ep_port ep))"

text \<open>\<open>bytes_to_hex\<close> (\<open>core/util.cpp\<close>): two lower-case hexadecimal digits per byte.\<close>

definition hex_digit :: "nat \<Rightarrow> char" where
  "hex_digit n = char_of (if n < 10 then 48 + n else 87 + n)"

definition hex_byte :: "byte \<Rightarrow> string" where
  "hex_byte b = [hex_digit (unat b div 16), hex_digit (unat b mod 16)]"

definition bytes_to_hex :: "bytes \<Rightarrow> string" where
  "bytes_to_hex bs = concat (map hex_byte bs)"

lemma length_bytes_to_hex: "length (bytes_to_hex bs) = 2 * length bs"
  by (induction bs) (simp_all add: bytes_to_hex_def hex_byte_def)

lemma of_char_hex_digit:
  "k < 16 \<Longrightarrow> of_char (hex_digit k) = (if k < 10 then 48 + k else 87 + k :: nat)"
  by (simp add: hex_digit_def)

lemma hex_digit_inj: "m < 16 \<Longrightarrow> n < 16 \<Longrightarrow> hex_digit m = hex_digit n \<Longrightarrow> m = n"
proof -
  assume m: "m < 16" and n: "n < 16" and eq: "hex_digit m = hex_digit n"
  have "(if m < 10 then 48 + m else 87 + m :: nat) = (if n < 10 then 48 + n else 87 + n)"
    unfolding of_char_hex_digit [OF m, symmetric] of_char_hex_digit [OF n, symmetric]
    by (simp only: eq)
  then show "m = n" by presburger
qed

lemma hex_byte_inj: "hex_byte a = hex_byte b \<Longrightarrow> a = b"
proof -
  assume "hex_byte a = hex_byte b"
  then have "hex_digit (unat a div 16) = hex_digit (unat b div 16)"
    "hex_digit (unat a mod 16) = hex_digit (unat b mod 16)"
    by (simp_all add: hex_byte_def)
  moreover have "unat x div 16 < 16" "unat x mod 16 < 16" for x :: byte
    using unat_byte_less [of x] by (simp_all add: less_mult_imp_div_less)
  ultimately have "unat a div 16 = unat b div 16" "unat a mod 16 = unat b mod 16"
    by (blast intro: hex_digit_inj)+
  then have "unat a = unat b"
    by (metis div_mult_mod_eq)
  then show ?thesis by (rule word_unat_eq_iff [THEN iffD2])
qed

lemma bytes_to_hex_inj: "bytes_to_hex as = bytes_to_hex bs \<Longrightarrow> as = bs"
proof (induction as arbitrary: bs)
  case Nil
  then show ?case by (cases bs) (simp_all add: bytes_to_hex_def hex_byte_def)
next
  case (Cons a as)
  have "length (bytes_to_hex bs) = 2 * Suc (length as)"
    using Cons.prems length_bytes_to_hex [of "a # as"] by simp
  then obtain b bs' where bs: "bs = b # bs'"
    using length_bytes_to_hex [of bs] by (cases bs) auto
  with Cons.prems have "hex_byte a = hex_byte b" "bytes_to_hex as = bytes_to_hex bs'"
    by (auto simp: bytes_to_hex_def hex_byte_def)
  with Cons.IH bs show ?case by (simp add: hex_byte_inj)
qed

subsection \<open>The handshake payload\<close>

record core_meta =
  core_version :: u32
  caps_mask :: u32

record handshake_payload =
  hp_user_pubkey :: bytes
  hp_device_pubkey :: bytes
  hp_signature :: bytes
  hp_schemes_count :: u8
  hp_schemes :: "bytes list"
  hp_core_meta :: core_meta

definition handshake_payload_size :: nat where [wire_consts]: "handshake_payload_size = 265"

definition core_meta_enc :: "core_meta \<Rightarrow> bytes" where
  "core_meta_enc m = put_u32 (core_version m) @ put_u32 (caps_mask m)"

definition handshake_payload_enc :: "handshake_payload \<Rightarrow> bytes" where
  "handshake_payload_enc p = hp_user_pubkey p @ hp_device_pubkey p @ hp_signature p
     @ put_u8 (hp_schemes_count p) @ concat (hp_schemes p) @ core_meta_enc (hp_core_meta p)"

definition handshake_payload_dec :: "bytes \<Rightarrow> handshake_payload" where
  "handshake_payload_dec bs = \<lparr> hp_user_pubkey = get_arr 0 32 bs, hp_device_pubkey = get_arr 32 32 bs,
     hp_signature = get_arr 64 64 bs, hp_schemes_count = get_u8 128 bs,
     hp_schemes = map (\<lambda>i. get_arr (129 + 16 * i) 16 bs) [0..<8],
     hp_core_meta = \<lparr> core_version = get_u32 257 bs, caps_mask = get_u32 261 bs \<rparr> \<rparr>"

definition handshake_payload_wf :: "handshake_payload \<Rightarrow> bool" where
  "handshake_payload_wf p \<longleftrightarrow> length (hp_user_pubkey p) = 32 \<and> length (hp_device_pubkey p) = 32
     \<and> length (hp_signature p) = 64 \<and> length (hp_schemes p) = 8
     \<and> list_all (\<lambda>f. length f = 16) (hp_schemes p)"

lemma upt_8: "[0..<8] = [0, 1, 2, 3, 4, 5, 6, 7 :: nat]"
  by (simp add: upt_rec)

lemma length_8_cases:
  "length xs = 8 \<Longrightarrow> \<exists>a b c d e f g h. xs = [a, b, c, d, e, f, g, h]"
  by (auto simp: numeral_eq_Suc length_Suc_conv)

interpretation handshake: pod handshake_payload_enc handshake_payload_dec 265 handshake_payload_wf
proof
  fix x rest
  assume wf: "handshake_payload_wf x"
  then obtain a b c d e f g h where sch: "hp_schemes x = [a, b, c, d, e, f, g, h]"
    unfolding handshake_payload_wf_def using length_8_cases by blast
  show "length (handshake_payload_enc x) = 265"
    using wf by (simp add: handshake_payload_enc_def core_meta_enc_def handshake_payload_wf_def sch)
  have "hp_schemes (handshake_payload_dec (handshake_payload_enc x @ rest)) = hp_schemes x"
    using wf by (simp add: handshake_payload_enc_def core_meta_enc_def handshake_payload_dec_def
        handshake_payload_wf_def sch upt_8)
  then show "handshake_payload_dec (handshake_payload_enc x @ rest) = x"
    using wf by (simp add: handshake_payload_enc_def core_meta_enc_def handshake_payload_dec_def
        handshake_payload_wf_def sch)
next
  fix bs :: bytes
  assume "265 \<le> length bs"
  then show "handshake_payload_wf (handshake_payload_dec bs)"
    by (simp add: handshake_payload_wf_def handshake_payload_dec_def upt_8)
next
  fix bs :: bytes
  assume "265 \<le> length bs"
  then show "handshake_payload_enc (handshake_payload_dec bs) = get_arr 0 265 bs"
    by (simp add: handshake_payload_enc_def core_meta_enc_def handshake_payload_dec_def upt_8 pod_join)
qed

text \<open>
  \<open>set_schemes\<close> keeps at most eight names of at most fifteen characters; an unused slot
  keeps its bytes except for the first, which is zeroed. \<open>get_schemes\<close> reads
  \<open>schemes_count\<close> C strings at consecutive slots. The receiver compares that count neither
  with eight nor with the struct, and a slot need not hold a NUL: each string runs to the
  first NUL at or after the start of its slot. The model reads inside the struct (the slots and
  the \<open>CoreMeta\<close> behind them) and stops at its end, where the C++ reads on.
\<close>

definition set_schemes :: "string list \<Rightarrow> handshake_payload \<Rightarrow> handshake_payload" where
  "set_schemes sv p =
     (let n = min (length sv) HANDSHAKE_MAX_SCHEMES
      in p\<lparr> hp_schemes_count := word_of_nat n,
            hp_schemes := map (\<lambda>i. if i < n then strn_field HANDSHAKE_SCHEME_LEN (sv ! i)
                                   else (hp_schemes p ! i)[0 := 0]) [0..<HANDSHAKE_MAX_SCHEMES] \<rparr>)"

definition get_schemes :: "handshake_payload \<Rightarrow> string list" where
  "get_schemes p =
     (let mem = concat (hp_schemes p) @ core_meta_enc (hp_core_meta p)
      in map (\<lambda>i. cstr (drop (HANDSHAKE_SCHEME_LEN * i) mem)) [0..<unat (hp_schemes_count p)])"

lemma set_schemes_wf: "handshake_payload_wf p \<Longrightarrow> handshake_payload_wf (set_schemes sv p)"
  by (auto simp: handshake_payload_wf_def set_schemes_def Let_def list_all_length wire_consts)

lemma drop_concat_slots:
  "list_all (\<lambda>f. length f = n) xs \<Longrightarrow> i < length xs \<Longrightarrow>
     drop (n * i) (concat xs) = xs ! i @ concat (drop (Suc i) xs)"
proof (induction xs arbitrary: i)
  case Nil
  then show ?case by simp
next
  case (Cons x xs)
  then show ?case by (cases i) simp_all
qed

lemma strn_field_has_nul:
  assumes "length s < n" "nul_free s"
  shows "strn_field n s = bytes_of_string s @ 0 # replicate (n - length s - 1) 0"
proof -
  have "\<forall>b \<in> set (bytes_of_string s). b \<noteq> 0"
    using assms(2) by (auto simp: nul_free_def)
  then have tw: "takeWhile (\<lambda>b. b \<noteq> 0) (bytes_of_string s) = bytes_of_string s" by simp
  obtain k where k: "n = Suc (length s + k)"
    using assms(1) less_imp_Suc_add by blast
  show ?thesis
    unfolding strn_field_def tw by (simp add: k pad_to_short Suc_diff_le)
qed

lemma cstr_strn_field_append:
  assumes "length s < n" "nul_free s"
  shows "cstr (strn_field n s @ r) = s"
proof -
  have "\<forall>b \<in> set (bytes_of_string s). b \<noteq> 0"
    using assms(2) by (auto simp: nul_free_def)
  then show ?thesis
    by (simp add: strn_field_has_nul [OF assms] cstr_def takeWhile_append2)
qed

lemma get_set_schemes:
  assumes "handshake_payload_wf p" "length sv \<le> 8" "\<forall>s \<in> set sv. nul_free s \<and> length s < 16"
  shows "get_schemes (set_schemes sv p) = sv"
proof (rule nth_equalityI)
  let ?q = "set_schemes sv p"
  have cnt: "unat (hp_schemes_count ?q) = length sv"
    using assms(2) by (simp add: set_schemes_def Let_def wire_consts unat_of_nat)
  then show len: "length (get_schemes ?q) = length sv"
    by (simp add: get_schemes_def Let_def)
  fix i
  assume "i < length (get_schemes ?q)"
  then have i: "i < length sv" using len by simp
  have wf: "list_all (\<lambda>f. length f = 16) (hp_schemes ?q)" "length (hp_schemes ?q) = 8"
    using set_schemes_wf [OF assms(1), of sv] by (simp_all add: handshake_payload_wf_def)
  have slot: "hp_schemes ?q ! i = strn_field 16 (sv ! i)"
    using i assms(2) by (simp add: set_schemes_def Let_def wire_consts)
  have "length (concat (hp_schemes ?q)) = 128"
    using wf length_8_cases [OF wf(2)] by auto
  then have "drop (16 * i) (concat (hp_schemes ?q) @ core_meta_enc (hp_core_meta ?q))
      = strn_field 16 (sv ! i) @ concat (drop (Suc i) (hp_schemes ?q)) @ core_meta_enc (hp_core_meta ?q)"
    using drop_concat_slots [OF wf(1), of i] i assms(2) wf(2) slot by simp
  then show "get_schemes ?q ! i = sv ! i"
    using i assms(3) cnt by (simp add: get_schemes_def Let_def wire_consts cstr_strn_field_append)
qed

subsection \<open>Heartbeat, relay and ICE signalling payloads\<close>

record heartbeat_payload =
  hb_timestamp_us :: u64
  hb_seq :: u32
  hb_flags :: u8
  hb_pad :: bytes

definition heartbeat_payload_enc :: "heartbeat_payload \<Rightarrow> bytes" where
  "heartbeat_payload_enc p = put_u64 (hb_timestamp_us p) @ put_u32 (hb_seq p) @ put_u8 (hb_flags p) @ hb_pad p"

definition heartbeat_payload_dec :: "bytes \<Rightarrow> heartbeat_payload" where
  "heartbeat_payload_dec bs = \<lparr> hb_timestamp_us = get_u64 0 bs, hb_seq = get_u32 8 bs, hb_flags = get_u8 12 bs,
     hb_pad = get_arr 13 3 bs \<rparr>"

definition heartbeat_payload_wf :: "heartbeat_payload \<Rightarrow> bool" where
  "heartbeat_payload_wf p \<longleftrightarrow> length (hb_pad p) = 3"

interpretation heartbeat: pod heartbeat_payload_enc heartbeat_payload_dec 16 heartbeat_payload_wf
  by unfold_locales (simp_all add: heartbeat_payload_enc_def heartbeat_payload_dec_def heartbeat_payload_wf_def pod_join)

record heartbeat_path_entry =
  pe_scheme :: bytes
  pe_active :: u8
  pe_priority :: u8
  pe_rtt_compressed :: u16

definition heartbeat_path_entry_enc :: "heartbeat_path_entry \<Rightarrow> bytes" where
  "heartbeat_path_entry_enc p = pe_scheme p @ put_u8 (pe_active p) @ put_u8 (pe_priority p) @
     put_u16 (pe_rtt_compressed p)"

definition heartbeat_path_entry_dec :: "bytes \<Rightarrow> heartbeat_path_entry" where
  "heartbeat_path_entry_dec bs = \<lparr> pe_scheme = get_arr 0 16 bs, pe_active = get_u8 16 bs, pe_priority = get_u8 17 bs,
     pe_rtt_compressed = get_u16 18 bs \<rparr>"

definition heartbeat_path_entry_wf :: "heartbeat_path_entry \<Rightarrow> bool" where
  "heartbeat_path_entry_wf p \<longleftrightarrow> length (pe_scheme p) = 16"

interpretation path_entry: pod heartbeat_path_entry_enc heartbeat_path_entry_dec 20 heartbeat_path_entry_wf
  by unfold_locales (simp_all add: heartbeat_path_entry_enc_def heartbeat_path_entry_dec_def heartbeat_path_entry_wf_def pod_join)

record relay_payload =
  rp_ttl :: u8
  rp_dest_pubkey :: bytes

definition relay_payload_enc :: "relay_payload \<Rightarrow> bytes" where
  "relay_payload_enc p = put_u8 (rp_ttl p) @ rp_dest_pubkey p"

definition relay_payload_dec :: "bytes \<Rightarrow> relay_payload" where
  "relay_payload_dec bs = \<lparr> rp_ttl = get_u8 0 bs, rp_dest_pubkey = get_arr 1 32 bs \<rparr>"

definition relay_payload_wf :: "relay_payload \<Rightarrow> bool" where
  "relay_payload_wf p \<longleftrightarrow> length (rp_dest_pubkey p) = 32"

interpretation relay_pl: pod relay_payload_enc relay_payload_dec 33 relay_payload_wf
  by unfold_locales (simp_all add: relay_payload_enc_def relay_payload_dec_def relay_payload_wf_def pod_join)

record ice_signal_payload =
  is_kind :: u8
  is_pad :: bytes
  is_sdp_len :: u32

definition ice_signal_payload_enc :: "ice_signal_payload \<Rightarrow> bytes" where
  "ice_signal_payload_enc p = put_u8 (is_kind p) @ is_pad p @ put_u32 (is_sdp_len p)"

definition ice_signal_payload_dec :: "bytes \<Rightarrow> ice_signal_payload" where
  "ice_signal_payload_dec bs = \<lparr> is_kind = get_u8 0 bs, is_pad = get_arr 1 3 bs, is_sdp_len = get_u32 4 bs \<rparr>"

definition ice_signal_payload_wf :: "ice_signal_payload \<Rightarrow> bool" where
  "ice_signal_payload_wf p \<longleftrightarrow> length (is_pad p) = 3"

interpretation ice_signal: pod ice_signal_payload_enc ice_signal_payload_dec 8 ice_signal_payload_wf
  by unfold_locales (simp_all add: ice_signal_payload_enc_def ice_signal_payload_dec_def ice_signal_payload_wf_def pod_join)

end
