(* ===== verification/Ice_Candidate.thy ===== *)
theory Ice_Candidate
  imports Stun_Client Wire
begin

section \<open>ICE candidates\<close>

text \<open>
  \<open>plugins/connectors/ice/candidate.hpp\<close> and the pair priority of \<open>session.cpp\<close>: candidates,
  credentials, candidate pairs and their binary form. A \<open>CandidateType\<close> is kept as the byte it
  is stored in, because a received one may have any value.
\<close>

type_synonym candidate_type = u8

definition Host :: candidate_type where "Host = 0"
definition Srflx :: candidate_type where "Srflx = 1"

record candidate =
  ca_type :: candidate_type
  ca_endpoint :: udp_endpoint
  ca_priority :: u32
  ca_component_id :: u32

definition no_endpoint_udp :: udp_endpoint where "no_endpoint_udp = (V4 [0, 0, 0, 0], 0)"

definition default_candidate :: candidate where
  "default_candidate = \<lparr> ca_type = Host, ca_endpoint = no_endpoint_udp, ca_priority = 0, ca_component_id = 1 \<rparr>"

definition compute_priority :: "candidate_type \<Rightarrow> u16 \<Rightarrow> u32" where
  "compute_priority type local_pref =
     push_bit 24 (if type = Host then 126 else 100) OR push_bit 8 (ucast local_pref) OR 255"

record ice_credentials =
  cr_ufrag :: string
  cr_pwd :: string

definition alphanumeric :: string where
  "alphanumeric = ''abcdefghijklmnopqrstuvwxyzABCDEFGHIJKLMNOPQRSTUVWXYZ0123456789''"

definition random_alphanumeric :: "bytes \<Rightarrow> nat \<Rightarrow> string" where
  "random_alphanumeric buf len = map (\<lambda>i. alphanumeric ! (unat (get_u8 i buf) mod 62)) [0..<len]"

definition generate_credentials :: "bytes \<Rightarrow> bytes \<Rightarrow> ice_credentials" where
  "generate_credentials r1 r2 = \<lparr> cr_ufrag = random_alphanumeric r1 16, cr_pwd = random_alphanumeric r2 24 \<rparr>"

datatype pair_state = Pair_Waiting | Pair_InProgress | Pair_Succeeded | Pair_Failed

record candidate_pair =
  cp_local :: candidate
  cp_remote :: candidate
  cp_priority :: u64
  cp_state :: pair_state
  cp_check_txn :: bytes
  cp_retries :: int

definition pair_priority :: "u32 \<Rightarrow> u32 \<Rightarrow> bool \<Rightarrow> u64" where
  "pair_priority controlling_prio controlled_prio we_are_controlling =
     (let (g, d) = (if \<not> we_are_controlling then (ucast controlled_prio, ucast controlling_prio)
                    else (ucast controlling_prio, ucast controlled_prio));
          mn = min g d; mx = max g d
      in push_bit 32 mn + 2 * mx + (if g > d then 1 else 0))"

subsection \<open>Binary form\<close>

record ice_signal_data =
  sd_ufrag :: bytes
  sd_pwd :: bytes
  sd_candidate_count :: u16
  sd_pad :: u16

definition ice_signal_data_enc :: "ice_signal_data \<Rightarrow> bytes" where
  "ice_signal_data_enc d = sd_ufrag d @ sd_pwd d @ put_u16 (sd_candidate_count d) @ put_u16 (sd_pad d)"

definition ice_signal_data_dec :: "bytes \<Rightarrow> ice_signal_data" where
  "ice_signal_data_dec bs = \<lparr> sd_ufrag = get_arr 0 16 bs, sd_pwd = get_arr 16 24 bs,
     sd_candidate_count = get_u16 40 bs, sd_pad = get_u16 42 bs \<rparr>"

definition ice_signal_data_wf :: "ice_signal_data \<Rightarrow> bool" where
  "ice_signal_data_wf d \<longleftrightarrow> length (sd_ufrag d) = 16 \<and> length (sd_pwd d) = 24"

interpretation signal_data: pod ice_signal_data_enc ice_signal_data_dec 44 ice_signal_data_wf
  by unfold_locales (simp_all add: ice_signal_data_enc_def ice_signal_data_dec_def ice_signal_data_wf_def pod_join)

record ice_candidate_wire =
  wi_type :: u8
  wi_family :: u8
  wi_port :: u16
  wi_priority :: u32
  wi_addr :: bytes

definition ice_candidate_wire_enc :: "ice_candidate_wire \<Rightarrow> bytes" where
  "ice_candidate_wire_enc w = put_u8 (wi_type w) @ put_u8 (wi_family w) @ put_u16 (wi_port w)
     @ put_u32 (wi_priority w) @ wi_addr w"

definition ice_candidate_wire_dec :: "bytes \<Rightarrow> ice_candidate_wire" where
  "ice_candidate_wire_dec bs = \<lparr> wi_type = get_u8 0 bs, wi_family = get_u8 1 bs, wi_port = get_u16 2 bs,
     wi_priority = get_u32 4 bs, wi_addr = get_arr 8 16 bs \<rparr>"

definition ice_candidate_wire_wf :: "ice_candidate_wire \<Rightarrow> bool" where
  "ice_candidate_wire_wf w \<longleftrightarrow> length (wi_addr w) = 16"

interpretation candidate_wire: pod ice_candidate_wire_enc ice_candidate_wire_dec 24 ice_candidate_wire_wf
  by unfold_locales (simp_all add: ice_candidate_wire_enc_def ice_candidate_wire_dec_def ice_candidate_wire_wf_def pod_join)

definition candidate_to_wire :: "candidate \<Rightarrow> ice_candidate_wire" where
  "candidate_to_wire c =
     (case fst (ca_endpoint c) of
        V4 b \<Rightarrow> \<lparr> wi_type = ca_type c, wi_family = 4, wi_port = snd (ca_endpoint c), wi_priority = ca_priority c,
                  wi_addr = b @ replicate 12 0 \<rparr>
      | V6 b \<Rightarrow> \<lparr> wi_type = ca_type c, wi_family = 6, wi_port = snd (ca_endpoint c), wi_priority = ca_priority c,
                  wi_addr = b \<rparr>)"

definition wire_to_candidate :: "ice_candidate_wire \<Rightarrow> candidate" where
  "wire_to_candidate w =
     default_candidate\<lparr> ca_type := wi_type w, ca_priority := wi_priority w,
       ca_endpoint := (if wi_family w = 4 then V4 (take 4 (wi_addr w)) else V6 (wi_addr w), wi_port w) \<rparr>"

subsection \<open>Lemmas\<close>

definition candidate_wf :: "candidate \<Rightarrow> bool" where
  "candidate_wf c \<longleftrightarrow> ip_wf (fst (ca_endpoint c)) \<and> ca_component_id c = 1"

lemma wire_candidate_roundtrip: "candidate_wf c \<Longrightarrow> wire_to_candidate (candidate_to_wire c) = c"
  by (cases c) (auto simp: candidate_wf_def ip_wf_def candidate_to_wire_def wire_to_candidate_def default_candidate_def
      split: ip_address.splits)

lemma candidate_to_wire_wf: "candidate_wf c \<Longrightarrow> ice_candidate_wire_wf (candidate_to_wire c)"
  by (auto simp: candidate_wf_def ip_wf_def candidate_to_wire_def ice_candidate_wire_wf_def split: ip_address.splits)

lemma alphanumeric_length: "length alphanumeric = 62"
  by (simp add: alphanumeric_def)

lemma alphanumeric_nul_free: "nul_free alphanumeric"
  by (simp add: nul_free_def alphanumeric_def bytes_of_string_def byte_of_char_def)

lemma nul_free_random: "nul_free (random_alphanumeric buf len)"
proof -
  have "\<forall>c \<in> set alphanumeric. byte_of_char c \<noteq> 0"
    using alphanumeric_nul_free by (force simp: nul_free_def bytes_of_string_def)
  moreover have "alphanumeric ! (k mod 62) \<in> set alphanumeric" for k
    by (rule nth_mem) (simp add: alphanumeric_length)
  ultimately show ?thesis by (fastforce simp: nul_free_def bytes_of_string_def random_alphanumeric_def)
qed

lemma length_random [simp]: "length (random_alphanumeric buf len) = len"
  by (simp add: random_alphanumeric_def)

lemma cstr_pad_to: "nul_free s \<Longrightarrow> length s \<le> n \<Longrightarrow> cstr (pad_to n (bytes_of_string s)) = s"
proof -
  assume "nul_free s" "length s \<le> n"
  then have "\<forall>b \<in> set (bytes_of_string s). b \<noteq> 0" by (auto simp: nul_free_def)
  with \<open>length s \<le> n\<close> show ?thesis by (simp add: cstr_def pad_to_short takeWhile_pad)
qed

text \<open>
  The priority the code computes, and that of RFC 8445 without a word size: they agree unless both
  priorities are the largest 32-bit value.
\<close>

definition rfc_pair_priority :: "nat \<Rightarrow> nat \<Rightarrow> nat" where
  "rfc_pair_priority g d = 2 ^ 32 * min g d + 2 * max g d + (if g > d then 1 else 0)"

lemma unat_ucast_u64: "unat (ucast (x :: u32) :: u64) = unat x"
proof -
  have "unat x < 2 ^ 32" using unsigned_less [of x] by simp
  then show ?thesis by (simp add: unsigned_ucast_eq take_bit_nat_eq_self)
qed

lemma pair_priority_exact:
  assumes "min (unat g) (unat d) < 2 ^ 32 - 1"
  shows "unat (pair_priority g d True) = rfc_pair_priority (unat g) (unat d)"
proof -
  let ?m = "min (unat g) (unat d)" and ?x = "max (unat g) (unat d)"
  have b: "unat g < 2 ^ 32" "unat d < 2 ^ 32" using unsigned_less [of g] unsigned_less [of d] by simp_all
  have mn: "unat (min (ucast g) (ucast d) :: u64) = ?m" "unat (max (ucast g) (ucast d) :: u64) = ?x"
    by (simp_all add: min_def max_def word_le_nat_alt unat_ucast_u64)
  have gt: "(ucast g > (ucast d :: u64)) = (unat g > unat d)" by (simp add: word_less_nat_alt unat_ucast_u64)
  have lim: "2 ^ 32 * ?m + 2 * ?x + 1 < 2 ^ 64" using assms b by auto
  have p: "unat (push_bit 32 (min (ucast g) (ucast d)) :: u64) = 2 ^ 32 * ?m"
    unfolding unsigned_push_bit_eq mn using lim by (simp add: push_bit_eq_mult take_bit_nat_eq_self mult.commute)
  have t: "unat (2 * max (ucast g) (ucast d) :: u64) = 2 * ?x"
    using b by (simp add: unat_word_ariths mn)
  show ?thesis
    using lim p t gt by (simp add: pair_priority_def rfc_pair_priority_def unat_word_ariths Let_def)
qed

lemma pair_priority_roles: "pair_priority l r False = pair_priority r l True"
  by (simp add: pair_priority_def Let_def)

lemma compute_priority_small: "unat (compute_priority t p) < 2 ^ 31"
proof -
  have "\<not> bit (compute_priority t p) 31" by (auto simp: compute_priority_def bit_simps dest: bit_imp_le_length)
  then have "n < 31" if "bit (compute_priority t p) n" for n
    using that bit_imp_le_length [OF that] by (cases "n = 31") auto
  then have "compute_priority t p AND mask 31 = compute_priority t p"
    by (intro bit_word_eqI) (auto simp: bit_simps)
  then have "take_bit 31 (compute_priority t p) = compute_priority t p" by (simp add: take_bit_eq_mask)
  then have "unat (compute_priority t p) = take_bit 31 (unat (compute_priority t p))"
    by (metis unsigned_take_bit_eq)
  then show ?thesis by (metis take_bit_nat_less_exp)
qed

end
