(* ===== verification/Ice_Session.thy ===== *)
theory Ice_Session
  imports Ice_Candidate
begin

section \<open>ICE sessions\<close>

text \<open>
  \<open>plugins/connectors/ice/session.cpp\<close>: gathering of candidates, connectivity checks,
  nomination, data and consent freshness. The session is a record; each method is a function on
  it. Datagrams sent and callbacks to the connector are appended to \<open>ses_out\<close> in the order they
  happen: the callbacks of the connector do not change what the session does afterwards. Random
  bytes come from numbered draws. Timers are those of the STUN client. A method runs without
  another one of the same session in between; the code takes no lock to ensure it although the
  connector runs several threads. \<open>std::sort\<close> on pairs of equal priority is modelled as stable.
\<close>

datatype session_state = St_New | St_Gathering | St_WaitingRemote | St_Checking | St_Connected | St_Failed

record ice_config =
  ic_stun_servers :: "(string \<times> u16) list"
  ic_session_timeout :: int
  ic_keepalive_interval :: int
  ic_consent_max_failures :: int

datatype ice_out = Datagram udp_endpoint bytes | On_gathered | On_connected | On_failed | On_data bytes

record ice_session =
  ses_peer_hex :: string
  ses_controlling :: bool
  ses_state :: session_state
  ses_local_creds :: ice_credentials
  ses_remote_creds :: ice_credentials
  ses_socket_open :: bool
  ses_local_candidates :: "candidate list"
  ses_remote_candidates :: "candidate list"
  ses_check_list :: "candidate_pair list"
  ses_nominated :: bool
  ses_remote_ep :: udp_endpoint
  ses_stun_client :: "unit stun_client"
  ses_config :: ice_config
  ses_stun_try_idx :: nat
  ses_tie_breaker :: u64
  ses_next_check_idx :: nat
  ses_check_timer :: timer
  ses_timeout_timer :: timer
  ses_keepalive_timer :: timer
  ses_keepalive_txn :: bytes
  ses_consent_missed :: int
  ses_recv_buf :: bytes
  ses_recv_active :: bool
  ses_closed :: bool
  ses_conn_id :: conn_id
  ses_draws :: nat
  ses_out :: "ice_out list"
  ses_fault :: "stun_fault option"

subsection \<open>Effects\<close>

definition put_out :: "ice_out \<Rightarrow> ice_session \<Rightarrow> ice_session" where
  "put_out x s = s\<lparr> ses_out := ses_out s @ [x] \<rparr>"

definition ses_draw :: "asio_env \<Rightarrow> nat \<Rightarrow> ice_session \<Rightarrow> bytes \<times> ice_session" where
  "ses_draw W n s = (w_rand W (ses_draws s) n, s\<lparr> ses_draws := ses_draws s + 1 \<rparr>)"

definition send_to :: "asio_env \<Rightarrow> udp_endpoint \<Rightarrow> bytes \<Rightarrow> ice_session \<Rightarrow> ice_session" where
  "send_to W ep pkt s = (if ses_socket_open s \<and> w_send_ok W ep pkt then put_out (Datagram ep pkt) s else s)"

definition send_built :: "asio_env \<Rightarrow> udp_endpoint \<Rightarrow> stun_fault + bytes \<Rightarrow> ice_session \<Rightarrow> ice_session" where
  "send_built W ep m s = (case m of Inl e \<Rightarrow> s\<lparr> ses_fault := Some e \<rparr> | Inr pkt \<Rightarrow> send_to W ep pkt s)"

definition client_env :: "asio_env \<Rightarrow> ice_session \<Rightarrow> asio_env" where
  "client_env W s = W\<lparr> w_send_ok := (\<lambda>ep pkt. ses_socket_open s \<and> w_send_ok W ep pkt) \<rparr>"

definition put_sends :: "sends \<Rightarrow> ice_session \<Rightarrow> ice_session" where
  "put_sends sent s = s\<lparr> ses_out := ses_out s @ map (\<lambda>(ep, pkt). Datagram ep pkt) sent \<rparr>"

definition transition :: "session_state \<Rightarrow> ice_session \<Rightarrow> ice_session" where
  "transition st s = s\<lparr> ses_state := st \<rparr>"

subsection \<open>Construction\<close>

definition new_session :: "asio_env \<Rightarrow> nat \<Rightarrow> string \<Rightarrow> bool \<Rightarrow> ice_config \<Rightarrow> ice_session" where
  "new_session W n peer_hex controlling config =
     \<lparr> ses_peer_hex = peer_hex, ses_controlling = controlling, ses_state = St_New,
       ses_local_creds = generate_credentials (w_rand W n 16) (w_rand W (n + 1) 24),
       ses_remote_creds = \<lparr> cr_ufrag = [], cr_pwd = [] \<rparr>, ses_socket_open = True,
       ses_local_candidates = [], ses_remote_candidates = [], ses_check_list = [], ses_nominated = False,
       ses_remote_ep = no_endpoint_udp, ses_stun_client = fresh_client, ses_config = config, ses_stun_try_idx = 0,
       ses_tie_breaker = get_u64 0 (w_rand W (n + 2) 8), ses_next_check_idx = 0, ses_check_timer = idle_timer,
       ses_timeout_timer = idle_timer, ses_keepalive_timer = idle_timer, ses_keepalive_txn = replicate 12 0,
       ses_consent_missed = 0, ses_recv_buf = replicate 65536 0, ses_recv_active = False, ses_closed = False,
       ses_conn_id = CONN_ID_INVALID, ses_draws = n + 3, ses_out = [], ses_fault = None \<rparr>"

subsection \<open>Checks\<close>

definition is_v4 :: "ip_address \<Rightarrow> bool" where
  "is_v4 a = (case a of V4 _ \<Rightarrow> True | V6 _ \<Rightarrow> False)"

definition mk_pair :: "bool \<Rightarrow> candidate \<Rightarrow> candidate \<Rightarrow> candidate_pair" where
  "mk_pair controlling l r = \<lparr> cp_local = l, cp_remote = r,
     cp_priority = pair_priority (ca_priority l) (ca_priority r) controlling, cp_state = Pair_Waiting,
     cp_check_txn = replicate 12 0, cp_retries = 0 \<rparr>"

definition form_check_list :: "ice_session \<Rightarrow> ice_session" where
  "form_check_list s =
     s\<lparr> ses_next_check_idx := 0,
        ses_check_list := sort_key (\<lambda>p. - uint (cp_priority p))
          (concat (map (\<lambda>l. map (mk_pair (ses_controlling s) l)
             (filter (\<lambda>r. is_v4 (fst (ca_endpoint l)) = is_v4 (fst (ca_endpoint r))) (ses_remote_candidates s)))
             (ses_local_candidates s))) \<rparr>"

definition check_username :: "ice_session \<Rightarrow> string" where
  "check_username s = cr_ufrag (ses_remote_creds s) @ '':'' @ cr_ufrag (ses_local_creds s)"

definition check_pair :: "asio_env \<Rightarrow> nat \<Rightarrow> ice_session \<Rightarrow> ice_session" where
  "check_pair W i s =
     (let (txn, s1) = ses_draw W 12 s; pair = ses_check_list s ! i;
          s2 = s1\<lparr> ses_check_list := (ses_check_list s)[i := pair\<lparr> cp_state := Pair_InProgress, cp_check_txn := txn \<rparr>] \<rparr>
      in send_built W (ca_endpoint (cp_remote pair))
           (build_check_request (w_hmac W) txn (check_username s) (cr_pwd (ses_remote_creds s))
              (ca_priority (cp_local pair)) (ses_controlling s) (ses_controlling s) (ses_tie_breaker s)) s2)"

function next_waiting :: "candidate_pair list \<Rightarrow> nat \<Rightarrow> nat" where
  "next_waiting cl i =
     (if i < length cl then (if cp_state (cl ! i) = Pair_Waiting then i else next_waiting cl (i + 1)) else i)"
  by pat_completeness auto
termination by (relation "measure (\<lambda>(cl, i). length cl - i)") auto

declare next_waiting.simps [simp del]

definition fail_session :: "ice_session \<Rightarrow> ice_session" where
  "fail_session s = put_out On_failed (transition St_Failed s)"

definition send_next_check :: "asio_env \<Rightarrow> ice_session \<Rightarrow> ice_session" where
  "send_next_check W s =
     (if ses_state s \<noteq> St_Checking \<or> ses_closed s then s
      else let i = next_waiting (ses_check_list s) (ses_next_check_idx s);
               s1 = (if i < length (ses_check_list s) then (check_pair W i s)\<lparr> ses_next_check_idx := i + 1 \<rparr>
                     else s\<lparr> ses_next_check_idx := i \<rparr>);
               any_waiting = list_ex (\<lambda>p. cp_state p = Pair_Waiting) (ses_check_list s1);
               any_in_progress = list_ex (\<lambda>p. cp_state p = Pair_InProgress) (ses_check_list s1)
           in if \<not> any_waiting \<and> \<not> any_in_progress \<and> \<not> ses_nominated s1 then fail_session s1
              else if any_waiting then s1\<lparr> ses_check_timer := timer_start (ses_check_timer s1) \<rparr> else s1)"

definition start_session_timeout :: "ice_session \<Rightarrow> ice_session" where
  "start_session_timeout s = s\<lparr> ses_timeout_timer := timer_start (ses_timeout_timer s) \<rparr>"

definition begin_checks :: "asio_env \<Rightarrow> ice_session \<Rightarrow> ice_session" where
  "begin_checks W s = send_next_check W (start_session_timeout (form_check_list (transition St_Checking s)))"

subsection \<open>Gathering\<close>

definition gathering_complete :: "asio_env \<Rightarrow> ice_session \<Rightarrow> ice_session" where
  "gathering_complete W s =
     (if ses_state s \<noteq> St_Gathering then s
      else put_out On_gathered (if ses_remote_candidates s = [] then transition St_WaitingRemote s else begin_checks W s))"

definition on_srflx_result :: "asio_env \<Rightarrow> stun_address option \<Rightarrow> ice_session \<Rightarrow> ice_session" where
  "on_srflx_result W addr s =
     gathering_complete W
       (case addr of
          Some a \<Rightarrow> s\<lparr> ses_local_candidates := ses_local_candidates s
             @ [default_candidate\<lparr> ca_type := Srflx, ca_endpoint := (sa_ip a, sa_port a), ca_priority := compute_priority Srflx 65534 \<rparr>] \<rparr>
        | None \<Rightarrow> s)"

text \<open>
  \<open>resolve\<close> may call its callback before it returns (no address for the server, nothing sent);
  the callback then tries the next server. The client is idle whenever a server is tried, so that
  the callback is called at most once and with no address.
\<close>

function try_next_stun_server :: "asio_env \<Rightarrow> ice_session \<Rightarrow> ice_session" where
  "try_next_stun_server W s =
     (if ses_stun_try_idx s \<ge> length (ic_stun_servers (ses_config s)) then on_srflx_result W None s
      else let (host, port) = ic_stun_servers (ses_config s) ! ses_stun_try_idx s;
               (txn, s1) = ses_draw W 12 s;
               (c, sent, calls) = resolve (client_env W s1) txn host port () (ses_stun_client s1);
               s2 = put_sends sent (s1\<lparr> ses_stun_client := c \<rparr>)
           in if calls = [] then s2 else try_next_stun_server W (s2\<lparr> ses_stun_try_idx := ses_stun_try_idx s2 + 1 \<rparr>))"
  by pat_completeness auto
termination
  by (relation "measure (\<lambda>(W, s). length (ic_stun_servers (ses_config s)) - ses_stun_try_idx s)")
    (auto simp: ses_draw_def put_sends_def)

declare try_next_stun_server.simps [simp del]

definition stun_callback :: "asio_env \<Rightarrow> stun_address option \<Rightarrow> ice_session \<Rightarrow> ice_session" where
  "stun_callback W addr s =
     (case addr of Some a \<Rightarrow> on_srflx_result W (Some a) s
      | None \<Rightarrow> try_next_stun_server W (s\<lparr> ses_stun_try_idx := ses_stun_try_idx s + 1 \<rparr>))"

definition run_calls :: "asio_env \<Rightarrow> unit calls \<Rightarrow> ice_session \<Rightarrow> ice_session" where
  "run_calls W calls s = foldl (\<lambda>s (_, addr). stun_callback W addr s) s calls"

fun probe_local_addr :: "asio_env \<Rightarrow> (string \<times> u16) list \<Rightarrow> ip_address" where
  "probe_local_addr W [] = V4 [0, 0, 0, 0]"
| "probe_local_addr W ((host, port) # srvs) =
     (case w_resolve W host port of None \<Rightarrow> probe_local_addr W srvs
      | Some ep \<Rightarrow> (case w_probe W ep of Some a \<Rightarrow> a | None \<Rightarrow> probe_local_addr W srvs))"

definition is_unspecified :: "ip_address \<Rightarrow> bool" where
  "is_unspecified a = list_all (\<lambda>b. b = 0) (ip_bytes a)"

definition gather_host_candidates :: "asio_env \<Rightarrow> ice_session \<Rightarrow> ice_session" where
  "gather_host_candidates W s =
     (let a0 = probe_local_addr W (ic_stun_servers (ses_config s));
          a = (if is_unspecified a0 then V4 [127, 0, 0, 1] else a0)
      in s\<lparr> ses_local_candidates := ses_local_candidates s
           @ [default_candidate\<lparr> ca_type := Host, ca_endpoint := (a, w_local_port W), ca_priority := compute_priority Host 65535 \<rparr>] \<rparr>)"

definition start_recv_loop :: "ice_session \<Rightarrow> ice_session" where
  "start_recv_loop s = (if ses_recv_active s \<or> ses_closed s then s else s\<lparr> ses_recv_active := True \<rparr>)"

definition gather_srflx :: "asio_env \<Rightarrow> ice_session \<Rightarrow> ice_session" where
  "gather_srflx W s = try_next_stun_server W (start_recv_loop (s\<lparr> ses_stun_try_idx := 0 \<rparr>))"

definition gather :: "asio_env \<Rightarrow> ice_session \<Rightarrow> ice_session" where
  "gather W s = (if ses_state s \<noteq> St_New then s
     else gather_srflx W (gather_host_candidates W (transition St_Gathering s)))"

subsection \<open>Remote candidates\<close>

definition set_remote :: "asio_env \<Rightarrow> ice_signal_data \<Rightarrow> ice_candidate_wire list \<Rightarrow> ice_session \<Rightarrow> ice_session" where
  "set_remote W remote candidates s =
     (let s1 = s\<lparr> ses_remote_creds := \<lparr> cr_ufrag = cstr (sd_ufrag remote), cr_pwd = cstr (sd_pwd remote) \<rparr>,
                  ses_remote_candidates := map wire_to_candidate candidates \<rparr>
      in if ses_state s1 = St_WaitingRemote then begin_checks W s1 else s1)"

definition start_checks :: "asio_env \<Rightarrow> ice_session \<Rightarrow> ice_session" where
  "start_checks W s =
     (if ses_state s = St_WaitingRemote \<and> ses_remote_candidates s \<noteq> [] then begin_checks W s else s)"

subsection \<open>Keepalive, nomination, data\<close>

definition send_keepalive :: "asio_env \<Rightarrow> ice_session \<Rightarrow> ice_session" where
  "send_keepalive W s =
     (if \<not> ses_nominated s \<or> ses_closed s \<or> ses_state s \<noteq> St_Connected then s
      else let (txn, s1) = ses_draw W 12 s;
               prio = (case ses_local_candidates s of [] \<Rightarrow> 0 | c # _ \<Rightarrow> ca_priority c);
               s2 = send_built W (ses_remote_ep s)
                 (build_check_request (w_hmac W) txn (check_username s) (cr_pwd (ses_remote_creds s)) prio
                    False (ses_controlling s) (ses_tie_breaker s)) (s1\<lparr> ses_keepalive_txn := txn \<rparr>)
           in s2\<lparr> ses_consent_missed := ses_consent_missed s2 + 1, ses_keepalive_timer := timer_start (ses_keepalive_timer s2) \<rparr>)"

definition start_keepalive :: "asio_env \<Rightarrow> ice_session \<Rightarrow> ice_session" where
  "start_keepalive W s = send_keepalive W (s\<lparr> ses_consent_missed := 0 \<rparr>)"

definition on_keepalive_response :: "ice_session \<Rightarrow> ice_session" where
  "on_keepalive_response s = s\<lparr> ses_consent_missed := 0 \<rparr>"

definition nominate :: "asio_env \<Rightarrow> nat \<Rightarrow> ice_session \<Rightarrow> ice_session" where
  "nominate W pair_idx s =
     (if ses_nominated s \<or> pair_idx \<ge> length (ses_check_list s) then s
      else put_out On_connected (start_keepalive W (transition St_Connected
             (s\<lparr> ses_nominated := True, ses_remote_ep := ca_endpoint (cp_remote (ses_check_list s ! pair_idx)),
                 ses_check_timer := timer_cancel (ses_check_timer s),
                 ses_timeout_timer := timer_cancel (ses_timeout_timer s) \<rparr>))))"

definition ses_send :: "asio_env \<Rightarrow> bytes \<Rightarrow> ice_session \<Rightarrow> ice_session" where
  "ses_send W data s =
     (if \<not> ses_nominated s \<or> ses_state s \<noteq> St_Connected \<or> ses_closed s then s else send_to W (ses_remote_ep s) data s)"

subsection \<open>Receiving\<close>

fun find_index :: "('a \<Rightarrow> bool) \<Rightarrow> 'a list \<Rightarrow> nat option" where
  "find_index P [] = None"
| "find_index P (x # xs) = (if P x then Some 0 else map_option Suc (find_index P xs))"

definition set_pair_state :: "nat \<Rightarrow> pair_state \<Rightarrow> ice_session \<Rightarrow> ice_session" where
  "set_pair_state i st s = s\<lparr> ses_check_list := (ses_check_list s)[i := (ses_check_list s ! i)\<lparr> cp_state := st \<rparr>] \<rparr>"

definition handle_stun_response :: "asio_env \<Rightarrow> bytes \<Rightarrow> ice_session \<Rightarrow> ice_session" where
  "handle_stun_response W data s =
     (case parse_binding_response data of None \<Rightarrow> s
      | Some res \<Rightarrow>
          if ses_nominated s \<and> sr_txn_id res = ses_keepalive_txn s then on_keepalive_response s
          else (case find_index (\<lambda>p. cp_state p = Pair_InProgress \<and> cp_check_txn p = sr_txn_id res) (ses_check_list s) of
                  None \<Rightarrow> s
                | Some i \<Rightarrow>
                    let s1 = set_pair_state i Pair_Succeeded s
                    in if ses_controlling s1 \<and> \<not> ses_nominated s1 then nominate W i s1 else s1))"

definition peer_reflexive :: "asio_env \<Rightarrow> udp_endpoint \<Rightarrow> stun_request \<Rightarrow> ice_session \<Rightarrow> candidate_pair" where
  "peer_reflexive W from req s =
     (let l = (case ses_local_candidates s of [] \<Rightarrow> default_candidate | c # _ \<Rightarrow> c);
          rc = default_candidate\<lparr> ca_type := Host, ca_endpoint := from, ca_priority := rq_priority req \<rparr>
      in (mk_pair (ses_controlling s) l rc)\<lparr> cp_state := Pair_Succeeded \<rparr>)"

definition handle_stun_request :: "asio_env \<Rightarrow> udp_endpoint \<Rightarrow> bytes \<Rightarrow> bytes \<Rightarrow> ice_session \<Rightarrow> ice_session" where
  "handle_stun_request W from data beyond s =
     (case parse_binding_request (w_hmac W) data beyond (cr_pwd (ses_local_creds s)) of
        Inl e \<Rightarrow> s\<lparr> ses_fault := Some e \<rparr>
      | Inr None \<Rightarrow> s
      | Inr (Some req) \<Rightarrow>
          let s1 = send_built W from (build_check_response (w_hmac W) (rq_txn_id req)
                     \<lparr> sa_ip = fst from, sa_port = snd from \<rparr> (cr_pwd (ses_local_creds s))) s
          in if rq_use_candidate req \<and> \<not> ses_controlling s1 \<and> \<not> ses_nominated s1
             then (case find_index (\<lambda>p. ca_endpoint (cp_remote p) = from) (ses_check_list s1) of
                     Some i \<Rightarrow> nominate W i (set_pair_state i Pair_Succeeded s1)
                   | None \<Rightarrow>
                       let s2 = s1\<lparr> ses_check_list := ses_check_list s1 @ [peer_reflexive W from req s1] \<rparr>
                       in nominate W (length (ses_check_list s2) - 1) s2)
             else s1)"

definition handle_stun_packet :: "asio_env \<Rightarrow> udp_endpoint \<Rightarrow> bytes \<Rightarrow> bytes \<Rightarrow> ice_session \<Rightarrow> ice_session" where
  "handle_stun_packet W from data beyond s =
     (if length data < STUN_HEADER_SIZE then s
      else let msg_type = read_u16 data
           in if msg_type = STUN_BINDING_RESPONSE then handle_stun_response W data s
              else if msg_type = STUN_BINDING_REQUEST then handle_stun_request W from data beyond s
              else s)"

text \<open>
  The datagram has been written over the start of \<open>recv_buf_\<close>; what follows it there is left
  from earlier ones.
\<close>

definition on_recv :: "asio_env \<Rightarrow> udp_endpoint \<Rightarrow> bytes \<Rightarrow> ice_session \<Rightarrow> ice_session" where
  "on_recv W from data s0 =
     (let beyond = drop (length data) (ses_recv_buf s0);
          s = s0\<lparr> ses_recv_buf := data @ beyond \<rparr>;
          (taken, c, calls) = feed data (ses_stun_client s)
      in if taken then run_calls W calls (s\<lparr> ses_stun_client := c \<rparr>)
         else if is_stun_packet data then handle_stun_packet W from data beyond s
         else if ses_nominated s \<and> ses_state s = St_Connected then put_out (On_data data) s
         else s)"

subsection \<open>Timer handlers, closing\<close>

definition on_timeout :: "ice_session \<Rightarrow> ice_session" where
  "on_timeout s = (if ses_state s = St_Checking \<and> \<not> ses_nominated s then fail_session s else s)"

definition on_keepalive_timer :: "asio_env \<Rightarrow> ice_session \<Rightarrow> ice_session" where
  "on_keepalive_timer W s =
     (if ses_consent_missed s \<ge> ic_consent_max_failures (ses_config s)
      then fail_session (s\<lparr> ses_keepalive_timer := timer_cancel (ses_keepalive_timer s) \<rparr>)
      else send_keepalive W s)"

definition on_stun_timer :: "asio_env \<Rightarrow> ice_session \<Rightarrow> ice_session" where
  "on_stun_timer W s =
     (let (txn, s1) = ses_draw W 12 s;
          (c, sent, calls) = on_retry (client_env W s1) txn (ses_stun_client s1)
      in run_calls W calls (put_sends sent (s1\<lparr> ses_stun_client := c \<rparr>)))"

definition ses_close :: "asio_env \<Rightarrow> ice_session \<Rightarrow> ice_session" where
  "ses_close W s =
     (if ses_closed s then s
      else let (c, calls) = sc_cancel (ses_stun_client s);
               s1 = run_calls W calls (s\<lparr> ses_closed := True, ses_stun_client := c \<rparr>)
           in s1\<lparr> ses_check_timer := timer_cancel (ses_check_timer s1), ses_timeout_timer := timer_cancel (ses_timeout_timer s1),
                  ses_keepalive_timer := timer_cancel (ses_keepalive_timer s1), ses_socket_open := False \<rparr>)"

subsection \<open>Signal data\<close>

definition serialize_signal :: "ice_session \<Rightarrow> bytes" where
  "serialize_signal s =
     ice_signal_data_enc \<lparr> sd_ufrag = pad_to 16 (bytes_of_string (cr_ufrag (ses_local_creds s))),
       sd_pwd = pad_to 24 (bytes_of_string (cr_pwd (ses_local_creds s))),
       sd_candidate_count = word_of_nat (length (ses_local_candidates s)), sd_pad = 0 \<rparr>
     @ concat (map (\<lambda>c. ice_candidate_wire_enc (candidate_to_wire c)) (ses_local_candidates s))"

subsection \<open>Events\<close>

datatype ice_event =
    Ev_gather | Ev_set_remote ice_signal_data "ice_candidate_wire list" | Ev_start_checks | Ev_send bytes | Ev_close
  | Ev_receive udp_endpoint bytes | Ev_receive_error bool | Ev_time
  | Ev_check_timer | Ev_timeout_timer | Ev_keepalive_timer | Ev_stun_timer

text \<open>
  \<open>Ev_time\<close> lets pending waits expire; a timer event runs one queued handler. The receive
  handler runs while the receive loop is active and the socket open. The fields of a received
  \<open>IceSignalData\<close> have their sizes.
\<close>

definition ice_enabled :: "ice_event \<Rightarrow> ice_session \<Rightarrow> bool" where
  "ice_enabled ev s =
     (case ev of
        Ev_set_remote d _ \<Rightarrow> ice_signal_data_wf d
      | Ev_receive _ data \<Rightarrow> ses_recv_active s \<and> ses_socket_open s \<and> length data \<le> 65536
      | Ev_receive_error _ \<Rightarrow> ses_recv_active s
      | Ev_check_timer \<Rightarrow> 0 < t_queued (ses_check_timer s)
      | Ev_timeout_timer \<Rightarrow> 0 < t_queued (ses_timeout_timer s)
      | Ev_keepalive_timer \<Rightarrow> 0 < t_queued (ses_keepalive_timer s)
      | Ev_stun_timer \<Rightarrow> 0 < t_queued (sc_timer (ses_stun_client s))
      | _ \<Rightarrow> True)"

definition ice_step :: "asio_env \<Rightarrow> ice_event \<Rightarrow> ice_session \<Rightarrow> ice_session" where
  "ice_step W ev s =
     (case ev of
        Ev_gather \<Rightarrow> gather W s
      | Ev_set_remote d cs \<Rightarrow> set_remote W d cs s
      | Ev_start_checks \<Rightarrow> start_checks W s
      | Ev_send data \<Rightarrow> ses_send W data s
      | Ev_close \<Rightarrow> ses_close W s
      | Ev_receive from data \<Rightarrow> on_recv W from data s
      | Ev_receive_error aborted \<Rightarrow> (if aborted then s else s\<lparr> ses_recv_active := False \<rparr>)
      | Ev_time \<Rightarrow> s\<lparr> ses_check_timer := timer_expire (ses_check_timer s), ses_timeout_timer := timer_expire (ses_timeout_timer s),
                    ses_keepalive_timer := timer_expire (ses_keepalive_timer s),
                    ses_stun_client := (ses_stun_client s)\<lparr> sc_timer := timer_expire (sc_timer (ses_stun_client s)) \<rparr> \<rparr>
      | Ev_check_timer \<Rightarrow> send_next_check W (s\<lparr> ses_check_timer := timer_take (ses_check_timer s) \<rparr>)
      | Ev_timeout_timer \<Rightarrow> on_timeout (s\<lparr> ses_timeout_timer := timer_take (ses_timeout_timer s) \<rparr>)
      | Ev_keepalive_timer \<Rightarrow> on_keepalive_timer W (s\<lparr> ses_keepalive_timer := timer_take (ses_keepalive_timer s) \<rparr>)
      | Ev_stun_timer \<Rightarrow> on_stun_timer W
          (s\<lparr> ses_stun_client := (ses_stun_client s)\<lparr> sc_timer := timer_take (sc_timer (ses_stun_client s)) \<rparr> \<rparr>))"

inductive ice_reach :: "asio_env \<Rightarrow> ice_session \<Rightarrow> bool" for W where
  new: "ice_reach W (new_session W n peer controlling config)"
| step: "ice_reach W s \<Longrightarrow> ice_enabled ev s \<Longrightarrow> ice_reach W (ice_step W ev s)"

end
