(* ===== verification/Ice_Safety.thy ===== *)
theory Ice_Safety
  imports Ice_Session
begin

section \<open>ICE sessions: invariant, nomination, consent\<close>

text \<open>
  An invariant of every reachable session, what a connectivity check does at both ends, how a
  silent peer is given up, and three ways in which a session does what it should not.
\<close>

subsection \<open>The invariant\<close>

definition asio_ok :: "asio_env \<Rightarrow> bool" where
  "asio_ok W \<longleftrightarrow> hmac_sized (w_hmac W) \<and> (\<forall>n k. length (w_rand W n k) = k)"

lemma asio_okD [simp]: "asio_ok W \<Longrightarrow> hmac_sized (w_hmac W)" "asio_ok W \<Longrightarrow> length (w_rand W n k) = k"
  by (simp_all add: asio_ok_def)

definition creds_ok :: "ice_session \<Rightarrow> bool" where
  "creds_ok s \<longleftrightarrow> length (cr_ufrag (ses_local_creds s)) = 16 \<and> length (cr_ufrag (ses_remote_creds s)) \<le> 16"

definition ses_inv :: "ice_session \<Rightarrow> bool" where
  "ses_inv s \<longleftrightarrow> (ses_state s = St_Connected \<longrightarrow> ses_nominated s)
     \<and> (ses_nominated s \<longrightarrow> ses_state s = St_Connected \<or> ses_state s = St_Failed)
     \<and> count_list (ses_out s) On_connected = of_bool (ses_nominated s)
     \<and> creds_ok s \<and> ses_fault s \<noteq> Some Write_past_end"

lemma ses_inv_put_out: "x \<noteq> On_connected \<Longrightarrow> ses_inv (put_out x s) = ses_inv s"
  by (simp add: ses_inv_def put_out_def creds_ok_def)

lemma ses_inv_send_to [simp]: "ses_inv (send_to W ep pkt s) = ses_inv s"
  by (simp add: send_to_def ses_inv_put_out)

lemma send_fields [simp]:
  "ses_state (send_to W ep pkt s) = ses_state s" "ses_nominated (send_to W ep pkt s) = ses_nominated s"
  "ses_closed (send_to W ep pkt s) = ses_closed s" "ses_check_list (send_to W ep pkt s) = ses_check_list s"
  "ses_controlling (send_to W ep pkt s) = ses_controlling s" "ses_remote_ep (send_to W ep pkt s) = ses_remote_ep s"
  "ses_local_creds (send_to W ep pkt s) = ses_local_creds s" "ses_remote_creds (send_to W ep pkt s) = ses_remote_creds s"
  "ses_local_candidates (send_to W ep pkt s) = ses_local_candidates s" "ses_consent_missed (send_to W ep pkt s) = ses_consent_missed s"
  "ses_keepalive_timer (send_to W ep pkt s) = ses_keepalive_timer s" "ses_config (send_to W ep pkt s) = ses_config s"
  by (simp_all add: send_to_def put_out_def)

lemma send_built_fields [simp]:
  "ses_state (send_built W ep m s) = ses_state s" "ses_nominated (send_built W ep m s) = ses_nominated s"
  "ses_closed (send_built W ep m s) = ses_closed s" "ses_check_list (send_built W ep m s) = ses_check_list s"
  "ses_controlling (send_built W ep m s) = ses_controlling s" "ses_remote_ep (send_built W ep m s) = ses_remote_ep s"
  "ses_local_creds (send_built W ep m s) = ses_local_creds s" "ses_remote_creds (send_built W ep m s) = ses_remote_creds s"
  "ses_local_candidates (send_built W ep m s) = ses_local_candidates s"
  "ses_consent_missed (send_built W ep m s) = ses_consent_missed s"
  "ses_keepalive_timer (send_built W ep m s) = ses_keepalive_timer s" "ses_config (send_built W ep m s) = ses_config s"
  by (simp_all add: send_built_def split: sum.splits)

lemma build_request_ok:
  assumes "asio_ok W" "creds_ok s" "length txn = 12"
  shows "\<exists>pkt. build_check_request (w_hmac W) txn (check_username s) pw prio uc ctl tb = Inr pkt"
  using build_check_request_seals [of "w_hmac W" txn "check_username s"] assms
  by (simp add: creds_ok_def check_username_def)

lemma append_attr_fixed [simp]:
  "append_attr t v 8 b = Inr (b @ write_u16 t @ write_u16 8 @ take 8 v)"
  "append_attr t v 20 b = Inr (b @ write_u16 t @ write_u16 20 @ take 20 v)"
  by (simp_all add: append_attr_def attr_pad_def Let_def)

lemma append_integrity_no_fault: "\<exists>m. append_integrity_and_fingerprint hmac pw b = Inr m"
  by (simp add: append_integrity_and_fingerprint_def Let_def STUN_HMAC_SIZE_def)

lemma build_response_ok: "\<exists>pkt. build_check_response hmac txn a pw = Inr pkt"
  using append_integrity_no_fault by (simp add: build_check_response_def Let_def split: ip_address.splits)

lemma ses_inv_send_built: "\<exists>pkt. m = Inr pkt \<Longrightarrow> ses_inv (send_built W ep m s) = ses_inv s"
  by (auto simp: send_built_def)

lemma ses_inv_same [simp]:
  "ses_inv (s\<lparr> ses_check_list := a \<rparr>) = ses_inv s" "ses_inv (s\<lparr> ses_draws := n \<rparr>) = ses_inv s"
  "ses_inv (s\<lparr> ses_next_check_idx := n \<rparr>) = ses_inv s" "ses_inv (s\<lparr> ses_check_timer := t \<rparr>) = ses_inv s"
  "ses_inv (s\<lparr> ses_timeout_timer := t \<rparr>) = ses_inv s" "ses_inv (s\<lparr> ses_keepalive_timer := t \<rparr>) = ses_inv s"
  "ses_inv (s\<lparr> ses_local_candidates := b \<rparr>) = ses_inv s" "ses_inv (s\<lparr> ses_stun_try_idx := n \<rparr>) = ses_inv s"
  "ses_inv (s\<lparr> ses_stun_client := c \<rparr>) = ses_inv s" "ses_inv (s\<lparr> ses_recv_active := x \<rparr>) = ses_inv s"
  "ses_inv (s\<lparr> ses_consent_missed := i \<rparr>) = ses_inv s" "ses_inv (s\<lparr> ses_keepalive_txn := tx \<rparr>) = ses_inv s"
  "ses_inv (s\<lparr> ses_recv_buf := bs \<rparr>) = ses_inv s" "ses_inv (s\<lparr> ses_closed := x \<rparr>) = ses_inv s"
  "ses_inv (s\<lparr> ses_socket_open := x \<rparr>) = ses_inv s" "ses_inv (s\<lparr> ses_remote_candidates := b \<rparr>) = ses_inv s"
  "ses_inv (s\<lparr> ses_fault := Some Read_past_end \<rparr>) = (ses_inv (s\<lparr> ses_fault := None \<rparr>))"
  "ses_inv (put_sends sent s) = ses_inv s"
proof -
  have "count_list (map (\<lambda>(ep, pkt). Datagram ep pkt) sent) On_connected = 0" by (induction sent) auto
  then show "ses_inv (put_sends sent s) = ses_inv s" by (simp add: ses_inv_def put_sends_def creds_ok_def)
qed (simp_all add: ses_inv_def creds_ok_def)

lemma ses_inv_creds: "ses_inv s \<Longrightarrow> creds_ok s"
  by (simp add: ses_inv_def)

lemma ses_inv_transition: "ses_inv s \<Longrightarrow> \<not> ses_nominated s \<Longrightarrow> st \<noteq> St_Connected \<Longrightarrow> ses_inv (transition st s)"
  by (simp add: ses_inv_def transition_def creds_ok_def)

lemma ses_inv_fail: "ses_inv s \<Longrightarrow> ses_inv (fail_session s)"
  by (auto simp: ses_inv_def fail_session_def transition_def put_out_def creds_ok_def)

lemma not_nominated: "ses_inv s \<Longrightarrow> ses_state s \<noteq> St_Connected \<Longrightarrow> ses_state s \<noteq> St_Failed \<Longrightarrow> \<not> ses_nominated s"
  by (auto simp: ses_inv_def)

lemma ses_inv_check_pair:
  assumes "asio_ok W" "ses_inv s"
  shows "ses_inv (check_pair W i s)"
proof -
  have "\<exists>pkt. build_check_request (w_hmac W) (w_rand W (ses_draws s) 12) (check_username s) pw prio uc ctl tb = Inr pkt" for pw prio uc ctl tb
    using assms by (intro build_request_ok) (simp_all add: ses_inv_creds)
  then show ?thesis using assms(2) by (simp add: check_pair_def ses_draw_def Let_def ses_inv_send_built)
qed

lemma ses_inv_send_next_check: "asio_ok W \<Longrightarrow> ses_inv s \<Longrightarrow> ses_inv (send_next_check W s)"
  by (simp add: send_next_check_def Let_def ses_inv_check_pair ses_inv_fail)

lemma ses_inv_begin_checks:
  "asio_ok W \<Longrightarrow> ses_inv s \<Longrightarrow> \<not> ses_nominated s \<Longrightarrow> ses_inv (begin_checks W s)"
  using ses_inv_transition [of s St_Checking]
  by (simp add: begin_checks_def ses_inv_send_next_check start_session_timeout_def form_check_list_def)

lemma ses_inv_gathering_complete: "asio_ok W \<Longrightarrow> ses_inv s \<Longrightarrow> ses_inv (gathering_complete W s)"
  using not_nominated [of s]
  by (simp add: gathering_complete_def ses_inv_put_out ses_inv_begin_checks ses_inv_transition)

lemma ses_inv_on_srflx_result: "asio_ok W \<Longrightarrow> ses_inv s \<Longrightarrow> ses_inv (on_srflx_result W a s)"
  by (simp add: on_srflx_result_def ses_inv_gathering_complete split: option.splits)

lemma try_next_keeps:
  assumes srflx: "\<And>s. P s \<Longrightarrow> P (on_srflx_result W None s)"
    and query: "\<And>s d sent c. P s \<Longrightarrow> P (put_sends sent (s\<lparr> ses_draws := d, ses_stun_client := c \<rparr>))"
    and idx: "\<And>s i. P s \<Longrightarrow> P (s\<lparr> ses_stun_try_idx := i \<rparr>)"
  shows "P s \<Longrightarrow> P (try_next_stun_server W s)"
proof (induction s rule: measure_induct_rule [of "\<lambda>s. length (ic_stun_servers (ses_config s)) - ses_stun_try_idx s"])
  case (less s)
  show ?case
  proof (cases "ses_stun_try_idx s \<ge> length (ic_stun_servers (ses_config s))")
    case True
    then show ?thesis using srflx [OF less.prems] by (simp add: try_next_stun_server.simps)
  next
    case False
    obtain host port where hp: "ic_stun_servers (ses_config s) ! ses_stun_try_idx s = (host, port)" by fastforce
    let ?s1 = "s\<lparr> ses_draws := ses_draws s + 1 \<rparr>"
    obtain c sent calls where r: "resolve (client_env W ?s1) (w_rand W (ses_draws s) 12) host port () (ses_stun_client s) = (c, sent, calls)"
      using prod_cases3 by blast
    let ?s2 = "put_sends sent (?s1\<lparr> ses_stun_client := c \<rparr>)"
    let ?s3 = "?s2\<lparr> ses_stun_try_idx := ses_stun_try_idx ?s2 + 1 \<rparr>"
    have t: "try_next_stun_server W s = (if calls = [] then ?s2 else try_next_stun_server W ?s3)"
      using False hp r by (subst try_next_stun_server.simps) (simp add: ses_draw_def Let_def)
    have p2: "P ?s2" using query [OF less.prems, where sent = sent and d = "ses_draws s + 1" and c = c] by simp
    have "length (ic_stun_servers (ses_config ?s3)) - ses_stun_try_idx ?s3 < length (ic_stun_servers (ses_config s)) - ses_stun_try_idx s"
      using False by (simp add: put_sends_def)
    then have "P (try_next_stun_server W ?s3)" using less.IH idx [OF p2] by blast
    then show ?thesis using t p2 by simp
  qed
qed

lemma ses_inv_try_next: "asio_ok W \<Longrightarrow> ses_inv s \<Longrightarrow> ses_inv (try_next_stun_server W s)"
  by (rule try_next_keeps) (simp_all add: ses_inv_on_srflx_result)

lemma ses_inv_stun_callback: "asio_ok W \<Longrightarrow> ses_inv s \<Longrightarrow> ses_inv (stun_callback W a s)"
  by (simp add: stun_callback_def ses_inv_on_srflx_result ses_inv_try_next split: option.splits)

lemma ses_inv_run_calls: "asio_ok W \<Longrightarrow> ses_inv s \<Longrightarrow> ses_inv (run_calls W calls s)"
  unfolding run_calls_def by (induction calls arbitrary: s) (auto simp: ses_inv_stun_callback)

lemma ses_inv_send_keepalive:
  assumes "asio_ok W" "ses_inv s"
  shows "ses_inv (send_keepalive W s)"
proof -
  have "\<exists>pkt. build_check_request (w_hmac W) (w_rand W (ses_draws s) 12) (check_username s) pw prio uc ctl tb = Inr pkt" for pw prio uc ctl tb
    using assms by (intro build_request_ok) (simp_all add: ses_inv_creds)
  then show ?thesis using assms(2) by (simp add: send_keepalive_def ses_draw_def Let_def ses_inv_send_built)
qed

lemma send_keepalive_fields [simp]:
  "ses_state (send_keepalive W s) = ses_state s" "ses_nominated (send_keepalive W s) = ses_nominated s"
  "ses_remote_ep (send_keepalive W s) = ses_remote_ep s" "ses_config (send_keepalive W s) = ses_config s"
  "ses_closed (send_keepalive W s) = ses_closed s"
  by (simp_all add: send_keepalive_def ses_draw_def Let_def)

text \<open>
  Nomination passes through a state that is connected and has not reported it yet.
\<close>

lemma count_send_to: "count_list (ses_out (send_to W ep pkt s)) On_connected = count_list (ses_out s) On_connected"
  by (simp add: send_to_def put_out_def)

lemma count_send_built: "count_list (ses_out (send_built W ep m s)) On_connected = count_list (ses_out s) On_connected"
  by (simp add: send_built_def count_send_to split: sum.splits)

lemma count_send_keepalive: "count_list (ses_out (send_keepalive W s)) On_connected = count_list (ses_out s) On_connected"
  by (simp add: send_keepalive_def ses_draw_def Let_def count_send_built)

lemma send_keepalive_creds: "creds_ok (send_keepalive W s) = creds_ok s"
  by (simp add: send_keepalive_def ses_draw_def Let_def creds_ok_def)

lemma fault_send_built: "\<exists>pkt. m = Inr pkt \<Longrightarrow> ses_fault (send_built W ep m s) = ses_fault s"
  by (auto simp: send_built_def send_to_def put_out_def)

lemma fault_send_keepalive:
  assumes "asio_ok W" "creds_ok s"
  shows "ses_fault (send_keepalive W s) = ses_fault s"
proof -
  have "\<exists>pkt. build_check_request (w_hmac W) (w_rand W (ses_draws s) 12) (check_username s) pw prio uc ctl tb = Inr pkt" for pw prio uc ctl tb
    using assms by (intro build_request_ok) simp_all
  then show ?thesis by (simp add: send_keepalive_def ses_draw_def Let_def fault_send_built)
qed

lemma ses_inv_nominate:
  assumes "asio_ok W" "ses_inv s"
  shows "ses_inv (nominate W i s)"
proof (cases "ses_nominated s \<or> i \<ge> length (ses_check_list s)")
  case False
  define s1 where "s1 = (transition St_Connected (s\<lparr> ses_nominated := True,
    ses_remote_ep := ca_endpoint (cp_remote (ses_check_list s ! i)), ses_check_timer := timer_cancel (ses_check_timer s),
    ses_timeout_timer := timer_cancel (ses_timeout_timer s) \<rparr>))\<lparr> ses_consent_missed := 0 \<rparr>"
  have n: "nominate W i s = put_out On_connected (send_keepalive W s1)"
    using False by (simp add: nominate_def start_keepalive_def s1_def)
  have s1: "ses_state s1 = St_Connected" "ses_nominated s1" "creds_ok s1" "ses_fault s1 \<noteq> Some Write_past_end"
    "count_list (ses_out s1) On_connected = 0"
    using assms(2) False by (simp_all add: s1_def transition_def ses_inv_def creds_ok_def)
  have "creds_ok (put_out On_connected (send_keepalive W s1))"
    using send_keepalive_creds [of W s1] s1(3) by (simp add: creds_ok_def put_out_def)
  then show ?thesis
    unfolding n using s1 fault_send_keepalive [OF assms(1) s1(3)]
    by (simp add: ses_inv_def put_out_def count_send_keepalive)
qed (use assms in \<open>simp add: nominate_def\<close>)

lemma ses_inv_set_pair_state [simp]: "ses_inv (set_pair_state i st s) = ses_inv s"
  by (simp add: set_pair_state_def)

lemma ses_inv_response: "asio_ok W \<Longrightarrow> ses_inv s \<Longrightarrow> ses_inv (handle_stun_response W data s)"
  by (simp add: handle_stun_response_def on_keepalive_response_def Let_def ses_inv_nominate split: option.splits)

lemma ses_inv_request:
  assumes "asio_ok W" "ses_inv s"
  shows "ses_inv (handle_stun_request W from data beyond s)"
proof (cases "parse_binding_request (w_hmac W) data beyond (cr_pwd (ses_local_creds s))")
  case (Inl e)
  then have "e = Read_past_end"
    by (auto simp: parse_binding_request_def check_integrity_def and_then_def Let_def
        split: option.splits prod.splits if_splits sum.splits)
  then show ?thesis using Inl assms(2) by (simp add: handle_stun_request_def ses_inv_def creds_ok_def)
next
  case (Inr q)
  have "ses_inv (send_built W from (build_check_response (w_hmac W) t a p) s)" for t a p
    using assms(2) ses_inv_send_built [OF build_response_ok] by simp
  then show ?thesis using Inr assms
    by (simp add: handle_stun_request_def Let_def ses_inv_nominate split: option.splits)
qed

lemma ses_inv_on_recv: "asio_ok W \<Longrightarrow> ses_inv s \<Longrightarrow> ses_inv (on_recv W from data s)"
  by (simp add: on_recv_def handle_stun_packet_def Let_def ses_inv_run_calls ses_inv_response ses_inv_request
      ses_inv_put_out split: prod.splits)

lemma ses_inv_set_remote:
  assumes "asio_ok W" "ses_inv s" "length (sd_ufrag d) \<le> 16"
  shows "ses_inv (set_remote W d cs s)"
proof -
  have "length (cstr (sd_ufrag d)) \<le> 16"
    using assms(3) length_takeWhile_le [of "\<lambda>b. b \<noteq> 0" "sd_ufrag d"] by (simp add: cstr_def string_of_bytes_def)
  then have "ses_inv (s\<lparr> ses_remote_creds := \<lparr> cr_ufrag = cstr (sd_ufrag d), cr_pwd = cstr (sd_pwd d) \<rparr>,
      ses_remote_candidates := map wire_to_candidate cs \<rparr>)" (is "ses_inv ?s1")
    using assms(2) by (simp add: ses_inv_def creds_ok_def)
  then show ?thesis using assms(1,2) not_nominated [of s]
    by (simp add: set_remote_def Let_def ses_inv_begin_checks)
qed

lemma ses_inv_gather: "asio_ok W \<Longrightarrow> ses_inv s \<Longrightarrow> ses_inv (gather W s)"
  using not_nominated [of s] ses_inv_transition [of s St_Gathering]
  by (simp add: gather_def gather_srflx_def gather_host_candidates_def start_recv_loop_def Let_def ses_inv_try_next)

lemma ses_inv_close: "asio_ok W \<Longrightarrow> ses_inv s \<Longrightarrow> ses_inv (ses_close W s)"
  by (simp add: ses_close_def Let_def ses_inv_run_calls split: prod.splits)

lemma ses_inv_step:
  assumes W: "asio_ok W" and inv: "ses_inv s" and ev: "ice_enabled ev s"
  shows "ses_inv (ice_step W ev s)"
proof (cases ev)
  case (Ev_set_remote d cs)
  then show ?thesis using assms by (simp add: ice_step_def ice_enabled_def ice_signal_data_wf_def ses_inv_set_remote)
next
  case Ev_start_checks
  then show ?thesis using assms not_nominated [OF inv] by (simp add: ice_step_def start_checks_def ses_inv_begin_checks)
next
  case Ev_stun_timer
  then show ?thesis using assms
    by (simp add: ice_step_def on_stun_timer_def ses_draw_def ses_inv_run_calls split: prod.splits)
next
  case Ev_keepalive_timer
  then show ?thesis using assms
    by (simp add: ice_step_def on_keepalive_timer_def ses_inv_fail ses_inv_send_keepalive)
qed (use assms in \<open>simp_all add: ice_step_def ses_inv_gather ses_inv_close ses_inv_on_recv ses_send_def ses_inv_send_next_check
      on_timeout_def ses_inv_fail\<close>)

lemma ses_inv_new: "ses_inv (new_session W n peer ctl cfg)"
  by (simp add: ses_inv_def creds_ok_def new_session_def generate_credentials_def)

lemma ses_inv_reach: "ice_reach W s \<Longrightarrow> asio_ok W \<Longrightarrow> ses_inv s"
  by (induction rule: ice_reach.induct) (simp_all add: ses_inv_new ses_inv_step)

subsection \<open>One check connects both ends\<close>

lemma find_index_first:
  "i < length xs \<Longrightarrow> P (xs ! i) \<Longrightarrow> \<forall>j < i. \<not> P (xs ! j) \<Longrightarrow> find_index P xs = Some i"
proof (induction xs arbitrary: i)
  case (Cons x xs)
  then show ?case by (cases i) (auto simp: All_less_Suc2)
qed simp

lemma find_index_Some: "find_index P xs = Some i \<Longrightarrow> i < length xs \<and> P (xs ! i)"
  by (induction xs arbitrary: i) (auto split: if_splits)

lemma request_response: "STUN_BINDING_REQUEST \<noteq> STUN_BINDING_RESPONSE"
  by (simp add: STUN_BINDING_REQUEST_def STUN_BINDING_RESPONSE_def)

lemma request_not_response:
  "length txn = 12 \<Longrightarrow> parse_binding_response (stun_message STUN_BINDING_REQUEST txn as) = None"
  by (simp add: parse_binding_response_def parse_header_def stun_message_def STUN_BINDING_REQUEST_def STUN_BINDING_RESPONSE_def)

lemma feed_request:
  "length txn = 12 \<Longrightarrow> feed (stun_message STUN_BINDING_REQUEST txn as) c = (False, c, [])"
  by (simp add: feed_def request_not_response)

lemma on_recv_request:
  fixes txn :: bytes and as :: "(u16 \<times> bytes) list"
  defines "m \<equiv> stun_message STUN_BINDING_REQUEST txn as"
  assumes "length txn = 12"
  shows "on_recv W from m s = handle_stun_request W from m (drop (length m) (ses_recv_buf s))
    (s\<lparr> ses_recv_buf := m @ drop (length m) (ses_recv_buf s) \<rparr>)"
proof -
  have "is_stun_packet m" "\<not> length m < 20" "read_u16 m = STUN_BINDING_REQUEST" "feed m c = (False, c, [])" for c :: "unit stun_client"
    using assms(2) stun_message_is_stun [OF assms(2), of STUN_BINDING_REQUEST as] feed_request [OF assms(2)]
    by (simp_all add: STUN_BINDING_REQUEST_def stun_message_def m_def)
  then show ?thesis
    by (simp add: on_recv_def handle_stun_packet_def STUN_HEADER_SIZE_def request_response Let_def)
qed

lemma request_received:
  assumes "length txn = 12" "parse_binding_request (w_hmac W) (stun_message STUN_BINDING_REQUEST txn as)
      (drop (length (stun_message STUN_BINDING_REQUEST txn as)) (ses_recv_buf s)) (cr_pwd (ses_local_creds s)) = Inr (Some req)"
    and "rq_use_candidate req" "\<not> ses_controlling s" "\<not> ses_nominated s"
  shows "let s' = on_recv W from (stun_message STUN_BINDING_REQUEST txn as) s
    in ses_state s' = St_Connected \<and> ses_nominated s' \<and> ses_remote_ep s' = from"
proof -
  let ?m = "stun_message STUN_BINDING_REQUEST txn as"
  let ?b = "drop (length ?m) (ses_recv_buf s)"
  have r: "on_recv W from ?m s = handle_stun_request W from ?m ?b (s\<lparr> ses_recv_buf := ?m @ ?b \<rparr>)"
    by (rule on_recv_request) (rule assms(1))
  have n: "let s' = nominate W i x in ses_state s' = St_Connected \<and> ses_nominated s' \<and> ses_remote_ep s' = ca_endpoint (cp_remote (ses_check_list x ! i))"
    if "\<not> ses_nominated x" "i < length (ses_check_list x)" for i x
    using that by (simp add: nominate_def start_keepalive_def put_out_def transition_def)
  define s1 where "s1 = send_built W from (build_check_response (w_hmac W) (rq_txn_id req)
      \<lparr> sa_ip = fst from, sa_port = snd from \<rparr> (cr_pwd (ses_local_creds s))) (s\<lparr> ses_recv_buf := ?m @ ?b \<rparr>)"
  have s1: "\<not> ses_controlling s1" "\<not> ses_nominated s1" using assms by (simp_all add: s1_def)
  show ?thesis
  proof (cases "find_index (\<lambda>p. ca_endpoint (cp_remote p) = from) (ses_check_list s1)")
    case None
    let ?s2 = "s1\<lparr> ses_check_list := ses_check_list s1 @ [peer_reflexive W from req s1] \<rparr>"
    have "on_recv W from ?m s = nominate W (length (ses_check_list s1)) ?s2"
      using r assms(2,3) s1 None by (simp add: handle_stun_request_def s1_def Let_def)
    then show ?thesis using n [of ?s2 "length (ses_check_list s1)"] s1
      by (simp add: peer_reflexive_def mk_pair_def Let_def)
  next
    case (Some i)
    have "on_recv W from ?m s = nominate W i (set_pair_state i Pair_Succeeded s1)"
      using r assms(2,3) s1 Some by (simp add: handle_stun_request_def s1_def Let_def)
    then show ?thesis using n [of "set_pair_state i Pair_Succeeded s1" i] s1 find_index_Some [OF Some]
      by (simp add: set_pair_state_def)
  qed
qed

lemma nominate_connects:
  "\<not> ses_nominated x \<Longrightarrow> i < length (ses_check_list x) \<Longrightarrow>
     ses_state (nominate W i x) = St_Connected \<and> ses_nominated (nominate W i x)
     \<and> ses_remote_ep (nominate W i x) = ca_endpoint (cp_remote (ses_check_list x ! i))"
  by (simp add: nominate_def start_keepalive_def put_out_def transition_def)

lemma out_grows_send_built: "\<exists>new. ses_out (send_built W ep m s) = ses_out s @ new"
  by (auto simp: send_built_def send_to_def put_out_def split: sum.splits)

lemma out_grows_keepalive: "\<exists>new. ses_out (send_keepalive W s) = ses_out s @ new"
proof -
  have "\<exists>new. ses_out (send_built W ep m (s\<lparr> ses_draws := d, ses_keepalive_txn := t \<rparr>)) = ses_out s @ new" for ep m d t
    using out_grows_send_built [of W ep m "s\<lparr> ses_draws := d, ses_keepalive_txn := t \<rparr>"] by simp
  then show ?thesis by (simp add: send_keepalive_def ses_draw_def Let_def)
qed

lemma out_grows_nominate: "\<exists>new. ses_out (nominate W i s) = ses_out s @ new"
proof (cases "ses_nominated s \<or> i \<ge> length (ses_check_list s)")
  case False
  let ?s1 = "(transition St_Connected (s\<lparr> ses_nominated := True, ses_remote_ep := ca_endpoint (cp_remote (ses_check_list s ! i)),
      ses_check_timer := timer_cancel (ses_check_timer s), ses_timeout_timer := timer_cancel (ses_timeout_timer s) \<rparr>))\<lparr> ses_consent_missed := 0 \<rparr>"
  obtain new where "ses_out (send_keepalive W ?s1) = ses_out ?s1 @ new" using out_grows_keepalive by blast
  then show ?thesis using False by (simp add: nominate_def start_keepalive_def put_out_def transition_def)
qed (simp add: nominate_def)

lemma request_answered:
  assumes "length txn = 12" "parse_binding_request (w_hmac W) (stun_message STUN_BINDING_REQUEST txn as)
      (drop (length (stun_message STUN_BINDING_REQUEST txn as)) (ses_recv_buf s)) (cr_pwd (ses_local_creds s)) = Inr (Some req)"
    and "build_check_response (w_hmac W) (rq_txn_id req) \<lparr> sa_ip = fst from, sa_port = snd from \<rparr> (cr_pwd (ses_local_creds s)) = Inr resp"
    and "ses_socket_open s" "w_send_ok W from resp"
  shows "\<exists>new. ses_out (on_recv W from (stun_message STUN_BINDING_REQUEST txn as) s) = ses_out s @ Datagram from resp # new"
proof -
  let ?m = "stun_message STUN_BINDING_REQUEST txn as"
  let ?b = "drop (length ?m) (ses_recv_buf s)"
  let ?s1 = "put_out (Datagram from resp) (s\<lparr> ses_recv_buf := ?m @ ?b \<rparr>)"
  have s1: "send_built W from (Inr resp) (s\<lparr> ses_recv_buf := ?m @ ?b \<rparr>) = ?s1"
    using assms(4,5) by (simp add: send_built_def send_to_def)
  have "\<exists>new. ses_out (nominate W i (?s1\<lparr> ses_check_list := cl \<rparr>)) = ses_out s @ Datagram from resp # new" for i cl
    using out_grows_nominate [of W i "?s1\<lparr> ses_check_list := cl \<rparr>"] by (auto simp: put_out_def)
  moreover have "on_recv W from ?m s = handle_stun_request W from ?m ?b (s\<lparr> ses_recv_buf := ?m @ ?b \<rparr>)"
    by (rule on_recv_request) (rule assms(1))
  ultimately show ?thesis
    using assms(2,3) s1
    by (auto simp: handle_stun_request_def Let_def set_pair_state_def put_out_def split: option.splits)
qed

lemma response_received:
  assumes "parse_binding_response resp = Some res" "is_stun_packet resp" "\<not> sc_active (ses_stun_client s)"
    and "read_u16 resp = STUN_BINDING_RESPONSE"
    and "ses_controlling s" "\<not> ses_nominated s" "i < length (ses_check_list s)"
    and "cp_state (ses_check_list s ! i) = Pair_InProgress" "cp_check_txn (ses_check_list s ! i) = sr_txn_id res"
    and "\<forall>j < i. cp_state (ses_check_list s ! j) = Pair_InProgress \<longrightarrow> cp_check_txn (ses_check_list s ! j) \<noteq> sr_txn_id res"
  shows "let s' = on_recv W from resp s in ses_state s' = St_Connected \<and> ses_nominated s'
    \<and> ses_remote_ep s' = ca_endpoint (cp_remote (ses_check_list s ! i))"
proof -
  let ?s0 = "s\<lparr> ses_recv_buf := resp @ drop (length resp) (ses_recv_buf s) \<rparr>"
  have "\<not> length resp < 20" using assms(2) by (auto simp: is_stun_packet_def STUN_HEADER_SIZE_def split: if_splits)
  then have r: "on_recv W from resp s = handle_stun_response W resp ?s0"
    using assms(2-4) by (simp add: on_recv_def feed_def handle_stun_packet_def STUN_HEADER_SIZE_def Let_def)
  have "find_index (\<lambda>p. cp_state p = Pair_InProgress \<and> cp_check_txn p = sr_txn_id res) (ses_check_list s) = Some i"
    using assms(7-10) by (intro find_index_first) auto
  then have "on_recv W from resp s = nominate W i (set_pair_state i Pair_Succeeded ?s0)"
    unfolding r using assms(1,5,6) by (simp add: handle_stun_response_def Let_def set_pair_state_def)
  then show ?thesis
    using nominate_connects [of "set_pair_state i Pair_Succeeded ?s0" i W] assms(6,7) by (simp add: set_pair_state_def)
qed

subsection \<open>Check lists\<close>

definition candidate_pairs :: "bool \<Rightarrow> candidate list \<Rightarrow> candidate list \<Rightarrow> candidate_pair list" where
  "candidate_pairs controlling ls rs = concat (map (\<lambda>l. map (mk_pair controlling l)
     (filter (\<lambda>r. is_v4 (fst (ca_endpoint l)) = is_v4 (fst (ca_endpoint r))) rs)) ls)"

lemma check_list_formed:
  "ses_check_list (form_check_list s) = sort_key (\<lambda>p. - uint (cp_priority p))
     (candidate_pairs (ses_controlling s) (ses_local_candidates s) (ses_remote_candidates s))"
  by (simp add: form_check_list_def candidate_pairs_def)

lemma candidate_pairs_Nil [simp]: "candidate_pairs c ls [] = []"
  by (simp add: candidate_pairs_def)

lemma candidate_pairs_swap:
  "mset (map cp_priority (candidate_pairs True ls rs)) = mset (map cp_priority (candidate_pairs False rs ls))"
proof (induction ls)
  case Nil
  show ?case by (simp add: candidate_pairs_def)
next
  case (Cons l ls)
  have eq: "(is_v4 (fst (ca_endpoint l)) = is_v4 (fst (ca_endpoint r))) = (is_v4 (fst (ca_endpoint r)) = is_v4 (fst (ca_endpoint l)))" for r
    by blast
  have "mset (map cp_priority (candidate_pairs False rs (l # ls))) =
      mset (map cp_priority (map (mk_pair True l) (filter (\<lambda>r. is_v4 (fst (ca_endpoint l)) = is_v4 (fst (ca_endpoint r))) rs)))
      + mset (map cp_priority (candidate_pairs False rs ls))" for rs
    by (induction rs) (auto simp: candidate_pairs_def mk_pair_def pair_priority_roles)
  then show ?case using Cons by (simp add: candidate_pairs_def)
qed

lemma sorted_priorities:
  "map cp_priority (sort_key (\<lambda>p. - uint (cp_priority p)) ps) = rev (sort (map cp_priority ps))"
proof -
  let ?xs = "sort_key (\<lambda>p. - uint (cp_priority p)) ps"
  have "sorted (map (\<lambda>p. - uint (cp_priority p)) ?xs)" by simp
  then have "sorted_wrt (\<lambda>p q. cp_priority q \<le> cp_priority p) ?xs" unfolding sorted_map by (simp add: word_le_def)
  then have "sorted (map cp_priority (rev ?xs))" unfolding sorted_map sorted_wrt_rev .
  moreover have "mset (map cp_priority (rev ?xs)) = mset (map cp_priority ps)" by simp
  ultimately have "sort (map cp_priority ps) = map cp_priority (rev ?xs)" using properties_for_sort by metis
  then show ?thesis by (simp add: rev_map)
qed

subsection \<open>Consent\<close>

text \<open>One keepalive interval passes and the timer's handler runs, while nothing is received.\<close>

definition keepalive_round :: "asio_env \<Rightarrow> ice_session \<Rightarrow> ice_session" where
  "keepalive_round W s = ice_step W Ev_keepalive_timer (ice_step W Ev_time s)"

definition connected_waiting :: "ice_session \<Rightarrow> bool" where
  "connected_waiting s \<longleftrightarrow> ses_state s = St_Connected \<and> ses_nominated s \<and> \<not> ses_closed s \<and> t_pending (ses_keepalive_timer s)"

lemma round_enabled: "connected_waiting s \<Longrightarrow> ice_enabled Ev_keepalive_timer (ice_step W Ev_time s)"
  by (simp add: connected_waiting_def ice_enabled_def ice_step_def timer_expire_def)

lemma round_sends:
  assumes "connected_waiting s" "ses_consent_missed s < ic_consent_max_failures (ses_config s)"
  shows "connected_waiting (keepalive_round W s) \<and> ses_consent_missed (keepalive_round W s) = ses_consent_missed s + 1
    \<and> ses_config (keepalive_round W s) = ses_config s"
  using assms
  by (simp add: connected_waiting_def keepalive_round_def ice_step_def on_keepalive_timer_def send_keepalive_def ses_draw_def
      Let_def timer_start_def)

lemma round_fails:
  assumes "ses_consent_missed s \<ge> ic_consent_max_failures (ses_config s)"
  shows "ses_state (keepalive_round W s) = St_Failed \<and> ses_out (keepalive_round W s) = ses_out s @ [On_failed]"
  using assms by (simp add: keepalive_round_def ice_step_def on_keepalive_timer_def fail_session_def put_out_def transition_def)

lemma rounds_send:
  assumes "connected_waiting s" "ses_consent_missed s + int n \<le> ic_consent_max_failures (ses_config s)"
  shows "connected_waiting ((keepalive_round W ^^ n) s) \<and> ses_consent_missed ((keepalive_round W ^^ n) s) = ses_consent_missed s + int n
    \<and> ses_config ((keepalive_round W ^^ n) s) = ses_config s"
  using assms(2)
proof (induction n)
  case 0
  show ?case using assms(1) by simp
next
  case (Suc n)
  then show ?case using round_sends [of "(keepalive_round W ^^ n) s" W] by simp
qed

subsection \<open>Properties\<close>

text \<open>
  Property C22. In every reachable session: it is connected only after a pair was nominated, and
  a nominated session is connected or failed; the connector is told about the connection exactly
  once, when a pair is nominated; and no message the session builds overruns its buffer.
\<close>

theorem ice_session_invariant:
  assumes "asio_ok W" "ice_reach W s"
  shows "(ses_state s = St_Connected \<longrightarrow> ses_nominated s)
     \<and> (ses_nominated s \<longrightarrow> ses_state s = St_Connected \<or> ses_state s = St_Failed)
     \<and> count_list (ses_out s) On_connected = of_bool (ses_nominated s)
     \<and> ses_fault s \<noteq> Some Write_past_end"
  using ses_inv_reach [OF assms(2,1)] by (simp add: ses_inv_def)

lemma demo_asio_ok [simp]: "asio_ok demo_asio"
  unfolding asio_ok_def demo_asio_def by simp

definition demo_ice_config :: ice_config where
  "demo_ice_config = \<lparr> ic_stun_servers = [(''stun.example'', 3478), (''stun2.example'', 3478)], ic_session_timeout = 10,
     ic_keepalive_interval = 20, ic_consent_max_failures = 3 \<rparr>"

definition demo_ice :: "bool \<Rightarrow> ice_session" where
  "demo_ice controlling = new_session demo_asio 0 ''peer'' controlling demo_ice_config"

theorem ice_session_invariant_witness:
  "let s = ice_step demo_asio Ev_gather (demo_ice True)
   in count_list (ses_out s) On_connected = of_bool (ses_nominated s)"
  using ice_session_invariant [OF demo_asio_ok ice_reach.step [OF ice_reach.new, of Ev_gather]]
  by (simp add: demo_ice_def ice_enabled_def Let_def)

text \<open>
  Property C23. One connectivity check connects both ends: the packet that \<open>check_pair\<close> of the
  controlling session sends makes the controlled session answer it and nominate the address it
  came from, and that answer makes the controlling session nominate the checked pair, whatever
  addresses the packets seem to come from.
\<close>

theorem ice_check_connects_both:
  assumes W: "asio_ok W" "\<And>ep pkt. w_send_ok W ep pkt"
    and A: "creds_ok A" "ses_controlling A" "\<not> ses_nominated A" "ses_socket_open A" "\<not> sc_active (ses_stun_client A)"
      "i < length (ses_check_list A)"
    and fresh: "\<forall>j < i. cp_state (ses_check_list A ! j) = Pair_InProgress
      \<longrightarrow> cp_check_txn (ses_check_list A ! j) \<noteq> w_rand W (ses_draws A) 12"
    and B: "\<not> ses_controlling B" "\<not> ses_nominated B" "ses_socket_open B"
    and creds: "cr_pwd (ses_remote_creds A) = cr_pwd (ses_local_creds B)" and ip: "ip_wf (fst fa)"
  shows "\<exists>pkt resp new. let A1 = check_pair W i A; B1 = on_recv W fa pkt B; A2 = on_recv W fb resp A1
    in ses_out A1 = ses_out A @ [Datagram (ca_endpoint (cp_remote (ses_check_list A ! i))) pkt]
     \<and> ses_state B1 = St_Connected \<and> ses_nominated B1 \<and> ses_remote_ep B1 = fa
     \<and> ses_out B1 = ses_out B @ Datagram fa resp # new
     \<and> ses_state A2 = St_Connected \<and> ses_nominated A2
     \<and> ses_remote_ep A2 = ca_endpoint (cp_remote (ses_check_list A ! i))"
proof -
  let ?txn = "w_rand W (ses_draws A) 12" and ?H = "w_hmac W" and ?pw = "cr_pwd (ses_local_creds B)"
  let ?pair = "ses_check_list A ! i" and ?u = "check_username A"
  let ?as = "request_attrs ?u (ca_priority (cp_local ?pair)) True True (ses_tie_breaker A)"
  define pkt where "pkt = stun_message STUN_BINDING_REQUEST ?txn (sealed_attrs ?H ?pw STUN_BINDING_REQUEST ?txn ?as)"
  have u: "length ?u \<le> 65000" using A(1) by (simp add: creds_ok_def check_username_def)
  have hs: "hmac_sized ?H" "length ?txn = 12" using W(1) by simp_all
  have built: "build_check_request ?H ?txn ?u ?pw (ca_priority (cp_local ?pair)) True True (ses_tie_breaker A) = Inr pkt"
    using build_check_request_seals [OF hs] u by (simp add: pkt_def)
  have A1: "ses_out (check_pair W i A) = ses_out A @ [Datagram (ca_endpoint (cp_remote ?pair)) pkt]"
    "ses_check_list (check_pair W i A) = (ses_check_list A)[i := ?pair\<lparr> cp_state := Pair_InProgress, cp_check_txn := ?txn \<rparr>]"
    "ses_controlling (check_pair W i A)" "\<not> ses_nominated (check_pair W i A)" "\<not> sc_active (ses_stun_client (check_pair W i A))"
    using A built creds W(2) by (simp_all add: check_pair_def ses_draw_def Let_def send_built_def send_to_def put_out_def)
  obtain req where req: "\<And>beyond. parse_binding_request ?H pkt beyond ?pw = Inr (Some req)" "rq_use_candidate req" "rq_txn_id req = ?txn"
    using stun_request_read [OF hs u, of ?pw "ca_priority (cp_local ?pair)" True True "ses_tie_breaker A"]
    by (auto simp: pkt_def)
  let ?a = "\<lparr> sa_ip = fst fa, sa_port = snd fa \<rparr>"
  define resp where "resp = stun_message STUN_BINDING_RESPONSE ?txn (sealed_attrs ?H ?pw STUN_BINDING_RESPONSE ?txn [mapped_attr ?txn ?a])"
  have resp: "build_check_response ?H (rq_txn_id req) ?a ?pw = Inr resp"
    "parse_binding_response resp = Some \<lparr> sr_mapped = ?a, sr_txn_id = ?txn \<rparr>"
    "is_stun_packet resp" "read_u16 resp = STUN_BINDING_RESPONSE"
    using build_check_response_seals [OF hs, of ?a ?pw] parse_response_message [OF hs, of ?a ?pw] ip req(3)
      stun_message_is_stun [OF hs(2), of STUN_BINDING_RESPONSE]
    by (simp_all add: resp_def) (simp_all add: stun_message_def STUN_BINDING_RESPONSE_def)
  have B1: "let s' = on_recv W fa pkt B in ses_state s' = St_Connected \<and> ses_nominated s' \<and> ses_remote_ep s' = fa"
    using request_received [OF hs(2) _ req(2) B(1,2), where W = W] req(1) unfolding pkt_def by blast
  obtain new where out: "ses_out (on_recv W fa pkt B) = ses_out B @ Datagram fa resp # new"
    using request_answered [OF hs(2) _ resp(1) B(3) W(2)] req(1) unfolding pkt_def by blast
  have "let s' = on_recv W fb resp (check_pair W i A) in ses_state s' = St_Connected \<and> ses_nominated s'
      \<and> ses_remote_ep s' = ca_endpoint (cp_remote (ses_check_list (check_pair W i A) ! i))"
    using resp A1 A(6) fresh by (intro response_received) auto
  then show ?thesis using A1(1,2) A(6) B1 out by (auto simp: Let_def)
qed

definition demo_candidate :: "byte \<Rightarrow> candidate" where
  "demo_candidate b = default_candidate\<lparr> ca_endpoint := (V4 [10, 0, 0, b], 5000), ca_priority := compute_priority Host 65535 \<rparr>"

definition demo_checking :: ice_session where
  "demo_checking = (demo_ice True)\<lparr> ses_state := St_Checking, ses_remote_creds := ses_local_creds (demo_ice False),
     ses_check_list := [mk_pair True (demo_candidate 1) (demo_candidate 2)] \<rparr>"

theorem ice_check_connects_both_witness:
  "\<exists>pkt resp. let A1 = check_pair demo_asio 0 demo_checking; B1 = on_recv demo_asio (V4 [10, 0, 0, 1], 5000) pkt (demo_ice False);
       A2 = on_recv demo_asio (V4 [10, 0, 0, 2], 5000) resp A1
     in ses_state B1 = St_Connected \<and> ses_remote_ep B1 = (V4 [10, 0, 0, 1], 5000)
       \<and> ses_state A2 = St_Connected \<and> ses_remote_ep A2 = (V4 [10, 0, 0, 2], 5000)"
proof -
  have d: "creds_ok demo_checking" "ses_controlling demo_checking" "\<not> ses_nominated demo_checking" "ses_socket_open demo_checking"
    "\<not> sc_active (ses_stun_client demo_checking)" "0 < length (ses_check_list demo_checking)"
    "\<not> ses_controlling (demo_ice False)" "\<not> ses_nominated (demo_ice False)" "ses_socket_open (demo_ice False)"
    "cr_pwd (ses_remote_creds demo_checking) = cr_pwd (ses_local_creds (demo_ice False))"
    "ca_endpoint (cp_remote (ses_check_list demo_checking ! 0)) = (V4 [10, 0, 0, 2], 5000)"
    by (simp_all add: demo_checking_def demo_ice_def new_session_def creds_ok_def generate_credentials_def fresh_client_def
        mk_pair_def demo_candidate_def)
  have ip: "ip_wf (fst (V4 [10, 0, 0, 1], 5000))" by (simp add: ip_wf_def)
  have ok: "w_send_ok demo_asio ep pkt" for ep pkt by (simp add: demo_asio_def)
  show ?thesis
    using ice_check_connects_both [OF demo_asio_ok ok d(1-6) _ d(7-10) ip, of "(V4 [10, 0, 0, 2], 5000)"] d(11)
    by (auto simp: Let_def)
qed

text \<open>
  Both ends order their checks alike: when each side's candidates are the other
  side's remote candidates, the check list of the controlling and that of the controlled session
  have the same sequence of priorities, in descending order, one entry for each pair of the same
  address family.
\<close>

theorem check_lists_agree:
  assumes "ses_controlling A" "\<not> ses_controlling B"
    "ses_remote_candidates A = ses_local_candidates B" "ses_remote_candidates B = ses_local_candidates A"
  shows "map cp_priority (ses_check_list (form_check_list A)) = map cp_priority (ses_check_list (form_check_list B))
    \<and> sorted (rev (map cp_priority (ses_check_list (form_check_list A))))
    \<and> mset (ses_check_list (form_check_list A)) = mset (candidate_pairs True (ses_local_candidates A) (ses_remote_candidates A))"
proof -
  let ?P = "candidate_pairs True (ses_local_candidates A) (ses_remote_candidates A)"
  let ?Q = "candidate_pairs False (ses_local_candidates B) (ses_remote_candidates B)"
  have "mset (map cp_priority ?P) = mset (map cp_priority ?Q)"
    using candidate_pairs_swap [of "ses_local_candidates A" "ses_local_candidates B"] assms(3,4) by simp
  then have "sort (map cp_priority ?P) = sort (map cp_priority ?Q)" using properties_for_sort by (metis mset_sort sorted_sort)
  then show ?thesis using assms(1,2) by (simp add: check_list_formed sorted_priorities)
qed

definition demo_controlled :: ice_session where
  "demo_controlled = (demo_ice False)\<lparr> ses_local_candidates := [demo_candidate 2, demo_candidate 4], ses_remote_candidates := [demo_candidate 1] \<rparr>"

definition demo_controlling :: ice_session where
  "demo_controlling = (demo_ice True)\<lparr> ses_local_candidates := [demo_candidate 1], ses_remote_candidates := [demo_candidate 2, demo_candidate 4] \<rparr>"

theorem check_lists_agree_witness:
  "map cp_priority (ses_check_list (form_check_list demo_controlling)) = map cp_priority (ses_check_list (form_check_list demo_controlled))"
  using check_lists_agree [of demo_controlling demo_controlled]
  by (simp add: demo_controlling_def demo_controlled_def demo_ice_def new_session_def)

text \<open>
  Nomination needs no credentials: a Binding request that carries nothing but USE-CANDIDATE, from any
  address, connects a controlled session that has no nominated pair to the sender, whatever the
  session's password; a session without a nominated pair may have failed before. (The comment on
  \<open>parse_binding_request\<close> says that MESSAGE-INTEGRITY is checked; the code checks it only when the attribute
  is there.)
\<close>

theorem unsigned_nomination:
  assumes "length txn = 12" "\<not> ses_controlling s" "\<not> ses_nominated s"
  shows "let s' = on_recv W attacker (stun_message STUN_BINDING_REQUEST txn [(STUN_ATTR_USE_CANDIDATE, [])]) s
    in ses_state s' = St_Connected \<and> ses_nominated s' \<and> ses_remote_ep s' = attacker"
proof -
  have "attr_fold request_attr 20 [(STUN_ATTR_USE_CANDIDATE, [])] [] (q, 0) = (q\<lparr> rq_use_candidate := True \<rparr>, 0)" for q
    by (simp add: request_attr_def stun_consts)
  then have "parse_binding_request hmac (stun_message STUN_BINDING_REQUEST txn [(STUN_ATTR_USE_CANDIDATE, [])]) beyond pw
      = Inr (Some \<lparr> rq_txn_id = txn, rq_priority = 0, rq_use_candidate = True, rq_username = [] \<rparr>)" for hmac beyond pw
    using assms(1) by (simp add: parse_request_message attr_size_def del: attr_fold.simps)
  then show ?thesis by (intro request_received [OF assms(1) _ _ assms(2,3)]) auto
qed

theorem unsigned_nomination_witness:
  "let s' = on_recv demo_asio (V4 [203, 0, 113, 9], 666) (stun_message STUN_BINDING_REQUEST (replicate 12 0) [(STUN_ATTR_USE_CANDIDATE, [])])
      (fail_session (demo_ice False))
   in ses_state s' = St_Connected \<and> ses_nominated s' \<and> ses_remote_ep s' = (V4 [203, 0, 113, 9], 666)"
  by (rule unsigned_nomination)
    (simp_all add: fail_session_def put_out_def transition_def demo_ice_def new_session_def)

text \<open>
  Closing a session that waits for a STUN server starts the query to the next
  server: cancelling the client calls the callback of the pending query, which goes on with the
  list, so that the closed session has a query under way again.
\<close>

theorem close_queries_next_server:
  assumes "\<not> ses_closed s" "sc_active (ses_stun_client s)" "sc_pending_cb (ses_stun_client s) = Some ()" "ses_socket_open s"
    and "ses_stun_try_idx s + 1 < length (ic_stun_servers (ses_config s))"
    and "ic_stun_servers (ses_config s) ! (ses_stun_try_idx s + 1) = (host, port)" "w_resolve W host port = Some ep"
    and "w_send_ok W ep (build_binding_request (w_rand W (ses_draws s) 12))"
  shows "let s' = ses_close W s in ses_closed s' \<and> sc_active (ses_stun_client s')
    \<and> ses_out s' = ses_out s @ [Datagram ep (build_binding_request (w_rand W (ses_draws s) 12))]
    \<and> t_pending (sc_timer (ses_stun_client s'))"
proof -
  have "sc_cancel (ses_stun_client s) = (fst (sc_cancel (ses_stun_client s)), [((), None)])"
    "\<not> sc_active (fst (sc_cancel (ses_stun_client s)))"
    using assms(2,3) by (simp_all add: sc_cancel_def sc_finish_def)
  then show ?thesis
    using assms
    by (cases "sc_cancel (ses_stun_client s)")
      (simp add: ses_close_def run_calls_def stun_callback_def try_next_stun_server.simps ses_draw_def resolve_def
        send_request_def client_env_def put_sends_def schedule_retry_def timer_start_def Let_def)
qed

definition demo_gathering :: ice_session where
  "demo_gathering = gather demo_asio (demo_ice True)"

lemma demo_gathering_fields:
  "\<not> ses_closed demo_gathering" "sc_active (ses_stun_client demo_gathering)" "sc_pending_cb (ses_stun_client demo_gathering) = Some ()"
  "ses_socket_open demo_gathering" "ses_stun_try_idx demo_gathering = 0" "ses_config demo_gathering = demo_ice_config"
  by (simp_all add: demo_gathering_def gather_def gather_srflx_def gather_host_candidates_def start_recv_loop_def demo_ice_def
      new_session_def transition_def try_next_stun_server.simps ses_draw_def resolve_def send_request_def client_env_def
      put_sends_def schedule_retry_def demo_ice_config_def demo_asio_def fresh_client_def Let_def)

theorem close_queries_next_server_witness:
  "let s' = ses_close demo_asio demo_gathering in ses_closed s' \<and> sc_active (ses_stun_client s')"
  using close_queries_next_server [OF demo_gathering_fields(1-4), of "''stun2.example''" 3478 demo_asio "(V4 [192, 0, 2, 53], 3478)"]
  by (simp add: demo_gathering_fields demo_ice_config_def Let_def) (simp add: demo_asio_def)

text \<open>
  Property C32. A peer that stops answering is given up: if no keepalive response arrives, the
  session fails and tells the connector after as many further keepalive intervals as the
  configured number of failures allows, and not before.
\<close>

theorem consent_expires:
  assumes "connected_waiting s" "ses_consent_missed s + int n = ic_consent_max_failures (ses_config s)"
  shows "(\<forall>m \<le> n. let s' = (keepalive_round W ^^ m) s
        in ses_state s' = St_Connected \<and> ice_enabled Ev_keepalive_timer (ice_step W Ev_time s'))
    \<and> (let s' = (keepalive_round W ^^ (n + 1)) s in ses_state s' = St_Failed \<and> last (ses_out s') = On_failed)"
proof -
  have w: "connected_waiting ((keepalive_round W ^^ m) s)" if "m \<le> n" for m
    using rounds_send [OF assms(1), of m W] assms(2) that by simp
  have "ses_state ((keepalive_round W ^^ (n + 1)) s) = St_Failed \<and> last (ses_out ((keepalive_round W ^^ (n + 1)) s)) = On_failed"
    using rounds_send [OF assms(1), of n W] assms(2) round_fails [of "(keepalive_round W ^^ n) s" W] by simp
  then show ?thesis using w round_enabled [OF w] by (auto simp: Let_def connected_waiting_def)
qed

theorem consent_expires_witness:
  "ses_state ((keepalive_round demo_asio ^^ (2 + 1)) (nominate demo_asio 0 demo_checking)) = St_Failed"
proof -
  have "connected_waiting (nominate demo_asio 0 demo_checking)"
    "ses_consent_missed (nominate demo_asio 0 demo_checking) + int 2 = ic_consent_max_failures (ses_config (nominate demo_asio 0 demo_checking))"
    by (simp_all add: nominate_def start_keepalive_def send_keepalive_def transition_def put_out_def ses_draw_def timer_start_def
        Let_def connected_waiting_def demo_checking_def demo_ice_def new_session_def demo_ice_config_def)
  from consent_expires [OF this] show ?thesis by (simp add: Let_def)
qed

end
