(* ===== verification/Nonce_Window.thy ===== *)
theory Nonce_Window
  imports Prelude
begin

section \<open>NonceWindow: the anti-replay filter\<close>

text \<open>
  \<open>core/types/nonce_window.hpp\<close> and \<open>NonceWindow::accept/reset\<close> of
  \<open>core/cm/transport.cpp\<close>: the highest nonce seen and a 256-bit bitmap in which bit \<open>i\<close>
  says that \<open>highest_nonce - i\<close> has been accepted. The bitset is a 256-bit word, so that
  \<open>bitmap <<= shift\<close> drops the bits it shifts out. The abstract filter remembers every nonce it
  ever accepted; \<open>window_rel\<close> relates the two and \<open>accept_refines\<close> is the simulation.
\<close>

unbundle bit_operations_syntax

definition WINDOW_SIZE :: nat where "WINDOW_SIZE = 256"

record nonce_window =
  highest_nonce :: u64
  bitmap :: "256 word"

definition empty_window :: nonce_window where
  "empty_window = \<lparr> highest_nonce = 0, bitmap = 0 \<rparr>"

definition accept :: "u64 \<Rightarrow> nonce_window \<Rightarrow> bool \<times> nonce_window" where
  "accept nonce w =
     (if nonce = 0 then (False, w)
      else if highest_nonce w = 0 then
        (True, \<lparr> highest_nonce = nonce, bitmap = set_bit 0 0 \<rparr>)
      else if nonce > highest_nonce w then
        (let shift = unat (nonce - highest_nonce w);
             bm = (if shift \<ge> WINDOW_SIZE then 0 else push_bit shift (bitmap w))
         in (True, \<lparr> highest_nonce = nonce, bitmap = set_bit 0 bm \<rparr>))
      else
        (let diff = unat (highest_nonce w - nonce)
         in if diff \<ge> WINDOW_SIZE then (False, w)
            else if bit (bitmap w) diff then (False, w)
            else (True, w\<lparr> bitmap := set_bit diff (bitmap w) \<rparr>)))"

definition reset :: "nonce_window \<Rightarrow> nonce_window" where
  "reset w = w\<lparr> highest_nonce := 0, bitmap := 0 \<rparr>"

subsection \<open>The abstract filter\<close>

text \<open>
  The specification keeps the set of all accepted nonces: a nonce is accepted when it is not
  zero, has not been accepted before and is less than \<open>WINDOW_SIZE\<close> below the highest one.
\<close>

definition spec_accept :: "u64 \<Rightarrow> u64 set \<Rightarrow> bool" where
  "spec_accept n S \<longleftrightarrow> n \<noteq> 0 \<and> n \<notin> S \<and> (\<forall>m \<in> S. unat m < unat n + WINDOW_SIZE)"

fun run_filter :: "('n \<Rightarrow> 's \<Rightarrow> bool \<times> 's) \<Rightarrow> 'n list \<Rightarrow> 's \<Rightarrow> bool list \<times> 's" where
  "run_filter acc [] s = ([], s)"
| "run_filter acc (n # ns) s =
     (let (ok, s') = acc n s; (oks, s'') = run_filter acc ns s' in (ok # oks, s''))"

fun run_spec :: "u64 list \<Rightarrow> u64 set \<Rightarrow> bool list" where
  "run_spec [] S = []"
| "run_spec (n # ns) S =
     (if spec_accept n S then True # run_spec ns (insert n S) else False # run_spec ns S)"

definition accepted :: "bool list \<Rightarrow> 'n list \<Rightarrow> 'n list" where
  "accepted oks ns = map snd (filter fst (zip oks ns))"

text \<open>
  The contract of a replay filter towards the session that uses it: it refines the set of the
  nonces accepted so far, and a refused nonce leaves it as it was.
\<close>

locale replay_filter =
  fixes acc :: "'n \<Rightarrow> 's \<Rightarrow> bool \<times> 's" and rel :: "'s \<Rightarrow> 'n set \<Rightarrow> bool"
    and ok :: "'n \<Rightarrow> 'n set \<Rightarrow> bool"
  assumes refines: "rel s S \<Longrightarrow>
      (case acc n s of (b, s') \<Rightarrow> b = ok n S \<and> rel s' (if b then insert n S else S))"
    and fresh: "ok n S \<Longrightarrow> n \<notin> S"
begin

lemma run_accepted_fresh:
  assumes "rel s S" "run_filter acc ns s = (oks, s')"
  shows "distinct (accepted oks ns) \<and> set (accepted oks ns) \<inter> S = {}
    \<and> rel s' (S \<union> set (accepted oks ns))"
  using assms
proof (induction ns arbitrary: s S oks)
  case Nil
  then show ?case by (simp add: accepted_def)
next
  case (Cons n ns)
  obtain b s1 where st: "acc n s = (b, s1)" by fastforce
  obtain oks1 where rec: "run_filter acc ns s1 = (oks1, s')" and oks: "oks = b # oks1"
    using Cons.prems(2) st by (auto split: prod.splits)
  have b: "b = ok n S" and r1: "rel s1 (if b then insert n S else S)"
    using refines [OF Cons.prems(1), of n] st by auto
  show ?case
  proof (cases b)
    case True
    then show ?thesis
      using Cons.IH [OF r1 rec] fresh [of n S] b oks by (auto simp: accepted_def)
  next
    case False
    then show ?thesis
      using Cons.IH [OF r1 rec] oks by (auto simp: accepted_def)
  qed
qed

lemma once_refused:
  assumes "rel s S" "acc n s = (True, s1)" "run_filter acc ns s1 = (oks, s2)"
  shows "fst (acc n s2) = False"
proof -
  have "rel s1 (insert n S)" using refines [OF assms(1), of n] assms(2) by auto
  then have "rel s2 (insert n S \<union> set (accepted oks ns))"
    using run_accepted_fresh assms(3) by blast
  then show ?thesis
    using refines [of s2 _ n] fresh by (cases "acc n s2") fastforce
qed

end

subsection \<open>The bitmap window implements it\<close>

definition window_rel :: "nonce_window \<Rightarrow> u64 set \<Rightarrow> bool" where
  "window_rel w S \<longleftrightarrow> 0 \<notin> S
     \<and> (highest_nonce w = 0 \<longrightarrow> S = {})
     \<and> (highest_nonce w \<noteq> 0 \<longrightarrow> highest_nonce w \<in> S)
     \<and> (\<forall>n \<in> S. n \<le> highest_nonce w)
     \<and> (\<forall>n. n \<le> highest_nonce w \<longrightarrow> unat (highest_nonce w - n) < WINDOW_SIZE
          \<longrightarrow> highest_nonce w \<noteq> 0 \<longrightarrow> (bit (bitmap w) (unat (highest_nonce w - n)) \<longleftrightarrow> n \<in> S))"

lemma window_rel_empty: "window_rel empty_window {}"
  by (simp add: window_rel_def empty_window_def)

lemma window_rel_reset: "window_rel (reset w) {}"
  by (simp add: window_rel_def reset_def)

lemma bit_set_bit_256: "i < 256 \<Longrightarrow> bit (set_bit j (w :: 256 word)) i \<longleftrightarrow> i = j \<or> bit w i"
  by (auto simp: bit_set_bit_iff)

lemma spec_accept_by_highest:
  assumes "window_rel w S" "n \<noteq> 0" "highest_nonce w \<noteq> 0"
  shows "spec_accept n S \<longleftrightarrow> n \<notin> S \<and> unat (highest_nonce w) < unat n + WINDOW_SIZE"
  using assms unfolding spec_accept_def window_rel_def word_le_nat_alt by force

lemma window_rel_first:
  assumes "window_rel w S" "n \<noteq> 0" "highest_nonce w = 0"
  shows "spec_accept n S" "window_rel \<lparr> highest_nonce = n, bitmap = set_bit 0 0 \<rparr> (insert n S)"
proof -
  have S: "S = {}" using assms by (simp add: window_rel_def)
  then show "spec_accept n S" using assms by (simp add: spec_accept_def)
  show "window_rel \<lparr> highest_nonce = n, bitmap = set_bit 0 0 \<rparr> (insert n S)"
    unfolding window_rel_def using assms(2) S
    by (auto simp: bit_1_iff WINDOW_SIZE_def unat_eq_zero)
qed

lemma window_rel_advance:
  assumes rel: "window_rel w S" and hi: "n > highest_nonce w" "highest_nonce w \<noteq> 0"
  defines "sh \<equiv> unat (n - highest_nonce w)"
  shows "spec_accept n S"
    and "window_rel \<lparr> highest_nonce = n,
           bitmap = set_bit 0 (if sh \<ge> WINDOW_SIZE then 0 else push_bit sh (bitmap w)) \<rparr> (insert n S)"
proof -
  have n0: "n \<noteq> 0" using hi by auto
  have notin: "n \<notin> S" using rel hi(1) by (auto simp: window_rel_def)
  show "spec_accept n S"
    using spec_accept_by_highest [OF rel n0 hi(2)] notin hi(1) by (simp add: word_less_nat_alt)
  have sh: "sh = unat n - unat (highest_nonce w)" "unat (highest_nonce w) < unat n"
    using hi(1) unfolding sh_def by (simp_all add: unat_sub order_less_imp_le word_less_nat_alt [symmetric])
  have old: "n' \<le> highest_nonce w" if "n' \<in> S" for n' using rel that by (simp add: window_rel_def)
  show "window_rel \<lparr> highest_nonce = n,
      bitmap = set_bit 0 (if sh \<ge> WINDOW_SIZE then 0 else push_bit sh (bitmap w)) \<rparr> (insert n S)"
    unfolding window_rel_def nonce_window.simps
  proof (intro conjI allI impI ballI)
    show "0 \<notin> insert n S" using n0 rel by (simp add: window_rel_def)
    show "n = 0 \<Longrightarrow> insert n S = {}" using n0 by simp
    show "n \<in> insert n S" by simp
    show "m \<le> n" if "m \<in> insert n S" for m using that old hi(1) by force
    fix m
    assume m: "m \<le> n" "unat (n - m) < WINDOW_SIZE"
    have d: "unat (n - m) = unat n - unat m" using m(1) by (rule unat_sub)
    show "bit (set_bit 0 (if sh \<ge> WINDOW_SIZE then 0 else push_bit sh (bitmap w))) (unat (n - m))
        \<longleftrightarrow> m \<in> insert n S"
    proof (cases "m = n")
      case True
      then show ?thesis by (simp add: bit_set_bit_256)
    next
      case False
      then have lt: "unat m < unat n" using m(1) by (simp add: word_le_nat_alt order.strict_iff_order word_unat_eq_iff)
      have "bit (set_bit 0 (if sh \<ge> WINDOW_SIZE then 0 else push_bit sh (bitmap w))) (unat (n - m))
          \<longleftrightarrow> sh < WINDOW_SIZE \<and> sh \<le> unat (n - m) \<and> bit (bitmap w) (unat (n - m) - sh)"
        using m(2) lt d by (auto simp: bit_set_bit_256 WINDOW_SIZE_def bit_push_bit_iff)
      also have "\<dots> \<longleftrightarrow> m \<in> S"
      proof (cases "m \<le> highest_nonce w")
        case True
        then have e: "unat (n - m) - sh = unat (highest_nonce w - m)" "sh \<le> unat (n - m)"
          using d sh by (simp_all add: unat_sub word_le_nat_alt)
        with True m(2) rel hi(2) show ?thesis by (auto simp: window_rel_def)
      next
        case False
        then have "\<not> sh \<le> unat (n - m)" using d sh lt by (simp add: word_le_nat_alt)
        with False old show ?thesis by auto
      qed
      finally show ?thesis using False by simp
    qed
  qed
qed

lemma window_rel_inside:
  assumes rel: "window_rel w S" and le: "n \<le> highest_nonce w" and n0: "n \<noteq> 0" "highest_nonce w \<noteq> 0"
  defines "d \<equiv> unat (highest_nonce w - n)"
  shows "spec_accept n S \<longleftrightarrow> d < WINDOW_SIZE \<and> \<not> bit (bitmap w) d"
    and "d < WINDOW_SIZE \<Longrightarrow> window_rel (w\<lparr> bitmap := set_bit d (bitmap w) \<rparr>) (insert n S)"
proof -
  have d: "d = unat (highest_nonce w) - unat n" "unat n \<le> unat (highest_nonce w)"
    using le unfolding d_def by (simp_all add: unat_sub word_le_nat_alt)
  have bitn: "d < WINDOW_SIZE \<Longrightarrow> bit (bitmap w) d \<longleftrightarrow> n \<in> S"
    using rel le n0 unfolding d_def window_rel_def by blast
  then show "spec_accept n S \<longleftrightarrow> d < WINDOW_SIZE \<and> \<not> bit (bitmap w) d"
    using spec_accept_by_highest [OF rel n0] less_diff_conv2 [OF d(2)] d(1)
    by (auto simp: add.commute)
  assume small: "d < WINDOW_SIZE"
  have "bit (set_bit d (bitmap w)) (unat (highest_nonce w - m)) \<longleftrightarrow> m \<in> insert n S"
    if "m \<le> highest_nonce w" "unat (highest_nonce w - m) < WINDOW_SIZE" for m
  proof -
    have "unat (highest_nonce w - m) = d \<longleftrightarrow> m = n"
      using that(1) d by (simp add: unat_sub word_le_nat_alt word_unat_eq_iff) linarith
    with that rel n0 show ?thesis
      by (auto simp: bit_set_bit_256 WINDOW_SIZE_def window_rel_def)
  qed
  with rel le n0 show "window_rel (w\<lparr> bitmap := set_bit d (bitmap w) \<rparr>) (insert n S)"
    by (auto simp: window_rel_def)
qed

lemma accept_refines:
  assumes "window_rel w S"
  shows "case accept n w of (b, w') \<Rightarrow>
    b = spec_accept n S \<and> window_rel w' (if b then insert n S else S)"
proof (cases "n = 0 \<or> highest_nonce w = 0 \<or> highest_nonce w < n")
  case True
  then show ?thesis
    using assms window_rel_first [OF assms] window_rel_advance [OF assms]
    by (auto simp: accept_def Let_def spec_accept_def)
next
  case False
  then have le: "n \<le> highest_nonce w" "n \<noteq> 0" "highest_nonce w \<noteq> 0" by auto
  then show ?thesis
    using assms window_rel_inside [OF assms le] False by (auto simp: accept_def Let_def)
qed

interpretation nw: replay_filter accept window_rel spec_accept
  by unfold_locales (fact accept_refines, simp add: spec_accept_def)

lemma run_window_spec:
  "window_rel w S \<Longrightarrow> fst (run_filter accept ns w) = run_spec ns S"
proof (induction ns arbitrary: w S)
  case Nil
  show ?case by simp
next
  case (Cons n ns)
  obtain b w' where st: "accept n w = (b, w')" by fastforce
  with accept_refines [OF Cons.prems, of n]
  have "b = spec_accept n S" "window_rel w' (if b then insert n S else S)" by auto
  with Cons.IH [of w'] st show ?case by (auto split: prod.splits)
qed

text \<open>
  The set of nonces the window may still accept shrinks strictly with each accepted nonce: a
  measure for code that keeps feeding it packets.
\<close>

definition acceptable :: "nonce_window \<Rightarrow> u64 set" where
  "acceptable w = {n. fst (accept n w)}"

lemma acceptable_iff:
  "n \<in> acceptable w \<longleftrightarrow> n \<noteq> 0 \<and> (highest_nonce w = 0 \<or> highest_nonce w < n
     \<or> (unat (highest_nonce w - n) < WINDOW_SIZE \<and> \<not> bit (bitmap w) (unat (highest_nonce w - n))))"
  by (auto simp: acceptable_def accept_def Let_def)

lemma accept_uses_up: "n \<notin> acceptable (snd (accept n w))"
  by (auto simp: acceptable_iff accept_def Let_def WINDOW_SIZE_def bit_set_bit_256 split: if_splits)

lemma accept_shrinks: "acceptable (snd (accept n w)) \<subseteq> acceptable w"
proof
  fix m
  assume m: "m \<in> acceptable (snd (accept n w))"
  show "m \<in> acceptable w"
  proof (cases "n \<noteq> 0 \<and> highest_nonce w \<noteq> 0 \<and> highest_nonce w < n \<and> \<not> highest_nonce w < m")
    case True
    let ?h = "highest_nonce w" let ?s = "unat (n - ?h)"
    have le: "?h \<le> n" "m \<le> ?h" "m \<le> n" using True by auto
    have u: "unat (n - m) = ?s + unat (?h - m)"
      using le by (simp add: unat_sub word_le_nat_alt)
    have "unat (n - m) < WINDOW_SIZE" "m \<noteq> 0"
      and nb: "\<not> bit (set_bit 0 (if ?s \<ge> WINDOW_SIZE then 0 else push_bit ?s (bitmap w))) (unat (n - m))"
      using m True le by (auto simp: acceptable_iff accept_def Let_def)
    then show ?thesis
      using u by (auto simp: acceptable_iff bit_set_bit_256 WINDOW_SIZE_def bit_push_bit_iff)
  next
    case False
    with m show ?thesis
      by (auto simp: acceptable_iff accept_def Let_def WINDOW_SIZE_def bit_set_bit_256 split: if_splits)
  qed
qed

lemma accept_decreases: "fst (accept n w) \<Longrightarrow> card (acceptable (snd (accept n w))) < card (acceptable w)"
proof -
  assume "fst (accept n w)"
  then have "acceptable (snd (accept n w)) \<subset> acceptable w"
    using accept_shrinks [of n w] accept_uses_up [of n w] by (auto simp: acceptable_def)
  then show ?thesis by (simp add: psubset_card_mono)
qed

lemma accept_blocks:
  assumes "fst (accept m w)" "unat n + WINDOW_SIZE \<le> unat m"
  shows "n \<notin> acceptable (snd (accept m w))"
proof -
  let ?h = "highest_nonce (snd (accept m w))"
  have h: "?h \<noteq> 0" "m \<le> ?h"
    using assms(1) by (auto simp: accept_def Let_def split: if_splits)
  then have "unat n + WINDOW_SIZE \<le> unat ?h" using assms(2) by (simp add: word_le_nat_alt)
  then have le: "n \<le> ?h" and "\<not> unat (?h - n) < WINDOW_SIZE"
    by (simp_all add: word_le_nat_alt unat_sub)
  then show ?thesis using h by (auto simp: acceptable_iff)
qed

subsection \<open>Properties\<close>

text \<open>
  Property C5. On every sequence of nonces the bitmap window answers exactly as the filter that
  remembers all accepted nonces, and no nonce is accepted twice.
\<close>

theorem nonce_window_refines_seen_set:
  "fst (run_filter accept ns empty_window) = run_spec ns {}
   \<and> distinct (accepted (fst (run_filter accept ns empty_window)) ns)"
proof -
  obtain oks w where run: "run_filter accept ns empty_window = (oks, w)" by fastforce
  show ?thesis
    using run_window_spec [OF window_rel_empty, of ns] nw.run_accepted_fresh [OF window_rel_empty run] run
    by simp
qed

end
