(* ===== verification/Noise.thy ===== *)
theory Noise
  imports Prelude
begin

section \<open>The Noise\_XX engine\<close>

text \<open>
  \<open>core/crypto/noise.hpp\<close> and \<open>core/crypto/noise.cpp\<close>: \<open>CipherState\<close>,
  \<open>SymmetricState\<close> and \<open>HandshakeState\<close> with \<open>write_message\<close>, \<open>read_message\<close> and
  \<open>split\<close>. The primitives of libsodium are the fields of the record \<open>sodium\<close>, which every
  operation takes as its first argument; \<open>sodium_ok\<close> states what their documentation promises.
  A method that can \<open>return false\<close> yields an option together with the object as the failing
  call leaves it, since the C++ methods mutate their object before they fail.
\<close>

subsection \<open>libsodium as a parameter\<close>

text \<open>
  \<open>None\<close> is a non-zero return code. \<open>aead_fail_fill\<close> is what a failed decryption leaves in
  an output buffer, \<open>uninit n\<close> the content of an uninitialised \<open>n\<close>-byte buffer; nothing is
  assumed of either.
\<close>

record sodium =
  scalarmult :: "bytes \<Rightarrow> bytes \<Rightarrow> bytes option"
  scalarmult_base :: "bytes \<Rightarrow> bytes"
  aead_encrypt :: "bytes \<Rightarrow> bytes \<Rightarrow> bytes \<Rightarrow> bytes \<Rightarrow> bytes option"
  aead_decrypt :: "bytes \<Rightarrow> bytes \<Rightarrow> bytes \<Rightarrow> bytes \<Rightarrow> bytes option"
  aead_fail_fill :: "bytes \<Rightarrow> bytes"
  blake2b :: "bytes \<Rightarrow> bytes \<Rightarrow> bytes"
  sign_detached :: "bytes \<Rightarrow> bytes \<Rightarrow> bytes"
  sign_verify :: "bytes \<Rightarrow> bytes \<Rightarrow> bytes \<Rightarrow> bool"
  pk_to_curve :: "bytes \<Rightarrow> bytes option"
  sk_to_curve :: "bytes \<Rightarrow> bytes"
  uninit :: "nat \<Rightarrow> bytes"

definition DHLEN :: nat where "DHLEN = 32"
definition HASHLEN :: nat where "HASHLEN = 32"
definition KEYLEN :: nat where "KEYLEN = 32"
definition MACLEN :: nat where "MACLEN = 16"

lemmas noise_lens = DHLEN_def HASHLEN_def KEYLEN_def MACLEN_def

definition aead_ok :: "sodium \<Rightarrow> bool" where
  "aead_ok L \<longleftrightarrow> (\<forall>k n a p. \<exists>c. aead_encrypt L k n a p = Some c \<and> length c = length p + MACLEN
     \<and> aead_decrypt L k n a c = Some p)"

definition aead_len_ok :: "sodium \<Rightarrow> bool" where
  "aead_len_ok L \<longleftrightarrow> (\<forall>k n a c p. aead_decrypt L k n a c = Some p \<longrightarrow> length c = length p + MACLEN)"

definition dh_ok :: "sodium \<Rightarrow> bool" where
  "dh_ok L \<longleftrightarrow> (\<forall>a b. scalarmult L a (scalarmult_base L b) = scalarmult L b (scalarmult_base L a)
     \<and> scalarmult L a (scalarmult_base L b) \<noteq> None)
     \<and> (\<forall>a. length (scalarmult_base L a) = DHLEN)"

definition hash_ok :: "sodium \<Rightarrow> bool" where
  "hash_ok L \<longleftrightarrow> (\<forall>k d. length (blake2b L k d) = HASHLEN)"

definition sodium_ok :: "sodium \<Rightarrow> bool" where
  "sodium_ok L \<longleftrightarrow> aead_ok L \<and> aead_len_ok L \<and> dh_ok L \<and> hash_ok L"

subsection \<open>Helpers\<close>

definition dh :: "sodium \<Rightarrow> bytes \<Rightarrow> bytes \<Rightarrow> bytes option" where
  "dh L sk pk = scalarmult L sk pk"

definition generate_keypair :: "sodium \<Rightarrow> bytes \<Rightarrow> bytes \<times> bytes" where
  "generate_keypair L rnd = (let sk = rnd in (scalarmult_base L sk, sk))"

definition hash :: "sodium \<Rightarrow> bytes \<Rightarrow> bytes" where
  "hash L data = blake2b L [] data"

definition hmac_hash :: "sodium \<Rightarrow> bytes \<Rightarrow> bytes \<Rightarrow> bytes" where
  "hmac_hash L key data = blake2b L key data"

definition hkdf2 :: "sodium \<Rightarrow> bytes \<Rightarrow> bytes \<Rightarrow> bytes \<times> bytes" where
  "hkdf2 L ck ikm =
     (let temp_key = hmac_hash L ck ikm;
          out1 = hmac_hash L temp_key [1];
          out2 = hmac_hash L temp_key (out1 @ [2])
      in (out1, out2))"

definition nonce12 :: "u64 \<Rightarrow> bytes" where
  "nonce12 n = replicate 4 0 @ put_u64 n"

subsection \<open>CipherState\<close>

record cipher_state =
  cs_key :: bytes
  cs_nonce :: u64
  cs_has_key :: bool

definition fresh_cipher :: cipher_state where
  "fresh_cipher = \<lparr> cs_key = replicate KEYLEN 0, cs_nonce = 0, cs_has_key = False \<rparr>"

definition cs_encrypt :: "sodium \<Rightarrow> bytes \<Rightarrow> bytes \<Rightarrow> cipher_state \<Rightarrow> bytes option \<times> cipher_state" where
  "cs_encrypt L ad plain c =
     (if \<not> cs_has_key c then (Some plain, c)
      else case aead_encrypt L (cs_key c) (nonce12 (cs_nonce c)) ad plain of
             None \<Rightarrow> (None, c)
           | Some out \<Rightarrow> (Some out, c\<lparr> cs_nonce := cs_nonce c + 1 \<rparr>))"

definition cs_decrypt :: "sodium \<Rightarrow> bytes \<Rightarrow> bytes \<Rightarrow> cipher_state \<Rightarrow> bytes option \<times> cipher_state" where
  "cs_decrypt L ad cipher c =
     (if \<not> cs_has_key c then (Some cipher, c)
      else if length cipher < MACLEN then (None, c)
      else case aead_decrypt L (cs_key c) (nonce12 (cs_nonce c)) ad cipher of
             None \<Rightarrow> (None, c)
           | Some out \<Rightarrow> (Some out, c\<lparr> cs_nonce := cs_nonce c + 1 \<rparr>))"

definition cs_rekey :: "sodium \<Rightarrow> cipher_state \<Rightarrow> cipher_state" where
  "cs_rekey L c =
     (let out = (case aead_encrypt L (cs_key c) (nonce12 (- 1)) [] (replicate KEYLEN 0) of
                   Some o1 \<Rightarrow> o1 | None \<Rightarrow> uninit L (KEYLEN + MACLEN))
      in c\<lparr> cs_key := take KEYLEN out \<rparr>)"

definition cs_clear :: "cipher_state \<Rightarrow> cipher_state" where
  "cs_clear c = c\<lparr> cs_key := replicate KEYLEN 0, cs_nonce := 0, cs_has_key := False \<rparr>"

subsection \<open>SymmetricState\<close>

record symmetric_state =
  sym_ck :: bytes
  sym_h :: bytes
  sym_cipher :: cipher_state

definition sym_init :: "sodium \<Rightarrow> string \<Rightarrow> symmetric_state \<Rightarrow> symmetric_state" where
  "sym_init L protocol_name s =
     (let name = bytes_of_string protocol_name;
          hh = (if length name \<le> HASHLEN then pad_to HASHLEN name else hash L name)
      in s\<lparr> sym_ck := hh, sym_h := hh, sym_cipher := fresh_cipher \<rparr>)"

definition mix_hash :: "sodium \<Rightarrow> bytes \<Rightarrow> symmetric_state \<Rightarrow> symmetric_state" where
  "mix_hash L data s = s\<lparr> sym_h := blake2b L [] (sym_h s @ data) \<rparr>"

definition mix_key :: "sodium \<Rightarrow> bytes \<Rightarrow> symmetric_state \<Rightarrow> symmetric_state" where
  "mix_key L ikm s =
     (let (ck', temp_k) = hkdf2 L (sym_ck s) ikm
      in s\<lparr> sym_ck := ck', sym_cipher := (sym_cipher s)\<lparr> cs_key := take KEYLEN temp_k, cs_nonce := 0, cs_has_key := True \<rparr> \<rparr>)"

definition encrypt_and_hash :: "sodium \<Rightarrow> bytes \<Rightarrow> symmetric_state \<Rightarrow> bytes option \<times> symmetric_state" where
  "encrypt_and_hash L plain s =
     (case cs_encrypt L (sym_h s) plain (sym_cipher s) of
        (None, c) \<Rightarrow> (None, s\<lparr> sym_cipher := c \<rparr>)
      | (Some out, c) \<Rightarrow> (Some out, mix_hash L out (s\<lparr> sym_cipher := c \<rparr>)))"

definition decrypt_and_hash :: "sodium \<Rightarrow> bytes \<Rightarrow> symmetric_state \<Rightarrow> bytes option \<times> symmetric_state" where
  "decrypt_and_hash L ciphertext s =
     (case cs_decrypt L (sym_h s) ciphertext (sym_cipher s) of
        (None, c) \<Rightarrow> (None, s\<lparr> sym_cipher := c \<rparr>)
      | (Some out, c) \<Rightarrow> (Some out, mix_hash L ciphertext (s\<lparr> sym_cipher := c \<rparr>)))"

definition sym_split :: "sodium \<Rightarrow> symmetric_state \<Rightarrow> cipher_state \<times> cipher_state" where
  "sym_split L s =
     (let (k1, k2) = hkdf2 L (sym_ck s) []
      in (fresh_cipher\<lparr> cs_key := take KEYLEN k1, cs_has_key := True \<rparr>,
          fresh_cipher\<lparr> cs_key := take KEYLEN k2, cs_has_key := True \<rparr>))"

subsection \<open>HandshakeState\<close>

record handshake_state =
  hs_sym :: symmetric_state
  s_pk :: bytes
  s_sk :: bytes
  e_pk :: bytes
  e_sk :: bytes
  hs_rs :: bytes
  hs_re :: bytes
  hs_initiator :: bool
  hs_step :: nat

definition PROTOCOL_NAME :: string where
  "PROTOCOL_NAME = ''Noise_XX_25519_ChaChaPoly_BLAKE2b''"

definition zero_key :: bytes where "zero_key = replicate 32 0"

definition fresh_handshake :: handshake_state where
  "fresh_handshake = \<lparr> hs_sym = \<lparr> sym_ck = zero_key, sym_h = zero_key, sym_cipher = fresh_cipher \<rparr>,
     s_pk = zero_key, s_sk = zero_key, e_pk = zero_key, e_sk = zero_key, hs_rs = zero_key,
     hs_re = zero_key, hs_initiator = False, hs_step = 0 \<rparr>"

definition hs_init :: "sodium \<Rightarrow> bool \<Rightarrow> bytes \<Rightarrow> bytes \<Rightarrow> handshake_state \<Rightarrow> handshake_state" where
  "hs_init L is_initiator static_pk static_sk hs =
     hs\<lparr> hs_sym := sym_init L PROTOCOL_NAME (hs_sym hs), s_pk := static_pk, s_sk := static_sk,
         hs_initiator := is_initiator, hs_step := 0 \<rparr>"

text \<open>
  The bodies of \<open>write_message\<close> and \<open>read_message\<close> are sequences of tokens, each of which
  changes the object and may return \<open>false\<close>; \<open>andthen\<close> runs the next token on the changed
  object, or stops.
\<close>

definition andthen :: "('s \<Rightarrow> 'a option \<times> 's) \<Rightarrow> ('a \<Rightarrow> 's \<Rightarrow> 'b option \<times> 's) \<Rightarrow> 's \<Rightarrow> 'b option \<times> 's" where
  "andthen m f s = (case m s of (None, s') \<Rightarrow> (None, s') | (Some a, s') \<Rightarrow> f a s')"

definition ret :: "'a \<Rightarrow> 's \<Rightarrow> 'a option \<times> 's" where
  "ret a s = (Some a, s)"

lemma andthen_Some [simp]: "m s = (Some a, s') \<Longrightarrow> andthen m f s = f a s'"
  by (simp add: andthen_def)

lemma andthen_None [simp]: "m s = (None, s') \<Longrightarrow> andthen m f s = (None, s')"
  by (simp add: andthen_def)

lemma andthen_SomeE:
  assumes "andthen m f s = (Some b, s2)"
  obtains a s1 where "m s = (Some a, s1)" "f a s1 = (Some b, s2)"
  using assms by (auto simp: andthen_def split: prod.splits option.splits)

definition put_e :: "sodium \<Rightarrow> bytes \<Rightarrow> handshake_state \<Rightarrow> bytes option \<times> handshake_state" where
  "put_e L rnd hs =
     (let (pk, sk) = generate_keypair L rnd
      in (Some pk, hs\<lparr> e_pk := pk, e_sk := sk, hs_sym := mix_hash L pk (hs_sym hs) \<rparr>))"

definition mix_dh :: "sodium \<Rightarrow> (handshake_state \<Rightarrow> bytes \<times> bytes) \<Rightarrow> handshake_state
    \<Rightarrow> unit option \<times> handshake_state" where
  "mix_dh L keys hs =
     (case dh L (fst (keys hs)) (snd (keys hs)) of
        None \<Rightarrow> (None, hs)
      | Some d \<Rightarrow> (Some (), hs\<lparr> hs_sym := mix_key L d (hs_sym hs) \<rparr>))"

definition put_enc :: "sodium \<Rightarrow> (handshake_state \<Rightarrow> bytes) \<Rightarrow> handshake_state
    \<Rightarrow> bytes option \<times> handshake_state" where
  "put_enc L f hs =
     (case encrypt_and_hash L (f hs) (hs_sym hs) of (r, sy) \<Rightarrow> (r, hs\<lparr> hs_sym := sy \<rparr>))"

definition get_e :: "sodium \<Rightarrow> bytes \<Rightarrow> handshake_state \<Rightarrow> unit option \<times> handshake_state" where
  "get_e L msg hs =
     (if length msg < DHLEN then (None, hs)
      else let pk = take DHLEN msg
           in (Some (), hs\<lparr> hs_re := pk, hs_sym := mix_hash L pk (hs_sym hs) \<rparr>))"

definition get_s :: "sodium \<Rightarrow> nat \<Rightarrow> bytes \<Rightarrow> handshake_state \<Rightarrow> unit option \<times> handshake_state" where
  "get_s L off msg hs =
     (if length msg < off + (DHLEN + MACLEN) then (None, hs)
      else case decrypt_and_hash L (take (DHLEN + MACLEN) (drop off msg)) (hs_sym hs) of
             (None, sy) \<Rightarrow> (None, hs\<lparr> hs_sym := sy, hs_rs := aead_fail_fill L (hs_rs hs) \<rparr>)
           | (Some k, sy) \<Rightarrow> (Some (), hs\<lparr> hs_sym := sy, hs_rs := k \<rparr>))"

definition get_dec :: "sodium \<Rightarrow> bytes \<Rightarrow> handshake_state \<Rightarrow> bytes option \<times> handshake_state" where
  "get_dec L c hs =
     (case decrypt_and_hash L c (hs_sym hs) of (r, sy) \<Rightarrow> (r, hs\<lparr> hs_sym := sy \<rparr>))"

definition es_write :: "handshake_state \<Rightarrow> bytes \<times> bytes" where
  "es_write hs = (if hs_initiator hs then (e_sk hs, hs_rs hs) else (s_sk hs, hs_re hs))"

definition se_keys :: "handshake_state \<Rightarrow> bytes \<times> bytes" where
  "se_keys hs = (if hs_initiator hs then (s_sk hs, hs_re hs) else (e_sk hs, hs_rs hs))"

definition write_msg1 :: "sodium \<Rightarrow> bytes \<Rightarrow> bytes \<Rightarrow> handshake_state \<Rightarrow> bytes option \<times> handshake_state" where
  "write_msg1 L rnd payload =
     andthen (put_e L rnd) (\<lambda>e.
     andthen (put_enc L (\<lambda>_. payload)) (\<lambda>p.
     ret (e @ p)))"

definition write_msg2 :: "sodium \<Rightarrow> bytes \<Rightarrow> bytes \<Rightarrow> handshake_state \<Rightarrow> bytes option \<times> handshake_state" where
  "write_msg2 L rnd payload =
     andthen (put_e L rnd) (\<lambda>e.
     andthen (mix_dh L (\<lambda>hs. (e_sk hs, hs_re hs))) (\<lambda>_.
     andthen (put_enc L s_pk) (\<lambda>s.
     andthen (mix_dh L es_write) (\<lambda>_.
     andthen (put_enc L (\<lambda>_. payload)) (\<lambda>p.
     ret (e @ s @ p))))))"

definition write_msg3 :: "sodium \<Rightarrow> bytes \<Rightarrow> handshake_state \<Rightarrow> bytes option \<times> handshake_state" where
  "write_msg3 L payload =
     andthen (put_enc L s_pk) (\<lambda>s.
     andthen (mix_dh L se_keys) (\<lambda>_.
     andthen (put_enc L (\<lambda>_. payload)) (\<lambda>p.
     ret (s @ p))))"

definition count_step :: "'a option \<times> handshake_state \<Rightarrow> 'a option \<times> handshake_state" where
  "count_step r = (case r of (None, hs) \<Rightarrow> (None, hs) | (Some a, hs) \<Rightarrow> (Some a, hs\<lparr> hs_step := hs_step hs + 1 \<rparr>))"

definition write_message :: "sodium \<Rightarrow> bytes \<Rightarrow> bytes \<Rightarrow> handshake_state \<Rightarrow> bytes option \<times> handshake_state" where
  "write_message L rnd payload hs =
     count_step (if hs_step hs = 0 then write_msg1 L rnd payload hs
                 else if hs_step hs = 1 then write_msg2 L rnd payload hs
                 else if hs_step hs = 2 then write_msg3 L payload hs
                 else (None, hs))"

definition read_msg1 :: "sodium \<Rightarrow> bytes \<Rightarrow> handshake_state \<Rightarrow> bytes option \<times> handshake_state" where
  "read_msg1 L msg =
     andthen (get_e L msg) (\<lambda>_.
     get_dec L (drop DHLEN msg))"

definition read_msg2 :: "sodium \<Rightarrow> bytes \<Rightarrow> handshake_state \<Rightarrow> bytes option \<times> handshake_state" where
  "read_msg2 L msg =
     andthen (get_e L msg) (\<lambda>_.
     andthen (mix_dh L (\<lambda>hs. (e_sk hs, hs_re hs))) (\<lambda>_.
     andthen (get_s L DHLEN msg) (\<lambda>_.
     andthen (mix_dh L es_write) (\<lambda>_.
     get_dec L (drop (DHLEN + (DHLEN + MACLEN)) msg)))))"

definition read_msg3 :: "sodium \<Rightarrow> bytes \<Rightarrow> handshake_state \<Rightarrow> bytes option \<times> handshake_state" where
  "read_msg3 L msg =
     andthen (get_s L 0 msg) (\<lambda>_.
     andthen (mix_dh L se_keys) (\<lambda>_.
     get_dec L (drop (DHLEN + MACLEN) msg)))"

definition read_message :: "sodium \<Rightarrow> bytes \<Rightarrow> handshake_state \<Rightarrow> bytes option \<times> handshake_state" where
  "read_message L msg hs =
     count_step (if hs_step hs = 0 then read_msg1 L msg hs
                 else if hs_step hs = 1 then read_msg2 L msg hs
                 else if hs_step hs = 2 then read_msg3 L msg hs
                 else (None, hs))"

definition is_complete :: "handshake_state \<Rightarrow> bool" where
  "is_complete hs \<longleftrightarrow> hs_step hs \<ge> 3"

definition hs_split :: "sodium \<Rightarrow> handshake_state \<Rightarrow> cipher_state \<times> cipher_state" where
  "hs_split L hs =
     (let (c1, c2) = sym_split L (hs_sym hs)
      in if hs_initiator hs then (c1, c2) else (c2, c1))"

definition get_handshake_hash :: "handshake_state \<Rightarrow> bytes" where
  "get_handshake_hash hs = sym_h (hs_sym hs)"

definition hs_clear :: "handshake_state \<Rightarrow> handshake_state" where
  "hs_clear hs = hs\<lparr> hs_sym := \<lparr> sym_ck = zero_key, sym_h = zero_key, sym_cipher = cs_clear (sym_cipher (hs_sym hs)) \<rparr>,
     s_pk := zero_key, s_sk := zero_key, e_pk := zero_key, e_sk := zero_key, hs_rs := zero_key, hs_re := zero_key \<rparr>"

subsection \<open>Two handshake states in step\<close>

text \<open>
  What one side encrypts, the other side decrypts, and both end with the same symmetric state:
  the lemmas below carry this from one token to one message.
\<close>

lemma encrypt_and_hash_total:
  assumes "aead_ok L"
  shows "\<exists>c sy. encrypt_and_hash L p s = (Some c, sy)
    \<and> length c = length p + (if cs_has_key (sym_cipher s) then MACLEN else 0)
    \<and> cs_has_key (sym_cipher sy) = cs_has_key (sym_cipher s)
    \<and> decrypt_and_hash L c s = (Some p, sy)"
proof (cases "cs_has_key (sym_cipher s)")
  case True
  obtain c where c: "aead_encrypt L (cs_key (sym_cipher s)) (nonce12 (cs_nonce (sym_cipher s))) (sym_h s) p = Some c"
    "length c = length p + MACLEN"
    "aead_decrypt L (cs_key (sym_cipher s)) (nonce12 (cs_nonce (sym_cipher s))) (sym_h s) c = Some p"
    using assms unfolding aead_ok_def by blast
  with True show ?thesis
    by (simp add: encrypt_and_hash_def decrypt_and_hash_def cs_encrypt_def cs_decrypt_def mix_hash_def)
next
  case False
  then show ?thesis
    by (simp add: encrypt_and_hash_def decrypt_and_hash_def cs_encrypt_def cs_decrypt_def mix_hash_def)
qed

lemma has_key_mix [simp]:
  "cs_has_key (sym_cipher (mix_hash L d s)) = cs_has_key (sym_cipher s)"
  "cs_has_key (sym_cipher (mix_key L d s))"
  by (simp_all add: mix_hash_def mix_key_def split: prod.split)

lemma dh_ok_shared:
  assumes "dh_ok L"
  obtains d where "dh L a (scalarmult_base L b) = Some d" "dh L b (scalarmult_base L a) = Some d"
  using assms unfolding dh_ok_def dh_def by (metis option.exhaust)

lemma length_base [simp]: "dh_ok L \<Longrightarrow> length (scalarmult_base L a) = DHLEN"
  by (simp add: dh_ok_def)

lemmas token_defs = put_e_def get_e_def put_enc_def get_dec_def get_s_def mix_dh_def
  es_write_def se_keys_def generate_keypair_def ret_def count_step_def Let_def

lemma xx_msg1:
  assumes ok: "aead_ok L" "dh_ok L" and sync: "hs_sym I = hs_sym R"
    and st: "hs_step I = 0" "hs_step R = 0"
  obtains m sy where
    "write_message L e p I = (Some m, I\<lparr> e_pk := scalarmult_base L e, e_sk := e, hs_sym := sy, hs_step := 1 \<rparr>)"
    "read_message L m R = (Some p, R\<lparr> hs_re := scalarmult_base L e, hs_sym := sy, hs_step := 1 \<rparr>)"
    "length m = DHLEN + length p + (if cs_has_key (sym_cipher (hs_sym I)) then MACLEN else 0)"
proof -
  let ?s = "mix_hash L (scalarmult_base L e) (hs_sym I)"
  obtain c sy where c: "encrypt_and_hash L p ?s = (Some c, sy)"
      "length c = length p + (if cs_has_key (sym_cipher ?s) then MACLEN else 0)"
      "decrypt_and_hash L c ?s = (Some p, sy)"
    using encrypt_and_hash_total [OF ok(1)] by metis
  show ?thesis
  proof (rule that [of "scalarmult_base L e @ c" sy])
    show "write_message L e p I = (Some (scalarmult_base L e @ c),
        I\<lparr> e_pk := scalarmult_base L e, e_sk := e, hs_sym := sy, hs_step := 1 \<rparr>)"
      using c st by (simp add: write_message_def write_msg1_def andthen_def token_defs)
    show "read_message L (scalarmult_base L e @ c) R
        = (Some p, R\<lparr> hs_re := scalarmult_base L e, hs_sym := sy, hs_step := 1 \<rparr>)"
      using c st ok(2) sync by (simp add: read_message_def read_msg1_def andthen_def token_defs)
    show "length (scalarmult_base L e @ c) = DHLEN + length p
        + (if cs_has_key (sym_cipher (hs_sym I)) then MACLEN else 0)"
      using c ok(2) by simp
  qed
qed

lemma xx_msg2:
  assumes ok: "aead_ok L" "dh_ok L" and sync: "hs_sym W = hs_sym R"
    and st: "hs_step W = 1" "hs_step R = 1" and role: "\<not> hs_initiator W" "hs_initiator R"
    and keys: "hs_re W = scalarmult_base L (e_sk R)" "s_pk W = scalarmult_base L (s_sk W)"
  obtains m sy where
    "write_message L e p W = (Some m, W\<lparr> e_pk := scalarmult_base L e, e_sk := e, hs_sym := sy, hs_step := 2 \<rparr>)"
    "read_message L m R = (Some p, R\<lparr> hs_re := scalarmult_base L e, hs_rs := s_pk W, hs_sym := sy, hs_step := 2 \<rparr>)"
    "length m = 2 * DHLEN + 2 * MACLEN + length p" "cs_has_key (sym_cipher sy)"
proof -
  obtain ee where ee: "dh L e (hs_re W) = Some ee" "dh L (e_sk R) (scalarmult_base L e) = Some ee"
    using dh_ok_shared [OF ok(2)] keys(1) by metis
  obtain es where es: "dh L (s_sk W) (hs_re W) = Some es" "dh L (e_sk R) (s_pk W) = Some es"
    using dh_ok_shared [OF ok(2)] keys by metis
  let ?s1 = "mix_key L ee (mix_hash L (scalarmult_base L e) (hs_sym W))"
  obtain c1 sy1 where c1: "encrypt_and_hash L (s_pk W) ?s1 = (Some c1, sy1)"
      "length c1 = DHLEN + MACLEN" "decrypt_and_hash L c1 ?s1 = (Some (s_pk W), sy1)"
    using encrypt_and_hash_total [OF ok(1), of "s_pk W" ?s1] ok(2) keys(2) by auto
  let ?s2 = "mix_key L es sy1"
  obtain c2 sy2 where c2: "encrypt_and_hash L p ?s2 = (Some c2, sy2)"
      "length c2 = length p + MACLEN" "decrypt_and_hash L c2 ?s2 = (Some p, sy2)"
      "cs_has_key (sym_cipher sy2)"
    using encrypt_and_hash_total [OF ok(1), of p ?s2] by auto
  show ?thesis
  proof (rule that [of "scalarmult_base L e @ c1 @ c2" sy2])
    show "write_message L e p W = (Some (scalarmult_base L e @ c1 @ c2),
        W\<lparr> e_pk := scalarmult_base L e, e_sk := e, hs_sym := sy2, hs_step := 2 \<rparr>)"
      using c1 c2 st ee es role by (simp add: write_message_def write_msg2_def andthen_def token_defs)
    show "read_message L (scalarmult_base L e @ c1 @ c2) R
        = (Some p, R\<lparr> hs_re := scalarmult_base L e, hs_rs := s_pk W, hs_sym := sy2, hs_step := 2 \<rparr>)"
      using c1 c2 st ee es role ok(2) sync
      by (simp add: read_message_def read_msg2_def andthen_def token_defs)
  qed (use c1 c2 ok(2) in simp_all)
qed

lemma xx_msg3:
  assumes ok: "aead_ok L" "dh_ok L" and sync: "hs_sym W = hs_sym R"
    and st: "hs_step W = 2" "hs_step R = 2" and role: "hs_initiator W" "\<not> hs_initiator R"
    and keys: "hs_re W = scalarmult_base L (e_sk R)" "s_pk W = scalarmult_base L (s_sk W)"
    and keyed: "cs_has_key (sym_cipher (hs_sym W))"
  obtains m sy where
    "write_message L e p W = (Some m, W\<lparr> hs_sym := sy, hs_step := 3 \<rparr>)"
    "read_message L m R = (Some p, R\<lparr> hs_rs := s_pk W, hs_sym := sy, hs_step := 3 \<rparr>)"
    "length m = DHLEN + 2 * MACLEN + length p"
proof -
  obtain se where se: "dh L (s_sk W) (hs_re W) = Some se" "dh L (e_sk R) (s_pk W) = Some se"
    using dh_ok_shared [OF ok(2)] keys by metis
  obtain c1 sy1 where c1: "encrypt_and_hash L (s_pk W) (hs_sym W) = (Some c1, sy1)"
      "length c1 = DHLEN + MACLEN" "decrypt_and_hash L c1 (hs_sym W) = (Some (s_pk W), sy1)"
    using encrypt_and_hash_total [OF ok(1), of "s_pk W" "hs_sym W"] ok(2) keys(2) keyed by auto
  let ?s2 = "mix_key L se sy1"
  obtain c2 sy2 where c2: "encrypt_and_hash L p ?s2 = (Some c2, sy2)"
      "length c2 = length p + MACLEN" "decrypt_and_hash L c2 ?s2 = (Some p, sy2)"
    using encrypt_and_hash_total [OF ok(1), of p ?s2] by auto
  show ?thesis
  proof (rule that [of "c1 @ c2" sy2])
    show "write_message L e p W = (Some (c1 @ c2), W\<lparr> hs_sym := sy2, hs_step := 3 \<rparr>)"
      using c1 c2 st se role by (simp add: write_message_def write_msg3_def andthen_def token_defs)
    show "read_message L (c1 @ c2) R = (Some p, R\<lparr> hs_rs := s_pk W, hs_sym := sy2, hs_step := 3 \<rparr>)"
      using c1 c2 st se role ok(2) sync
      by (simp add: read_message_def read_msg3_def andthen_def token_defs)
  qed (use c1 c2 ok(2) in simp_all)
qed

subsection \<open>Well-formed handshake states and message sizes\<close>

text \<open>
  From step 2 on the cipher has a key, so the encrypted static key decrypts to exactly
  \<open>DHLEN\<close> bytes and \<open>rs\<close> never overflows. Every token keeps this, also when it fails.
\<close>

definition fill_ok :: "sodium \<Rightarrow> bool" where
  "fill_ok L \<longleftrightarrow> (\<forall>b. length (aead_fail_fill L b) = length b)"

definition hs_wf :: "handshake_state \<Rightarrow> bool" where
  "hs_wf hs \<longleftrightarrow> (2 \<le> hs_step hs \<longrightarrow> cs_has_key (sym_cipher (hs_sym hs)))
     \<and> length (hs_rs hs) = DHLEN \<and> length (hs_re hs) = DHLEN"

lemma sym_has_key_mono:
  "encrypt_and_hash L p s = (r, s') \<Longrightarrow> cs_has_key (sym_cipher s') = cs_has_key (sym_cipher s)"
  "decrypt_and_hash L p s = (r, s') \<Longrightarrow> cs_has_key (sym_cipher s') = cs_has_key (sym_cipher s)"
  by (auto simp: encrypt_and_hash_def decrypt_and_hash_def cs_encrypt_def cs_decrypt_def
      split: prod.splits option.splits if_splits)

lemma decrypt_and_hash_length:
  "aead_len_ok L \<Longrightarrow> decrypt_and_hash L c s = (Some p, s') \<Longrightarrow>
     length c = length p + (if cs_has_key (sym_cipher s) then MACLEN else 0)"
  by (auto simp: decrypt_and_hash_def cs_decrypt_def aead_len_ok_def
      split: prod.splits option.splits if_splits)

lemma encrypt_and_hash_length:
  "aead_ok L \<Longrightarrow> encrypt_and_hash L p s = (Some c, s') \<Longrightarrow>
     length c = length p + (if cs_has_key (sym_cipher s) then MACLEN else 0)"
  using encrypt_and_hash_total [of L p s] by auto

definition tok_ok :: "(handshake_state \<Rightarrow> 'a option \<times> handshake_state) \<Rightarrow> bool" where
  "tok_ok m \<longleftrightarrow> (\<forall>hs r hs'. m hs = (r, hs') \<longrightarrow>
     hs_step hs' = hs_step hs \<and> hs_initiator hs' = hs_initiator hs \<and> s_pk hs' = s_pk hs \<and> s_sk hs' = s_sk hs
     \<and> (cs_has_key (sym_cipher (hs_sym hs)) \<longrightarrow> cs_has_key (sym_cipher (hs_sym hs')))
     \<and> (length (hs_re hs) = DHLEN \<longrightarrow> length (hs_re hs') = DHLEN))"

lemma tok_ok_andthen: "tok_ok m \<Longrightarrow> (\<And>a. tok_ok (f a)) \<Longrightarrow> tok_ok (andthen m f)"
  unfolding tok_ok_def andthen_def by (auto split: prod.splits option.splits)

lemma tok_ok_tokens:
  "tok_ok (put_e L rnd)" "tok_ok (mix_dh L keys)" "tok_ok (put_enc L g)" "tok_ok (get_e L msg)"
  "tok_ok (get_s L off msg)" "tok_ok (get_dec L c)" "tok_ok (ret a)"
  by (auto simp: tok_ok_def token_defs sym_has_key_mono split: prod.splits option.splits if_splits)

lemma tok_ok_messages:
  "tok_ok (write_msg1 L rnd p)" "tok_ok (write_msg2 L rnd p)" "tok_ok (write_msg3 L p)"
  "tok_ok (read_msg1 L m)" "tok_ok (read_msg2 L m)" "tok_ok (read_msg3 L m)"
  unfolding write_msg1_def write_msg2_def write_msg3_def read_msg1_def read_msg2_def read_msg3_def
  by (intro tok_ok_andthen tok_ok_tokens)+

lemma tok_okD:
  assumes "tok_ok m" "m hs = (r, hs')"
  shows "hs_step hs' = hs_step hs" "hs_initiator hs' = hs_initiator hs" "s_pk hs' = s_pk hs"
    "s_sk hs' = s_sk hs"
    "cs_has_key (sym_cipher (hs_sym hs)) \<Longrightarrow> cs_has_key (sym_cipher (hs_sym hs'))"
    "length (hs_re hs) = DHLEN \<Longrightarrow> length (hs_re hs') = DHLEN"
  using assms unfolding tok_ok_def by blast+

text \<open>Tokens other than \<open>get_s\<close> do not write \<open>rs\<close>.\<close>

lemma rs_untouched:
  "put_e L rnd hs = (r1, hs1) \<Longrightarrow> hs_rs hs1 = hs_rs hs"
  "mix_dh L keys hs = (r2, hs1) \<Longrightarrow> hs_rs hs1 = hs_rs hs"
  "put_enc L g hs = (r3, hs1) \<Longrightarrow> hs_rs hs1 = hs_rs hs"
  "get_e L msg hs = (r4, hs1) \<Longrightarrow> hs_rs hs1 = hs_rs hs"
  "get_dec L c hs = (r5, hs1) \<Longrightarrow> hs_rs hs1 = hs_rs hs"
  by (auto simp: token_defs split: prod.splits option.splits if_splits)

lemma write_msg_rs:
  "write_msg1 L rnd p hs = (r, hs') \<Longrightarrow> hs_rs hs' = hs_rs hs"
  "write_msg2 L rnd p hs = (r, hs') \<Longrightarrow> hs_rs hs' = hs_rs hs"
  "write_msg3 L p hs = (r, hs') \<Longrightarrow> hs_rs hs' = hs_rs hs"
  "read_msg1 L m hs = (r, hs') \<Longrightarrow> hs_rs hs' = hs_rs hs"
  by (auto simp: write_msg1_def write_msg2_def write_msg3_def read_msg1_def andthen_def ret_def
      dest!: rs_untouched split: prod.splits option.splits)

lemma mix_dh_keyed: "mix_dh L keys hs = (Some u, hs') \<Longrightarrow> cs_has_key (sym_cipher (hs_sym hs'))"
  by (auto simp: mix_dh_def split: option.splits)

lemma mix_dh_facts:
  "mix_dh L keys hs = (r, hs') \<Longrightarrow>
     hs_rs hs' = hs_rs hs \<and> (r \<noteq> None \<longrightarrow> cs_has_key (sym_cipher (hs_sym hs')))"
  by (auto simp: mix_dh_def split: option.splits)

lemma get_s_rs_length:
  "aead_len_ok L \<Longrightarrow> fill_ok L \<Longrightarrow> cs_has_key (sym_cipher (hs_sym hs)) \<Longrightarrow> length (hs_rs hs) = DHLEN \<Longrightarrow>
     get_s L off m hs = (r, hs') \<Longrightarrow> length (hs_rs hs') = DHLEN"
  by (auto simp: get_s_def fill_ok_def noise_lens dest!: decrypt_and_hash_length
      split: if_splits prod.splits option.splits)

lemma read_msg2_rs:
  assumes "aead_len_ok L" "fill_ok L" "length (hs_rs hs) = DHLEN" "read_msg2 L m hs = (r, hs')"
  shows "length (hs_rs hs') = DHLEN"
  using assms unfolding read_msg2_def andthen_def
  by (auto split: prod.splits option.splits
      dest!: rs_untouched(4,5) mix_dh_facts) (metis get_s_rs_length)+

lemma read_msg3_rs:
  assumes "aead_len_ok L" "fill_ok L" "length (hs_rs hs) = DHLEN" "cs_has_key (sym_cipher (hs_sym hs))"
    "read_msg3 L m hs = (r, hs')"
  shows "length (hs_rs hs') = DHLEN"
  using assms unfolding read_msg3_def andthen_def
  by (auto split: prod.splits option.splits dest!: rs_untouched intro: get_s_rs_length)

lemma msg2_keyed:
  "write_msg2 L rnd p hs = (Some m, hs') \<Longrightarrow> cs_has_key (sym_cipher (hs_sym hs'))"
  "read_msg2 L c hs = (Some m, hs') \<Longrightarrow> cs_has_key (sym_cipher (hs_sym hs'))"
  unfolding write_msg2_def read_msg2_def
  by (auto elim!: andthen_SomeE simp: ret_def dest!: mix_dh_keyed
      dest: tok_okD(5) [OF tok_ok_tokens(3)] tok_okD(5) [OF tok_ok_tokens(6)])

lemma count_stepE:
  assumes "count_step r = (x, hs')"
  obtains hs1 where "r = (x, hs1)" "hs' = (if x = None then hs1 else hs1\<lparr> hs_step := hs_step hs1 + 1 \<rparr>)"
  using assms by (auto simp: count_step_def split: prod.splits option.splits)

lemma read_message_wf:
  assumes "aead_len_ok L" "fill_ok L" "hs_wf hs" "read_message L m hs = (r, hs')"
  shows "hs_wf hs'"
proof -
  obtain hs1 where 1: "(if hs_step hs = 0 then read_msg1 L m hs else if hs_step hs = 1 then read_msg2 L m hs
      else if hs_step hs = 2 then read_msg3 L m hs else (None, hs)) = (r, hs1)"
    and hs': "hs' = (if r = None then hs1 else hs1\<lparr> hs_step := hs_step hs1 + 1 \<rparr>)"
    using assms(4) unfolding read_message_def by (rule count_stepE)
  consider "hs_step hs = 0" | "hs_step hs = 1" | "hs_step hs = 2" | "3 \<le> hs_step hs" by linarith
  then show ?thesis
  proof cases
    case 1
    with \<open>(if _ then _ else _) = _\<close> have m: "read_msg1 L m hs = (r, hs1)" by simp
    show ?thesis
      using tok_okD [OF tok_ok_messages(4) m] write_msg_rs(4) [OF m] assms(3) hs' 1 by (auto simp: hs_wf_def)
  next
    case 2
    with \<open>(if _ then _ else _) = _\<close> have m: "read_msg2 L m hs = (r, hs1)" by simp
    show ?thesis
      using tok_okD [OF tok_ok_messages(5) m] read_msg2_rs [OF assms(1,2) _ m] msg2_keyed(2) m assms(3) hs' 2
      by (auto simp: hs_wf_def)
  next
    case 3
    with \<open>(if _ then _ else _) = _\<close> have m: "read_msg3 L m hs = (r, hs1)" by simp
    show ?thesis
      using tok_okD [OF tok_ok_messages(6) m] read_msg3_rs [OF assms(1,2) _ _ m] assms(3) hs' 3
      by (auto simp: hs_wf_def)
  next
    case 4
    with \<open>(if _ then _ else _) = _\<close> hs' assms(3) show ?thesis by (auto simp: hs_wf_def)
  qed
qed

lemma write_message_wf:
  assumes "hs_wf hs" "write_message L rnd p hs = (r, hs')"
  shows "hs_wf hs'"
proof -
  obtain hs1 where 1: "(if hs_step hs = 0 then write_msg1 L rnd p hs else if hs_step hs = 1 then write_msg2 L rnd p hs
      else if hs_step hs = 2 then write_msg3 L p hs else (None, hs)) = (r, hs1)"
    and hs': "hs' = (if r = None then hs1 else hs1\<lparr> hs_step := hs_step hs1 + 1 \<rparr>)"
    using assms(2) unfolding write_message_def by (rule count_stepE)
  consider "hs_step hs = 0" | "hs_step hs = 1" | "hs_step hs = 2" | "3 \<le> hs_step hs" by linarith
  then show ?thesis
  proof cases
    case 1
    with \<open>(if _ then _ else _) = _\<close> have m: "write_msg1 L rnd p hs = (r, hs1)" by simp
    show ?thesis
      using tok_okD [OF tok_ok_messages(1) m] write_msg_rs(1) [OF m] assms(1) hs' 1 by (auto simp: hs_wf_def)
  next
    case 2
    with \<open>(if _ then _ else _) = _\<close> have m: "write_msg2 L rnd p hs = (r, hs1)" by simp
    show ?thesis
      using tok_okD [OF tok_ok_messages(2) m] write_msg_rs(2) [OF m] msg2_keyed(1) m assms(1) hs' 2
      by (auto simp: hs_wf_def)
  next
    case 3
    with \<open>(if _ then _ else _) = _\<close> have m: "write_msg3 L p hs = (r, hs1)" by simp
    show ?thesis
      using tok_okD [OF tok_ok_messages(3) m] write_msg_rs(3) [OF m] assms(1) hs' 3 by (auto simp: hs_wf_def)
  next
    case 4
    with \<open>(if _ then _ else _) = _\<close> hs' assms(1) show ?thesis by (auto simp: hs_wf_def)
  qed
qed

lemma hs_init_wf: "hs_wf (hs_init L i pk sk fresh_handshake)"
  by (simp add: hs_wf_def hs_init_def fresh_handshake_def zero_key_def noise_lens)

text \<open>
  Neither role, nor the static keys, nor the step counter move except by one step per successful
  message.
\<close>

lemma message_frame:
  "read_message L m hs = (r, hs') \<Longrightarrow> hs_initiator hs' = hs_initiator hs \<and> s_pk hs' = s_pk hs
     \<and> hs_step hs' = (if r = None then hs_step hs else hs_step hs + 1)"
  "write_message L rnd p hs = (r, hs') \<Longrightarrow> hs_initiator hs' = hs_initiator hs \<and> s_pk hs' = s_pk hs
     \<and> hs_step hs' = (if r = None then hs_step hs else hs_step hs + 1)"
  unfolding read_message_def write_message_def
  by (auto elim!: count_stepE split: if_splits
      dest: tok_okD(1-3) [OF tok_ok_messages(1)] tok_okD(1-3) [OF tok_ok_messages(2)]
        tok_okD(1-3) [OF tok_ok_messages(3)] tok_okD(1-3) [OF tok_ok_messages(4)]
        tok_okD(1-3) [OF tok_ok_messages(5)] tok_okD(1-3) [OF tok_ok_messages(6)])

lemma read_message_length:
  assumes "aead_len_ok L" "read_message L m hs = (Some p, hs')"
  shows "length p \<le> length m"
proof -
  have dec: "length p \<le> length c" if "get_dec L c x = (Some p, y)" for c x y
    using that decrypt_and_hash_length [OF assms(1)] by (fastforce simp: get_dec_def split: prod.splits)
  show ?thesis
    using assms(2) unfolding read_message_def read_msg1_def read_msg2_def read_msg3_def
    by (auto elim!: count_stepE andthen_SomeE split: if_splits dest!: dec)
qed

lemma put_enc_length:
  "aead_ok L \<Longrightarrow> put_enc L g hs = (Some c, hs') \<Longrightarrow> length c \<le> length (g hs) + MACLEN"
  by (auto simp: put_enc_def dest!: encrypt_and_hash_length split: prod.splits)

lemma put_e_length: "dh_ok L \<Longrightarrow> put_e L rnd hs = (Some c, hs') \<Longrightarrow>
     length c = DHLEN \<and> s_pk hs' = s_pk hs"
  by (auto simp: put_e_def generate_keypair_def)

lemma write_message_length:
  assumes ok: "aead_ok L" "dh_ok L" and spk: "length (s_pk hs) = DHLEN"
    and w: "write_message L rnd p hs = (Some m, hs')"
  shows "length m \<le> (if hs_step hs = 0 then DHLEN + MACLEN
     else if hs_step hs = 1 then 2 * DHLEN + 2 * MACLEN else DHLEN + 2 * MACLEN) + length p"
  using w unfolding write_message_def write_msg1_def write_msg2_def write_msg3_def
  by (auto elim!: count_stepE andthen_SomeE split: if_splits simp: ret_def spk
      dest!: put_e_length [OF ok(2)] put_enc_length [OF ok(1)]
      simp: tok_okD(3) [OF tok_ok_tokens(1)] tok_okD(3) [OF tok_ok_tokens(2)])

subsection \<open>A model of the primitives\<close>

text \<open>
  A concrete instance of \<open>sodium\<close> that satisfies the laws, for evaluating the operations and for
  showing that the laws are consistent. It is no cryptography: a tag made of the nonce and the
  key stands for Poly1305, a bytewise XOR for X25519.
\<close>

definition toy_tag :: "bytes \<Rightarrow> bytes \<Rightarrow> bytes" where
  "toy_tag k n = pad_to 16 (drop 4 n @ k)"

definition toy_dec :: "bytes \<Rightarrow> bytes \<Rightarrow> bytes \<Rightarrow> bytes \<Rightarrow> bytes option" where
  "toy_dec k n a c =
     (if 16 \<le> length c \<and> drop (length c - 16) c = toy_tag k n then Some (take (length c - 16) c) else None)"

definition toy_sodium :: sodium where
  "toy_sodium = \<lparr> scalarmult = (\<lambda>sk pk. Some (map2 (+) (pad_to 32 sk) (pad_to 32 pk))),
     scalarmult_base = pad_to 32,
     aead_encrypt = (\<lambda>k n a p. Some (p @ toy_tag k n)), aead_decrypt = toy_dec,
     aead_fail_fill = id, blake2b = (\<lambda>k d. pad_to 32 (take 7 k @ drop (length d - 21) d)),
     sign_detached = (\<lambda>m sk. pad_to 64 (drop 32 sk)), sign_verify = (\<lambda>sig m pk. sig = pad_to 64 pk),
     pk_to_curve = (\<lambda>pk. Some (pad_to 32 pk)), sk_to_curve = (\<lambda>sk. pad_to 32 (drop 32 sk)),
     uninit = (\<lambda>n. replicate n 0) \<rparr>"

lemma pad_to_idem [simp]: "pad_to n (pad_to n b) = pad_to n b"
  by (simp add: pad_to_def)

lemma length_toy_tag [simp]: "length (toy_tag k n) = 16"
  by (simp add: toy_tag_def)

lemma map2_add_commute: "map2 (+) xs ys = map2 (+) ys (xs :: bytes)"
proof (induction xs arbitrary: ys)
  case Nil
  then show ?case by simp
next
  case (Cons x xs)
  then show ?case by (cases ys) (simp_all add: add.commute)
qed

lemma toy_sodium_ok [simp]: "sodium_ok toy_sodium" "fill_ok toy_sodium"
proof -
  have "aead_ok toy_sodium" "aead_len_ok toy_sodium"
    by (auto simp: aead_ok_def aead_len_ok_def toy_sodium_def toy_dec_def MACLEN_def split: if_splits)
  moreover have "dh_ok toy_sodium"
    by (auto simp: dh_ok_def toy_sodium_def DHLEN_def map2_add_commute)
  moreover have "hash_ok toy_sodium"
    by (simp add: hash_ok_def toy_sodium_def HASHLEN_def)
  ultimately show "sodium_ok toy_sodium" by (simp add: sodium_ok_def)
  show "fill_ok toy_sodium" by (simp add: fill_ok_def toy_sodium_def)
qed

subsection \<open>Properties\<close>

lemma is_complete_simp [simp]: "is_complete (hs\<lparr> hs_step := 3 \<rparr>)"
  by (simp add: is_complete_def)

text \<open>
  Property C3. Two honest parties that run \<open>write_message\<close> and \<open>read_message\<close> in turn complete
  the Noise\_XX handshake: every message is accepted, every payload arrives, both sides learn the
  other's static key, agree on the handshake hash, and the keys that \<open>split\<close> gives them match
  crosswise.
\<close>

theorem noise_xx_agreement:
  assumes L: "sodium_ok L"
  shows "\<exists>m1 m2 m3 I1 I2 I3 R1 R2 R3.
    write_message L eI p1 (hs_init L True (scalarmult_base L sI) sI fresh_handshake) = (Some m1, I1)
    \<and> read_message L m1 (hs_init L False (scalarmult_base L sR) sR fresh_handshake) = (Some p1, R1)
    \<and> write_message L eR p2 R1 = (Some m2, R2) \<and> read_message L m2 I1 = (Some p2, I2)
    \<and> write_message L eX p3 I2 = (Some m3, I3) \<and> read_message L m3 R2 = (Some p3, R3)
    \<and> is_complete I3 \<and> is_complete R3
    \<and> hs_rs I3 = scalarmult_base L sR \<and> hs_rs R3 = scalarmult_base L sI
    \<and> get_handshake_hash I3 = get_handshake_hash R3
    \<and> fst (hs_split L I3) = snd (hs_split L R3) \<and> snd (hs_split L I3) = fst (hs_split L R3)"
proof -
  have ok: "aead_ok L" "dh_ok L" using L by (simp_all add: sodium_ok_def)
  let ?I = "hs_init L True (scalarmult_base L sI) sI fresh_handshake"
  let ?R = "hs_init L False (scalarmult_base L sR) sR fresh_handshake"
  have init: "hs_sym ?I = hs_sym ?R" "hs_step ?I = 0" "hs_step ?R = 0" by (simp_all add: hs_init_def)
  obtain m1 y1 where 1: "write_message L eI p1 ?I
        = (Some m1, ?I\<lparr> e_pk := scalarmult_base L eI, e_sk := eI, hs_sym := y1, hs_step := 1 \<rparr>)"
      "read_message L m1 ?R = (Some p1, ?R\<lparr> hs_re := scalarmult_base L eI, hs_sym := y1, hs_step := 1 \<rparr>)"
    by (rule xx_msg1 [OF ok init])
  let ?I1 = "?I\<lparr> e_pk := scalarmult_base L eI, e_sk := eI, hs_sym := y1, hs_step := 1 \<rparr>"
  let ?R1 = "?R\<lparr> hs_re := scalarmult_base L eI, hs_sym := y1, hs_step := 1 \<rparr>"
  obtain m2 y2 where 2: "write_message L eR p2 ?R1
        = (Some m2, ?R1\<lparr> e_pk := scalarmult_base L eR, e_sk := eR, hs_sym := y2, hs_step := 2 \<rparr>)"
      "read_message L m2 ?I1
        = (Some p2, ?I1\<lparr> hs_re := scalarmult_base L eR, hs_rs := s_pk ?R1, hs_sym := y2, hs_step := 2 \<rparr>)"
      "cs_has_key (sym_cipher y2)"
    by (rule xx_msg2 [OF ok, of ?R1 ?I1 eR p2]) (simp_all add: hs_init_def)
  let ?R2 = "?R1\<lparr> e_pk := scalarmult_base L eR, e_sk := eR, hs_sym := y2, hs_step := 2 \<rparr>"
  let ?I2 = "?I1\<lparr> hs_re := scalarmult_base L eR, hs_rs := s_pk ?R1, hs_sym := y2, hs_step := 2 \<rparr>"
  obtain m3 y3 where 3: "write_message L eX p3 ?I2 = (Some m3, ?I2\<lparr> hs_sym := y3, hs_step := 3 \<rparr>)"
      "read_message L m3 ?R2 = (Some p3, ?R2\<lparr> hs_rs := s_pk ?I2, hs_sym := y3, hs_step := 3 \<rparr>)"
    by (rule xx_msg3 [OF ok, of ?I2 ?R2 eX p3]) (simp_all add: hs_init_def 2(3))
  show ?thesis
    by (intro exI conjI, rule 1(1), rule 1(2), rule 2(1), rule 2(2), rule 3(1), rule 3(2))
      (auto simp: hs_init_def is_complete_def get_handshake_hash_def hs_split_def split: prod.splits)
qed

theorem noise_xx_agreement_witness:
  "\<exists>m1 m2 m3 I1 I2 I3 R1 R2 R3.
    write_message toy_sodium [1] [7] (hs_init toy_sodium True (scalarmult_base toy_sodium [2]) [2] fresh_handshake)
      = (Some m1, I1)
    \<and> read_message toy_sodium m1 (hs_init toy_sodium False (scalarmult_base toy_sodium [3]) [3] fresh_handshake)
      = (Some [7], R1)
    \<and> write_message toy_sodium [4] [8] R1 = (Some m2, R2) \<and> read_message toy_sodium m2 I1 = (Some [8], I2)
    \<and> write_message toy_sodium [5] [9] I2 = (Some m3, I3) \<and> read_message toy_sodium m3 R2 = (Some [9], R3)
    \<and> is_complete I3 \<and> is_complete R3
    \<and> hs_rs I3 = scalarmult_base toy_sodium [3] \<and> hs_rs R3 = scalarmult_base toy_sodium [2]
    \<and> get_handshake_hash I3 = get_handshake_hash R3
    \<and> fst (hs_split toy_sodium I3) = snd (hs_split toy_sodium R3)
    \<and> snd (hs_split toy_sodium I3) = fst (hs_split toy_sodium R3)"
  by (rule noise_xx_agreement [OF toy_sodium_ok(1)])

text \<open>
  Every handshake message fits the buffer its caller provides: 256 bytes for msg1
  without payload, \<open>2 DHLEN + 2 MACLEN + n + 256\<close> and \<open>DHLEN + 2 MACLEN + n + 256\<close> for msg2 and
  msg3 with an \<open>n\<close>-byte payload; and a payload read from a message is no longer than the message,
  which is the size of the buffer used for msg2 and msg3.
\<close>

theorem handshake_buffers_suffice:
  assumes L: "sodium_ok L" and pk: "length (s_pk hs) = DHLEN"
    and w: "write_message L rnd p hs = (Some m, hs1)" and r: "read_message L m2 hs2 = (Some p2, hs3)"
  shows "(hs_step hs = 0 \<and> p = [] \<longrightarrow> length m \<le> 256)
    \<and> (hs_step hs = 1 \<longrightarrow> length m \<le> DHLEN * 2 + MACLEN * 2 + length p + 256)
    \<and> (hs_step hs = 2 \<longrightarrow> length m \<le> DHLEN + MACLEN * 2 + length p + 256)
    \<and> length p2 \<le> length m2"
  using write_message_length [OF _ _ pk w] read_message_length [OF _ r] L
  by (auto simp: sodium_ok_def noise_lens)

theorem handshake_buffers_suffice_witness:
  "let I = hs_init toy_sodium True (scalarmult_base toy_sodium [2]) [2] fresh_handshake;
       R = hs_init toy_sodium False (scalarmult_base toy_sodium [3]) [3] fresh_handshake;
       m = the (fst (write_message toy_sodium [1] [] I))
   in length m = 32 \<and> length m \<le> 256 \<and> fst (read_message toy_sodium m R) = Some []"
proof -
  let ?I = "hs_init toy_sodium True (scalarmult_base toy_sodium [2]) [2] fresh_handshake"
  let ?R = "hs_init toy_sodium False (scalarmult_base toy_sodium [3]) [3] fresh_handshake"
  have ok: "aead_ok toy_sodium" "dh_ok toy_sodium" using toy_sodium_ok(1) by (simp_all add: sodium_ok_def)
  obtain m y where 1: "write_message toy_sodium [1] [] ?I = (Some m, ?I\<lparr> e_pk := scalarmult_base toy_sodium [1],
        e_sk := [1], hs_sym := y, hs_step := 1 \<rparr>)"
      "read_message toy_sodium m ?R = (Some [], ?R\<lparr> hs_re := scalarmult_base toy_sodium [1], hs_sym := y, hs_step := 1 \<rparr>)"
      "length m = DHLEN + length ([] :: bytes) + (if cs_has_key (sym_cipher (hs_sym ?I)) then MACLEN else 0)"
    by (rule xx_msg1 [OF ok, of ?I ?R "[1]" "[]"]) (simp_all add: hs_init_def)
  have pk: "length (s_pk ?I) = DHLEN" by (simp add: hs_init_def ok(2))
  show ?thesis
    using 1 handshake_buffers_suffice [OF toy_sodium_ok(1) pk 1(1,2)]
    by (simp add: Let_def hs_init_def sym_init_def fresh_cipher_def DHLEN_def)
qed

text \<open>
  The first message is read before any key exists: \<open>read_message\<close> copies everything
  behind the 32-byte ephemeral key into the caller's buffer, unchecked. \<open>handle_noise_init\<close>
  provides one byte for it, so any message of more than 33 bytes writes past that buffer.
\<close>

theorem noise_init_payload_unbounded:
  assumes "DHLEN \<le> length msg"
  shows "fst (read_message L msg (hs_init L False pk sk fresh_handshake)) = Some (drop DHLEN msg)"
  using assms
  by (simp add: read_message_def read_msg1_def andthen_def token_defs hs_init_def sym_init_def
      decrypt_and_hash_def cs_decrypt_def mix_hash_def fresh_cipher_def)

theorem noise_init_payload_unbounded_witness:
  "length (the (fst (read_message toy_sodium (replicate 132 0) (hs_init toy_sodium False [1] [2] fresh_handshake)))) = 100"
  using noise_init_payload_unbounded [of "replicate 132 0" toy_sodium "[1]" "[2]"]
  by (simp add: DHLEN_def)

end
