(* ===== verification/Session.thy ===== *)
theory Session
  imports Wire Nonce_Window Noise
begin

section \<open>NoiseSession: the transport encryption of a connection\<close>

text \<open>
  \<open>NoiseSession\<close> of \<open>core/types/connection.hpp\<close> with \<open>encrypt\<close> and \<open>decrypt\<close> of
  \<open>core/cm/transport.cpp\<close>, and the key update of \<open>rekey_session\<close> (\<open>core/cm/handshake.cpp\<close>).
  zstd is the record \<open>zstd_lib\<close>; \<open>None\<close> stands for \<open>ZSTD_isError\<close>. As in the C++ code
  \<open>decrypt\<close> returns the empty vector for every failure.
\<close>

record zstd_lib =
  zstd_compress :: "int \<Rightarrow> bytes \<Rightarrow> bytes option"
  zstd_decompress :: "nat \<Rightarrow> bytes \<Rightarrow> bytes option"

definition zstd_ok :: "zstd_lib \<Rightarrow> bool" where
  "zstd_ok Z \<longleftrightarrow> (\<forall>lv p c. zstd_compress Z lv p = Some c \<longrightarrow> zstd_decompress Z (length p) c = Some p)"

record noise_session =
  send_key :: bytes
  recv_key :: bytes
  handshake_hash :: bytes
  recv_window :: nonce_window

definition FLAG_RAW :: u8 where "FLAG_RAW = 0"
definition FLAG_ZSTD :: u8 where "FLAG_ZSTD = 1"
definition MAX_ORIG_SIZE :: u32 where "MAX_ORIG_SIZE = 128 * 1024 * 1024"

definition to_size_t :: "int \<Rightarrow> nat" where
  "to_size_t i = nat (i mod 2 ^ 64)"

definition session_body :: "zstd_lib \<Rightarrow> bytes \<Rightarrow> bool \<Rightarrow> int \<Rightarrow> int \<Rightarrow> bytes" where
  "session_body Z plain compress_enabled compress_threshold compress_level =
     (let comp = (if compress_enabled \<and> length plain > to_size_t compress_threshold
                  then (case zstd_compress Z compress_level plain of
                          Some c \<Rightarrow> if length c < length plain then Some c else None
                        | None \<Rightarrow> None)
                  else None)
      in case comp of
           Some c \<Rightarrow> FLAG_ZSTD # put_u32 (word_of_nat (length plain)) @ c
         | None \<Rightarrow> FLAG_RAW # plain)"

definition session_encrypt :: "sodium \<Rightarrow> zstd_lib \<Rightarrow> noise_session \<Rightarrow> bytes \<Rightarrow> u64 \<Rightarrow> bool \<Rightarrow> int \<Rightarrow> int \<Rightarrow> bytes" where
  "session_encrypt L Z s plain nonce compress_enabled compress_threshold compress_level =
     (let body = session_body Z plain compress_enabled compress_threshold compress_level
      in case aead_encrypt L (send_key s) (nonce12 nonce) [] body of Some wire \<Rightarrow> wire | None \<Rightarrow> [])"

definition decode_body :: "zstd_lib \<Rightarrow> bytes \<Rightarrow> bytes" where
  "decode_body Z body =
     (case body of
        [] \<Rightarrow> []
      | flags # payload \<Rightarrow>
          if flags = FLAG_RAW then payload
          else if flags = FLAG_ZSTD then
            if length payload < 4 then []
            else let orig_size = get_u32 0 payload
                 in if orig_size = 0 \<or> orig_size > MAX_ORIG_SIZE then []
                    else (case zstd_decompress Z (unat orig_size) (drop 4 payload) of
                            None \<Rightarrow> [] | Some plain \<Rightarrow> plain)
          else [])"

definition session_decrypt :: "sodium \<Rightarrow> zstd_lib \<Rightarrow> noise_session \<Rightarrow> bytes \<Rightarrow> u64 \<Rightarrow> bytes \<times> noise_session" where
  "session_decrypt L Z s wire nonce =
     (if length wire < MACLEN then ([], s)
      else let (ok, win) = accept nonce (recv_window s); s1 = s\<lparr> recv_window := win \<rparr>
           in if \<not> ok then ([], s1)
              else case aead_decrypt L (recv_key s1) (nonce12 nonce) [] wire of
                     None \<Rightarrow> ([], s1)
                   | Some body \<Rightarrow> (decode_body Z body, s1))"

text \<open>
  \<open>rekey_session\<close>: each direction's key is replaced by the first HKDF output over it, and the
  window is emptied. The record's counter is set by the connection manager.
\<close>

definition session_rekey :: "sodium \<Rightarrow> noise_session \<Rightarrow> noise_session" where
  "session_rekey L s =
     (let (new_send, _) = hkdf2 L (send_key s) [];
          (new_recv, _) = hkdf2 L (recv_key s) []
      in s\<lparr> send_key := take KEYLEN new_send, recv_key := take KEYLEN new_recv,
            recv_window := reset (recv_window s) \<rparr>)"

definition session_of_handshake :: "sodium \<Rightarrow> handshake_state \<Rightarrow> noise_session" where
  "session_of_handshake L hs =
     (let (c_send, c_recv) = hs_split L hs
      in \<lparr> send_key = cs_key c_send, recv_key = cs_key c_recv,
           handshake_hash = get_handshake_hash hs, recv_window = empty_window \<rparr>)"

subsection \<open>Encryption round trip\<close>

lemma decode_session_body:
  assumes "zstd_ok Z" "length plain \<le> 128 * 1024 * 1024"
  shows "decode_body Z (session_body Z plain en th lv) = plain"
proof (cases "en \<and> length plain > to_size_t th \<and>
    (\<exists>c. zstd_compress Z lv plain = Some c \<and> length c < length plain)")
  case True
  then obtain c where c: "zstd_compress Z lv plain = Some c" "length c < length plain" by blast
  have sz: "unat (word_of_nat (length plain) :: u32) = length plain"
    using assms(2) by (simp add: unat_of_nat)
  have "(word_of_nat (length plain) :: u32) \<noteq> 0"
    using sz c(2) by (metis less_nat_zero_code unat_0)
  moreover have "\<not> (word_of_nat (length plain) :: u32) > MAX_ORIG_SIZE"
    using assms(2) by (simp add: word_less_nat_alt sz MAX_ORIG_SIZE_def)
  ultimately show ?thesis
    using True c sz assms(1)
    by (auto simp: session_body_def decode_body_def Let_def FLAG_RAW_def FLAG_ZSTD_def zstd_ok_def)
next
  case False
  then have "session_body Z plain en th lv = FLAG_RAW # plain"
    by (auto simp: session_body_def Let_def split: option.splits)
  then show ?thesis by (simp add: decode_body_def)
qed

lemma session_encrypt_decrypt:
  assumes "aead_ok L" "zstd_ok Z" "recv_key r = send_key s" "fst (accept n (recv_window r))"
    "length plain \<le> 128 * 1024 * 1024"
  shows "session_decrypt L Z r (session_encrypt L Z s plain n en th lv) n
    = (plain, r\<lparr> recv_window := snd (accept n (recv_window r)) \<rparr>)"
proof -
  let ?b = "session_body Z plain en th lv"
  obtain c where c: "aead_encrypt L (send_key s) (nonce12 n) [] ?b = Some c"
      "length c = length ?b + MACLEN" "aead_decrypt L (send_key s) (nonce12 n) [] c = Some ?b"
    using assms(1) unfolding aead_ok_def by blast
  then show ?thesis
    using assms decode_session_body [OF assms(2,5), of en th lv]
    by (auto simp: session_encrypt_def session_decrypt_def Let_def split: prod.splits)
qed

lemma session_decrypt_window:
  "session_decrypt L Z s wire n = (p, s') \<Longrightarrow>
     s' = (if length wire < MACLEN then s else s\<lparr> recv_window := snd (accept n (recv_window s)) \<rparr>)"
  by (auto simp: session_decrypt_def Let_def split: prod.splits if_splits option.splits)

lemma session_decrypt_keys:
  "session_decrypt L Z s wire n = (p, s') \<Longrightarrow>
     send_key s' = send_key s \<and> recv_key s' = recv_key s \<and> handshake_hash s' = handshake_hash s"
  by (auto dest!: session_decrypt_window)

lemma session_decrypt_accepts:
  "fst (session_decrypt L Z s wire n) \<noteq> [] \<Longrightarrow> MACLEN \<le> length wire \<and> fst (accept n (recv_window s))"
  by (auto simp: session_decrypt_def Let_def split: prod.splits if_splits option.splits)

lemma session_decrypt_refuses:
  "\<not> fst (accept n (recv_window s)) \<Longrightarrow> fst (session_decrypt L Z s wire n) = []"
  by (auto simp: session_decrypt_def Let_def split: prod.splits)

lemma accept_twice: "fst (accept n (snd (accept n w))) = False"
  using accept_uses_up [of n w] by (simp add: acceptable_def)

fun run_decrypt :: "sodium \<Rightarrow> zstd_lib \<Rightarrow> (bytes \<times> u64) list \<Rightarrow> noise_session \<Rightarrow> bytes list \<times> noise_session" where
  "run_decrypt L Z [] s = ([], s)"
| "run_decrypt L Z ((wire, n) # rest) s =
     (let (p, s1) = session_decrypt L Z s wire n; (ps, s2) = run_decrypt L Z rest s1 in (p # ps, s2))"

definition delivered_nonces :: "bytes list \<Rightarrow> (bytes \<times> u64) list \<Rightarrow> u64 list" where
  "delivered_nonces ps pkts = map (snd \<circ> snd) (filter (\<lambda>(p, _). p \<noteq> []) (zip ps pkts))"

lemma run_decrypt_fresh:
  assumes "window_rel (recv_window s) S" "run_decrypt L Z pkts s = (ps, s')"
  shows "distinct (delivered_nonces ps pkts) \<and> set (delivered_nonces ps pkts) \<inter> S = {}"
  using assms
proof (induction pkts arbitrary: s S ps)
  case Nil
  then show ?case by (simp add: delivered_nonces_def)
next
  case (Cons pkt pkts)
  obtain wire n where pkt: "pkt = (wire, n)" by fastforce
  obtain p s1 where st: "session_decrypt L Z s wire n = (p, s1)" by fastforce
  obtain ps1 where rec: "run_decrypt L Z pkts s1 = (ps1, s')" and ps: "ps = p # ps1"
    using Cons.prems(2) pkt st by (auto split: prod.splits)
  let ?S = "if MACLEN \<le> length wire \<and> fst (accept n (recv_window s)) then insert n S else S"
  have acc: "fst (accept n (recv_window s)) \<longleftrightarrow> spec_accept n S"
    "window_rel (snd (accept n (recv_window s))) (if fst (accept n (recv_window s)) then insert n S else S)"
    using accept_refines [OF Cons.prems(1), of n] by (auto split: prod.splits)
  have rel: "window_rel (recv_window s1) ?S"
    using session_decrypt_window [OF st] Cons.prems(1) acc(2) by auto
  have "p \<noteq> [] \<Longrightarrow> n \<notin> S \<and> n \<in> ?S"
    using session_decrypt_accepts [of L Z s wire n] st acc(1) by (auto simp: spec_accept_def)
  with Cons.IH [OF rel rec] pkt ps show ?case
    by (auto simp: delivered_nonces_def split: if_splits)
qed

subsection \<open>Rekeying\<close>

lemma session_rekey_keys:
  "send_key a = recv_key b \<Longrightarrow> send_key (session_rekey L a) = recv_key (session_rekey L b)"
  by (auto simp: session_rekey_def split: prod.splits)

lemma session_rekey_window: "recv_window (session_rekey L a) = empty_window"
  by (auto simp: session_rekey_def empty_window_def reset_def split: prod.splits)

text \<open>A run-length model of zstd for concrete runs: it compresses constant data only.\<close>

definition toy_zstd :: zstd_lib where
  "toy_zstd = \<lparr> zstd_compress = (\<lambda>lv p. case p of [] \<Rightarrow> None
       | b # _ \<Rightarrow> if p = replicate (length p) b then Some [b] else None),
     zstd_decompress = (\<lambda>n c. case c of [b] \<Rightarrow> Some (replicate n b) | _ \<Rightarrow> None) \<rparr>"

lemma toy_zstd_ok [simp]: "zstd_ok toy_zstd"
  by (auto simp: zstd_ok_def toy_zstd_def split: list.splits if_splits)

subsection \<open>Properties\<close>

definition demo_session :: "bytes \<Rightarrow> bytes \<Rightarrow> noise_session" where
  "demo_session ks kr = \<lparr> send_key = ks, recv_key = kr, handshake_hash = [], recv_window = empty_window \<rparr>"

text \<open>
  What one session encrypts under a fresh nonce, compressed or not, the session with
  the matching receive key decrypts to the same plaintext, up to the 128 MB the receiver accepts.
\<close>

theorem session_roundtrip:
  assumes "aead_ok L" "zstd_ok Z" "recv_key r = send_key s" "fst (accept n (recv_window r))"
    "length plain \<le> 128 * 1024 * 1024"
  shows "fst (session_decrypt L Z r (session_encrypt L Z s plain n en th lv) n) = plain"
  using session_encrypt_decrypt [OF assms, of en th lv] by simp

theorem session_roundtrip_witness:
  "fst (session_decrypt toy_sodium toy_zstd (demo_session [2] [1])
     (session_encrypt toy_sodium toy_zstd (demo_session [1] [2]) (replicate 600 7) 5 True 512 1) 5) = replicate 600 7"
proof -
  have "fst (accept 5 (recv_window (demo_session [2] [1])))"
    by (simp add: demo_session_def accept_def empty_window_def)
  moreover have "aead_ok toy_sodium" using toy_sodium_ok(1) by (simp add: sodium_ok_def)
  ultimately show ?thesis
    using session_roundtrip [of toy_sodium toy_zstd "demo_session [2] [1]" "demo_session [1] [2]" 5 "replicate 600 7" True 512 1]
    by (simp add: demo_session_def)
qed

text \<open>
  Property C9. Whatever packets arrive, a session never delivers two plaintexts under the same
  nonce: a replayed packet is refused.
\<close>

theorem session_no_replay:
  "distinct (delivered_nonces (fst (run_decrypt L Z pkts (s\<lparr> recv_window := empty_window \<rparr>))) pkts)"
proof -
  obtain ps s' where run: "run_decrypt L Z pkts (s\<lparr> recv_window := empty_window \<rparr>) = (ps, s')" by fastforce
  have "window_rel (recv_window (s\<lparr> recv_window := empty_window \<rparr>)) {}"
    using window_rel_empty by simp
  from run_decrypt_fresh [OF this run] run show ?thesis by simp
qed

text \<open>
  The window is advanced before the tag is checked: one forged packet of at least
  \<open>MACLEN\<close> bytes, whose number \<open>m\<close> is that of a packet still on its way or lies a window's
  width above it, makes \<open>decrypt\<close> refuse the genuine packet, which it would have delivered.
\<close>

theorem forged_packet_blocks_genuine:
  assumes "aead_ok L" "zstd_ok Z" "recv_key r = send_key s" "fst (accept n (recv_window r))"
    "plain \<noteq> []" "length plain \<le> 128 * 1024 * 1024"
    and "MACLEN \<le> length forged" "fst (accept m (recv_window r))" "m = n \<or> unat n + WINDOW_SIZE \<le> unat m"
  shows "fst (session_decrypt L Z r (session_encrypt L Z s plain n en th lv) n) = plain
    \<and> fst (session_decrypt L Z (snd (session_decrypt L Z r forged m))
           (session_encrypt L Z s plain n en th lv) n) = []"
proof -
  obtain p r1 where d: "session_decrypt L Z r forged m = (p, r1)" by fastforce
  have w: "recv_window r1 = snd (accept m (recv_window r))"
    using session_decrypt_window [OF d] assms(7) by simp
  have "n \<notin> acceptable (recv_window r1)"
    unfolding w using assms(9) accept_blocks [OF assms(8)] accept_uses_up by metis
  then have "\<not> fst (accept n (recv_window r1))" by (simp add: acceptable_def)
  then show ?thesis
    using session_encrypt_decrypt [OF assms(1-4,6), of en th lv] session_decrypt_refuses d by simp
qed

theorem forged_packet_blocks_genuine_witness:
  "let r = demo_session [2] [1]; good = session_encrypt toy_sodium toy_zstd (demo_session [1] [2]) [42] 3 False 0 0;
       forged = replicate 16 0
   in fst (session_decrypt toy_sodium toy_zstd r good 3) = [42]
      \<and> fst (session_decrypt toy_sodium toy_zstd r forged 1000) = []
      \<and> fst (session_decrypt toy_sodium toy_zstd (snd (session_decrypt toy_sodium toy_zstd r forged 1000)) good 3) = []"
proof -
  have acc: "fst (accept 3 (recv_window (demo_session [2] [1])))" "fst (accept 1000 (recv_window (demo_session [2] [1])))"
    by (simp_all add: demo_session_def accept_def empty_window_def)
  have ok: "aead_ok toy_sodium" using toy_sodium_ok(1) by (simp add: sodium_ok_def)
  have k: "recv_key (demo_session [2] [1]) = send_key (demo_session [1] [2])" by (simp add: demo_session_def)
  have m: "(1000 :: u64) = 3 \<or> unat (3 :: u64) + WINDOW_SIZE \<le> unat (1000 :: u64)" by (simp add: WINDOW_SIZE_def)
  have f: "MACLEN \<le> length (replicate 16 (0 :: byte))" by (simp add: MACLEN_def)
  have bad: "toy_dec [1] (nonce12 1000) [] (replicate 16 0) = None"
    by code_simp
  have "fst (session_decrypt toy_sodium toy_zstd (demo_session [2] [1]) (replicate 16 0) 1000) = []"
    by code_simp
  then show ?thesis
    using forged_packet_blocks_genuine [OF ok toy_zstd_ok k acc(1) _ _ f acc(2) m, of "[42]" False 0 0]
    unfolding Let_def by simp
qed

text \<open>
  \<open>rekey_session\<close> on both ends keeps them matched: the keys still agree crosswise,
  and packets under the new keys decrypt from number 1 on.
\<close>

theorem rekey_keeps_sessions_matched:
  assumes "aead_ok L" "zstd_ok Z" "send_key a = recv_key b" "recv_key a = send_key b"
    "length plain \<le> 128 * 1024 * 1024"
  shows "send_key (session_rekey L a) = recv_key (session_rekey L b)
    \<and> recv_key (session_rekey L a) = send_key (session_rekey L b)
    \<and> fst (session_decrypt L Z (session_rekey L b) (session_encrypt L Z (session_rekey L a) plain 1 en th lv) 1) = plain"
proof -
  have k: "send_key (session_rekey L a) = recv_key (session_rekey L b)"
    "recv_key (session_rekey L a) = send_key (session_rekey L b)"
    using session_rekey_keys [of a b L] session_rekey_keys [of b a L] assms(3,4) by simp_all
  have "fst (accept 1 (recv_window (session_rekey L b)))"
    by (simp add: session_rekey_window accept_def empty_window_def)
  from session_encrypt_decrypt [OF assms(1,2) k(1) [symmetric] this assms(5), of en th lv] k
  show ?thesis by simp
qed

theorem rekey_keeps_sessions_matched_witness:
  "let a = demo_session [1] [2]; b = demo_session [2] [1]
   in send_key (session_rekey toy_sodium a) = recv_key (session_rekey toy_sodium b)
      \<and> recv_key (session_rekey toy_sodium a) = send_key (session_rekey toy_sodium b)
      \<and> fst (session_decrypt toy_sodium toy_zstd (session_rekey toy_sodium b)
           (session_encrypt toy_sodium toy_zstd (session_rekey toy_sodium a) [9, 9] 1 False 0 0) 1) = [9, 9]"
proof -
  have "aead_ok toy_sodium" using toy_sodium_ok(1) by (simp add: sodium_ok_def)
  then show ?thesis
    using rekey_keeps_sessions_matched [of toy_sodium toy_zstd "demo_session [1] [2]" "demo_session [2] [1]" "[9, 9]" False 0 0]
    by (simp add: demo_session_def Let_def)
qed

end
