(* ===== verification/Send_Queue.thy ===== *)
theory Send_Queue
  imports Prelude
begin

section \<open>PerConnQueue: the outbound queue of a connection\<close>

text \<open>
  \<open>PerConnQueue\<close> of \<open>core/cm/impl.hpp\<close>. The first part models \<open>try_push\<close> and
  \<open>drain_batch\<close> as functions on the queue, which is how one thread sees them. The second part
  models the same methods as the atomic steps that several threads interleave: the
  \<open>fetch_add\<close> that reserves space (the check uses its result only), the roll-back or the locked
  \<open>push_back\<close>, and the locked removal of a batch followed by \<open>fetch_sub\<close> with the lock still
  held. \<open>pending_bytes\<close> counts bytes of buffers in memory and is a natural number.
\<close>

definition MAX_BYTES :: nat where "MAX_BYTES = 8 * 1024 * 1024"

record per_conn_queue =
  frames :: "bytes list"
  pending_bytes :: nat
  draining :: bool

definition empty_queue :: per_conn_queue where
  "empty_queue = \<lparr> frames = [], pending_bytes = 0, draining = False \<rparr>"

definition total_bytes :: "bytes list \<Rightarrow> nat" where
  "total_bytes fs = sum_list (map length fs)"

lemma total_bytes_simps [simp]:
  "total_bytes [] = 0" "total_bytes (f # fs) = length f + total_bytes fs"
  "total_bytes (fs @ gs) = total_bytes fs + total_bytes gs"
  by (simp_all add: total_bytes_def)

lemma total_bytes_concat: "total_bytes fs = length (concat fs)"
  by (simp add: total_bytes_def length_concat)

lemma total_bytes_take_drop: "total_bytes (take n fs) + total_bytes (drop n fs) = total_bytes fs"
  by (metis append_take_drop_id total_bytes_simps(3))

definition try_push :: "bytes \<Rightarrow> per_conn_queue \<Rightarrow> bool \<times> per_conn_queue" where
  "try_push frame q =
     (let sz = length frame;
          prev = pending_bytes q;
          q1 = q\<lparr> pending_bytes := prev + sz \<rparr>
      in if prev + sz > MAX_BYTES
         then (False, q1\<lparr> pending_bytes := pending_bytes q1 - sz \<rparr>)
         else (True, q1\<lparr> frames := frames q1 @ [frame] \<rparr>))"

definition drain_batch :: "nat \<Rightarrow> per_conn_queue \<Rightarrow> bytes list \<times> per_conn_queue" where
  "drain_batch max_frames q =
     (let n = min (length (frames q)) max_frames;
          batch = take n (frames q);
          q1 = q\<lparr> frames := drop n (frames q) \<rparr>
      in (batch, q1\<lparr> pending_bytes := pending_bytes q1 - total_bytes batch \<rparr>))"

definition queue_wf :: "per_conn_queue \<Rightarrow> bool" where
  "queue_wf q \<longleftrightarrow> pending_bytes q = total_bytes (frames q) \<and> pending_bytes q \<le> MAX_BYTES"

subsection \<open>The contract of a bounded FIFO\<close>

datatype queue_op = Push bytes | Drain nat

fun run_queue :: "(bytes \<Rightarrow> 'q \<Rightarrow> bool \<times> 'q) \<Rightarrow> (nat \<Rightarrow> 'q \<Rightarrow> bytes list \<times> 'q) \<Rightarrow>
    queue_op list \<Rightarrow> 'q \<Rightarrow> bytes list \<times> bytes list \<times> 'q" where
  "run_queue push drain [] q = ([], [], q)"
| "run_queue push drain (Push f # ops) q =
     (let (ok, q1) = push f q; (ins, outs, q2) = run_queue push drain ops q1
      in (if ok then f # ins else ins, outs, q2))"
| "run_queue push drain (Drain n # ops) q =
     (let (b, q1) = drain n q; (ins, outs, q2) = run_queue push drain ops q1
      in (ins, b @ outs, q2))"

locale bounded_fifo =
  fixes push :: "bytes \<Rightarrow> 'q \<Rightarrow> bool \<times> 'q" and drain :: "nat \<Rightarrow> 'q \<Rightarrow> bytes list \<times> 'q"
    and content :: "'q \<Rightarrow> bytes list" and wf :: "'q \<Rightarrow> bool" and limit :: nat
  assumes push_law: "wf q \<Longrightarrow> (case push f q of (ok, q') \<Rightarrow> wf q' \<and>
      (ok \<longleftrightarrow> total_bytes (content q) + length f \<le> limit) \<and>
      content q' = (if ok then content q @ [f] else content q))"
    and drain_law: "wf q \<Longrightarrow> (case drain n q of (b, q') \<Rightarrow> wf q' \<and>
      content q = b @ content q' \<and> length b = min n (length (content q)))"
    and limit_law: "wf q \<Longrightarrow> total_bytes (content q) \<le> limit"
begin

lemma fifo:
  assumes "wf q" "run_queue push drain ops q = (ins, outs, q')"
  shows "content q @ ins = outs @ content q' \<and> wf q'"
  using assms
proof (induction ops arbitrary: q ins outs)
  case Nil
  then show ?case by simp
next
  case (Cons op ops)
  show ?case
  proof (cases op)
    case (Push f)
    obtain ok q1 where st: "push f q = (ok, q1)" by fastforce
    obtain ins1 where rec: "run_queue push drain ops q1 = (ins1, outs, q')"
      and ins: "ins = (if ok then f # ins1 else ins1)"
      using Cons.prems(2) Push st by (auto split: prod.splits)
    have "wf q1" "content q1 = (if ok then content q @ [f] else content q)"
      using push_law [OF Cons.prems(1), of f] st by auto
    with Cons.IH [OF _ rec] ins show ?thesis by (cases ok) auto
  next
    case (Drain n)
    obtain b q1 where st: "drain n q = (b, q1)" by fastforce
    obtain outs1 where rec: "run_queue push drain ops q1 = (ins, outs1, q')"
      and outs: "outs = b @ outs1"
      using Cons.prems(2) Drain st by (auto split: prod.splits)
    have "wf q1" "content q = b @ content q1"
      using drain_law [OF Cons.prems(1), of n] st by auto
    with Cons.IH [OF _ rec] outs show ?thesis by auto
  qed
qed

lemma push_then_drain:
  assumes "wf q" "content q = []" "length f \<le> limit" "0 < n"
  obtains q1 q2 where "push f q = (True, q1)" "drain n q1 = ([f], q2)" "wf q2" "content q2 = []"
proof -
  obtain ok q1 where st: "push f q = (ok, q1)" by fastforce
  obtain b q2 where dr: "drain n q1 = (b, q2)" by fastforce
  have 1: "ok" "wf q1" "content q1 = [f]"
    using push_law [OF assms(1), of f] st assms(2,3) by auto
  have 2: "wf q2" "[f] = b @ content q2" "length b = 1"
    using drain_law [OF 1(2), of n] dr 1(3) assms(4) by auto
  then have "b = [f]" "content q2 = []"
    by (simp_all add: Cons_eq_append_conv, auto)
  with that st dr 1(1) 2(1) show ?thesis by simp
qed

end

lemma try_push_law:
  "queue_wf q \<Longrightarrow> (case try_push f q of (ok, q') \<Rightarrow> queue_wf q' \<and>
      (ok \<longleftrightarrow> total_bytes (frames q) + length f \<le> MAX_BYTES) \<and>
      frames q' = (if ok then frames q @ [f] else frames q))"
  by (auto simp: queue_wf_def try_push_def Let_def)

lemma drain_batch_law:
  "queue_wf q \<Longrightarrow> (case drain_batch n q of (b, q') \<Rightarrow> queue_wf q' \<and>
      frames q = b @ frames q' \<and> length b = min n (length (frames q)))"
proof -
  assume wf: "queue_wf q"
  let ?n = "min (length (frames q)) n"
  have "total_bytes (frames q) - total_bytes (take ?n (frames q)) = total_bytes (drop ?n (frames q))"
    using total_bytes_take_drop [of ?n "frames q"] by linarith
  moreover have "total_bytes (drop ?n (frames q)) \<le> total_bytes (frames q)"
    using total_bytes_take_drop [of ?n "frames q"] by linarith
  ultimately show ?thesis
    using wf by (auto simp: queue_wf_def drain_batch_def Let_def)
qed

interpretation pcq: bounded_fifo try_push drain_batch frames queue_wf MAX_BYTES
proof
  show "queue_wf q \<Longrightarrow> total_bytes (frames q) \<le> MAX_BYTES" for q
    by (simp add: queue_wf_def)
qed (fact try_push_law drain_batch_law)+

lemma queue_wf_empty [simp]: "queue_wf empty_queue"
  by (simp add: queue_wf_def empty_queue_def)

subsection \<open>Interleaved producers and consumers\<close>

text \<open>
  Each thread is idle or inside one of the methods. \<open>Rolling f\<close> has reserved the space of
  \<open>f\<close> and found the limit exceeded; \<open>Pushing f\<close> passed the check and waits for the lock or
  holds it; \<open>Subtracting b\<close> holds the lock, has taken the batch \<open>b\<close> and not yet given its
  bytes back. The ghost fields \<open>in_log\<close> and \<open>out_log\<close> list the frames in the order they
  entered and left the queue.
\<close>

datatype phase = Idle | Rolling bytes | Pushing bytes | Subtracting "bytes list"

record qsys =
  queue :: per_conn_queue
  phases :: "phase list"
  in_log :: "bytes list"
  out_log :: "bytes list"

fun reserved :: "phase \<Rightarrow> nat" where
  "reserved Idle = 0"
| "reserved (Rolling f) = length f"
| "reserved (Pushing f) = length f"
| "reserved (Subtracting b) = total_bytes b"

fun admitted :: "phase \<Rightarrow> nat" where
  "admitted (Pushing f) = length f"
| "admitted (Subtracting b) = total_bytes b"
| "admitted _ = 0"

fun holds_lock :: "phase \<Rightarrow> bool" where
  "holds_lock (Subtracting b) = True"
| "holds_lock _ = False"

definition lock_free :: "qsys \<Rightarrow> bool" where
  "lock_free s \<longleftrightarrow> \<not> list_ex holds_lock (phases s)"

inductive qstep :: "qsys \<Rightarrow> qsys \<Rightarrow> bool" where
  reserve_ok: "t < length (phases s) \<Longrightarrow> phases s ! t = Idle \<Longrightarrow>
     pending_bytes (queue s) + length f \<le> MAX_BYTES \<Longrightarrow>
     qstep s (s\<lparr> queue := (queue s)\<lparr> pending_bytes := pending_bytes (queue s) + length f \<rparr>,
                 phases := (phases s)[t := Pushing f] \<rparr>)"
| reserve_full: "t < length (phases s) \<Longrightarrow> phases s ! t = Idle \<Longrightarrow>
     pending_bytes (queue s) + length f > MAX_BYTES \<Longrightarrow>
     qstep s (s\<lparr> queue := (queue s)\<lparr> pending_bytes := pending_bytes (queue s) + length f \<rparr>,
                 phases := (phases s)[t := Rolling f] \<rparr>)"
| roll_back: "t < length (phases s) \<Longrightarrow> phases s ! t = Rolling f \<Longrightarrow>
     qstep s (s\<lparr> queue := (queue s)\<lparr> pending_bytes := pending_bytes (queue s) - length f \<rparr>,
                 phases := (phases s)[t := Idle] \<rparr>)"
| push_back: "t < length (phases s) \<Longrightarrow> phases s ! t = Pushing f \<Longrightarrow> lock_free s \<Longrightarrow>
     qstep s (s\<lparr> queue := (queue s)\<lparr> frames := frames (queue s) @ [f] \<rparr>,
                 phases := (phases s)[t := Idle], in_log := in_log s @ [f] \<rparr>)"
| drain_take: "t < length (phases s) \<Longrightarrow> phases s ! t = Idle \<Longrightarrow> lock_free s \<Longrightarrow>
     b = take n (frames (queue s)) \<Longrightarrow>
     qstep s (s\<lparr> queue := (queue s)\<lparr> frames := drop n (frames (queue s)) \<rparr>,
                 phases := (phases s)[t := Subtracting b], out_log := out_log s @ b \<rparr>)"
| drain_sub: "t < length (phases s) \<Longrightarrow> phases s ! t = Subtracting b \<Longrightarrow>
     qstep s (s\<lparr> queue := (queue s)\<lparr> pending_bytes := pending_bytes (queue s) - total_bytes b \<rparr>,
                 phases := (phases s)[t := Idle] \<rparr>)"

definition qinit :: "nat \<Rightarrow> qsys" where
  "qinit n = \<lparr> queue = empty_queue, phases = replicate n Idle, in_log = [], out_log = [] \<rparr>"

inductive qreach :: "nat \<Rightarrow> qsys \<Rightarrow> bool" for n where
  init: "qreach n (qinit n)"
| step: "qreach n s \<Longrightarrow> qstep s s' \<Longrightarrow> qreach n s'"

definition qinv :: "qsys \<Rightarrow> bool" where
  "qinv s \<longleftrightarrow>
     pending_bytes (queue s) = total_bytes (frames (queue s)) + sum_list (map reserved (phases s))
     \<and> total_bytes (frames (queue s)) + sum_list (map admitted (phases s)) \<le> MAX_BYTES
     \<and> in_log s = out_log s @ frames (queue s)"

lemma admitted_le_reserved: "sum_list (map admitted ps) \<le> sum_list (map reserved ps)"
proof (rule sum_list_mono)
  fix p
  show "admitted p \<le> reserved p" by (cases p) simp_all
qed

lemma sum_list_map_update:
  fixes g :: "'a \<Rightarrow> nat"
  shows "t < length ps \<Longrightarrow> sum_list (map g (ps[t := p])) + g (ps ! t) = sum_list (map g ps) + g p"
proof (induction ps arbitrary: t)
  case Nil
  then show ?case by simp
next
  case (Cons q ps)
  then show ?case by (cases t) (auto simp: add.assoc add.commute)
qed

lemma qinv_step:
  assumes "qstep s s'" "qinv s"
  shows "qinv s'"
  using assms
proof (cases rule: qstep.cases)
  case (reserve_ok t f)
  then show ?thesis
    using assms(2) sum_list_map_update [of t "phases s" reserved "Pushing f"]
      sum_list_map_update [of t "phases s" admitted "Pushing f"] admitted_le_reserved [of "phases s"]
    by (simp add: qinv_def)
next
  case (reserve_full t f)
  then show ?thesis
    using assms(2) sum_list_map_update [of t "phases s" reserved "Rolling f"]
      sum_list_map_update [of t "phases s" admitted "Rolling f"] by (simp add: qinv_def)
next
  case (roll_back t f)
  then show ?thesis
    using assms(2) sum_list_map_update [of t "phases s" reserved "Idle"]
      sum_list_map_update [of t "phases s" admitted "Idle"] by (simp add: qinv_def)
next
  case (push_back t f)
  then show ?thesis
    using assms(2) sum_list_map_update [of t "phases s" reserved "Idle"]
      sum_list_map_update [of t "phases s" admitted "Idle"] by (simp add: qinv_def)
next
  case (drain_take t b n)
  then show ?thesis
    using assms(2) sum_list_map_update [of t "phases s" reserved "Subtracting b"]
      sum_list_map_update [of t "phases s" admitted "Subtracting b"]
      total_bytes_take_drop [of n "frames (queue s)"] by (simp add: qinv_def)
next
  case (drain_sub t b)
  then show ?thesis
    using assms(2) sum_list_map_update [of t "phases s" reserved "Idle"]
      sum_list_map_update [of t "phases s" admitted "Idle"] by (simp add: qinv_def)
qed

lemma qinv_init: "qinv (qinit n)"
  by (simp add: qinv_def qinit_def empty_queue_def sum_list_replicate)

lemma qreach_inv: "qreach n s \<Longrightarrow> qinv s"
  by (induction rule: qreach.induct) (auto intro: qinv_init qinv_step)

lemma all_idle_reserved: "list_all (\<lambda>p. p = Idle) ps \<Longrightarrow> sum_list (map reserved ps) = 0"
  by (induction ps) simp_all

subsection \<open>Properties\<close>

text \<open>
  Property C10. However producers and consumers interleave, the frames in the queue never exceed
  the per-connection limit, every frame that entered leaves once and in order, and
  \<open>pending_bytes\<close> is the size of the queued frames plus what threads inside a method have
  reserved, hence exact whenever no thread is inside one.
\<close>

theorem queue_interleaving_safe:
  assumes "qreach n s"
  shows "total_bytes (frames (queue s)) \<le> MAX_BYTES
    \<and> in_log s = out_log s @ frames (queue s)
    \<and> pending_bytes (queue s) = total_bytes (frames (queue s)) + sum_list (map reserved (phases s))
    \<and> (list_all (\<lambda>p. p = Idle) (phases s) \<longrightarrow> pending_bytes (queue s) = total_bytes (frames (queue s)))"
  using qreach_inv [OF assms] all_idle_reserved [of "phases s"] by (auto simp: qinv_def)

theorem queue_interleaving_safe_witness:
  "\<exists>s. qreach 2 s \<and> frames (queue s) = [[1, 2]] \<and> total_bytes (frames (queue s)) \<le> MAX_BYTES"
proof -
  define s1 where "s1 = (qinit 2)\<lparr> queue := (queue (qinit 2))\<lparr> pending_bytes := pending_bytes (queue (qinit 2)) + 2 \<rparr>,
    phases := (phases (qinit 2))[0 := Pushing [1, 2]] \<rparr>"
  have "qreach 2 s1"
    unfolding s1_def
    using qreach.step [OF qreach.init, of 2, OF reserve_ok [of 0 "qinit 2" "[1, 2]"]]
    by (simp add: qinit_def empty_queue_def MAX_BYTES_def)
  define s2 where "s2 = s1\<lparr> queue := (queue s1)\<lparr> frames := frames (queue s1) @ [[1, 2]] \<rparr>,
      phases := (phases s1)[0 := Idle], in_log := in_log s1 @ [[1, 2]] \<rparr>"
  have r: "qreach 2 s2"
    unfolding s2_def using qreach.step [OF \<open>qreach 2 s1\<close> push_back [of 0 s1 "[1, 2]"]]
    by (simp add: s1_def qinit_def lock_free_def numeral_2_eq_2)
  have "frames (queue s2) = [[1, 2]]" by (simp add: s2_def s1_def qinit_def empty_queue_def)
  with r queue_interleaving_safe [OF r] show ?thesis by blast
qed

text \<open>
  Property C11. Seen by one thread the queue is a bounded FIFO: after any sequence of pushes and
  drains the accepted frames are those handed out followed by those still queued, in order, and
  the limit holds.
\<close>

theorem queue_fifo:
  "case run_queue try_push drain_batch ops empty_queue of
     (ins, outs, q) \<Rightarrow> ins = outs @ frames q \<and> pending_bytes q = total_bytes (frames q)
       \<and> total_bytes (frames q) \<le> MAX_BYTES"
proof -
  obtain ins outs q where run: "run_queue try_push drain_batch ops empty_queue = (ins, outs, q)"
    by (metis prod_cases3)
  have "queue_wf q \<and> frames empty_queue @ ins = outs @ frames q"
    using pcq.fifo [OF queue_wf_empty run] by simp
  then show ?thesis using run by (simp add: queue_wf_def empty_queue_def)
qed

end
