(* ===== verification/Signal_Bus.thy ===== *)
theory Signal_Bus
  imports Wire
begin

section \<open>SignalBus: packet pipelines, event signals, statistics\<close>

text \<open>
  \<open>include/signals.hpp\<close> and \<open>src/signals.cpp\<close>. A pipeline is the sorted vector of its
  entries; the callback of an entry (\<open>'f\<close>) is opaque here, and \<open>emit\<close> takes the function
  \<open>call\<close> that runs it on a state of any type, so that a handler may do anything to the state of
  its caller. An event signal keeps the identities of its handlers and the list of the tasks it
  has posted to its strand, in order. The atomic counters are words of their C++ width.
\<close>

subsection \<open>PipelineSignal\<close>

record 'f pipe_entry =
  en_priority :: u8
  en_name :: string
  en_fn :: 'f

definition rank :: "'f pipe_entry \<Rightarrow> nat" where
  "rank e = 255 - unat (en_priority e)"

definition pipe_connect :: "u8 \<Rightarrow> string \<Rightarrow> 'f \<Rightarrow> 'f pipe_entry list \<Rightarrow> 'f pipe_entry list" where
  "pipe_connect priority name fn old =
     sort_key rank (old @ [\<lparr> en_priority = priority, en_name = name, en_fn = fn \<rparr>])"

definition pipe_disconnect :: "string \<Rightarrow> 'f pipe_entry list \<Rightarrow> 'f pipe_entry list" where
  "pipe_disconnect name old = filter (\<lambda>e. en_name e \<noteq> name) old"

fun pipe_emit :: "('f \<Rightarrow> string \<Rightarrow> 's \<Rightarrow> propagation_t \<times> 's) \<Rightarrow> 'f pipe_entry list \<Rightarrow> 's
    \<Rightarrow> (propagation_t \<times> string) \<times> 's" where
  "pipe_emit call [] s = ((PROPAGATION_CONTINUE, []), s)"
| "pipe_emit call (e # es) s =
     (let (r, s1) = call (en_fn e) (en_name e) s
      in if r = PROPAGATION_CONSUMED then ((PROPAGATION_CONSUMED, en_name e), s1)
         else if r = PROPAGATION_REJECT then ((PROPAGATION_REJECT, en_name e), s1)
         else pipe_emit call es s1)"

subsection \<open>EventSignal\<close>

record 'a event_signal =
  ev_handlers :: "nat list"
  ev_posted :: "(nat \<times> 'a) list"

definition fresh_signal :: "'a event_signal" where
  "fresh_signal = \<lparr> ev_handlers = [], ev_posted = [] \<rparr>"

definition ev_connect :: "nat \<Rightarrow> 'a event_signal \<Rightarrow> 'a event_signal" where
  "ev_connect hid sg = sg\<lparr> ev_handlers := ev_handlers sg @ [hid] \<rparr>"

definition try_post_to_strand :: "nat \<times> 'a \<Rightarrow> 'a event_signal \<Rightarrow> 'a event_signal" where
  "try_post_to_strand task sg = sg\<lparr> ev_posted := ev_posted sg @ [task] \<rparr>"

definition ev_emit :: "'a \<Rightarrow> 'a event_signal \<Rightarrow> 'a event_signal" where
  "ev_emit args sg =
     (let snap = ev_handlers sg
      in foldl (\<lambda>g hid. try_post_to_strand (hid, args) g) sg snap)"

subsection \<open>Statistics\<close>

datatype drop_reason = BadMagic | BadProtoVer | ConnNotFound | StateNotEstablished | AuthFail
  | DecryptFail | ReplayDetected | Backpressure | PerConnLimitExceeded | SessionNotReady
  | RejectedByHandler | ShuttingDown | RelayDropped | SenderIdMismatch | TrustedFromRemote
  | RecvBufOverflow | ConnectorNotFound

fun drop_index :: "drop_reason \<Rightarrow> nat" where
  "drop_index BadMagic = 0" | "drop_index BadProtoVer = 1" | "drop_index ConnNotFound = 2"
| "drop_index StateNotEstablished = 3" | "drop_index AuthFail = 4" | "drop_index DecryptFail = 5"
| "drop_index ReplayDetected = 6" | "drop_index Backpressure = 7" | "drop_index PerConnLimitExceeded = 8"
| "drop_index SessionNotReady = 9" | "drop_index RejectedByHandler = 10" | "drop_index ShuttingDown = 11"
| "drop_index RelayDropped = 12" | "drop_index SenderIdMismatch = 13" | "drop_index TrustedFromRemote = 14"
| "drop_index RecvBufOverflow = 15" | "drop_index ConnectorNotFound = 16"

definition DROP_COUNT :: nat where "DROP_COUNT = 17"

record latency_histogram =
  buckets :: "u64 list"
  total_ns :: u64
  lat_count :: u64

definition BUCKET_NS :: "u64 list" where
  "BUCKET_NS = [1000, 10000, 100000, 1000000, 10000000, 100000000, - 1]"

fun bucket_of :: "u64 \<Rightarrow> u64 list \<Rightarrow> nat option" where
  "bucket_of ns [] = None"
| "bucket_of ns (b # bs) = (if ns < b then Some 0 else map_option Suc (bucket_of ns bs))"

definition lat_record :: "u64 \<Rightarrow> latency_histogram \<Rightarrow> latency_histogram" where
  "lat_record ns l =
     (let l1 = l\<lparr> total_ns := total_ns l + ns, lat_count := lat_count l + 1 \<rparr>
      in case bucket_of ns BUCKET_NS of
           Some i \<Rightarrow> l1\<lparr> buckets := (buckets l1)[i := buckets l1 ! i + 1] \<rparr>
         | None \<Rightarrow> l1)"

definition avg_ns :: "latency_histogram \<Rightarrow> u64" where
  "avg_ns l = (if lat_count l \<noteq> 0 then total_ns l div lat_count l else 0)"

datatype stats_kind = RxBytes | TxBytes | RxPacket | TxPacket | AuthOk | AuthFailed
  | DecryptFailed | BackpressureHit | Consumed | Rejected | Connect | Disconnect | Drop | DispatchLatencyNs

record stats_event =
  se_kind :: stats_kind
  se_value :: u64
  se_conn_id :: conn_id
  se_drop_reason :: drop_reason

record accum =
  rx_bytes :: u64
  tx_bytes :: u64
  rx_packets :: u64
  tx_packets :: u64
  auth_ok :: u64
  auth_fail :: u64
  decrypt_fail :: u64
  backpressure :: u64
  consumed :: u64
  rejected :: u64
  connections :: u32
  total_conn :: u32
  total_disc :: u32
  drops :: "u64 list"
  dispatch_lat :: latency_histogram

definition zero_accum :: accum where
  "zero_accum = \<lparr> rx_bytes = 0, tx_bytes = 0, rx_packets = 0, tx_packets = 0, auth_ok = 0, auth_fail = 0,
     decrypt_fail = 0, backpressure = 0, consumed = 0, rejected = 0, connections = 0, total_conn = 0,
     total_disc = 0, drops = replicate DROP_COUNT 0,
     dispatch_lat = \<lparr> buckets = replicate 7 0, total_ns = 0, lat_count = 0 \<rparr> \<rparr>"

definition accum_stat :: "stats_event \<Rightarrow> accum \<Rightarrow> accum" where
  "accum_stat ev a =
     (case se_kind ev of
        RxBytes \<Rightarrow> a\<lparr> rx_bytes := rx_bytes a + se_value ev \<rparr>
      | TxBytes \<Rightarrow> a\<lparr> tx_bytes := tx_bytes a + se_value ev \<rparr>
      | RxPacket \<Rightarrow> a\<lparr> rx_packets := rx_packets a + 1 \<rparr>
      | TxPacket \<Rightarrow> a\<lparr> tx_packets := tx_packets a + se_value ev \<rparr>
      | AuthOk \<Rightarrow> a\<lparr> auth_ok := auth_ok a + 1 \<rparr>
      | AuthFailed \<Rightarrow> a\<lparr> auth_fail := auth_fail a + 1 \<rparr>
      | DecryptFailed \<Rightarrow> a\<lparr> decrypt_fail := decrypt_fail a + 1 \<rparr>
      | BackpressureHit \<Rightarrow> a\<lparr> backpressure := backpressure a + 1 \<rparr>
      | Consumed \<Rightarrow> a\<lparr> consumed := consumed a + 1 \<rparr>
      | Rejected \<Rightarrow> a\<lparr> rejected := rejected a + 1 \<rparr>
      | Connect \<Rightarrow> a\<lparr> connections := connections a + 1, total_conn := total_conn a + 1 \<rparr>
      | Disconnect \<Rightarrow> a\<lparr> connections := connections a - 1, total_disc := total_disc a + 1 \<rparr>
      | Drop \<Rightarrow> let i = drop_index (se_drop_reason ev) in a\<lparr> drops := (drops a)[i := drops a ! i + 1] \<rparr>
      | DispatchLatencyNs \<Rightarrow> a\<lparr> dispatch_lat := lat_record (se_value ev) (dispatch_lat a) \<rparr>)"

subsection \<open>SignalBus\<close>

record 'f signal_bus =
  channels :: "(u32 \<times> 'f pipe_entry list) list"
  wildcards :: "'f pipe_entry list"
  next_sub_id :: u64
  sub_map :: "(u64 \<times> u32 \<times> string) list"
  bus_accum :: accum
  on_stat :: "stats_event event_signal"
  on_log :: "string event_signal"
  on_conn_state :: "(conn_id \<times> conn_state_t) event_signal"
  on_transport_change :: "(conn_id \<times> string \<times> bool) event_signal"

definition fresh_bus :: "'f signal_bus" where
  "fresh_bus = \<lparr> channels = [], wildcards = [], next_sub_id = 1, sub_map = [], bus_accum = zero_accum,
     on_stat = fresh_signal, on_log = fresh_signal, on_conn_state = fresh_signal,
     on_transport_change = fresh_signal \<rparr>"

definition channel :: "'f signal_bus \<Rightarrow> u32 \<Rightarrow> 'f pipe_entry list" where
  "channel b t = (case map_of (channels b) t of Some ch \<Rightarrow> ch | None \<Rightarrow> [])"

definition subscribe :: "u32 \<Rightarrow> string \<Rightarrow> 'f \<Rightarrow> u8 \<Rightarrow> 'f signal_bus \<Rightarrow> u64 \<times> 'f signal_bus" where
  "subscribe msg_type name cb prio b =
     (let sid = next_sub_id b;
          b1 = b\<lparr> next_sub_id := sid + 1, sub_map := AList.update sid (msg_type, name) (sub_map b) \<rparr>;
          ch = channel b1 msg_type
      in (sid, b1\<lparr> channels := AList.update msg_type (pipe_connect prio name cb ch) (channels b1) \<rparr>))"

definition subscribe_wildcard :: "string \<Rightarrow> 'f \<Rightarrow> u8 \<Rightarrow> 'f signal_bus \<Rightarrow> 'f signal_bus" where
  "subscribe_wildcard name cb prio b = b\<lparr> wildcards := pipe_connect prio name cb (wildcards b) \<rparr>"

definition unsubscribe :: "u64 \<Rightarrow> 'f signal_bus \<Rightarrow> 'f signal_bus" where
  "unsubscribe sid b =
     (case map_of (sub_map b) sid of
        None \<Rightarrow> b
      | Some (msg_type, name) \<Rightarrow>
          (case map_of (channels b) msg_type of
             Some ch \<Rightarrow> b\<lparr> channels := AList.update msg_type (pipe_disconnect name ch) (channels b),
                            sub_map := erase sid (sub_map b) \<rparr>
           | None \<Rightarrow> b\<lparr> sub_map := erase sid (sub_map b) \<rparr>))"

text \<open>
  The bus is part of the state the handlers run on; the wildcard chain is read after the
  channel's handlers have run.
\<close>

definition bus_dispatch :: "('s \<Rightarrow> 'f signal_bus) \<Rightarrow> ('f \<Rightarrow> string \<Rightarrow> 's \<Rightarrow> propagation_t \<times> 's) \<Rightarrow> u32 \<Rightarrow> 's
    \<Rightarrow> (propagation_t \<times> string) \<times> 's" where
  "bus_dispatch bus call msg_type s =
     (case map_of (channels (bus s)) msg_type of
        None \<Rightarrow> pipe_emit call (wildcards (bus s)) s
      | Some ch \<Rightarrow>
          (let (r, s1) = pipe_emit call ch s
           in if fst r \<noteq> PROPAGATION_CONTINUE then (r, s1)
              else pipe_emit call (wildcards (bus s1)) s1))"

definition emit_stat :: "stats_event \<Rightarrow> 'f signal_bus \<Rightarrow> 'f signal_bus" where
  "emit_stat ev b = b\<lparr> bus_accum := accum_stat ev (bus_accum b), on_stat := ev_emit ev (on_stat b) \<rparr>"

definition stat :: "stats_kind \<Rightarrow> u64 \<Rightarrow> conn_id \<Rightarrow> stats_event" where
  "stat k v c = \<lparr> se_kind = k, se_value = v, se_conn_id = c, se_drop_reason = BadMagic \<rparr>"

definition emit_drop :: "conn_id \<Rightarrow> drop_reason \<Rightarrow> 'f signal_bus \<Rightarrow> 'f signal_bus" where
  "emit_drop c why b =
     emit_stat \<lparr> se_kind = Drop, se_value = 1, se_conn_id = c, se_drop_reason = why \<rparr> b"

definition emit_latency :: "conn_id \<Rightarrow> u64 \<Rightarrow> 'f signal_bus \<Rightarrow> 'f signal_bus" where
  "emit_latency c ns b = emit_stat (stat DispatchLatencyNs ns c) b"

text \<open>\<open>stats_snapshot\<close> copies the counters; a snapshot has the shape of the accumulator.\<close>

definition stats_snapshot :: "'f signal_bus \<Rightarrow> accum" where
  "stats_snapshot b =
     (let a = bus_accum b in
      \<lparr> rx_bytes = rx_bytes a, tx_bytes = tx_bytes a, rx_packets = rx_packets a, tx_packets = tx_packets a,
        auth_ok = auth_ok a, auth_fail = auth_fail a, decrypt_fail = decrypt_fail a,
        backpressure = backpressure a, consumed = consumed a, rejected = rejected a,
        connections = connections a, total_conn = total_conn a, total_disc = total_disc a,
        drops = map (\<lambda>i. drops a ! i) [0..<DROP_COUNT],
        dispatch_lat = \<lparr> buckets = map (\<lambda>i. buckets (dispatch_lat a) ! i) [0..<7],
                         total_ns = total_ns (dispatch_lat a), lat_count = lat_count (dispatch_lat a) \<rparr> \<rparr>)"

subsection \<open>Order of the handlers\<close>

text \<open>
  A pipeline is kept sorted with the larger priority number first; a new entry goes behind
  the entries of its own priority.
\<close>

definition pipe_sorted :: "'f pipe_entry list \<Rightarrow> bool" where
  "pipe_sorted es \<longleftrightarrow> sorted (map rank es)"

lemma pipe_connect_sorted: "pipe_sorted (pipe_connect p n f es)"
  by (simp add: pipe_connect_def pipe_sorted_def)

lemma pipe_disconnect_sorted: "pipe_sorted es \<Longrightarrow> pipe_sorted (pipe_disconnect n es)"
  by (simp add: pipe_sorted_def pipe_disconnect_def sorted_filter)

lemma sort_key_snoc_sorted:
  assumes "sorted (map g xs)"
  shows "sort_key g (xs @ [a]) = filter (\<lambda>x. g x \<le> g a) xs @ a # filter (\<lambda>x. \<not> g x \<le> g a) xs"
  using assms
proof (induction xs)
  case Nil
  show ?case by simp
next
  case (Cons x xs)
  show ?case
  proof (cases "g x \<le> g a")
    case True
    have "\<forall>y \<in> set (filter (\<lambda>x. g x \<le> g a) xs @ a # filter (\<lambda>x. \<not> g x \<le> g a) xs). g x \<le> g y"
      using Cons.prems True by auto
    then have "insort_key g x (filter (\<lambda>x. g x \<le> g a) xs @ a # filter (\<lambda>x. \<not> g x \<le> g a) xs)
        = x # filter (\<lambda>x. g x \<le> g a) xs @ a # filter (\<lambda>x. \<not> g x \<le> g a) xs"
      by (simp add: insort_is_Cons)
    then show ?thesis using Cons True by simp
  next
    case False
    have "filter (\<lambda>x. g x \<le> g a) xs = []" "filter (\<lambda>x. \<not> g x \<le> g a) xs = xs"
      using Cons.prems False by (auto simp: filter_empty_conv filter_id_conv)
    moreover have "insort_key g x xs = x # xs"
      using Cons.prems by (simp add: insort_is_Cons)
    ultimately show ?thesis using Cons False by simp
  qed
qed

lemma rank_le_iff: "rank a \<le> rank b \<longleftrightarrow> unat (en_priority b) \<le> unat (en_priority a)"
  using unat_byte_less [of "en_priority a"] unat_byte_less [of "en_priority b"]
  unfolding rank_def by linarith

lemma pipe_connect_position:
  assumes "pipe_sorted es"
  shows "pipe_connect p n f es = filter (\<lambda>e. p \<le> en_priority e) es
    @ \<lparr> en_priority = p, en_name = n, en_fn = f \<rparr> # filter (\<lambda>e. en_priority e < p) es"
  using assms sort_key_snoc_sorted [of rank es]
  by (simp add: pipe_connect_def pipe_sorted_def rank_le_iff word_le_nat_alt word_less_nat_alt not_le)

subsection \<open>Emitting\<close>

definition log_call :: "('f \<Rightarrow> string \<Rightarrow> propagation_t) \<Rightarrow> 'f \<Rightarrow> string
    \<Rightarrow> ('f \<times> string) list \<Rightarrow> propagation_t \<times> ('f \<times> string) list" where
  "log_call answer f n s = (answer f n, s @ [(f, n)])"

lemma pipe_emit_calls:
  fixes es :: "'f pipe_entry list"
  shows "pipe_emit (log_call answer) es s =
    (let pre = takeWhile (\<lambda>e. answer (en_fn e) (en_name e) = PROPAGATION_CONTINUE) es;
         ids = map (\<lambda>e. (en_fn e, en_name e))
     in case drop (length pre) es of
          [] \<Rightarrow> ((PROPAGATION_CONTINUE, []), s @ ids es)
        | e # _ \<Rightarrow> ((answer (en_fn e) (en_name e), en_name e), s @ ids pre @ ids [e]))"
proof (induction es arbitrary: s)
  case Nil
  show ?case by simp
next
  case (Cons e es)
  then show ?case
    by (cases "answer (en_fn e) (en_name e)")
      (auto simp: log_call_def Let_def split: list.splits)
qed

lemma pipe_emit_result:
  "fst (fst (pipe_emit call es s)) = PROPAGATION_CONTINUE \<Longrightarrow> snd (fst (pipe_emit call es s)) = []"
  by (induction es arbitrary: s) (auto simp: Let_def split: prod.splits if_splits)

lemma pipe_emit_inv:
  assumes "\<And>f n s. P s \<Longrightarrow> P (snd (call f n s))"
  shows "P s \<Longrightarrow> P (snd (pipe_emit call es s))"
proof (induction es arbitrary: s)
  case Nil
  then show ?case by simp
next
  case (Cons e es)
  then show ?case using assms [of s "en_fn e" "en_name e"]
    by (auto simp: Let_def split: prod.splits)
qed

lemma pipe_emit_Cons:
  "pipe_emit call (e # es) s = (let (r, s1) = call (en_fn e) (en_name e) s
     in if r \<noteq> PROPAGATION_CONTINUE then ((r, en_name e), s1) else pipe_emit call es s1)"
  by (cases "call (en_fn e) (en_name e) s", cases "fst (call (en_fn e) (en_name e) s)") simp_all

lemma pipe_emit_append:
  "pipe_emit call (es @ es') s = (let (r, s1) = pipe_emit call es s
     in if fst r \<noteq> PROPAGATION_CONTINUE then (r, s1) else pipe_emit call es' s1)"
proof (induction es arbitrary: s)
  case (Cons e es)
  then show ?case unfolding append_Cons pipe_emit_Cons by (simp add: Let_def split: prod.split)
qed simp

text \<open>
  A new entry of a pipeline is called after the entries of its own and of higher priority, when all of
  them let the message pass, and before the others.
\<close>

lemma pipe_emit_connect:
  assumes "pipe_sorted es"
  shows "pipe_emit call (pipe_connect p n f es) s =
    (let (r0, s0) = pipe_emit call (filter (\<lambda>e. p \<le> en_priority e) es) s
     in if fst r0 \<noteq> PROPAGATION_CONTINUE then (r0, s0)
        else let (r, s1) = call f n s0
             in if r \<noteq> PROPAGATION_CONTINUE then ((r, n), s1) else pipe_emit call (filter (\<lambda>e. en_priority e < p) es) s1)"
  unfolding pipe_connect_position [OF assms] pipe_emit_append pipe_emit_Cons by (simp add: Let_def split: prod.split)

lemma bus_dispatch_inv:
  assumes "\<And>f n s. P s \<Longrightarrow> P (snd (call f n s))"
  shows "P s \<Longrightarrow> P (snd (bus_dispatch bus call t s))"
  using pipe_emit_inv [of P call, OF assms] unfolding bus_dispatch_def
  by (auto simp: Let_def split: option.splits prod.splits) (metis snd_conv)+

subsection \<open>Subscribing and unsubscribing several types\<close>

lemma bus_dispatch_channel:
  "bus_dispatch bs call t s =
     (let (r, s1) = pipe_emit call (channel (bs s) t) s
      in if fst r \<noteq> PROPAGATION_CONTINUE then (r, s1) else pipe_emit call (wildcards (bs s1)) s1)"
  by (simp add: bus_dispatch_def channel_def split: option.split)

lemma subscribe_channel:
  "channel (snd (subscribe t n f p b)) t' = (if t' = t then pipe_connect p n f (channel b t) else channel b t')"
  by (simp add: subscribe_def channel_def Let_def update_conv' split: option.split)

lemma unsubscribe_channel:
  "map_of (sub_map b) sid = Some (t, n) \<Longrightarrow>
     channel (unsubscribe sid b) t' = (if t' = t then pipe_disconnect n (channel b t') else channel b t')"
  by (auto simp: unsubscribe_def channel_def update_conv' pipe_disconnect_def split: option.split)

lemma unsubscribe_sub_map: "sid' \<noteq> sid \<Longrightarrow> map_of (sub_map (unsubscribe sid b)) sid' = map_of (sub_map b) sid'"
  by (simp add: unsubscribe_def split: option.split prod.split)

lemma unsubscribe_all_channel:
  assumes "distinct sids" "list_all2 (\<lambda>sid t. map_of (sub_map b) sid = Some (t, n)) sids ts"
  shows "channel (foldl (\<lambda>b sid. unsubscribe sid b) b sids) t' = (if t' \<in> set ts then pipe_disconnect n (channel b t') else channel b t')"
  using assms
proof (induction sids arbitrary: b ts)
  case (Cons sid sids)
  then obtain t ts' where ts: "ts = t # ts'" "map_of (sub_map b) sid = Some (t, n)"
    "list_all2 (\<lambda>sid t. map_of (sub_map b) sid = Some (t, n)) sids ts'"
    by (auto simp: list_all2_Cons1)
  have "list_all2 (\<lambda>x t. map_of (sub_map (unsubscribe sid b)) x = Some (t, n)) sids ts'"
    by (rule list.rel_mono_strong [OF ts(3)]) (metis Cons.prems(1) distinct.simps(2) unsubscribe_sub_map)
  from Cons.IH [OF _ this] show ?case
    using Cons.prems(1) ts(1) unsubscribe_channel [OF ts(2)] by (auto simp: pipe_disconnect_def)
qed simp

lemma subscribe_all_channel:
  assumes "distinct (map fst tis)"
  shows "channel (foldl (\<lambda>b (t, i). snd (subscribe t n (f i) p b)) b tis) t'
    = (case map_of tis t' of Some i \<Rightarrow> pipe_connect p n (f i) (channel b t') | None \<Rightarrow> channel b t')"
  using assms
proof (induction tis arbitrary: b)
  case (Cons ti tis)
  obtain t i where ti: "ti = (t, i)" by fastforce
  then have "map_of tis t = None" using Cons.prems by (simp add: map_of_eq_None_iff)
  with Cons ti show ?case by (cases "t' = t") (simp_all add: subscribe_channel split: option.split)
qed simp

lemma connect_disconnect:
  assumes "pipe_sorted ch" "\<forall>e \<in> set ch. en_name e \<noteq> n"
  shows "pipe_disconnect n (pipe_connect p n f ch) = ch"
proof -
  have "filter (\<lambda>e. en_name e \<noteq> n) ch = ch" using assms(2) by (simp add: filter_id_conv)
  then show ?thesis
    using assms(1) by (simp add: pipe_disconnect_def pipe_connect_def pipe_sorted_def filter_sort sorted_sort_id sort_key_id_if_sorted)
qed

subsection \<open>Counters\<close>

lemma ev_emit_posted:
  "ev_emit x sg = sg\<lparr> ev_posted := ev_posted sg @ map (\<lambda>hid. (hid, x)) (ev_handlers sg) \<rparr>"
proof -
  have "foldl (\<lambda>g hid. try_post_to_strand (hid, x) g) g hs
      = g\<lparr> ev_posted := ev_posted g @ map (\<lambda>hid. (hid, x)) hs \<rparr>" for g and hs :: "nat list"
    by (induction hs arbitrary: g) (simp_all add: try_post_to_strand_def)
  then show ?thesis by (simp add: ev_emit_def)
qed

lemma drop_index_less [simp]: "drop_index r < DROP_COUNT"
  by (cases r) (simp_all add: DROP_COUNT_def)

lemma drop_index_inj: "drop_index r = drop_index r' \<Longrightarrow> r = r'"
  by (cases r; cases r'; simp)

lemma accum_drops:
  assumes "length (drops a) = DROP_COUNT"
  shows "drops (foldl (\<lambda>a ev. accum_stat ev a) a evs) ! drop_index r = drops a ! drop_index r
    + word_of_nat (length (filter (\<lambda>ev. se_kind ev = Drop \<and> se_drop_reason ev = r) evs))"
    "length (drops (foldl (\<lambda>a ev. accum_stat ev a) a evs)) = DROP_COUNT"
proof -
  have "drops (foldl (\<lambda>a ev. accum_stat ev a) a evs) ! drop_index r = drops a ! drop_index r
      + word_of_nat (length (filter (\<lambda>ev. se_kind ev = Drop \<and> se_drop_reason ev = r) evs))
    \<and> length (drops (foldl (\<lambda>a ev. accum_stat ev a) a evs)) = DROP_COUNT"
    using assms
  proof (induction evs arbitrary: a)
    case Nil
    then show ?case by simp
  next
    case (Cons ev evs)
    have "length (drops (accum_stat ev a)) = DROP_COUNT"
      "drops (accum_stat ev a) ! drop_index r = drops a ! drop_index r
         + (if se_kind ev = Drop \<and> se_drop_reason ev = r then 1 else 0)"
      using Cons.prems drop_index_inj [of "se_drop_reason ev" r]
      by (auto simp: accum_stat_def Let_def nth_list_update split: stats_kind.splits)
    with Cons.IH [of "accum_stat ev a"] show ?case by auto
  qed
  then show "drops (foldl (\<lambda>a ev. accum_stat ev a) a evs) ! drop_index r = drops a ! drop_index r
      + word_of_nat (length (filter (\<lambda>ev. se_kind ev = Drop \<and> se_drop_reason ev = r) evs))"
    "length (drops (foldl (\<lambda>a ev. accum_stat ev a) a evs)) = DROP_COUNT" by auto
qed

lemma bucket_of_total: "ns \<noteq> - 1 \<Longrightarrow> \<exists>i < 7. bucket_of ns BUCKET_NS = Some i"
proof -
  assume "ns \<noteq> - 1"
  then have "ns < - 1" by (metis order.not_eq_order_implies_strict word_n1_ge)
  then show ?thesis by (auto simp: BUCKET_NS_def)
qed

subsection \<open>Properties\<close>

text \<open>
  A pipeline stays sorted, larger priority numbers first, through every \<open>connect\<close>
  and \<open>disconnect\<close>; a new handler goes behind those of the same or a larger number and before
  all others, and no other handler changes its relative place.
\<close>

theorem pipeline_order:
  assumes "pipe_sorted es"
  shows "pipe_connect p n f es = filter (\<lambda>e. p \<le> en_priority e) es
      @ \<lparr> en_priority = p, en_name = n, en_fn = f \<rparr> # filter (\<lambda>e. en_priority e < p) es
    \<and> pipe_sorted (pipe_connect p n f es) \<and> pipe_sorted (pipe_disconnect m es)"
  by (intro conjI pipe_connect_position [OF assms] pipe_connect_sorted pipe_disconnect_sorted [OF assms])

theorem pipeline_order_witness:
  "map en_name (pipe_connect 128 ''c'' () (pipe_connect 10 ''b'' () (pipe_connect 200 ''a'' () []))) = [''a'', ''c'', ''b'']"
proof -
  have "pipe_sorted (pipe_connect 10 ''b'' () (pipe_connect 200 ''a'' () []))" by (rule pipe_connect_sorted)
  note this [THEN pipeline_order, THEN conjunct1, of 128 "''c''" "()"]
  then have "map en_name (pipe_connect 128 ''c'' () (pipe_connect 10 ''b'' () (pipe_connect 200 ''a'' () [])))
    = map en_name (filter (\<lambda>e. 128 \<le> en_priority e) (pipe_connect 10 ''b'' () (pipe_connect 200 ''a'' () [])))
      @ ''c'' # map en_name (filter (\<lambda>e. en_priority e < 128) (pipe_connect 10 ''b'' () (pipe_connect 200 ''a'' () [])))"
    by (simp only: map_append list.map pipe_entry.simps)
  also have "\<dots> = [''a'', ''c'', ''b'']" by code_simp
  finally show ?thesis .
qed

text \<open>
  Property C39. \<open>dispatch_packet\<close> of the bus calls the handlers of the message type in the
  pipeline's order and then the wildcard handlers, each once, stops at the first that answers CONSUMED or
  REJECT, and reports that answer and that handler's name.
\<close>

theorem bus_dispatch_first_answer:
  fixes b :: "'f signal_bus" and t :: u32
  defines "order \<equiv> channel b t @ wildcards b"
  shows "bus_dispatch (\<lambda>_. b) (log_call answer) t [] =
    (let pre = takeWhile (\<lambda>e. answer (en_fn e) (en_name e) = PROPAGATION_CONTINUE) order;
         ids = map (\<lambda>e. (en_fn e, en_name e))
     in case drop (length pre) order of
          [] \<Rightarrow> ((PROPAGATION_CONTINUE, []), ids order)
        | e # _ \<Rightarrow> ((answer (en_fn e) (en_name e), en_name e), ids pre @ ids [e]))"
proof -
  have "bus_dispatch (\<lambda>_. b) (log_call answer) t [] = pipe_emit (log_call answer) order []"
    unfolding order_def pipe_emit_append bus_dispatch_channel ..
  then show ?thesis by (simp only: pipe_emit_calls append_Nil)
qed

text \<open>
  Each drop counter of a snapshot is the number of drop events with its reason, for
  any sequence of statistics events.
\<close>

theorem drop_counters_count:
  fixes evs :: "stats_event list"
  shows "drops (stats_snapshot (foldl (\<lambda>b ev. emit_stat ev b) (fresh_bus :: 'f signal_bus) evs)) ! drop_index r
     = word_of_nat (length (filter (\<lambda>ev. se_kind ev = Drop \<and> se_drop_reason ev = r) evs))"
proof -
  have "bus_accum (foldl (\<lambda>b ev. emit_stat ev b) b evs) = foldl (\<lambda>a ev. accum_stat ev a) (bus_accum b) evs"
    for b :: "'f signal_bus"
    by (induction evs arbitrary: b) (simp_all add: emit_stat_def)
  moreover have "drops (bus_accum (fresh_bus :: 'f signal_bus)) = replicate DROP_COUNT 0" by (simp add: fresh_bus_def zero_accum_def)
  ultimately show ?thesis
    using accum_drops(1) [of "bus_accum (fresh_bus :: 'f signal_bus)" evs r] by (simp add: stats_snapshot_def Let_def)
qed

text \<open>
  A latency sample below the largest 64-bit value goes into exactly one of the seven
  buckets, the first whose bound exceeds it, and into the total and the count.
\<close>

theorem latency_one_bucket:
  assumes "ns \<noteq> - 1" "length (buckets l) = 7"
  shows "\<exists>i < 7. ns < BUCKET_NS ! i \<and> (\<forall>j < i. BUCKET_NS ! j \<le> ns)
    \<and> lat_record ns l = \<lparr> buckets = (buckets l)[i := buckets l ! i + 1], total_ns = total_ns l + ns,
        lat_count = lat_count l + 1 \<rparr>"
proof -
  have first: "i < length bs \<and> ns < bs ! i \<and> (\<forall>j < i. bs ! j \<le> ns)" if "bucket_of ns bs = Some i" for bs i
    using that
  proof (induction bs arbitrary: i)
    case Nil
    then show ?case by simp
  next
    case (Cons b bs)
    then show ?case
      by (cases i) (auto simp: nth_Cons less_Suc_eq_0_disj not_less split: if_splits nat.splits)
  qed
  obtain i where i: "i < 7" "bucket_of ns BUCKET_NS = Some i" using bucket_of_total [OF assms(1)] by blast
  with first [OF i(2)] show ?thesis by (intro exI [of _ i]) (simp add: lat_record_def Let_def)
qed

theorem latency_one_bucket_witness:
  "let l = \<lparr> buckets = replicate 7 0, total_ns = 0, lat_count = 0 \<rparr>
   in buckets (lat_record 25000 l) = [0, 0, 1, 0, 0, 0, 0]
      \<and> (\<exists>i < 7. 25000 < BUCKET_NS ! i \<and> (\<forall>j < i. BUCKET_NS ! j \<le> 25000)
           \<and> lat_record 25000 l = \<lparr> buckets = (buckets l)[i := buckets l ! i + 1], total_ns = total_ns l + 25000,
                lat_count = lat_count l + 1 \<rparr>)"
proof -
  have "buckets (lat_record 25000 \<lparr> buckets = replicate 7 0, total_ns = 0, lat_count = 0 \<rparr>) = [0, 0, 1, 0, 0, 0, 0]"
    by code_simp
  moreover have "(25000 :: u64) \<noteq> - 1" by code_simp
  ultimately show ?thesis
    unfolding Let_def
    using latency_one_bucket [of 25000 "\<lparr> buckets = replicate 7 0, total_ns = 0, lat_count = 0 \<rparr>"] by simp
qed

text \<open>
  \<open>unsubscribe\<close> finds the subscription by its id but removes by name: every other
  subscription of the same name on that message type disappears with it, and its id stays in
  the table.
\<close>

theorem unsubscribe_removes_by_name:
  assumes "map_of (sub_map b) sid = Some (t, n)" "map_of (sub_map b) sid' = Some (t, n)" "sid' \<noteq> sid"
  shows "list_all (\<lambda>e. en_name e \<noteq> n) (channel (unsubscribe sid b) t)
    \<and> map_of (sub_map (unsubscribe sid b)) sid' = Some (t, n)"
  using assms by (auto simp: unsubscribe_def channel_def pipe_disconnect_def list_all_iff split: option.splits)

theorem unsubscribe_removes_by_name_witness:
  "let b = snd (subscribe 7 ''x'' False 128 (snd (subscribe 7 ''x'' True 128 fresh_bus)))
   in length (channel b 7) = 2 \<and> channel (unsubscribe 1 b) 7 = []
      \<and> map_of (sub_map (unsubscribe 1 b)) 2 = Some (7, ''x'')"
proof -
  let ?b = "snd (subscribe 7 ''x'' False 128 (snd (subscribe 7 ''x'' True 128 fresh_bus)))"
  have m: "map_of (sub_map ?b) 1 = Some (7, ''x'')" "map_of (sub_map ?b) 2 = Some (7, ''x'')" "(2 :: u64) \<noteq> 1"
    by (simp_all add: subscribe_def Let_def fresh_bus_def)
  have "length (channel ?b 7) = 2" "channel (unsubscribe 1 ?b) 7 = []"
    by (simp_all add: subscribe_def Let_def fresh_bus_def channel_def pipe_connect_def unsubscribe_def pipe_disconnect_def)
  with unsubscribe_removes_by_name [OF m] show ?thesis by simp
qed

end
