(* ===== verification/CM_State.thy ===== *)
theory CM_State
  imports Session Send_Queue Signal_Bus
begin

section \<open>The state of the connection manager\<close>

text \<open>
  \<open>ConnectionManager::Impl\<close> (\<open>core/cm/impl.hpp\<close>), \<open>ConnectionRecord\<close> and
  \<open>TransportPath\<close> (\<open>core/types/connection.hpp\<close>) and \<open>PendingMessage\<close>
  (\<open>core/types/pending.hpp\<close>). The RCU map of \<open>shared_ptr\<close> records is an association list of
  records; a mutation through a record pointer is \<open>upd_rec\<close>, which changes nothing once the
  record has left the map, as a write through a pointer to a removed record is seen by nobody.

  The record \<open>env\<close> is everything outside the connection manager: the libraries, the clocks, the
  random source, what a connector returns for a call (a function of all calls made so far) and
  what a handler does, which is an arbitrary transformation of the state, so that a handler may
  call back into the host API. Calls to connectors and handlers are logged in \<open>ext_calls\<close>.
  Connectors do not call back into the manager from inside a call; they post such work.
  Times are nanoseconds of the steady clock.
\<close>

subsection \<open>Records\<close>

record transport_path =
  tp_id :: conn_id
  tp_scheme :: string
  tp_priority :: u8
  tp_remote :: endpoint_t
  tp_active :: bool
  tp_last_rtt_us :: u64
  tp_errors :: u32
  tp_added_at :: int

record peer_path_info =
  pp_scheme :: string
  pp_active :: bool
  pp_priority :: u8
  pp_rtt :: u16

record connection_record =
  c_id :: conn_id
  c_state :: conn_state_t
  c_remote :: endpoint_t
  c_local_scheme :: string
  c_peer_schemes :: "string list"
  c_negotiated_scheme :: string
  c_peer_user_pubkey :: bytes
  c_peer_device_pubkey :: bytes
  c_peer_authenticated :: bool
  c_is_localhost :: bool
  c_localhost_passthrough :: bool
  c_is_initiator :: bool
  c_peer_core_meta :: core_meta
  c_peer_transport_info :: "peer_path_info list"
  c_affinity_plugin :: string
  c_send_packet_id :: u64
  c_last_heartbeat_recv :: int
  c_heartbeat_seq :: u32
  c_missed_heartbeats :: u32
  c_handshake :: "handshake_state option"
  c_session :: "noise_session option"
  c_recv_buf :: bytes
  c_transport_paths :: "transport_path list"

record pending_message =
  pm_type :: u32
  pm_payload :: bytes
  pm_queued_at :: int

record handler_t =
  h_ident :: nat
  h_name :: "string option"
  h_info_priority :: "u8 option"
  h_types :: "u32 list"
  h_has_message :: bool
  h_has_result :: bool
  h_has_conn_state :: bool

datatype handler_source = Plugin | Connector | Internal

record handler_entry =
  he_name :: string
  he_handler :: handler_t
  he_priority :: u8
  he_types :: "u32 list"
  he_source :: handler_source

record connector_ops =
  co_ident :: nat
  co_has_send_gather :: bool
  co_has_close :: bool
  co_has_close_now :: bool

record node_identity =
  user_pubkey :: bytes
  user_seckey :: bytes
  device_pubkey :: bytes
  device_seckey :: bytes

record compression_cfg =
  cc_enabled :: bool
  cc_threshold :: int
  cc_level :: int

datatype ext_call =
    OpsConnect connector_ops string
  | OpsSendTo connector_ops conn_id bytes
  | OpsSendGather connector_ops conn_id "bytes list"
  | OpsClose connector_ops conn_id
  | OpsCloseNow connector_ops conn_id
  | HandleMessage handler_t header_t endpoint_t bytes
  | OnMessageResult handler_t header_t u16
  | HandleConnState handler_t string conn_state_t

record cm =
  records :: "(conn_id \<times> connection_record) list"
  send_queues :: "(conn_id \<times> per_conn_queue) list"
  relay_dedup :: "((u64 \<times> u64) \<times> int) list"
  bus :: "handler_t signal_bus"
  config :: "compression_cfg option"
  identity :: node_identity
  shutting_down :: bool
  next_id :: conn_id
  in_flight :: u32
  scheme_priority :: "string list"
  handler_entries :: "(string \<times> handler_entry) list"
  connectors :: "(string \<times> connector_ops) list"
  uri_index :: "(string \<times> conn_id) list"
  pk_index :: "(string \<times> conn_id) list"
  transport_index :: "(conn_id \<times> conn_id) list"
  pending_messages :: "(string \<times> pending_message list) list"
  ext_calls :: "ext_call list"
  rand_ctr :: nat

record env =
  e_sodium :: sodium
  e_zstd :: zstd_lib
  e_now :: int
  e_done :: int
  e_system_us :: u64
  e_rand :: "nat \<Rightarrow> bytes"
  e_hash64 :: "u64 \<Rightarrow> u64"
  e_send_rc :: "ext_call list \<Rightarrow> ext_call \<Rightarrow> int"
  e_message :: "handler_t \<Rightarrow> header_t \<Rightarrow> endpoint_t \<Rightarrow> bytes \<Rightarrow> cm \<Rightarrow> cm"
  e_result :: "handler_t \<Rightarrow> header_t \<Rightarrow> u16 \<Rightarrow> cm \<Rightarrow> propagation_t \<times> cm"
  e_conn_state :: "handler_t \<Rightarrow> string \<Rightarrow> conn_state_t \<Rightarrow> cm \<Rightarrow> cm"

definition second_ns :: int where "second_ns = 1000000000"
definition PENDING_TTL :: int where "PENDING_TTL = 30 * second_ns"
definition PENDING_MAX_PER_URI :: nat where "PENDING_MAX_PER_URI = 100"
definition HEARTBEAT_INTERVAL :: int where "HEARTBEAT_INTERVAL = 30 * second_ns"
definition MAX_MISSED_HEARTBEATS :: u32 where "MAX_MISSED_HEARTBEATS = 3"
definition GLOBAL_MAX_IN_FLIGHT :: nat where "GLOBAL_MAX_IN_FLIGHT = 512 * 1024 * 1024"
definition CHUNK_SIZE :: nat where "CHUNK_SIZE = 1024 * 1024"
definition MAX_RECV_BUF :: nat where "MAX_RECV_BUF = 16 * 1024 * 1024"

definition no_endpoint :: endpoint_t where
  "no_endpoint = \<lparr> ep_address = [], ep_port = 0, ep_pubkey = zero_key, ep_peer_id = 0, ep_flags = 0 \<rparr>"

definition fresh_record :: connection_record where
  "fresh_record = \<lparr> c_id = 0, c_state = STATE_NOISE_HANDSHAKE, c_remote = no_endpoint,
     c_local_scheme = [], c_peer_schemes = [], c_negotiated_scheme = [], c_peer_user_pubkey = zero_key,
     c_peer_device_pubkey = zero_key, c_peer_authenticated = False, c_is_localhost = False,
     c_localhost_passthrough = False, c_is_initiator = False,
     c_peer_core_meta = \<lparr> core_version = 0, caps_mask = 0 \<rparr>, c_peer_transport_info = [],
     c_affinity_plugin = [], c_send_packet_id = 0, c_last_heartbeat_recv = 0, c_heartbeat_seq = 0,
     c_missed_heartbeats = 0, c_handshake = None, c_session = None, c_recv_buf = [],
     c_transport_paths = [] \<rparr>"

definition cm_init :: "handler_t signal_bus \<Rightarrow> node_identity \<Rightarrow> compression_cfg option \<Rightarrow> cm" where
  "cm_init b ident cfg = \<lparr> records = [], send_queues = [], relay_dedup = [], bus = b, config = cfg,
     identity = ident, shutting_down = False, next_id = 1, in_flight = 0,
     scheme_priority = [''tcp'', ''ice''], handler_entries = [], connectors = [], uri_index = [],
     pk_index = [], transport_index = [], pending_messages = [], ext_calls = [], rand_ctr = 0 \<rparr>"

subsection \<open>Access\<close>

definition rcu_find :: "cm \<Rightarrow> conn_id \<Rightarrow> connection_record option" where
  "rcu_find s cid = map_of (records s) cid"

definition upd_rec :: "conn_id \<Rightarrow> (connection_record \<Rightarrow> connection_record) \<Rightarrow> cm \<Rightarrow> cm" where
  "upd_rec cid f s = s\<lparr> records := modify cid f (records s) \<rparr>"

definition upd_bus :: "(handler_t signal_bus \<Rightarrow> handler_t signal_bus) \<Rightarrow> cm \<Rightarrow> cm" where
  "upd_bus f s = s\<lparr> bus := f (bus s) \<rparr>"

definition ext :: "ext_call \<Rightarrow> cm \<Rightarrow> cm" where
  "ext c s = s\<lparr> ext_calls := ext_calls s @ [c] \<rparr>"

definition cm_stat :: "stats_kind \<Rightarrow> u64 \<Rightarrow> conn_id \<Rightarrow> cm \<Rightarrow> cm" where
  "cm_stat k v cid s = upd_bus (emit_stat (stat k v cid)) s"

definition cm_drop :: "conn_id \<Rightarrow> drop_reason \<Rightarrow> cm \<Rightarrow> cm" where
  "cm_drop cid why s = upd_bus (emit_drop cid why) s"

subsection \<open>Paths of a record\<close>

fun best_index :: "nat \<Rightarrow> transport_path list \<Rightarrow> (nat \<times> transport_path) option \<Rightarrow> (nat \<times> transport_path) option" where
  "best_index i [] best = best"
| "best_index i (p # ps) best =
     best_index (i + 1) ps
       (if tp_active p \<and> (case best of None \<Rightarrow> True | Some (_, b) \<Rightarrow> tp_priority p < tp_priority b)
        then Some (i, p) else best)"

definition best_path :: "connection_record \<Rightarrow> (nat \<times> transport_path) option" where
  "best_path r = best_index 0 (c_transport_paths r) None"

definition find_path :: "string \<Rightarrow> connection_record \<Rightarrow> transport_path option" where
  "find_path sch r = find (\<lambda>p. tp_scheme p = sch) (c_transport_paths r)"

definition find_path_by_transport_id :: "conn_id \<Rightarrow> connection_record \<Rightarrow> transport_path option" where
  "find_path_by_transport_id tcid r = find (\<lambda>p. tp_id p = tcid) (c_transport_paths r)"

definition upd_path :: "nat \<Rightarrow> (transport_path \<Rightarrow> transport_path) \<Rightarrow> connection_record \<Rightarrow> connection_record" where
  "upd_path i f r = r\<lparr> c_transport_paths := (c_transport_paths r)[i := f (c_transport_paths r ! i)] \<rparr>"

subsection \<open>Helpers of transport.cpp and impl.hpp\<close>

definition starts_with :: "string \<Rightarrow> string \<Rightarrow> bool" where
  "starts_with a p \<longleftrightarrow> take (length p) a = p"

definition is_localhost_address :: "string \<Rightarrow> bool" where
  "is_localhost_address a \<longleftrightarrow>
     a = ''127.0.0.1'' \<or> a = ''::1'' \<or> a = ''localhost'' \<or> starts_with a ''127.''"

definition find_connector :: "cm \<Rightarrow> string \<Rightarrow> connector_ops option" where
  "find_connector s sch = map_of (connectors s) (if sch = [] then ''tcp'' else sch)"

fun find_sep :: "string \<Rightarrow> nat option" where
  "find_sep [] = None"
| "find_sep (c # cs) = (if starts_with (c # cs) ''://'' then Some 0 else map_option Suc (find_sep cs))"

definition uri_key_of :: "string \<Rightarrow> string" where
  "uri_key_of uri = (case find_sep uri of Some sep \<Rightarrow> drop (sep + 3) uri | None \<Rightarrow> uri)"

definition uri_scheme_of :: "string \<Rightarrow> string" where
  "uri_scheme_of uri = (case find_sep uri of Some sep \<Rightarrow> take sep uri | None \<Rightarrow> ''tcp'')"

definition resolve_uri :: "cm \<Rightarrow> string \<Rightarrow> conn_id option" where
  "resolve_uri s uri = map_of (uri_index s) (uri_key_of uri)"

definition local_schemes :: "cm \<Rightarrow> string list" where
  "local_schemes s = map fst (connectors s)"

definition negotiate_scheme :: "cm \<Rightarrow> connection_record \<Rightarrow> string" where
  "negotiate_scheme s r =
     (case find (\<lambda>prio. prio \<in> set (local_schemes s)
                  \<and> (c_peer_schemes r = [] \<or> prio \<in> set (c_peer_schemes r))) (scheme_priority s) of
        Some prio \<Rightarrow> prio
      | None \<Rightarrow> (case local_schemes s of [] \<Rightarrow> ''tcp'' | l # _ \<Rightarrow> l))"

fun index_of :: "string \<Rightarrow> string list \<Rightarrow> nat option" where
  "index_of x [] = None"
| "index_of x (y # ys) = (if y = x then Some 0 else map_option Suc (index_of x ys))"

definition scheme_priority_index :: "cm \<Rightarrow> string \<Rightarrow> u8" where
  "scheme_priority_index s sch =
     (case index_of sch (scheme_priority s) of Some i \<Rightarrow> word_of_nat i | None \<Rightarrow> 255)"

definition get_or_create_queue :: "conn_id \<Rightarrow> cm \<Rightarrow> per_conn_queue \<times> cm" where
  "get_or_create_queue cid s =
     (case map_of (send_queues s) cid of
        Some q \<Rightarrow> (q, s)
      | None \<Rightarrow> (empty_queue, s\<lparr> send_queues := AList.update cid empty_queue (send_queues s) \<rparr>))"

definition set_queue :: "conn_id \<Rightarrow> per_conn_queue \<Rightarrow> cm \<Rightarrow> cm" where
  "set_queue cid q s = s\<lparr> send_queues := modify cid (\<lambda>_. q) (send_queues s) \<rparr>"

subsection \<open>Queries (queries.cpp)\<close>

definition find_conn_by_pubkey :: "cm \<Rightarrow> string \<Rightarrow> conn_id" where
  "find_conn_by_pubkey s hex = (case map_of (pk_index s) hex of Some cid \<Rightarrow> cid | None \<Rightarrow> CONN_ID_INVALID)"

definition get_state :: "cm \<Rightarrow> conn_id \<Rightarrow> conn_state_t option" where
  "get_state s cid = map_option c_state (rcu_find s cid)"

definition get_negotiated_scheme :: "cm \<Rightarrow> conn_id \<Rightarrow> string option" where
  "get_negotiated_scheme s cid = map_option c_negotiated_scheme (rcu_find s cid)"

definition get_peer_pubkey :: "cm \<Rightarrow> conn_id \<Rightarrow> bytes option" where
  "get_peer_pubkey s cid =
     (case rcu_find s cid of
        Some r \<Rightarrow> if c_peer_authenticated r then Some (c_peer_user_pubkey r) else None
      | None \<Rightarrow> None)"

definition get_peer_pubkey_hex :: "cm \<Rightarrow> conn_id \<Rightarrow> string" where
  "get_peer_pubkey_hex s cid =
     (case rcu_find s cid of
        Some r \<Rightarrow> if c_peer_authenticated r then bytes_to_hex (c_peer_user_pubkey r) else []
      | None \<Rightarrow> [])"

definition get_peer_endpoint :: "cm \<Rightarrow> conn_id \<Rightarrow> endpoint_t option" where
  "get_peer_endpoint s cid =
     (case rcu_find s cid of Some r \<Rightarrow> Some ((c_remote r)\<lparr> ep_peer_id := cid \<rparr>) | None \<Rightarrow> None)"

definition connection_count :: "cm \<Rightarrow> nat" where
  "connection_count s = length (records s)"

definition get_active_uris :: "cm \<Rightarrow> string list" where
  "get_active_uris s = map fst (uri_index s)"

definition get_active_conn_ids :: "cm \<Rightarrow> conn_id list" where
  "get_active_conn_ids s = map fst (filter (\<lambda>(_, r). c_state r = STATE_ESTABLISHED) (records s))"

definition get_pending_bytes :: "cm \<Rightarrow> conn_id \<Rightarrow> nat" where
  "get_pending_bytes s cid =
     (if cid = CONN_ID_INVALID then sum_list (map (pending_bytes \<circ> snd) (send_queues s))
      else case map_of (send_queues s) cid of Some q \<Rightarrow> pending_bytes q | None \<Rightarrow> 0)"

definition local_core_meta :: "cm \<Rightarrow> core_meta" where
  "local_core_meta s =
     \<lparr> core_version = GN_CORE_VERSION,
       caps_mask = (let m = CORE_CAP_ZSTD OR CORE_CAP_KEYROT OR CORE_CAP_RELAY
                    in if map_of (connectors s) ''ice'' \<noteq> None then m OR CORE_CAP_ICE else m) \<rparr>"

end
