(* ===== verification/CM_Transport.thy ===== *)
theory CM_Transport
  imports CM_State
begin

section \<open>Sending: frames, queues, paths, pending messages\<close>

text \<open>
  The send side of \<open>core/cm/transport.cpp\<close> and the closing of transports of
  \<open>core/cm/disconnect.cpp\<close>.
\<close>

subsection \<open>build\_frame\<close>

definition is_handshake_type :: "u32 \<Rightarrow> bool" where
  "is_handshake_type t \<longleftrightarrow>
     t = MSG_TYPE_NOISE_INIT \<or> t = MSG_TYPE_NOISE_RESP \<or> t = MSG_TYPE_NOISE_FIN"

definition mk_header :: "u8 \<Rightarrow> u32 \<Rightarrow> nat \<Rightarrow> u64 \<Rightarrow> header_t" where
  "mk_header fl msg_type len pid =
     \<lparr> magic = GNET_MAGIC, proto_ver = GNET_PROTO_VER, hflags = fl, payload_type = ucast msg_type,
       payload_len = word_of_nat len, packet_id = pid \<rparr>"

text \<open>
  The empty vector is the "no such connection" result; a frame is never empty.
  \<open>send_packet_id.fetch_add(1)\<close> numbers every frame of the connection.
\<close>

definition build_frame :: "env \<Rightarrow> conn_id \<Rightarrow> u32 \<Rightarrow> bytes \<Rightarrow> cm \<Rightarrow> bytes \<times> cm" where
  "build_frame E cid msg_type payload s =
     (case rcu_find s cid of
        None \<Rightarrow> ([], s)
      | Some r \<Rightarrow>
          (let pkt_id = c_send_packet_id r;
               s1 = upd_rec cid (\<lambda>r. r\<lparr> c_send_packet_id := c_send_packet_id r + 1 \<rparr>) s
           in if c_localhost_passthrough r \<and> \<not> is_handshake_type msg_type then
                (header_enc (mk_header GNET_FLAG_TRUSTED msg_type (length payload) pkt_id) @ payload, s1)
              else
                (let final_payload =
                       (case c_session r of
                          Some ses \<Rightarrow>
                            if \<not> is_handshake_type msg_type \<and> \<not> c_is_localhost r then
                              (let comp_en = (case config s of Some c \<Rightarrow> cc_enabled c | None \<Rightarrow> True);
                                   comp_th = (case config s of Some c \<Rightarrow> cc_threshold c | None \<Rightarrow> 512);
                                   comp_lv = (case config s of Some c \<Rightarrow> cc_level c | None \<Rightarrow> 1)
                               in session_encrypt (e_sodium E) (e_zstd E) ses payload pkt_id
                                    comp_en comp_th comp_lv)
                            else payload
                        | None \<Rightarrow> payload);
                     fl = (if c_is_localhost r then GNET_FLAG_TRUSTED else 0)
                 in (header_enc (mk_header fl msg_type (length final_payload) pkt_id) @ final_payload, s1))))"

subsection \<open>Handing frames to a connector\<close>

fun send_each :: "env \<Rightarrow> conn_id \<Rightarrow> connector_ops \<Rightarrow> bytes list \<Rightarrow> bool \<Rightarrow> cm \<Rightarrow> bool \<times> cm" where
  "send_each E cid ops [] all_ok s = (all_ok, s)"
| "send_each E cid ops (f # fs) all_ok s =
     (let c = OpsSendTo ops cid f;
          rc = e_send_rc E (ext_calls s) c;
          s1 = ext c s
      in if rc = 0
         then send_each E cid ops fs all_ok
                (cm_stat TxPacket 1 cid (cm_stat TxBytes (word_of_nat (length f)) cid s1))
         else send_each E cid ops fs False s1)"

definition flush_frames_to_connector :: "env \<Rightarrow> conn_id \<Rightarrow> connector_ops \<Rightarrow> bytes list \<Rightarrow> cm \<Rightarrow> bool \<times> cm" where
  "flush_frames_to_connector E cid ops fs s =
     (if fs = [] then (True, s)
      else if co_has_send_gather ops \<and> length fs > 1 then
        (let c = OpsSendGather ops cid fs;
             rc = e_send_rc E (ext_calls s) c;
             s1 = ext c s
         in if rc < 0 then (False, s1)
            else (True, cm_stat TxPacket (word_of_nat (length fs)) cid
                          (cm_stat TxBytes (word_of_nat (total_bytes fs)) cid s1)))
      else send_each E cid ops fs True s)"

subsection \<open>flush\_queue\<close>

definition active_paths :: "connection_record \<Rightarrow> nat list" where
  "active_paths r =
     (let ps = c_transport_paths r
      in sort_key (\<lambda>i. unat (tp_priority (ps ! i))) (filter (\<lambda>i. tp_active (ps ! i)) [0..<length ps]))"

definition path_ok :: "transport_path \<Rightarrow> transport_path" where
  "path_ok p = p\<lparr> tp_errors := 0 \<rparr>"

definition path_failed :: "transport_path \<Rightarrow> transport_path" where
  "path_failed p =
     (let p1 = p\<lparr> tp_errors := tp_errors p + 1 \<rparr>
      in if tp_errors p1 \<ge> 3 then p1\<lparr> tp_active := False \<rparr> else p1)"

fun try_paths :: "env \<Rightarrow> conn_id \<Rightarrow> (nat \<times> transport_path) list \<Rightarrow> bytes list \<Rightarrow> cm \<Rightarrow> bool \<times> cm" where
  "try_paths E cid [] batch s = (False, s)"
| "try_paths E cid ((i, p) # rest) batch s =
     (case find_connector s (tp_scheme p) of
        None \<Rightarrow> try_paths E cid rest batch s
      | Some ops \<Rightarrow>
          (let (ok, s1) = flush_frames_to_connector E (tp_id p) ops batch s
           in if ok then (True, upd_rec cid (upd_path i path_ok) s1)
              else try_paths E cid rest batch (upd_rec cid (upd_path i path_failed) s1)))"

definition scheme_of :: "connection_record \<Rightarrow> string" where
  "scheme_of r = (if c_negotiated_scheme r = [] then c_local_scheme r else c_negotiated_scheme r)"

definition flush_queue :: "env \<Rightarrow> conn_id \<Rightarrow> cm \<Rightarrow> cm" where
  "flush_queue E cid s =
     (if shutting_down s then s
      else case rcu_find s cid of
        None \<Rightarrow> s
      | Some r \<Rightarrow>
          (case map_of (send_queues s) cid of
             None \<Rightarrow> s
           | Some q \<Rightarrow>
               (let (batch, q1) = drain_batch 64 q;
                    s1 = set_queue cid q1 s;
                    paths = map (\<lambda>i. (i, c_transport_paths r ! i)) (active_paths r)
                in if batch = [] then s1
                   else let (ok, s2) = try_paths E cid paths batch s1
                        in if ok then s2
                           else if paths = [] \<and> find_connector s2 (scheme_of r) \<noteq> None
                           then snd (flush_frames_to_connector E cid (the (find_connector s2 (scheme_of r))) batch s2)
                           else cm_drop cid ConnectorNotFound s2)))"

definition send_frame :: "env \<Rightarrow> conn_id \<Rightarrow> u32 \<Rightarrow> bytes \<Rightarrow> cm \<Rightarrow> cm" where
  "send_frame E cid msg_type payload s =
     (if shutting_down s then s
      else let (frame, s1) = build_frame E cid msg_type payload s
           in if frame = [] then s1
              else let (q, s2) = get_or_create_queue cid s1; (ok, q1) = try_push frame q
                   in if \<not> ok then cm_drop cid PerConnLimitExceeded (set_queue cid q1 s2)
                      else flush_queue E cid (set_queue cid q1 s2))"

subsection \<open>send and broadcast\<close>

definition enqueue_pending :: "env \<Rightarrow> string \<Rightarrow> u32 \<Rightarrow> bytes \<Rightarrow> cm \<Rightarrow> bool \<times> cm" where
  "enqueue_pending E uri_key msg_type payload s =
     (let q = (case map_of (pending_messages s) uri_key of Some q \<Rightarrow> q | None \<Rightarrow> [])
      in if length q \<ge> PENDING_MAX_PER_URI
         then (False, s\<lparr> pending_messages := AList.update uri_key q (pending_messages s) \<rparr>)
         else (True, s\<lparr> pending_messages := AList.update uri_key
                 (q @ [\<lparr> pm_type = msg_type, pm_payload = payload, pm_queued_at = e_now E \<rparr>])
                 (pending_messages s) \<rparr>))"

definition cm_connect :: "string \<Rightarrow> cm \<Rightarrow> cm" where
  "cm_connect uri s =
     (case find_connector s (uri_scheme_of uri) of
        Some ops \<Rightarrow> ext (OpsConnect ops uri) s
      | None \<Rightarrow> s)"

function send_chunks :: "env \<Rightarrow> conn_id \<Rightarrow> u32 \<Rightarrow> bytes \<Rightarrow> cm \<Rightarrow> cm" where
  "send_chunks E cid msg_type payload s =
     (if payload = [] then s
      else send_chunks E cid msg_type (drop CHUNK_SIZE payload)
             (send_frame E cid msg_type (take CHUNK_SIZE payload) s))"
  by pat_completeness auto
termination
  by (relation "measure (\<lambda>(_, _, _, p, _). length p)") (auto simp: CHUNK_SIZE_def)

declare send_chunks.simps [simp del]

definition send_uri :: "env \<Rightarrow> string \<Rightarrow> u32 \<Rightarrow> bytes \<Rightarrow> cm \<Rightarrow> bool \<times> cm" where
  "send_uri E uri msg_type payload s =
     (if uri = [] \<or> shutting_down s then (False, s)
      else case resolve_uri s uri of
        None \<Rightarrow>
          (let (ok, s1) = enqueue_pending E (uri_key_of uri) msg_type payload s
           in if ok then (True, cm_connect uri s1) else (False, s1))
      | Some cid \<Rightarrow>
          (case rcu_find s cid of
             None \<Rightarrow> (False, s)
           | Some r \<Rightarrow>
               if c_state r \<noteq> STATE_ESTABLISHED \<and> \<not> is_handshake_type msg_type then
                 enqueue_pending E (uri_key_of uri) msg_type payload s
               else if get_pending_bytes s CONN_ID_INVALID + length payload > GLOBAL_MAX_IN_FLIGHT then
                 (False, cm_stat BackpressureHit 1 cid s)
               else if length payload > CHUNK_SIZE * 2 then
                 (True, send_chunks E cid msg_type payload s)
               else (True, send_frame E cid msg_type payload s)))"

definition send_id :: "env \<Rightarrow> conn_id \<Rightarrow> u32 \<Rightarrow> bytes \<Rightarrow> cm \<Rightarrow> bool \<times> cm" where
  "send_id E cid msg_type payload s =
     (if rcu_find s cid = None then (False, s) else (True, send_frame E cid msg_type payload s))"

definition broadcast :: "env \<Rightarrow> u32 \<Rightarrow> bytes \<Rightarrow> cm \<Rightarrow> cm" where
  "broadcast E msg_type payload s =
     foldl (\<lambda>s cid. send_frame E cid msg_type payload s) s (get_active_conn_ids s)"

subsection \<open>Pending messages\<close>

definition flush_pending_messages :: "env \<Rightarrow> string \<Rightarrow> conn_id \<Rightarrow> cm \<Rightarrow> cm" where
  "flush_pending_messages E uri cid s =
     (case map_of (pending_messages s) uri of
        None \<Rightarrow> s
      | Some msgs \<Rightarrow>
          if msgs = [] then s
          else foldl (\<lambda>s m. send_frame E cid (pm_type m) (pm_payload m) s)
                 (s\<lparr> pending_messages := erase uri (pending_messages s) \<rparr>) msgs)"

definition stale :: "env \<Rightarrow> pending_message \<Rightarrow> bool" where
  "stale E m \<longleftrightarrow> e_now E - pm_queued_at m > PENDING_TTL"

definition drop_stale :: "env \<Rightarrow> string \<Rightarrow> cm \<Rightarrow> cm" where
  "drop_stale E uri s =
     (case map_of (pending_messages s) uri of
        None \<Rightarrow> s
      | Some q \<Rightarrow>
          (let q1 = filter (\<lambda>m. \<not> stale E m) q
           in if q1 = [] then s\<lparr> pending_messages := erase uri (pending_messages s) \<rparr>
              else s\<lparr> pending_messages := modify uri (\<lambda>_. q1) (pending_messages s) \<rparr>))"

definition cleanup_stale_pending :: "env \<Rightarrow> cm \<Rightarrow> cm" where
  "cleanup_stale_pending E s =
     (let stale_uris = map fst (filter (\<lambda>(_, q). case q of [] \<Rightarrow> False | m # _ \<Rightarrow> stale E m) (pending_messages s))
      in foldl (\<lambda>s uri. drop_stale E uri s) s stale_uris)"

subsection \<open>disconnect and close\_now\<close>

fun close_paths :: "transport_path list \<Rightarrow> cm \<Rightarrow> bool \<times> cm" where
  "close_paths [] s = (False, s)"
| "close_paths (p # ps) s =
     (if \<not> tp_active p then close_paths ps s
      else case find_connector s (tp_scheme p) of
             None \<Rightarrow> close_paths ps s
           | Some ops \<Rightarrow>
               if co_has_close ops
               then (let (_, s1) = close_paths ps (ext (OpsClose ops (tp_id p)) s) in (True, s1))
               else close_paths ps s)"

definition disconnect :: "conn_id \<Rightarrow> cm \<Rightarrow> cm" where
  "disconnect cid s =
     (let s1 = s\<lparr> send_queues := modify cid (\<lambda>q. q\<lparr> draining := True \<rparr>) (send_queues s) \<rparr>
      in case rcu_find s1 cid of
           None \<Rightarrow> s1
         | Some r \<Rightarrow>
             (let (closed_any, s2) = close_paths (c_transport_paths r) s1
              in if closed_any then s2
                 else case find_connector s2 (scheme_of r) of
                        Some ops \<Rightarrow> if co_has_close ops then ext (OpsClose ops cid) s2 else s2
                      | None \<Rightarrow> s2))"

fun close_now_paths :: "transport_path list \<Rightarrow> cm \<Rightarrow> bool \<times> cm" where
  "close_now_paths [] s = (False, s)"
| "close_now_paths (p # ps) s =
     (case find_connector s (tp_scheme p) of
        None \<Rightarrow> close_now_paths ps s
      | Some ops \<Rightarrow>
          if co_has_close_now ops
          then (let (_, s1) = close_now_paths ps (ext (OpsCloseNow ops (tp_id p)) s) in (True, s1))
          else if co_has_close ops
          then (let (_, s1) = close_now_paths ps (ext (OpsClose ops (tp_id p)) s) in (True, s1))
          else close_now_paths ps s)"

definition close_now :: "conn_id \<Rightarrow> cm \<Rightarrow> cm" where
  "close_now cid s =
     (case rcu_find s cid of
        None \<Rightarrow> s
      | Some r \<Rightarrow>
          (let (closed_any, s1) = close_now_paths (c_transport_paths r) s
           in if closed_any then s1
              else case find_connector s1 (scheme_of r) of
                     Some ops \<Rightarrow> if co_has_close_now ops then ext (OpsCloseNow ops cid) s1
                                 else if co_has_close ops then ext (OpsClose ops cid) s1 else s1
                   | None \<Rightarrow> s1))"

end
