(* ===== verification/CM_Handshake.thy ===== *)
theory CM_Handshake
  imports CM_Transport
begin

section \<open>Handshake handling\<close>

text \<open>
  \<open>core/cm/handshake.cpp\<close>: key rotation and rekeying, the three Noise messages, the check of
  the peer's \<open>HandshakePayload\<close>, the transition to \<open>ESTABLISHED\<close> and the transport upgrade.
  A 32-byte ephemeral secret is taken from the random source for every call of
  \<open>write_message\<close>. \<open>NodeIdentity::load_or_generate\<close> reads files; its result is an argument of
  \<open>rotate_identity_keys\<close>.
\<close>

definition rotate_identity_keys :: "node_identity \<Rightarrow> cm \<Rightarrow> cm" where
  "rotate_identity_keys next s = s\<lparr> identity := next \<rparr>"

definition rekey_session :: "env \<Rightarrow> conn_id \<Rightarrow> cm \<Rightarrow> bool \<times> cm" where
  "rekey_session E cid s =
     (case rcu_find s cid of
        None \<Rightarrow> (False, s)
      | Some r \<Rightarrow>
          (case c_session r of
             None \<Rightarrow> (False, s)
           | Some ses \<Rightarrow>
               if c_state r \<noteq> STATE_ESTABLISHED then (False, s)
               else (True, upd_rec cid (\<lambda>r. r\<lparr> c_session := Some (session_rekey (e_sodium E) ses),
                                               c_send_packet_id := 1 \<rparr>) s)))"

definition set_handshake :: "conn_id \<Rightarrow> handshake_state \<Rightarrow> cm \<Rightarrow> cm" where
  "set_handshake cid hs s = upd_rec cid (\<lambda>r. r\<lparr> c_handshake := Some hs \<rparr>) s"

definition cm_write_message :: "env \<Rightarrow> conn_id \<Rightarrow> bytes \<Rightarrow> handshake_state \<Rightarrow> cm \<Rightarrow> bytes option \<times> cm" where
  "cm_write_message E cid payload hs s =
     (let (m, hs1) = write_message (e_sodium E) (e_rand E (rand_ctr s)) payload hs
      in (m, set_handshake cid hs1 (s\<lparr> rand_ctr := rand_ctr s + 1 \<rparr>)))"

definition send_noise_init :: "env \<Rightarrow> conn_id \<Rightarrow> cm \<Rightarrow> cm" where
  "send_noise_init E cid s =
     (case rcu_find s cid of
        None \<Rightarrow> s
      | Some r \<Rightarrow>
          (case c_handshake r of
             None \<Rightarrow> s
           | Some hs \<Rightarrow>
               (case cm_write_message E cid [] hs s of
                  (None, s1) \<Rightarrow> close_now cid s1
                | (Some m, s1) \<Rightarrow> send_frame E cid MSG_TYPE_NOISE_INIT m s1)))"

definition zero_handshake_payload :: handshake_payload where
  "zero_handshake_payload = \<lparr> hp_user_pubkey = zero_key, hp_device_pubkey = zero_key,
     hp_signature = replicate 64 0, hp_schemes_count = 0, hp_schemes = replicate 8 (replicate 16 0),
     hp_core_meta = \<lparr> core_version = 0, caps_mask = 0 \<rparr> \<rparr>"

definition handshake_payload_of :: "env \<Rightarrow> cm \<Rightarrow> handshake_payload" where
  "handshake_payload_of E s =
     (let ident = identity s;
          to_sign = user_pubkey ident @ device_pubkey ident;
          hp = zero_handshake_payload\<lparr> hp_user_pubkey := user_pubkey ident,
                 hp_device_pubkey := device_pubkey ident,
                 hp_signature := sign_detached (e_sodium E) to_sign (user_seckey ident) \<rparr>
      in (set_schemes (local_schemes s) hp)\<lparr> hp_core_meta := local_core_meta s \<rparr>)"

definition build_handshake_payload :: "env \<Rightarrow> cm \<Rightarrow> bytes" where
  "build_handshake_payload E s = handshake_payload_enc (handshake_payload_of E s)"

definition adopt_peer :: "cm \<Rightarrow> handshake_payload \<Rightarrow> connection_record \<Rightarrow> connection_record" where
  "adopt_peer s hp r =
     (let r1 = r\<lparr> c_peer_user_pubkey := hp_user_pubkey hp, c_peer_device_pubkey := hp_device_pubkey hp,
                  c_peer_authenticated := True, c_peer_schemes := get_schemes hp,
                  c_peer_core_meta := hp_core_meta hp \<rparr>;
          r2 = r1\<lparr> c_negotiated_scheme := negotiate_scheme s r1 \<rparr>
      in if c_transport_paths r2 = [] then r2
         else upd_path 0 (\<lambda>tp.
                let sch = (if c_negotiated_scheme r2 = [] then ''tcp'' else c_negotiated_scheme r2)
                in tp\<lparr> tp_scheme := sch, tp_priority := scheme_priority_index s sch \<rparr>) r2)"

definition process_handshake_payload :: "env \<Rightarrow> conn_id \<Rightarrow> bytes \<Rightarrow> cm \<Rightarrow> bool \<times> cm" where
  "process_handshake_payload E cid data s =
     (if length data < handshake_payload_size then (False, cm_drop cid AuthFail s)
      else
        (let hp = handshake_payload_dec data;
             to_verify = hp_user_pubkey hp @ hp_device_pubkey hp
         in if \<not> sign_verify (e_sodium E) (hp_signature hp) to_verify (hp_user_pubkey hp)
            then (False, cm_drop cid AuthFail s)
            else case rcu_find s cid of
              None \<Rightarrow> (False, s)
            | Some r \<Rightarrow>
                (case c_handshake r of
                   None \<Rightarrow> (False, s)
                 | Some hs \<Rightarrow>
                     (case pk_to_curve (e_sodium E) (hp_device_pubkey hp) of
                        None \<Rightarrow> (False, cm_drop cid AuthFail s)
                      | Some expected_x25519 \<Rightarrow>
                          if expected_x25519 \<noteq> hs_rs hs then (False, cm_drop cid AuthFail s)
                          else (True, upd_rec cid (adopt_peer s hp) s)))))"

fun upgrade_loop :: "connection_record \<Rightarrow> transport_path \<Rightarrow> string list \<Rightarrow> cm \<Rightarrow> cm" where
  "upgrade_loop r best [] s = s"
| "upgrade_loop r best (sch # rest) s =
     (if tp_scheme best = sch then s
      else case find_connector s sch of
             None \<Rightarrow> upgrade_loop r best rest s
           | Some ops \<Rightarrow>
               (let peer_supports = (if sch = ''ice'' then caps_mask (c_peer_core_meta r) AND CORE_CAP_ICE \<noteq> 0
                                     else sch \<in> set (c_peer_schemes r))
                in if \<not> peer_supports then upgrade_loop r best rest s
                   else if find_path sch r \<noteq> None then upgrade_loop r best rest s
                   else ext (OpsConnect ops (sch @ ''://'' @ bytes_to_hex (c_peer_user_pubkey r))) s))"

definition schedule_transport_upgrade :: "conn_id \<Rightarrow> cm \<Rightarrow> cm" where
  "schedule_transport_upgrade cid s =
     (case rcu_find s cid of
        None \<Rightarrow> s
      | Some r \<Rightarrow>
          if c_state r \<noteq> STATE_ESTABLISHED then s
          else case best_path r of
                 None \<Rightarrow> s
               | Some (_, best) \<Rightarrow> upgrade_loop r best (scheme_priority s) s)"

definition notify_handlers :: "env \<Rightarrow> string \<Rightarrow> conn_state_t \<Rightarrow> cm \<Rightarrow> cm" where
  "notify_handlers E uri st s =
     foldl (\<lambda>s e. if h_has_conn_state (he_handler e)
                  then e_conn_state E (he_handler e) uri st (ext (HandleConnState (he_handler e) uri st) s)
                  else s) s (map snd (handler_entries s))"

definition drop_duplicate :: "conn_id \<Rightarrow> connection_record \<Rightarrow> cm \<Rightarrow> cm" where
  "drop_duplicate cid r s =
     (let s1 = close_now cid s
      in s1\<lparr> records := erase cid (records s1), send_queues := erase cid (send_queues s1),
             uri_index := erase (addr_key (c_remote r)) (uri_index s1) \<rparr>)"

definition establish :: "env \<Rightarrow> conn_id \<Rightarrow> connection_record \<Rightarrow> handshake_state \<Rightarrow> cm \<Rightarrow> cm" where
  "establish E cid r hs s =
     (let ses = session_of_handshake (e_sodium E) hs;
          s1 = upd_rec cid (\<lambda>r. r\<lparr> c_session := Some ses, c_handshake := None, c_state := STATE_ESTABLISHED,
                 c_localhost_passthrough := (if c_is_localhost r then True else c_localhost_passthrough r) \<rparr>) s
      in s1\<lparr> pk_index := AList.update (bytes_to_hex (c_peer_user_pubkey r)) cid (pk_index s1) \<rparr>)"

definition finalize_handshake :: "env \<Rightarrow> conn_id \<Rightarrow> cm \<Rightarrow> cm" where
  "finalize_handshake E cid s =
     (case rcu_find s cid of
        None \<Rightarrow> s
      | Some r \<Rightarrow>
          (case c_handshake r of
             None \<Rightarrow> s
           | Some hs \<Rightarrow>
               (let pk_hex = bytes_to_hex (c_peer_user_pubkey r)
                in if map_of (pk_index s) pk_hex \<noteq> None \<and> map_of (pk_index s) pk_hex \<noteq> Some cid
                   then drop_duplicate cid r s
                   else
                     (let s1 = establish E cid r hs s;
                          s2 = flush_pending_messages E (addr_key (c_remote r)) cid s1;
                          s3 = notify_handlers E pk_hex STATE_ESTABLISHED s2;
                          s4 = cm_stat AuthOk 1 cid s3;
                          s5 = upd_bus (\<lambda>b. b\<lparr> on_conn_state := ev_emit (cid, STATE_ESTABLISHED) (on_conn_state b) \<rparr>) s4
                      in if c_is_initiator r then schedule_transport_upgrade cid s5 else s5))))"

subsection \<open>NOISE\_INIT, NOISE\_RESP, NOISE\_FIN\<close>

definition handle_noise_init :: "env \<Rightarrow> conn_id \<Rightarrow> bytes \<Rightarrow> cm \<Rightarrow> cm" where
  "handle_noise_init E cid payload s =
     (case rcu_find s cid of
        None \<Rightarrow> s
      | Some r \<Rightarrow>
          (case c_handshake r of
             None \<Rightarrow> s
           | Some hs \<Rightarrow>
               if hs_initiator hs then s
               else (case read_message (e_sodium E) payload hs of
                       (None, hs1) \<Rightarrow> close_now cid (cm_drop cid AuthFail (set_handshake cid hs1 s))
                     | (Some _, hs1) \<Rightarrow>
                         (let s1 = set_handshake cid hs1 s
                          in case cm_write_message E cid (build_handshake_payload E s1) hs1 s1 of
                               (None, s2) \<Rightarrow> close_now cid s2
                             | (Some msg2, s2) \<Rightarrow> send_frame E cid MSG_TYPE_NOISE_RESP msg2 s2))))"

definition handle_noise_resp :: "env \<Rightarrow> conn_id \<Rightarrow> bytes \<Rightarrow> cm \<Rightarrow> cm" where
  "handle_noise_resp E cid payload s =
     (case rcu_find s cid of
        None \<Rightarrow> s
      | Some r \<Rightarrow>
          (case c_handshake r of
             None \<Rightarrow> s
           | Some hs \<Rightarrow>
               if \<not> hs_initiator hs then s
               else (case read_message (e_sodium E) payload hs of
                       (None, hs1) \<Rightarrow> close_now cid (cm_drop cid AuthFail (set_handshake cid hs1 s))
                     | (Some data, hs1) \<Rightarrow>
                         (case process_handshake_payload E cid data (set_handshake cid hs1 s) of
                            (False, s1) \<Rightarrow> close_now cid s1
                          | (True, s1) \<Rightarrow>
                              (case cm_write_message E cid (build_handshake_payload E s1) hs1 s1 of
                                 (None, s2) \<Rightarrow> close_now cid s2
                               | (Some msg3, s2) \<Rightarrow>
                                   finalize_handshake E cid (send_frame E cid MSG_TYPE_NOISE_FIN msg3 s2))))))"

definition handle_noise_fin :: "env \<Rightarrow> conn_id \<Rightarrow> bytes \<Rightarrow> cm \<Rightarrow> cm" where
  "handle_noise_fin E cid payload s =
     (case rcu_find s cid of
        None \<Rightarrow> s
      | Some r \<Rightarrow>
          (case c_handshake r of
             None \<Rightarrow> s
           | Some hs \<Rightarrow>
               if hs_initiator hs then s
               else (case read_message (e_sodium E) payload hs of
                       (None, hs1) \<Rightarrow> close_now cid (cm_drop cid AuthFail (set_handshake cid hs1 s))
                     | (Some data, hs1) \<Rightarrow>
                         (case process_handshake_payload E cid data (set_handshake cid hs1 s) of
                            (False, s1) \<Rightarrow> close_now cid s1
                          | (True, s1) \<Rightarrow> finalize_handshake E cid s1))))"

end
