(* ===== verification/CM_Lifecycle.thy ===== *)
theory CM_Lifecycle
  imports CM_Handshake
begin

section \<open>Connections, transports, registration, shutdown\<close>

text \<open>
  \<open>core/cm/lifecycle.cpp\<close>, \<open>core/cm/registration.cpp\<close> and \<open>handle_disconnect\<close> of
  \<open>core/cm/disconnect.cpp\<close>.
\<close>

subsection \<open>handle\_connect\<close>

definition new_record :: "env \<Rightarrow> cm \<Rightarrow> conn_id \<Rightarrow> endpoint_t \<Rightarrow> connection_record" where
  "new_record E s cid ep =
     (let L = e_sodium E;
          is_outbound = (ep_flags ep AND EP_FLAG_OUTBOUND \<noteq> 0);
          x25519_pk = (case pk_to_curve L (device_pubkey (identity s)) of Some k \<Rightarrow> k | None \<Rightarrow> uninit L DHLEN);
          x25519_sk = sk_to_curve L (device_seckey (identity s));
          tp = \<lparr> tp_id = cid, tp_scheme = ''tcp'', tp_priority = scheme_priority_index s ''tcp'',
                 tp_remote = ep, tp_active = True, tp_last_rtt_us = 0, tp_errors = 0, tp_added_at = e_now E \<rparr>
      in fresh_record\<lparr> c_id := cid, c_remote := ep, c_state := STATE_NOISE_HANDSHAKE,
           c_is_localhost := (ep_flags ep AND EP_FLAG_TRUSTED \<noteq> 0), c_is_initiator := is_outbound,
           c_handshake := Some (hs_init L is_outbound x25519_pk x25519_sk fresh_handshake),
           c_transport_paths := [tp] \<rparr>)"

definition handle_connect :: "env \<Rightarrow> endpoint_t \<Rightarrow> cm \<Rightarrow> conn_id \<times> cm" where
  "handle_connect E ep s =
     (if shutting_down s then (CONN_ID_INVALID, s)
      else
        (let cid = next_id s;
             s1 = s\<lparr> next_id := next_id s + 1 \<rparr>;
             r = new_record E s1 cid ep;
             s2 = s1\<lparr> records := AList.update cid r (records s1),
                      uri_index := AList.update (addr_key ep) cid (uri_index s1),
                      send_queues := AList.update cid empty_queue (send_queues s1) \<rparr>;
             s3 = cm_stat Connect 1 cid s2
         in (cid, if ep_flags ep AND EP_FLAG_OUTBOUND \<noteq> 0 then send_noise_init E cid s3 else s3)))"

subsection \<open>handle\_add\_transport\<close>

definition handle_add_transport :: "env \<Rightarrow> string \<Rightarrow> endpoint_t \<Rightarrow> string \<Rightarrow> cm \<Rightarrow> conn_id \<times> cm" where
  "handle_add_transport E hex ep sch s =
     (if shutting_down s then (CONN_ID_INVALID, s)
      else
        (let peer_id = find_conn_by_pubkey s hex
         in if peer_id = CONN_ID_INVALID then (CONN_ID_INVALID, s)
            else case rcu_find s peer_id of
              None \<Rightarrow> (CONN_ID_INVALID, s)
            | Some r \<Rightarrow>
                if c_state r \<noteq> STATE_ESTABLISHED then (CONN_ID_INVALID, s)
                else if find_path sch r \<noteq> None then (CONN_ID_INVALID, s)
                else
                  (let tid = next_id s;
                       tp = \<lparr> tp_id = tid, tp_scheme = sch, tp_priority = scheme_priority_index s sch,
                              tp_remote = ep, tp_active = True, tp_last_rtt_us = 0, tp_errors = 0,
                              tp_added_at = e_now E \<rparr>;
                       s1 = s\<lparr> next_id := tid + 1 \<rparr>;
                       s2 = upd_rec peer_id (\<lambda>r. r\<lparr> c_transport_paths := c_transport_paths r @ [tp] \<rparr>) s1;
                       s3 = s2\<lparr> transport_index := AList.update tid peer_id (transport_index s2),
                                uri_index := AList.update (addr_key ep) peer_id (uri_index s2) \<rparr>
                   in (tid, upd_bus (\<lambda>b. b\<lparr> on_transport_change :=
                              ev_emit (peer_id, sch, True) (on_transport_change b) \<rparr>) s3))))"

subsection \<open>handle\_disconnect\<close>

definition disconnect_secondary :: "conn_id \<Rightarrow> conn_id \<Rightarrow> cm \<Rightarrow> cm" where
  "disconnect_secondary tid peer_id s =
     (let s1 = s\<lparr> transport_index := erase tid (transport_index s) \<rparr>
      in case rcu_find s1 peer_id of
           None \<Rightarrow> s1
         | Some r \<Rightarrow>
             (let tp = find_path_by_transport_id tid r;
                  removed_scheme = (case tp of Some p \<Rightarrow> tp_scheme p | None \<Rightarrow> []);
                  s2 = (case tp of
                          Some p \<Rightarrow> s1\<lparr> uri_index := erase (addr_key (tp_remote p)) (uri_index s1) \<rparr>
                        | None \<Rightarrow> s1);
                  s3 = upd_rec peer_id (\<lambda>r. r\<lparr> c_transport_paths :=
                         filter (\<lambda>p. tp_id p \<noteq> tid) (c_transport_paths r) \<rparr>) s2
              in if removed_scheme \<noteq> []
                 then upd_bus (\<lambda>b. b\<lparr> on_transport_change :=
                        ev_emit (peer_id, removed_scheme, False) (on_transport_change b) \<rparr>) s3
                 else s3))"

definition handle_disconnect :: "env \<Rightarrow> conn_id \<Rightarrow> int \<Rightarrow> cm \<Rightarrow> cm" where
  "handle_disconnect E cid err s =
     (let peer_id = (case map_of (transport_index s) cid of Some p \<Rightarrow> p | None \<Rightarrow> CONN_ID_INVALID)
      in if peer_id \<noteq> CONN_ID_INVALID then disconnect_secondary cid peer_id s
         else case rcu_find s cid of
           None \<Rightarrow> s
         | Some r \<Rightarrow>
             (let uri_key = addr_key (c_remote r);
                  pk_key = (if c_peer_authenticated r then bytes_to_hex (c_peer_user_pubkey r) else []);
                  s1 = s\<lparr> transport_index := foldl (\<lambda>ti p. if tp_id p \<noteq> cid then erase (tp_id p) ti else ti)
                            (transport_index s) (c_transport_paths r) \<rparr>;
                  s2 = s1\<lparr> records := erase cid (records s1), send_queues := erase cid (send_queues s1) \<rparr>;
                  s3 = cm_stat Disconnect 1 cid s2;
                  s4 = (if uri_key \<noteq> []
                        then s3\<lparr> uri_index := erase uri_key (uri_index s3),
                                 pending_messages := erase uri_key (pending_messages s3) \<rparr>
                        else s3);
                  s5 = (if pk_key \<noteq> [] then s4\<lparr> pk_index := erase pk_key (pk_index s4) \<rparr> else s4)
              in notify_handlers E uri_key STATE_CLOSED s5))"

subsection \<open>Registration\<close>

definition register_connector :: "string \<Rightarrow> connector_ops \<Rightarrow> cm \<Rightarrow> cm" where
  "register_connector sch ops s = s\<lparr> connectors := AList.update sch ops (connectors s) \<rparr>"

definition set_scheme_priority :: "string list \<Rightarrow> cm \<Rightarrow> cm" where
  "set_scheme_priority p s = s\<lparr> scheme_priority := p \<rparr>"

definition is_connector_blocked_type :: "u32 \<Rightarrow> bool" where
  "is_connector_blocked_type t \<longleftrightarrow> t \<le> 9 \<or> (t \<ge> MSG_TYPE_SYS_BASE \<and> t \<le> MSG_TYPE_SYS_MAX)"

definition register_handler_internal :: "handler_t \<Rightarrow> handler_source \<Rightarrow> cm \<Rightarrow> cm" where
  "register_handler_internal h src s =
     (case h_name h of
        None \<Rightarrow> s
      | Some name \<Rightarrow>
          (let priority = (case h_info_priority h of Some p \<Rightarrow> if p \<noteq> 0 then p else 128 | None \<Rightarrow> 128);
               entry = \<lparr> he_name = name, he_handler = h, he_priority = 128, he_types = [], he_source = src \<rparr>
           in if src = Connector \<and> h_types h = [] then s
              else if h_types h = [] then
                (upd_bus (subscribe_wildcard name h priority) s)
                  \<lparr> handler_entries := AList.update name entry (handler_entries s) \<rparr>
              else
                (let types = filter (\<lambda>t. \<not> (src = Connector \<and> is_connector_blocked_type t)) (h_types h);
                     s1 = foldl (\<lambda>s t. upd_bus (\<lambda>b. snd (subscribe t name h priority b)) s) s types
                 in if types = [] then s1
                    else s1\<lparr> handler_entries :=
                           AList.update name (entry\<lparr> he_types := types \<rparr>) (handler_entries s1) \<rparr>)))"

definition register_handler :: "handler_t \<Rightarrow> cm \<Rightarrow> cm" where
  "register_handler h s = register_handler_internal h Plugin s"

definition register_handler_from_connector :: "handler_t \<Rightarrow> cm \<Rightarrow> cm" where
  "register_handler_from_connector h s = register_handler_internal h Connector s"

subsection \<open>Shutdown\<close>

text \<open>
  \<open>shutdown\<close> stores the flag and then spins until \<open>in_flight_dispatches_\<close> is zero; only then
  it closes the connections. Seen as one operation it returns at once when no dispatch is in
  flight; \<open>None\<close> is the state in which it still spins.
\<close>

definition shutdown_begin :: "cm \<Rightarrow> cm" where
  "shutdown_begin s = s\<lparr> shutting_down := True \<rparr>"

definition shutdown_close :: "cm \<Rightarrow> cm" where
  "shutdown_close s = foldl (\<lambda>s cid. close_now cid s) s (map fst (records s))"

definition shutdown :: "cm \<Rightarrow> cm option" where
  "shutdown s =
     (let s1 = shutdown_begin s in if in_flight s1 = 0 then Some (shutdown_close s1) else None)"

end
