(* ===== verification/CM_Dispatch.thy ===== *)
theory CM_Dispatch
  imports CM_Lifecycle
begin

section \<open>Receiving: reassembly, dispatch, heartbeat, relay\<close>

text \<open>
  \<open>core/cm/dispatch.cpp\<close> and \<open>core/cm/relay.cpp\<close>. \<open>dispatch_packet\<close> and
  \<open>handle_relay\<close> call each other for the local delivery of a relayed frame; the recursion ends
  because every decryption uses up a nonce of the window and every other unpacking shortens the
  payload. A header and its payload are passed separately, as in the code.
\<close>

subsection \<open>Heartbeat\<close>

definition path_entry_of :: "transport_path \<Rightarrow> heartbeat_path_entry" where
  "path_entry_of tp = \<lparr> pe_scheme = strn_field 16 (tp_scheme tp), pe_active = (if tp_active tp then 1 else 0),
     pe_priority = tp_priority tp, pe_rtt_compressed = ucast (min (tp_last_rtt_us tp div 10) 65535) \<rparr>"

definition heartbeat_bytes :: "u64 \<Rightarrow> u32 \<Rightarrow> transport_path list \<Rightarrow> bytes" where
  "heartbeat_bytes ts seq paths =
     (let path_count = min (length paths) HEARTBEAT_MAX_PATHS
      in heartbeat_payload_enc \<lparr> hb_timestamp_us = ts, hb_seq = seq, hb_flags = 0, hb_pad = replicate 3 0 \<rparr>
         @ put_u8 (word_of_nat path_count)
         @ concat (map (heartbeat_path_entry_enc \<circ> path_entry_of) (take path_count paths)))"

definition send_heartbeat :: "env \<Rightarrow> conn_id \<Rightarrow> cm \<Rightarrow> cm" where
  "send_heartbeat E cid s =
     (case rcu_find s cid of
        None \<Rightarrow> s
      | Some r \<Rightarrow>
          if c_state r \<noteq> STATE_ESTABLISHED then s
          else (let s1 = upd_rec cid (\<lambda>r. r\<lparr> c_heartbeat_seq := c_heartbeat_seq r + 1 \<rparr>) s
                in send_frame E cid MSG_TYPE_HEARTBEAT
                     (heartbeat_bytes (e_system_us E) (c_heartbeat_seq r) (c_transport_paths r)) s1))"

definition parse_path_entry :: "bytes \<Rightarrow> peer_path_info" where
  "parse_path_entry bs =
     (let e = heartbeat_path_entry_dec bs
      in \<lparr> pp_scheme = cstr (pe_scheme e), pp_active = (pe_active e \<noteq> 0),
           pp_priority = pe_priority e, pp_rtt = pe_rtt_compressed e \<rparr>)"

definition parse_path_info :: "bytes \<Rightarrow> peer_path_info list" where
  "parse_path_info payload =
     (if length payload > 17 then
        (let count = min (unat (get_u8 16 payload)) HEARTBEAT_MAX_PATHS;
             available = length payload - 17;
             parseable = min count (available div 20)
         in map (\<lambda>i. parse_path_entry (drop (17 + 20 * i) payload)) [0..<parseable])
      else [])"

definition handle_heartbeat :: "env \<Rightarrow> conn_id \<Rightarrow> bytes \<Rightarrow> cm \<Rightarrow> cm" where
  "handle_heartbeat E cid payload s =
     (if length payload < 16 then s
      else case rcu_find s cid of
        None \<Rightarrow> s
      | Some r \<Rightarrow>
          (let hb = heartbeat_payload_dec payload;
               info = parse_path_info payload;
               s1 = (if info \<noteq> [] then upd_rec cid (\<lambda>r. r\<lparr> c_peer_transport_info := info \<rparr>) s else s)
           in if hb_flags hb = 0 then
                send_frame E cid MSG_TYPE_HEARTBEAT
                  (heartbeat_payload_enc \<lparr> hb_timestamp_us = hb_timestamp_us hb, hb_seq = hb_seq hb,
                     hb_flags = 1, hb_pad = replicate 3 0 \<rparr>) s1
              else if hb_flags hb = 1 then
                (let s2 = upd_rec cid (\<lambda>r. r\<lparr> c_last_heartbeat_recv := e_now E, c_missed_heartbeats := 0 \<rparr>) s1
                 in if e_system_us E > hb_timestamp_us hb then
                      upd_rec cid (\<lambda>r. case best_path r of
                          Some (i, _) \<Rightarrow> upd_path i (\<lambda>p. p\<lparr> tp_last_rtt_us := e_system_us E - hb_timestamp_us hb \<rparr>) r
                        | None \<Rightarrow> r) s2
                    else s2)
              else s1))"

definition check_heartbeat :: "env \<Rightarrow> cm \<Rightarrow> conn_id \<Rightarrow> cm" where
  "check_heartbeat E s cid =
     (case rcu_find s cid of
        None \<Rightarrow> s
      | Some r \<Rightarrow>
          if c_state r \<noteq> STATE_ESTABLISHED then s
          else if c_last_heartbeat_recv r = 0 then upd_rec cid (\<lambda>r. r\<lparr> c_last_heartbeat_recv := e_now E \<rparr>) s
          else if e_now E - c_last_heartbeat_recv r > HEARTBEAT_INTERVAL then
            (let missed = c_missed_heartbeats r + 1;
                 s1 = upd_rec cid (\<lambda>r. r\<lparr> c_missed_heartbeats := missed \<rparr>) s
             in if missed \<ge> MAX_MISSED_HEARTBEATS then disconnect cid s1 else send_heartbeat E cid s1)
          else s)"

definition check_heartbeat_timeouts :: "env \<Rightarrow> cm \<Rightarrow> cm" where
  "check_heartbeat_timeouts E s = foldl (check_heartbeat E) s (map fst (records s))"

subsection \<open>Relay\<close>

definition relay_seen :: "env \<Rightarrow> header_t \<Rightarrow> cm \<Rightarrow> bool \<times> cm" where
  "relay_seen E inner_hdr s =
     (let pid = packet_id inner_hdr;
          sh = e_hash64 E pid XOR push_bit 32 (ucast (payload_type inner_hdr));
          d0 = relay_dedup s;
          d = (if length d0 > 8192 then filter (\<lambda>(_, ts). \<not> ts < e_now E - 30 * second_ns) d0 else d0)
      in if map_of d (sh, pid) \<noteq> None then (True, s\<lparr> relay_dedup := d \<rparr>)
         else (False, s\<lparr> relay_dedup := ((sh, pid), e_now E) # d \<rparr>))"

definition relay :: "env \<Rightarrow> conn_id \<Rightarrow> u8 \<Rightarrow> bytes \<Rightarrow> bytes \<Rightarrow> cm \<Rightarrow> cm" where
  "relay E exclude ttl dest inner_frame s =
     (let relay_payload = relay_payload_enc \<lparr> rp_ttl = ttl, rp_dest_pubkey = dest \<rparr> @ inner_frame;
          direct = find_conn_by_pubkey s (bytes_to_hex dest)
      in if direct \<noteq> CONN_ID_INVALID \<and> direct \<noteq> exclude
         then send_frame E direct MSG_TYPE_RELAY relay_payload s
         else foldl (\<lambda>s cid. send_frame E cid MSG_TYPE_RELAY relay_payload s) s
                (filter (\<lambda>cid. cid \<noteq> exclude) (get_active_conn_ids s)))"

text \<open>
  The decision part of \<open>handle_relay\<close>: \<open>Inl\<close> is the final state, \<open>Inr\<close> a frame to be
  dispatched locally.
\<close>

definition relay_decide :: "env \<Rightarrow> conn_id \<Rightarrow> bytes \<Rightarrow> cm \<Rightarrow> cm + header_t \<times> bytes \<times> cm" where
  "relay_decide E cid plaintext s =
     (if length plaintext < 33 + HDR then Inl (cm_drop cid RelayDropped s)
      else
        (let rp = relay_payload_dec plaintext
         in if rp_ttl rp = 0 then Inl (cm_drop cid RelayDropped s)
            else
              (let inner = drop 33 plaintext;
                   inner_hdr = header_dec inner
               in if length inner < HDR + unat (payload_len inner_hdr) then Inl (cm_drop cid RelayDropped s)
                  else
                    (case relay_seen E inner_hdr s of
                       (True, s1) \<Rightarrow> Inl s1
                     | (False, s1) \<Rightarrow>
                         if rp_dest_pubkey rp = user_pubkey (identity s1)
                         then Inr (inner_hdr, take (unat (payload_len inner_hdr)) (drop HDR inner), s1)
                         else Inl (relay E cid (rp_ttl rp - 1) (rp_dest_pubkey rp) inner s1)))))"

subsection \<open>dispatch\_packet\<close>

definition call_handler :: "env \<Rightarrow> header_t \<Rightarrow> endpoint_t \<Rightarrow> bytes \<Rightarrow> handler_t \<Rightarrow> string \<Rightarrow> cm
    \<Rightarrow> propagation_t \<times> cm" where
  "call_handler E hdr ep data h name s =
     (let s1 = (if h_has_message h then e_message E h hdr ep data (ext (HandleMessage h hdr ep data) s) else s)
      in if h_has_result h
         then e_result E h hdr (payload_type hdr) (ext (OnMessageResult h hdr (payload_type hdr)) s1)
         else (PROPAGATION_CONTINUE, s1))"

definition ns_u64 :: "int \<Rightarrow> u64" where "ns_u64 i = word_of_int i"

definition deliver :: "env \<Rightarrow> conn_id \<Rightarrow> header_t \<Rightarrow> bytes \<Rightarrow> u64 \<Rightarrow> connection_record \<Rightarrow> cm \<Rightarrow> cm" where
  "deliver E cid hdr data recv_ts r s =
     (let remote = (c_remote r)\<lparr> ep_peer_id := cid \<rparr>;
          affinity = c_affinity_plugin r;
          (res, s1) = bus_dispatch bus (call_handler E hdr remote data) (ucast (payload_type hdr)) s;
          s2 = upd_bus (emit_latency cid (ns_u64 (e_done E) - recv_ts)) s1
      in if fst res = PROPAGATION_CONSUMED \<and> affinity = [] then
           cm_stat Consumed 1 cid (upd_rec cid (\<lambda>r. r\<lparr> c_affinity_plugin := snd res \<rparr>) s2)
         else if fst res = PROPAGATION_REJECT then
           cm_stat Rejected 1 cid (cm_drop cid RejectedByHandler s2)
         else s2)"

text \<open>
  What \<open>dispatch_packet\<close> gets out of a packet before it looks at heartbeat, relay and handlers:
  nothing (\<open>Inl\<close>, the packet has been handled or dropped) or the plaintext.
\<close>

definition open_packet :: "env \<Rightarrow> conn_id \<Rightarrow> header_t \<Rightarrow> bytes \<Rightarrow> connection_record \<Rightarrow> cm \<Rightarrow> cm + bytes \<times> cm" where
  "open_packet E cid hdr payload r s =
     (if c_localhost_passthrough r then Inr (payload, s)
      else if hflags hdr AND GNET_FLAG_TRUSTED \<noteq> 0 then
        if \<not> c_is_localhost r then Inl (cm_drop cid TrustedFromRemote s) else Inr (payload, s)
      else if c_is_localhost r then Inr (payload, s)
      else case c_session r of
             None \<Rightarrow> Inr (payload, s)
           | Some ses \<Rightarrow>
               (let (plain, ses1) = session_decrypt (e_sodium E) (e_zstd E) ses payload (packet_id hdr);
                    s1 = upd_rec cid (\<lambda>r. r\<lparr> c_session := Some ses1 \<rparr>) s
                in if plain = [] then Inl (cm_drop cid DecryptFail s1) else Inr (plain, s1)))"

definition dispatch_enter :: "cm \<Rightarrow> cm" where "dispatch_enter s = s\<lparr> in_flight := in_flight s + 1 \<rparr>"
definition dispatch_leave :: "cm \<Rightarrow> cm" where "dispatch_leave s = s\<lparr> in_flight := in_flight s - 1 \<rparr>"

definition window_budget :: "cm \<Rightarrow> conn_id \<Rightarrow> nat" where
  "window_budget s cid =
     (case rcu_find s cid of
        Some r \<Rightarrow> (case c_session r of Some ses \<Rightarrow> card (acceptable (recv_window ses)) | None \<Rightarrow> 0)
      | None \<Rightarrow> 0)"

definition dispatch_step :: "env \<Rightarrow> conn_id \<Rightarrow> header_t \<Rightarrow> bytes \<Rightarrow> u64 \<Rightarrow> cm \<Rightarrow> cm + header_t \<times> bytes \<times> cm" where
  "dispatch_step E cid hdr payload recv_ts s =
     (if payload_type hdr = ucast MSG_TYPE_NOISE_INIT then Inl (handle_noise_init E cid payload s)
      else if payload_type hdr = ucast MSG_TYPE_NOISE_RESP then Inl (handle_noise_resp E cid payload s)
      else if payload_type hdr = ucast MSG_TYPE_NOISE_FIN then Inl (handle_noise_fin E cid payload s)
      else case rcu_find s cid of
        None \<Rightarrow> Inl (cm_drop cid ConnNotFound s)
      | Some r \<Rightarrow>
          if c_state r \<noteq> STATE_ESTABLISHED then Inl (cm_drop cid StateNotEstablished s)
          else case open_packet E cid hdr payload r s of
            Inl s1 \<Rightarrow> Inl s1
          | Inr (plaintext, s1) \<Rightarrow>
              (let s2 = cm_stat RxPacket 1 cid (cm_stat RxBytes (word_of_nat (length payload)) cid s1)
               in if payload_type hdr = ucast MSG_TYPE_HEARTBEAT then Inl (handle_heartbeat E cid plaintext s2)
                  else if payload_type hdr = ucast MSG_TYPE_RELAY then relay_decide E cid plaintext s2
                  else Inl (deliver E cid hdr plaintext recv_ts r s2)))"

subsection \<open>The recursion of dispatch and relay ends\<close>

lemma rcu_find_upd_rec [simp, store_simps]:
  "rcu_find (upd_rec cid f s) c = (if c = cid then map_option f (rcu_find s c) else rcu_find s c)"
  by (simp add: rcu_find_def upd_rec_def)

lemma records_upd [simp]:
  "records (upd_bus g s) = records s" "records (cm_stat k v c s) = records s"
  "records (cm_drop c why s) = records s" "records (ext x s) = records s"
  "records (dispatch_enter s) = records s" "records (dispatch_leave s) = records s"
  by (simp_all add: upd_bus_def cm_stat_def cm_drop_def ext_def dispatch_enter_def dispatch_leave_def)

lemma rcu_find_upd [simp]:
  "rcu_find (upd_bus g s) c = rcu_find s c" "rcu_find (cm_stat k v d s) c = rcu_find s c"
  "rcu_find (cm_drop d why s) c = rcu_find s c" "rcu_find (ext x s) c = rcu_find s c"
  "rcu_find (dispatch_enter s) c = rcu_find s c" "rcu_find (dispatch_leave s) c = rcu_find s c"
  by (simp_all add: rcu_find_def)

lemma window_budget_cong: "rcu_find s' cid = rcu_find s cid \<Longrightarrow> window_budget s' cid = window_budget s cid"
  by (simp add: window_budget_def)

lemma relay_seen_records: "relay_seen E ih s = (b, s1) \<Longrightarrow> records s1 = records s"
  by (auto simp: relay_seen_def Let_def split: if_splits)

lemma relay_decide_Inr:
  assumes "relay_decide E cid plain s = Inr (ih, ip, s1)"
  shows "records s1 = records s" "length ip < length plain"
  using assms by (auto simp: relay_decide_def Let_def HDR_def dest: relay_seen_records
      split: if_splits prod.splits bool.splits)

lemma open_packet_Inr:
  assumes "open_packet E cid hdr payload r s = Inr (plain, s1)" "rcu_find s cid = Some r"
  shows "plain = payload \<and> s1 = s \<or> window_budget s1 cid < window_budget s cid"
proof (cases "\<exists>ses. c_session r = Some ses \<and> \<not> c_localhost_passthrough r \<and> \<not> c_is_localhost r
    \<and> hflags hdr AND GNET_FLAG_TRUSTED = 0")
  case True
  then obtain ses where ses: "c_session r = Some ses" "\<not> c_localhost_passthrough r" "\<not> c_is_localhost r"
    "hflags hdr AND GNET_FLAG_TRUSTED = 0" by blast
  obtain p ses1 where d: "session_decrypt (e_sodium E) (e_zstd E) ses payload (packet_id hdr) = (p, ses1)"
    by fastforce
  have p: "p \<noteq> []" "s1 = upd_rec cid (\<lambda>r. r\<lparr> c_session := Some ses1 \<rparr>) s"
    using assms(1) ses d by (auto simp: open_packet_def Let_def split: if_splits)
  have acc: "MACLEN \<le> length payload" "fst (accept (packet_id hdr) (recv_window ses))"
    using session_decrypt_accepts [of "e_sodium E" "e_zstd E" ses payload "packet_id hdr"] d p(1) by auto
  then have "recv_window ses1 = snd (accept (packet_id hdr) (recv_window ses))"
    using session_decrypt_window [OF d] by simp
  then show ?thesis
    using accept_decreases [OF acc(2)] assms(2) p(2) ses(1) by (simp add: window_budget_def)
next
  case False
  then show ?thesis
    using assms(1) by (auto simp: open_packet_def Let_def split: if_splits option.splits)
qed

lemma dispatch_step_Inr:
  assumes "dispatch_step E cid hdr payload ts s = Inr (ih, ip, s1)"
  shows "window_budget s1 cid < window_budget s cid
    \<or> window_budget s1 cid = window_budget s cid \<and> length ip < length payload"
proof -
  obtain r plain s0 where r: "rcu_find s cid = Some r" and o: "open_packet E cid hdr payload r s = Inr (plain, s0)"
    and d: "relay_decide E cid plain
      (cm_stat RxPacket 1 cid (cm_stat RxBytes (word_of_nat (length payload)) cid s0)) = Inr (ih, ip, s1)"
    using assms by (auto simp: dispatch_step_def Let_def split: if_splits option.splits sum.splits)
  have "rcu_find s1 cid = rcu_find s0 cid" "length ip < length plain"
    using relay_decide_Inr [OF d] by (simp_all add: rcu_find_def)
  then show ?thesis
    using open_packet_Inr [OF o r] window_budget_cong [of s1 cid s0] by auto
qed

function dispatch_packet :: "env \<Rightarrow> conn_id \<Rightarrow> header_t \<Rightarrow> bytes \<Rightarrow> u64 \<Rightarrow> cm \<Rightarrow> cm" where
  "dispatch_packet E cid hdr payload recv_ts s =
     (case dispatch_step E cid hdr payload recv_ts (dispatch_enter s) of
        Inl s1 \<Rightarrow> dispatch_leave s1
      | Inr (inner_hdr, inner_payload, s1) \<Rightarrow>
          dispatch_leave (dispatch_packet E cid inner_hdr inner_payload (ns_u64 (e_now E)) s1))"
  by pat_completeness auto
termination
proof (relation "measures [\<lambda>(E, cid, _, _, _, s). window_budget s cid, \<lambda>(_, _, _, p, _, _). length p]")
  fix E :: env and cid hdr payload recv_ts s z ih y ip s1
  assume "dispatch_step E cid hdr payload recv_ts (dispatch_enter s) = Inr z" "(ih, y) = z" "(ip, s1) = y"
  then have "dispatch_step E cid hdr payload recv_ts (dispatch_enter s) = Inr (ih, ip, s1)" by simp
  from dispatch_step_Inr [OF this]
  show "((E, cid, ih, ip, ns_u64 (e_now E), s1), E, cid, hdr, payload, recv_ts, s)
      \<in> measures [\<lambda>(E, cid, _, _, _, s). window_budget s cid, \<lambda>(_, _, _, p, _, _). length p]"
    using window_budget_cong [of "dispatch_enter s" cid s] by auto
qed simp

declare dispatch_packet.simps [simp del]

definition handle_relay :: "env \<Rightarrow> conn_id \<Rightarrow> bytes \<Rightarrow> cm \<Rightarrow> cm" where
  "handle_relay E cid plaintext s =
     (case relay_decide E cid plaintext s of
        Inl s1 \<Rightarrow> s1
      | Inr (inner_hdr, inner_payload, s1) \<Rightarrow>
          dispatch_packet E cid inner_hdr inner_payload (ns_u64 (e_now E)) s1)"

subsection \<open>handle\_data\<close>

text \<open>
  \<open>recv_buf\<close> is written by \<open>handle_data\<close> only, so the loop walks over the buffer as it was
  when the loop started: \<open>rest\<close> is what is left after \<open>used\<close> bytes. The first component of the
  result is \<open>False\<close> when the function returned from inside the loop, which skips the removal of
  the consumed bytes.
\<close>

function data_loop :: "env \<Rightarrow> conn_id \<Rightarrow> u64 \<Rightarrow> bytes \<Rightarrow> nat \<Rightarrow> cm \<Rightarrow> bool \<times> nat \<times> cm" where
  "data_loop E cid recv_ts rest used s =
     (if length rest < HDR then (True, used, s)
      else
        (let hdr = header_dec rest
         in if magic hdr \<noteq> GNET_MAGIC then (False, used, close_now cid (cm_drop cid BadMagic s))
            else if proto_ver hdr \<noteq> GNET_PROTO_VER then (False, used, close_now cid (cm_drop cid BadProtoVer s))
            else
              (let total = HDR + unat (payload_len hdr)
               in if length rest < total then (True, used, s)
                  else
                    (let s1 = dispatch_packet E cid hdr (take (unat (payload_len hdr)) (drop HDR rest)) recv_ts s
                     in if rcu_find s1 cid = None then (False, used + total, s1)
                        else data_loop E cid recv_ts (drop total rest) (used + total) s1))))"
  by pat_completeness auto
termination
  by (relation "measure (\<lambda>(_, _, _, rest, _, _). length rest)") (auto simp: HDR_def)

declare data_loop.simps [simp del]

definition complete_frame :: "bytes \<Rightarrow> bool" where
  "complete_frame raw \<longleftrightarrow> length raw \<ge> HDR \<and>
     (let hdr = header_dec raw
      in length raw = HDR + unat (payload_len hdr) \<and> magic hdr = GNET_MAGIC \<and> proto_ver hdr = GNET_PROTO_VER)"

definition handle_data :: "env \<Rightarrow> conn_id \<Rightarrow> bytes \<Rightarrow> cm \<Rightarrow> cm" where
  "handle_data E cid raw s =
     (if shutting_down s then s
      else
        (let recv_ts = ns_u64 (e_now E);
             peer_id = (case map_of (transport_index s) cid of Some p \<Rightarrow> p | None \<Rightarrow> cid)
         in case rcu_find s peer_id of
              None \<Rightarrow> s
            | Some r \<Rightarrow>
                if c_recv_buf r = [] \<and> complete_frame raw
                then dispatch_packet E peer_id (header_dec raw) (drop HDR raw) recv_ts s
                else
                  (let buf = c_recv_buf r @ raw;
                       s1 = upd_rec peer_id (\<lambda>r. r\<lparr> c_recv_buf := buf \<rparr>) s
                   in if length buf > MAX_RECV_BUF
                      then close_now peer_id (cm_drop peer_id RecvBufOverflow s1)
                      else case data_loop E peer_id recv_ts buf 0 s1 of
                             (False, _, s2) \<Rightarrow> s2
                           | (True, used, s2) \<Rightarrow>
                               if used > 0
                               then upd_rec peer_id (\<lambda>r. r\<lparr> c_recv_buf := drop used (c_recv_buf r) \<rparr>) s2
                               else s2)))"

end
