(* ===== verification/CM_Frame.thy ===== *)
theory CM_Frame
  imports CM_Dispatch
begin

section \<open>What the sending operations leave alone\<close>

text \<open>
  The operations that send, close or count change counters, queues, path status and the call log
  only. \<open>shape_cm\<close> is everything else of the state; the equations below say that these
  operations keep it, so that an invariant stated over the shape needs no further argument
  for them.
\<close>

named_theorems frame \<open>operations that keep the shape of the state\<close>

definition shape where
  "shape (r :: connection_record) = (c_id r, c_state r, c_remote r, c_local_scheme r, c_peer_schemes r, c_negotiated_scheme r,
     c_peer_user_pubkey r, c_peer_device_pubkey r, c_peer_authenticated r, c_is_localhost r,
     c_localhost_passthrough r, c_is_initiator r, c_peer_core_meta r, c_handshake r, c_session r,
     c_recv_buf r, map tp_id (c_transport_paths r))"

definition shape_cm where
  "shape_cm (s :: cm) = (map (map_prod id shape) (records s), next_id s, pk_index s, transport_index s, uri_index s,
     identity s, shutting_down s, connectors s, scheme_priority s, handler_entries s, relay_dedup s,
     pending_messages s, config s, in_flight s)"

lemma map_modify: "(\<And>v. g (f v) = g v) \<Longrightarrow> map (map_prod id g) (modify k f m) = map (map_prod id g) m"
  by (auto simp: modify_def)

lemma shape_upd_rec [frame]:
  "(\<And>r. shape (f r) = shape r) \<Longrightarrow> shape_cm (upd_rec cid f s) = shape_cm s"
  by (simp add: shape_cm_def upd_rec_def map_modify)

lemma shape_simple [simp, frame]:
  "shape_cm (upd_bus g s) = shape_cm s" "shape_cm (cm_stat k v c s) = shape_cm s"
  "shape_cm (cm_drop c why s) = shape_cm s" "shape_cm (ext x s) = shape_cm s"
  "shape_cm (set_queue c q s) = shape_cm s" "shape_cm (s\<lparr> send_queues := qs \<rparr>) = shape_cm s"
  "shape_cm (s\<lparr> rand_ctr := n \<rparr>) = shape_cm s"
  by (simp_all add: shape_cm_def upd_bus_def cm_stat_def cm_drop_def ext_def set_queue_def)

lemma shape_get_or_create_queue:
  "get_or_create_queue c s = (q, s1) \<Longrightarrow> shape_cm s1 = shape_cm s"
  by (auto simp: get_or_create_queue_def split: option.splits)

lemma shape_upd_path [simp]: "(\<And>p. tp_id (f p) = tp_id p) \<Longrightarrow> shape (upd_path i f r) = shape r"
proof -
  assume "\<And>p. tp_id (f p) = tp_id p"
  then have "map tp_id ((c_transport_paths r)[i := f (c_transport_paths r ! i)]) = map tp_id (c_transport_paths r)"
    by (metis map_update nth_map list_update_id list_update_beyond not_le)
  then show ?thesis by (simp add: shape_def upd_path_def)
qed

lemma tp_id_path [simp]: "tp_id (path_ok p) = tp_id p" "tp_id (path_failed p) = tp_id p"
  by (simp_all add: path_ok_def path_failed_def Let_def)

lemma shape_counters [simp]:
  "shape (r\<lparr> c_send_packet_id := a \<rparr>) = shape r" "shape (r\<lparr> c_heartbeat_seq := b \<rparr>) = shape r"
  "shape (r\<lparr> c_missed_heartbeats := d \<rparr>) = shape r" "shape (r\<lparr> c_last_heartbeat_recv := e \<rparr>) = shape r"
  "shape (r\<lparr> c_peer_transport_info := g \<rparr>) = shape r" "shape (r\<lparr> c_affinity_plugin := h \<rparr>) = shape r"
  "shape (r\<lparr> c_last_heartbeat_recv := e, c_missed_heartbeats := d \<rparr>) = shape r"
  by (simp_all add: shape_def)

lemma shape_build_frame: "build_frame E c t p s = (f, s1) \<Longrightarrow> shape_cm s1 = shape_cm s"
  by (auto simp: build_frame_def Let_def shape_upd_rec split: option.splits if_splits)

lemma shape_send_each: "send_each E c ops fs ok s = (b, s1) \<Longrightarrow> shape_cm s1 = shape_cm s"
  by (induction E c ops fs ok s rule: send_each.induct) (auto simp: Let_def split: if_splits)

lemma shape_flush_frames: "flush_frames_to_connector E c ops fs s = (b, s1) \<Longrightarrow> shape_cm s1 = shape_cm s"
  by (auto simp: flush_frames_to_connector_def Let_def dest: shape_send_each split: if_splits)

lemma shape_try_paths: "try_paths E c ps batch s = (b, s1) \<Longrightarrow> shape_cm s1 = shape_cm s"
proof (induction ps arbitrary: s)
  case Nil
  then show ?case by simp
next
  case (Cons ip ps)
  obtain i p where ip: "ip = (i, p)" by fastforce
  show ?case
  proof (cases "find_connector s (tp_scheme p)")
    case None
    with Cons ip show ?thesis by simp
  next
    case (Some ops)
    obtain ok s2 where fl: "flush_frames_to_connector E (tp_id p) ops batch s = (ok, s2)" by fastforce
    have s2: "shape_cm s2 = shape_cm s" using shape_flush_frames [OF fl] .
    show ?thesis
    proof (cases ok)
      case True
      then show ?thesis using Cons.prems Some fl s2 ip by (auto simp: shape_upd_rec)
    next
      case False
      then have "try_paths E c ps batch (upd_rec c (upd_path i path_failed) s2) = (b, s1)"
        using Cons.prems Some fl ip by simp
      from Cons.IH [OF this] s2 show ?thesis by (simp add: shape_upd_rec)
    qed
  qed
qed

lemma shape_flush_queue [simp, frame]: "shape_cm (flush_queue E c s) = shape_cm s"
proof (cases "shutting_down s \<or> rcu_find s c = None \<or> map_of (send_queues s) c = None")
  case True
  then show ?thesis by (auto simp: flush_queue_def split: option.splits)
next
  case False
  then obtain r q where r: "rcu_find s c = Some r" and q: "map_of (send_queues s) c = Some q" by auto
  obtain batch q1 where dr: "drain_batch 64 q = (batch, q1)" by fastforce
  let ?ps = "map (\<lambda>i. (i, c_transport_paths r ! i)) (active_paths r)"
  obtain ok s2 where tr: "try_paths E c ?ps batch (set_queue c q1 s) = (ok, s2)" by fastforce
  have s2: "shape_cm s2 = shape_cm s" using shape_try_paths [OF tr] by simp
  obtain b s3 where fl: "flush_frames_to_connector E c (the (find_connector s2 (scheme_of r))) batch s2 = (b, s3)"
    by fastforce
  show ?thesis
    using False r q dr tr s2 fl shape_flush_frames [OF fl] by (simp add: flush_queue_def Let_def)
qed

lemma shape_send_frame [simp, frame]: "shape_cm (send_frame E c t p s) = shape_cm s"
  by (auto simp: send_frame_def Let_def dest!: shape_build_frame shape_get_or_create_queue
      split: prod.splits)

lemma shape_foldl: "(\<And>x s. shape_cm (f s x) = shape_cm s) \<Longrightarrow> shape_cm (foldl f s xs) = shape_cm s"
  by (induction xs arbitrary: s) simp_all

lemma shape_send_chunks [simp, frame]: "shape_cm (send_chunks E c t p s) = shape_cm s"
proof (induction E c t p s rule: send_chunks.induct)
  case (1 E cid t p s)
  then show ?case by (subst send_chunks.simps) simp
qed

lemma shape_broadcast [simp, frame]: "shape_cm (broadcast E t p s) = shape_cm s"
  by (simp add: broadcast_def shape_foldl)

lemma shape_relay [simp, frame]: "shape_cm (relay E c ttl d fr s) = shape_cm s"
  by (simp add: relay_def Let_def shape_foldl)

lemma shape_close_paths: "shape_cm (snd (close_paths ps s)) = shape_cm s"
  by (induction ps s rule: close_paths.induct) (auto simp: Let_def split: option.splits prod.splits)

lemma shape_close_now_paths: "shape_cm (snd (close_now_paths ps s)) = shape_cm s"
  by (induction ps s rule: close_now_paths.induct) (auto simp: Let_def split: option.splits prod.splits)

lemma shape_close_now [simp, frame]: "shape_cm (close_now c s) = shape_cm s"
  using shape_close_now_paths
  by (auto simp: close_now_def Let_def split: option.splits prod.splits) (metis snd_conv)+

lemma shape_disconnect [simp, frame]: "shape_cm (disconnect c s) = shape_cm s"
proof -
  let ?s1 = "s\<lparr> send_queues := modify c (\<lambda>q. q\<lparr> draining := True \<rparr>) (send_queues s) \<rparr>"
  have "shape_cm (snd (close_paths ps ?s1)) = shape_cm s" for ps
    by (simp add: shape_close_paths)
  then show ?thesis
    by (auto simp: disconnect_def Let_def split: option.splits prod.splits) (metis snd_conv)+
qed

lemma shape_cm_connect [simp, frame]: "shape_cm (cm_connect uri s) = shape_cm s"
  by (simp add: cm_connect_def split: option.splits)

lemma shape_upgrade_loop [simp]: "shape_cm (upgrade_loop r b ss s) = shape_cm s"
  by (induction r b ss s rule: upgrade_loop.induct) (auto simp: Let_def split: option.splits)

lemma shape_schedule [simp, frame]: "shape_cm (schedule_transport_upgrade c s) = shape_cm s"
  by (auto simp: schedule_transport_upgrade_def split: option.splits)

lemma shape_send_heartbeat [simp, frame]: "shape_cm (send_heartbeat E c s) = shape_cm s"
  by (auto simp: send_heartbeat_def Let_def shape_upd_rec split: option.splits)

lemma shape_rtt [simp]:
  "shape (case best_path r of Some (i, _) \<Rightarrow> upd_path i (\<lambda>p. p\<lparr> tp_last_rtt_us := v \<rparr>) r | None \<Rightarrow> r) = shape r"
  by (auto split: option.splits)

lemma shape_handle_heartbeat [simp, frame]: "shape_cm (handle_heartbeat E c p s) = shape_cm s"
  by (auto simp: handle_heartbeat_def Let_def shape_upd_rec split: option.splits)

lemma shape_check_heartbeat [simp, frame]: "shape_cm (check_heartbeat E s c) = shape_cm s"
  by (auto simp: check_heartbeat_def Let_def shape_upd_rec split: option.splits)

lemma shape_check_heartbeat_timeouts [simp, frame]: "shape_cm (check_heartbeat_timeouts E s) = shape_cm s"
  by (simp add: check_heartbeat_timeouts_def shape_foldl)

lemma shape_shutdown_close [simp, frame]: "shape_cm (shutdown_close s) = shape_cm s"
  by (simp add: shutdown_close_def shape_foldl)

subsection \<open>Reading a field off the shape\<close>

lemma map_of_map_prod: "map_of (map (map_prod id g) m) k = map_option g (map_of m k)"
  by (induction m) auto

lemma shape_rcu_find:
  assumes "shape_cm s' = shape_cm s"
  shows "map_option shape (rcu_find s' c) = map_option shape (rcu_find s c)"
    and "map fst (records s') = map fst (records s)"
proof -
  have r: "map (map_prod id shape) (records s') = map (map_prod id shape) (records s)"
    using assms by (simp add: shape_cm_def)
  then show "map_option shape (rcu_find s' c) = map_option shape (rcu_find s c)"
    unfolding rcu_find_def by (metis map_of_map_prod)
  have "map fst (map (map_prod id shape) m) = map fst m" for m :: "(conn_id \<times> connection_record) list"
    by (induction m) auto
  with r show "map fst (records s') = map fst (records s)" by metis
qed

lemma shape_fields:
  assumes "shape_cm s' = shape_cm s"
  shows "next_id s' = next_id s" "pk_index s' = pk_index s" "transport_index s' = transport_index s"
    "uri_index s' = uri_index s" "identity s' = identity s" "shutting_down s' = shutting_down s"
    "connectors s' = connectors s" "scheme_priority s' = scheme_priority s"
    "handler_entries s' = handler_entries s" "pending_messages s' = pending_messages s"
    "config s' = config s" "relay_dedup s' = relay_dedup s" "in_flight s' = in_flight s"
  using assms by (simp_all add: shape_cm_def)

lemma shape_find_Some:
  assumes "shape_cm s' = shape_cm s" "rcu_find s' c = Some r'"
  obtains r where "rcu_find s c = Some r" "shape r' = shape r"
  using shape_rcu_find(1) [OF assms(1), of c] assms(2) by (auto simp: map_option_case split: option.splits)

end
