(* ===== verification/CM_Invariant.thy ===== *)
theory CM_Invariant
  imports CM_Frame
begin

section \<open>The invariant of the connection manager\<close>

text \<open>
  What holds between any two operations of the connection manager: connection ids are fresh and
  are the ids of their records, a record is either in the handshake (with a handshake state, no
  session, its primary path only) or established (with a session, no handshake state, an
  authenticated peer), the public-key index points to established records of that key, and the
  transport index points exactly to the secondary paths of live records.
\<close>

lemma upd_rec_fields [simp]:
  "next_id (upd_rec c f s) = next_id s" "pk_index (upd_rec c f s) = pk_index s"
  "transport_index (upd_rec c f s) = transport_index s" "uri_index (upd_rec c f s) = uri_index s"
  "identity (upd_rec c f s) = identity s" "shutting_down (upd_rec c f s) = shutting_down s"
  "connectors (upd_rec c f s) = connectors s" "scheme_priority (upd_rec c f s) = scheme_priority s"
  "handler_entries (upd_rec c f s) = handler_entries s" "pending_messages (upd_rec c f s) = pending_messages s"
  "send_queues (upd_rec c f s) = send_queues s" "bus (upd_rec c f s) = bus s"
  "ext_calls (upd_rec c f s) = ext_calls s" "map fst (records (upd_rec c f s)) = map fst (records s)"
  by (simp_all add: upd_rec_def)

lemma rcu_find_other:
  "rcu_find (s\<lparr> transport_index := ti \<rparr>) c = rcu_find s c" "rcu_find (s\<lparr> uri_index := u \<rparr>) c = rcu_find s c"
  "rcu_find (s\<lparr> pk_index := pk \<rparr>) c = rcu_find s c" "rcu_find (s\<lparr> send_queues := sq \<rparr>) c = rcu_find s c"
  "rcu_find (s\<lparr> next_id := n \<rparr>) c = rcu_find s c" "rcu_find (s\<lparr> pending_messages := pm \<rparr>) c = rcu_find s c"
  by (simp_all add: rcu_find_def)

subsection \<open>Definition\<close>

definition rec_ok :: "connection_record \<Rightarrow> bool" where
  "rec_ok r \<longleftrightarrow>
     (c_state r = STATE_ESTABLISHED \<and> c_session r \<noteq> None \<and> c_handshake r = None \<and> c_peer_authenticated r
      \<or> c_state r = STATE_NOISE_HANDSHAKE \<and> c_session r = None \<and> c_handshake r \<noteq> None
          \<and> \<not> c_localhost_passthrough r \<and> length (map tp_id (c_transport_paths r)) = 1)
     \<and> (c_localhost_passthrough r \<longrightarrow> c_is_localhost r)
     \<and> (\<forall>hs. c_handshake r = Some hs \<longrightarrow> hs_wf hs \<and> hs_initiator hs = c_is_initiator r)
     \<and> length (c_peer_user_pubkey r) = 32
     \<and> map tp_id (c_transport_paths r) \<noteq> [] \<and> hd (map tp_id (c_transport_paths r)) = c_id r
     \<and> distinct (map tp_id (c_transport_paths r))"

definition secondary :: "connection_record \<Rightarrow> conn_id list" where
  "secondary r = tl (map tp_id (c_transport_paths r))"

definition cm_inv :: "cm \<Rightarrow> bool" where
  "cm_inv s \<longleftrightarrow> distinct (map fst (records s)) \<and> next_id s \<noteq> 0
     \<and> (\<forall>c r. rcu_find s c = Some r \<longrightarrow> c_id r = c \<and> c \<noteq> 0 \<and> c < next_id s \<and> rec_ok r
          \<and> (\<forall>t \<in> set (secondary r). map_of (transport_index s) t = Some c))
     \<and> (\<forall>hex c. map_of (pk_index s) hex = Some c \<longrightarrow>
          (\<exists>r. rcu_find s c = Some r \<and> c_state r = STATE_ESTABLISHED \<and> hex = bytes_to_hex (c_peer_user_pubkey r)))
     \<and> (\<forall>t c. map_of (transport_index s) t = Some c \<longrightarrow>
          t \<noteq> 0 \<and> t < next_id s \<and> rcu_find s t = None \<and> (\<exists>r. rcu_find s c = Some r \<and> t \<in> set (secondary r)))"

lemma cm_invD:
  assumes "cm_inv s"
  shows "distinct (map fst (records s))" "next_id s \<noteq> 0"
    "rcu_find s c = Some r \<Longrightarrow> c_id r = c" "rcu_find s c = Some r \<Longrightarrow> c \<noteq> 0"
    "rcu_find s c = Some r \<Longrightarrow> c < next_id s" "rcu_find s c = Some r \<Longrightarrow> rec_ok r"
    "rcu_find s c = Some r \<Longrightarrow> t \<in> set (secondary r) \<Longrightarrow> map_of (transport_index s) t = Some c"
    "map_of (pk_index s) hex = Some c \<Longrightarrow>
       \<exists>r. rcu_find s c = Some r \<and> c_state r = STATE_ESTABLISHED \<and> hex = bytes_to_hex (c_peer_user_pubkey r)"
    "map_of (transport_index s) t = Some c \<Longrightarrow> t \<noteq> 0"
    "map_of (transport_index s) t = Some c \<Longrightarrow> t < next_id s"
    "map_of (transport_index s) t = Some c \<Longrightarrow> rcu_find s t = None"
    "map_of (transport_index s) t = Some c \<Longrightarrow> \<exists>r. rcu_find s c = Some r \<and> t \<in> set (secondary r)"
  using assms unfolding cm_inv_def by blast+

lemma cm_invI:
  assumes "distinct (map fst (records s))" "next_id s \<noteq> 0"
    "\<And>c r. rcu_find s c = Some r \<Longrightarrow> c_id r = c \<and> c \<noteq> 0 \<and> c < next_id s \<and> rec_ok r
       \<and> (\<forall>t \<in> set (secondary r). map_of (transport_index s) t = Some c)"
    "\<And>hex c. map_of (pk_index s) hex = Some c \<Longrightarrow>
       \<exists>r. rcu_find s c = Some r \<and> c_state r = STATE_ESTABLISHED \<and> hex = bytes_to_hex (c_peer_user_pubkey r)"
    "\<And>t c. map_of (transport_index s) t = Some c \<Longrightarrow>
       t \<noteq> 0 \<and> t < next_id s \<and> rcu_find s t = None \<and> (\<exists>r. rcu_find s c = Some r \<and> t \<in> set (secondary r))"
  shows "cm_inv s"
  using assms unfolding cm_inv_def by blast

subsection \<open>The part of the state the invariant reads\<close>

definition ishape where
  "ishape (r :: connection_record) = (c_id r, c_state r, c_session r = None, c_handshake r, c_peer_authenticated r, c_is_localhost r,
     c_localhost_passthrough r, c_is_initiator r, c_peer_user_pubkey r, map tp_id (c_transport_paths r))"

definition ishape_cm where
  "ishape_cm (s :: cm) = (map (map_prod id ishape) (records s), next_id s, pk_index s, transport_index s)"

lemma rec_ok_ishape: "ishape r' = ishape r \<Longrightarrow> rec_ok r' = rec_ok r \<and> secondary r' = secondary r"
  by (auto simp: ishape_def rec_ok_def secondary_def)

lemma ishape_of_shape: "shape_cm s' = shape_cm s \<Longrightarrow> ishape_cm s' = ishape_cm s"
proof -
  assume eq: "shape_cm s' = shape_cm s"
  obtain g where g: "ishape = g \<circ> shape"
  proof
    show "ishape = (\<lambda>(a, b, _, _, _, _, c, _, d, e, f, i, _, j, k, _, l). (a, b, k = None, j, d, e, f, i, c, l)) \<circ> shape"
      by (simp add: fun_eq_iff ishape_def shape_def)
  qed
  have "map (map_prod id shape) (records s') = map (map_prod id shape) (records s)"
    using eq by (simp add: shape_cm_def)
  then have "map (map_prod id g) (map (map_prod id shape) (records s'))
      = map (map_prod id g) (map (map_prod id shape) (records s))" by (rule arg_cong)
  moreover have "map_prod id g (map_prod id shape x) = map_prod id ishape x" for x :: "conn_id \<times> connection_record"
    by (cases x) (simp add: g)
  ultimately show ?thesis
    using shape_fields(1-3) [OF eq] by (simp add: ishape_cm_def comp_def)
qed

lemma ishape_rcu_find:
  assumes "ishape_cm s' = ishape_cm s"
  shows "map_option ishape (rcu_find s' c) = map_option ishape (rcu_find s c)"
    and "map fst (records s') = map fst (records s)"
proof -
  have r: "map (map_prod id ishape) (records s') = map (map_prod id ishape) (records s)"
    using assms by (simp add: ishape_cm_def)
  then show "map_option ishape (rcu_find s' c) = map_option ishape (rcu_find s c)"
    unfolding rcu_find_def by (metis map_of_map_prod)
  have "map fst (map (map_prod id ishape) m) = map fst m" for m :: "(conn_id \<times> connection_record) list"
    by (induction m) auto
  with r show "map fst (records s') = map fst (records s)" by metis
qed

lemma ishape_find_Some:
  assumes "ishape_cm s' = ishape_cm s" "rcu_find s c = Some r"
  obtains r' where "rcu_find s' c = Some r'" "ishape r' = ishape r"
  using ishape_rcu_find(1) [OF assms(1), of c] assms(2) by (auto simp: map_option_case split: option.splits)

lemma ishape_eq:
  "ishape r' = ishape r \<Longrightarrow> c_id r' = c_id r \<and> c_state r' = c_state r \<and> c_peer_user_pubkey r' = c_peer_user_pubkey r
     \<and> rec_ok r' = rec_ok r \<and> secondary r' = secondary r"
  using rec_ok_ishape [of r' r] by (simp add: ishape_def)

lemma cm_inv_ishape:
  assumes eq: "ishape_cm s' = ishape_cm s" and inv: "cm_inv s"
  shows "cm_inv s'"
proof -
  have f: "next_id s' = next_id s" "pk_index s' = pk_index s" "transport_index s' = transport_index s"
    using eq by (simp_all add: ishape_cm_def)
  have bwd: "\<exists>r. rcu_find s c = Some r \<and> ishape r' = ishape r" if "rcu_find s' c = Some r'" for c r'
    using ishape_find_Some [OF eq [symmetric] that] by metis
  have forth: "\<exists>r'. rcu_find s' c = Some r' \<and> ishape r' = ishape r" if "rcu_find s c = Some r" for c r
    using ishape_find_Some [OF eq that] by metis
  show ?thesis
    unfolding cm_inv_def f ishape_rcu_find(2) [OF eq]
  proof (intro conjI allI impI)
    show "distinct (map fst (records s))" "next_id s \<noteq> 0" using inv by (simp_all add: cm_inv_def)
  next
    fix c r' assume "rcu_find s' c = Some r'"
    then obtain r where r: "rcu_find s c = Some r" "ishape r' = ishape r" using bwd by blast
    note e = ishape_eq [OF r(2)] and d = cm_invD(3-7) [OF inv r(1)]
    show "c_id r' = c" "c \<noteq> 0" "c < next_id s" "rec_ok r'"
      "\<forall>t\<in>set (secondary r'). map_of (transport_index s) t = Some c" using e d by auto
  next
    fix hex c assume "map_of (pk_index s) hex = Some c"
    then obtain r where "rcu_find s c = Some r" "c_state r = STATE_ESTABLISHED"
      "hex = bytes_to_hex (c_peer_user_pubkey r)" using cm_invD(8) [OF inv] by blast
    then show "\<exists>r. rcu_find s' c = Some r \<and> c_state r = STATE_ESTABLISHED \<and> hex = bytes_to_hex (c_peer_user_pubkey r)"
      using forth ishape_eq by metis
  next
    fix t c assume t: "map_of (transport_index s) t = Some c"
    then show "t \<noteq> 0" "t < next_id s" "rcu_find s' t = None"
      using cm_invD(9-11) [OF inv t] ishape_rcu_find(1) [OF eq, of t] by auto
    show "\<exists>r. rcu_find s' c = Some r \<and> t \<in> set (secondary r)"
      using cm_invD(12) [OF inv t] forth ishape_eq by metis
  qed
qed

lemmas cm_inv_shape = cm_inv_ishape [OF ishape_of_shape]

lemma map_modify_at:
  assumes "distinct (map fst m)" "\<And>v. map_of m k = Some v \<Longrightarrow> g (f v) = g v"
  shows "map (map_prod id g) (modify k f m) = map (map_prod id g) m"
proof -
  have "g (f v) = g v" if "(k, v) \<in> set m" for v
    using that assms by simp
  then show ?thesis by (auto simp: modify_def)
qed

lemma cm_inv_upd_rec_keep:
  assumes "cm_inv s" "\<And>r. rcu_find s c = Some r \<Longrightarrow> ishape (f r) = ishape r"
  shows "cm_inv (upd_rec c f s)"
proof -
  have "ishape_cm (upd_rec c f s) = ishape_cm s"
    using map_modify_at [of "records s" c ishape f] cm_invD(1) [OF assms(1)] assms(2)
    by (simp add: ishape_cm_def upd_rec_def rcu_find_def)
  with assms(1) show ?thesis by (rule cm_inv_ishape [rotated])
qed

lemma cm_inv_upd_rec:
  assumes inv: "cm_inv s" and r: "rcu_find s c = Some r"
    and f: "rec_ok (f r)" "c_id (f r) = c" "secondary (f r) = secondary r"
    and st: "c_state r \<noteq> STATE_ESTABLISHED"
  shows "cm_inv (upd_rec c f s)"
proof -
  have fi: "next_id (upd_rec c f s) = next_id s" "pk_index (upd_rec c f s) = pk_index s"
    "transport_index (upd_rec c f s) = transport_index s" "map fst (records (upd_rec c f s)) = map fst (records s)"
    by (simp_all add: upd_rec_def)
  show ?thesis
    unfolding cm_inv_def fi
  proof (intro conjI allI impI)
    show "distinct (map fst (records s))" "next_id s \<noteq> 0" using inv by (simp_all add: cm_inv_def)
  next
    fix d r' assume d: "rcu_find (upd_rec c f s) d = Some r'"
    show "c_id r' = d" "d \<noteq> 0" "d < next_id s" "rec_ok r'"
      "\<forall>t\<in>set (secondary r'). map_of (transport_index s) t = Some d"
      using d f r cm_invD(3-7) [OF inv] by (auto split: if_splits)
  next
    fix hex d assume "map_of (pk_index s) hex = Some d"
    then obtain r1 where "rcu_find s d = Some r1" "c_state r1 = STATE_ESTABLISHED"
      "hex = bytes_to_hex (c_peer_user_pubkey r1)" using cm_invD(8) [OF inv] by blast
    with r st show "\<exists>r. rcu_find (upd_rec c f s) d = Some r \<and> c_state r = STATE_ESTABLISHED
        \<and> hex = bytes_to_hex (c_peer_user_pubkey r)" by auto
  next
    fix t d assume t: "map_of (transport_index s) t = Some d"
    then show "t \<noteq> 0" "t < next_id s" "rcu_find (upd_rec c f s) t = None"
      using cm_invD(9-11) [OF inv t] by auto
    show "\<exists>r. rcu_find (upd_rec c f s) d = Some r \<and> t \<in> set (secondary r)"
      using cm_invD(12) [OF inv t] r f(3) by auto
  qed
qed

subsection \<open>Creating and removing records\<close>

lemma rcu_find_records:
  "rcu_find (s\<lparr> records := AList.update c r (records s) \<rparr>) d = (if d = c then Some r else rcu_find s d)"
  by (simp add: rcu_find_def)

lemma cm_inv_next_fresh: "cm_inv s \<Longrightarrow> rcu_find s (next_id s) = None"
  using cm_invD(5) [of s "next_id s"] by (cases "rcu_find s (next_id s)") auto

lemma cm_inv_add_record:
  assumes inv: "cm_inv s" and n: "next_id s \<noteq> - 1"
    and r: "rec_ok r" "c_id r = next_id s" "secondary r = []"
  shows "cm_inv (s\<lparr> next_id := next_id s + 1, records := AList.update (next_id s) r (records s) \<rparr>)"
proof -
  let ?s = "s\<lparr> next_id := next_id s + 1, records := AList.update (next_id s) r (records s) \<rparr>"
  have find: "rcu_find ?s d = (if d = next_id s then Some r else rcu_find s d)" for d
    by (simp add: rcu_find_def)
  have mono: "d < next_id s \<Longrightarrow> d < next_id s + 1" and lt: "next_id s < next_id s + 1" for d
  proof -
    have "unat (next_id s + 1) = Suc (unat (next_id s))"
      using n by (metis unatSuc add.commute add_eq_0_iff2)
    then show "d < next_id s \<Longrightarrow> d < next_id s + 1" "next_id s < next_id s + 1"
      by (simp_all add: word_less_nat_alt)
  qed
  show ?thesis
  proof (rule cm_invI)
    show "distinct (map fst (records ?s))" using cm_invD(1) [OF inv] by (simp add: distinct_update)
    show "next_id ?s \<noteq> 0" using n by simp (metis add_eq_0_iff2)
  next
    fix d r' assume d: "rcu_find ?s d = Some r'"
    have "c_id r' = d \<and> d \<noteq> 0 \<and> d < next_id s + 1 \<and> rec_ok r'
        \<and> (\<forall>t \<in> set (secondary r'). map_of (transport_index s) t = Some d)"
    proof (cases "d = next_id s")
      case True
      then show ?thesis using d r lt cm_invD(2) [OF inv] by (simp add: find)
    next
      case False
      then have d: "rcu_find s d = Some r'" using d by (simp add: find)
      show ?thesis using cm_invD(3-7) [OF inv d] mono by blast
    qed
    then show "c_id r' = d \<and> d \<noteq> 0 \<and> d < next_id ?s \<and> rec_ok r'
        \<and> (\<forall>t \<in> set (secondary r'). map_of (transport_index ?s) t = Some d)" by simp
  next
    fix hex d assume "map_of (pk_index ?s) hex = Some d"
    then obtain r' where "rcu_find s d = Some r'" "c_state r' = STATE_ESTABLISHED"
      "hex = bytes_to_hex (c_peer_user_pubkey r')" using cm_invD(8) [OF inv, of hex d] by auto
    moreover from this have "d \<noteq> next_id s" using cm_inv_next_fresh [OF inv] by auto
    ultimately show "\<exists>r. rcu_find ?s d = Some r \<and> c_state r = STATE_ESTABLISHED
        \<and> hex = bytes_to_hex (c_peer_user_pubkey r)" by (simp add: find)
  next
    fix t d assume "map_of (transport_index ?s) t = Some d"
    then have t: "map_of (transport_index s) t = Some d" by simp
    obtain r' where r': "rcu_find s d = Some r'" "t \<in> set (secondary r')" using cm_invD(12) [OF inv t] by blast
    have "t \<noteq> next_id s" "d \<noteq> next_id s"
      using cm_invD(10) [OF inv t] cm_inv_next_fresh [OF inv] r' by auto
    then show "t \<noteq> 0 \<and> t < next_id ?s \<and> rcu_find ?s t = None \<and> (\<exists>r. rcu_find ?s d = Some r \<and> t \<in> set (secondary r))"
      using r' cm_invD(9-11) [OF inv t] mono by (simp add: find)
  qed
qed

lemma cm_inv_remove_record:
  assumes inv: "cm_inv s" and r: "rcu_find s c = Some r"
    and pk': "\<And>hex d. map_of pk hex = Some d \<Longrightarrow> map_of (pk_index s) hex = Some d \<and> d \<noteq> c"
    and ti: "\<And>t d. map_of ti t = Some d \<longleftrightarrow> map_of (transport_index s) t = Some d \<and> d \<noteq> c"
  shows "cm_inv (s\<lparr> records := erase c (records s), pk_index := pk, transport_index := ti \<rparr>)"
proof -
  let ?s = "s\<lparr> records := erase c (records s), pk_index := pk, transport_index := ti \<rparr>"
  have find: "rcu_find ?s d = (if d = c then None else rcu_find s d)" for d
    by (simp add: rcu_find_def)
  show ?thesis
  proof (rule cm_invI)
    show "distinct (map fst (records ?s))" "next_id ?s \<noteq> 0" using cm_invD(1,2) [OF inv] by simp_all
  next
    fix d r' assume "rcu_find ?s d = Some r'"
    then have d: "d \<noteq> c" "rcu_find s d = Some r'" by (simp_all add: find split: if_splits)
    show "c_id r' = d \<and> d \<noteq> 0 \<and> d < next_id ?s \<and> rec_ok r'
        \<and> (\<forall>t \<in> set (secondary r'). map_of (transport_index ?s) t = Some d)"
      using cm_invD(3-7) [OF inv d(2)] d(1) ti by simp
  next
    fix hex d assume "map_of (pk_index ?s) hex = Some d"
    then have "map_of (pk_index s) hex = Some d" "d \<noteq> c" using pk' [of hex d] by simp_all
    then show "\<exists>r. rcu_find ?s d = Some r \<and> c_state r = STATE_ESTABLISHED
        \<and> hex = bytes_to_hex (c_peer_user_pubkey r)"
      using cm_invD(8) [OF inv, of hex d] by (simp add: find)
  next
    fix t d assume "map_of (transport_index ?s) t = Some d"
    then have d: "map_of (transport_index s) t = Some d" "d \<noteq> c" using ti by simp_all
    show "t \<noteq> 0 \<and> t < next_id ?s \<and> rcu_find ?s t = None \<and> (\<exists>r. rcu_find ?s d = Some r \<and> t \<in> set (secondary r))"
      using cm_invD(9-12) [OF inv d(1)] d(2) by (simp add: find)
  qed
qed

lemma established_only: "cm_inv s \<Longrightarrow> rcu_find s c = Some r \<Longrightarrow> c_state r \<noteq> STATE_ESTABLISHED \<Longrightarrow>
    map_of (pk_index s) hex \<noteq> Some c \<and> map_of (transport_index s) t \<noteq> Some c"
proof -
  assume inv: "cm_inv s" and r: "rcu_find s c = Some r" and st: "c_state r \<noteq> STATE_ESTABLISHED"
  have "length (map tp_id (c_transport_paths r)) = 1"
    using cm_invD(6) [OF inv r] st by (auto simp: rec_ok_def)
  then have "secondary r = []" by (cases "c_transport_paths r") (simp_all add: secondary_def)
  then show ?thesis
    using cm_invD(8,12) [OF inv] r st by fastforce
qed

subsection \<open>The environment\<close>

text \<open>
  Handlers are arbitrary code that reaches the manager through its operations; all the
  preservation lemmas need of them is that they keep the invariant too.
\<close>

definition handlers_keep :: "(cm \<Rightarrow> bool) \<Rightarrow> env \<Rightarrow> bool" where
  "handlers_keep I E \<longleftrightarrow> (\<forall>h hdr ep d s. I s \<longrightarrow> I (e_message E h hdr ep d s))
     \<and> (\<forall>h hdr t s. I s \<longrightarrow> I (snd (e_result E h hdr t s)))
     \<and> (\<forall>h u st s. I s \<longrightarrow> I (e_conn_state E h u st s))"

definition env_ok :: "env \<Rightarrow> bool" where
  "env_ok E \<longleftrightarrow> sodium_ok (e_sodium E) \<and> fill_ok (e_sodium E) \<and> handlers_keep cm_inv E"

lemmas cm_inv_quiet =
  shape_simple [THEN cm_inv_shape] shape_send_frame [THEN cm_inv_shape] shape_close_now [THEN cm_inv_shape]
  shape_schedule [THEN cm_inv_shape] shape_relay [THEN cm_inv_shape]
  shape_handle_heartbeat [THEN cm_inv_shape] shape_send_chunks [THEN cm_inv_shape]
  shape_broadcast [THEN cm_inv_shape] shape_disconnect [THEN cm_inv_shape]
  shape_cm_connect [THEN cm_inv_shape] shape_check_heartbeat_timeouts [THEN cm_inv_shape]
  shape_shutdown_close [THEN cm_inv_shape]

lemma cm_inv_irrelevant:
  "cm_inv s \<Longrightarrow> cm_inv (s\<lparr> in_flight := n \<rparr>)" "cm_inv s \<Longrightarrow> cm_inv (s\<lparr> uri_index := u \<rparr>)"
  "cm_inv s \<Longrightarrow> cm_inv (s\<lparr> pending_messages := pm \<rparr>)" "cm_inv s \<Longrightarrow> cm_inv (s\<lparr> relay_dedup := d \<rparr>)"
  "cm_inv s \<Longrightarrow> cm_inv (s\<lparr> handler_entries := he \<rparr>)" "cm_inv s \<Longrightarrow> cm_inv (s\<lparr> connectors := co \<rparr>)"
  "cm_inv s \<Longrightarrow> cm_inv (s\<lparr> scheme_priority := sp \<rparr>)" "cm_inv s \<Longrightarrow> cm_inv (s\<lparr> shutting_down := sd \<rparr>)"
  "cm_inv s \<Longrightarrow> cm_inv (s\<lparr> identity := idt \<rparr>)" "cm_inv s \<Longrightarrow> cm_inv (s\<lparr> send_queues := sq \<rparr>)"
  by (erule cm_inv_ishape [rotated], simp add: ishape_cm_def)+

subsection \<open>Handshake operations\<close>

lemma handshake_phase:
  assumes "rec_ok r" "c_handshake r = Some hs"
  shows "c_state r = STATE_NOISE_HANDSHAKE" "hs_wf hs" "hs_initiator hs = c_is_initiator r"
    "c_session r = None" "\<not> c_localhost_passthrough r"
  using assms by (auto simp: rec_ok_def)

lemma cm_inv_set_handshake:
  assumes inv: "cm_inv s" and r: "rcu_find s c = Some r" "c_handshake r = Some hs"
    and hs1: "hs_wf hs1" "hs_initiator hs1 = hs_initiator hs"
  shows "cm_inv (set_handshake c hs1 s)"
  unfolding set_handshake_def
proof (rule cm_inv_upd_rec [OF inv r(1)])
  have ok: "rec_ok r" by (rule cm_invD(6) [OF inv r(1)])
  show "rec_ok (r\<lparr> c_handshake := Some hs1 \<rparr>)" using ok hs1 r(2) by (auto simp: rec_ok_def)
  show "c_state r \<noteq> STATE_ESTABLISHED" using handshake_phase(1) [OF ok r(2)] by simp
qed (use cm_invD(3) [OF inv r(1)] in \<open>simp_all add: secondary_def\<close>)

lemma rcu_find_set_handshake [simp]:
  "rcu_find (set_handshake c hs s) d
     = (if d = c then map_option (\<lambda>r. r\<lparr> c_handshake := Some hs \<rparr>) (rcu_find s d) else rcu_find s d)"
  by (simp add: set_handshake_def)

lemma rcu_find_rand [simp]: "rcu_find (s\<lparr> rand_ctr := n \<rparr>) d = rcu_find s d"
  by (simp add: rcu_find_def)

lemma cm_inv_write_message:
  assumes inv: "cm_inv s" and r: "rcu_find s c = Some r" "c_handshake r = Some hs"
    and w: "cm_write_message E c p hs s = (m, s1)"
  shows "cm_inv s1" "\<exists>hs1. rcu_find s1 c = Some (r\<lparr> c_handshake := Some hs1 \<rparr>)"
proof -
  obtain hs1 where w1: "write_message (e_sodium E) (e_rand E (rand_ctr s)) p hs = (m, hs1)"
    and s1: "s1 = set_handshake c hs1 (s\<lparr> rand_ctr := rand_ctr s + 1 \<rparr>)"
    using w by (auto simp: cm_write_message_def split: prod.splits)
  have wf: "hs_wf hs" using handshake_phase [OF cm_invD(6) [OF inv r(1)] r(2)] by simp
  have "hs_wf hs1" "hs_initiator hs1 = hs_initiator hs"
    using write_message_wf [OF wf w1] message_frame(2) [OF w1] by simp_all
  then show "cm_inv s1"
    unfolding s1 using r by (intro cm_inv_set_handshake [of _ c r hs] cm_inv_quiet(7) inv) simp_all
  show "\<exists>hs1. rcu_find s1 c = Some (r\<lparr> c_handshake := Some hs1 \<rparr>)" using s1 r by auto
qed

lemma adopt_peer_simps [simp]:
  "c_id (adopt_peer s hp r) = c_id r" "c_state (adopt_peer s hp r) = c_state r"
  "c_session (adopt_peer s hp r) = c_session r" "c_handshake (adopt_peer s hp r) = c_handshake r"
  "c_peer_authenticated (adopt_peer s hp r)" "c_is_localhost (adopt_peer s hp r) = c_is_localhost r"
  "c_localhost_passthrough (adopt_peer s hp r) = c_localhost_passthrough r"
  "c_is_initiator (adopt_peer s hp r) = c_is_initiator r"
  "c_peer_user_pubkey (adopt_peer s hp r) = hp_user_pubkey hp"
  "c_peer_device_pubkey (adopt_peer s hp r) = hp_device_pubkey hp"
  "c_remote (adopt_peer s hp r) = c_remote r"
  by (simp_all add: adopt_peer_def Let_def upd_path_def)

lemma adopt_peer_paths [simp]: "map tp_id (c_transport_paths (adopt_peer s hp r)) = map tp_id (c_transport_paths r)"
  by (cases "c_transport_paths r") (simp_all add: adopt_peer_def Let_def upd_path_def)

lemma cm_inv_process_payload:
  assumes inv: "cm_inv s" and p: "process_handshake_payload E c data s = (b, s1)"
  shows "cm_inv s1" "b \<Longrightarrow> \<exists>r hp. rcu_find s c = Some r \<and> rcu_find s1 c = Some (adopt_peer s hp r) \<and> c_handshake r \<noteq> None"
proof -
  consider "\<not> b" "shape_cm s1 = shape_cm s"
    | r hs hp where "b" "rcu_find s c = Some r" "c_handshake r = Some hs" "s1 = upd_rec c (adopt_peer s hp) s"
        "length (hp_user_pubkey hp) = 32"
    using p by (auto simp: process_handshake_payload_def Let_def handshake_payload_size_def
        handshake_payload_dec_def split: if_splits option.splits)
  then show "cm_inv s1"
  proof cases
    case 1
    then show ?thesis using cm_inv_shape inv by blast
  next
    case (2 r hs hp)
    have ok: "rec_ok r" by (rule cm_invD(6) [OF inv 2(2)])
    have ok': "rec_ok (adopt_peer s hp r)"
      using ok handshake_phase [OF ok 2(3)] 2(3,5) unfolding rec_ok_def by auto
    show ?thesis
      unfolding 2(4) using cm_inv_upd_rec [OF inv 2(2), of "adopt_peer s hp"] ok' handshake_phase(1) [OF ok 2(3)]
        cm_invD(3) [OF inv 2(2)] by (simp add: secondary_def)
  qed
  show "b \<Longrightarrow> \<exists>r hp. rcu_find s c = Some r \<and> rcu_find s1 c = Some (adopt_peer s hp r) \<and> c_handshake r \<noteq> None"
    using p by (auto simp: process_handshake_payload_def Let_def split: if_splits option.splits)
qed

lemma cm_inv_notify:
  assumes "env_ok E" "cm_inv s"
  shows "cm_inv (notify_handlers E u st s)"
proof -
  have "cm_inv (foldl (\<lambda>s e. if h_has_conn_state (he_handler e)
        then e_conn_state E (he_handler e) u st (ext (HandleConnState (he_handler e) u st) s) else s) s es)"
    if "cm_inv s" for es s
    using that
  proof (induction es arbitrary: s)
    case Nil
    then show ?case by simp
  next
    case (Cons e es)
    have "cm_inv (e_conn_state E (he_handler e) u st (ext (HandleConnState (he_handler e) u st) s))"
      using assms(1) cm_inv_quiet(4) [OF Cons.prems] by (simp add: env_ok_def handlers_keep_def)
    with Cons show ?case by simp
  qed
  with assms(2) show ?thesis by (simp add: notify_handlers_def)
qed

lemma cm_inv_establish:
  assumes inv: "cm_inv s" and r: "rcu_find s c = Some r" "c_handshake r = Some hs" "c_peer_authenticated r"
  shows "cm_inv (establish E c r hs s)"
proof -
  let ?s = "establish E c r hs s"
  let ?r = "r\<lparr> c_session := Some (session_of_handshake (e_sodium E) hs), c_handshake := None,
    c_state := STATE_ESTABLISHED,
    c_localhost_passthrough := (if c_is_localhost r then True else c_localhost_passthrough r) \<rparr>"
  have find: "rcu_find ?s d = (if d = c then Some ?r else rcu_find s d)" for d
    using r(1) by (auto simp: establish_def Let_def rcu_find_def upd_rec_def)
  have f: "map fst (records ?s) = map fst (records s)" "next_id ?s = next_id s" "transport_index ?s = transport_index s"
    "pk_index ?s = AList.update (bytes_to_hex (c_peer_user_pubkey r)) c (pk_index s)"
    by (simp_all add: establish_def Let_def upd_rec_def)
  have ok: "rec_ok r" by (rule cm_invD(6) [OF inv r(1)])
  have ok': "rec_ok ?r" "secondary ?r = secondary r"
    using ok handshake_phase [OF ok r(2)] r(3) by (simp_all add: rec_ok_def secondary_def)
  show ?thesis
  proof (rule cm_invI, unfold f)
    show "distinct (map fst (records s))" "next_id s \<noteq> 0" using cm_invD(1,2) [OF inv] by simp_all
  next
    fix d r' assume d: "rcu_find ?s d = Some r'"
    show "c_id r' = d \<and> d \<noteq> 0 \<and> d < next_id s \<and> rec_ok r'
        \<and> (\<forall>t \<in> set (secondary r'). map_of (transport_index s) t = Some d)"
    proof (cases "d = c")
      case True
      then have "r' = ?r" using d by (simp add: find)
      then show ?thesis using True ok' cm_invD(3-7) [OF inv r(1)] by simp
    next
      case False
      then have "rcu_find s d = Some r'" using d by (simp add: find)
      then show ?thesis using cm_invD(3-7) [OF inv] by blast
    qed
  next
    fix hex d
    assume d: "map_of (AList.update (bytes_to_hex (c_peer_user_pubkey r)) c (pk_index s)) hex = Some d"
    show "\<exists>r. rcu_find ?s d = Some r \<and> c_state r = STATE_ESTABLISHED \<and> hex = bytes_to_hex (c_peer_user_pubkey r)"
    proof (cases "hex = bytes_to_hex (c_peer_user_pubkey r)")
      case True
      then show ?thesis using d find [of c] by auto
    next
      case False
      then have "map_of (pk_index s) hex = Some d" using d by simp
      then obtain r1 where "rcu_find s d = Some r1" "c_state r1 = STATE_ESTABLISHED"
        "hex = bytes_to_hex (c_peer_user_pubkey r1)" using cm_invD(8) [OF inv] by blast
      then show ?thesis using False r(1) by (auto simp: find)
    qed
  next
    fix t d assume t: "map_of (transport_index s) t = Some d"
    obtain r1 where "rcu_find s d = Some r1" "t \<in> set (secondary r1)" using cm_invD(12) [OF inv t] by blast
    then have "\<exists>r. rcu_find ?s d = Some r \<and> t \<in> set (secondary r)" using ok'(2) r(1) by (auto simp: find)
    moreover have "rcu_find ?s t = None" using cm_invD(11) [OF inv t] r(1) by (auto simp: find)
    ultimately show "t \<noteq> 0 \<and> t < next_id s \<and> rcu_find ?s t = None \<and> (\<exists>r. rcu_find ?s d = Some r \<and> t \<in> set (secondary r))"
      using cm_invD(9,10) [OF inv t] by simp
  qed
qed

lemma shape_index_upd:
  "shape_cm (s\<lparr> records := rs, send_queues := q, uri_index := u \<rparr>) = shape_cm (s\<lparr> records := rs, uri_index := u \<rparr>)"
  by (simp add: shape_cm_def)

lemma cm_inv_drop_duplicate:
  assumes inv: "cm_inv s" and r: "rcu_find s c = Some r" "c_handshake r = Some hs"
  shows "cm_inv (drop_duplicate c r s)"
proof -
  let ?s1 = "close_now c s"
  have inv1: "cm_inv ?s1" by (rule cm_inv_quiet(9) [OF inv])
  obtain r1 where r1: "rcu_find ?s1 c = Some r1" "shape r = shape r1"
    using shape_find_Some [OF shape_close_now [symmetric, of _ c] r(1)] by metis
  then have st: "c_state r1 \<noteq> STATE_ESTABLISHED"
    using handshake_phase(1) [OF cm_invD(6) [OF inv r(1)] r(2)] by (simp add: shape_def)
  have "cm_inv (?s1\<lparr> records := erase c (records ?s1), pk_index := pk_index ?s1, transport_index := transport_index ?s1 \<rparr>)"
  proof (rule cm_inv_remove_record [OF inv1 r1(1)])
    show "map_of (pk_index ?s1) hex = Some d \<Longrightarrow> map_of (pk_index ?s1) hex = Some d \<and> d \<noteq> c" for hex d
      using established_only [OF inv1 r1(1) st] by blast
    show "map_of (transport_index ?s1) t = Some d \<longleftrightarrow> map_of (transport_index ?s1) t = Some d \<and> d \<noteq> c" for t d
      using established_only [OF inv1 r1(1) st] by blast
  qed
  then have "cm_inv (?s1\<lparr> records := erase c (records ?s1) \<rparr>)" by simp
  then have "cm_inv (?s1\<lparr> records := erase c (records ?s1), uri_index := erase (addr_key (c_remote r)) (uri_index ?s1) \<rparr>)"
    using cm_inv_irrelevant(2) by fastforce
  then show ?thesis
    unfolding drop_duplicate_def Let_def using cm_inv_shape [OF shape_index_upd] by blast
qed

lemma cm_inv_foldl: "(\<And>x s. cm_inv s \<Longrightarrow> cm_inv (f s x)) \<Longrightarrow> cm_inv s \<Longrightarrow> cm_inv (foldl f s xs)"
  by (induction xs arbitrary: s) simp_all

lemma cm_inv_flush_pending:
  assumes "cm_inv s"
  shows "cm_inv (flush_pending_messages E u c s)"
  using assms cm_inv_irrelevant(3) [OF assms]
  by (auto simp: flush_pending_messages_def intro!: cm_inv_foldl cm_inv_quiet(8) split: option.splits)

lemma cm_inv_finalize:
  assumes env: "env_ok E" and inv: "cm_inv s"
    and auth: "\<And>r. rcu_find s c = Some r \<Longrightarrow> c_handshake r \<noteq> None \<Longrightarrow> c_peer_authenticated r"
  shows "cm_inv (finalize_handshake E c s)"
proof (cases "\<exists>r hs. rcu_find s c = Some r \<and> c_handshake r = Some hs")
  case False
  then show ?thesis using inv by (auto simp: finalize_handshake_def split: option.splits)
next
  case True
  then obtain r hs where r: "rcu_find s c = Some r" "c_handshake r = Some hs" by blast
  show ?thesis
  proof (cases "map_of (pk_index s) (bytes_to_hex (c_peer_user_pubkey r)) \<noteq> None
      \<and> map_of (pk_index s) (bytes_to_hex (c_peer_user_pubkey r)) \<noteq> Some c")
    case True
    then show ?thesis
      using r cm_inv_drop_duplicate [OF inv r] by (simp add: finalize_handshake_def Let_def)
  next
    case False
    have 1: "cm_inv (establish E c r hs s)" using cm_inv_establish [OF inv r] auth r by simp
    note 2 = cm_inv_flush_pending [OF 1, of E "addr_key (c_remote r)" c]
    note 3 = cm_inv_notify [OF env 2, of "bytes_to_hex (c_peer_user_pubkey r)" STATE_ESTABLISHED]
    note 4 = cm_inv_quiet(1) [OF cm_inv_quiet(2) [OF 3]]
    show ?thesis
      using r False 4 cm_inv_quiet(10) [OF 4] by (auto simp: finalize_handshake_def Let_def)
  qed
qed

lemma cm_inv_noise_read:
  assumes env: "env_ok E" and inv: "cm_inv s" and r: "rcu_find s c = Some r" "c_handshake r = Some hs"
    and rd: "read_message (e_sodium E) p hs = (m, hs1)"
  shows "cm_inv (set_handshake c hs1 s)"
proof -
  have "hs_wf hs1" "hs_initiator hs1 = hs_initiator hs"
    using read_message_wf [OF _ _ _ rd] handshake_phase [OF cm_invD(6) [OF inv r(1)] r(2)] env
      message_frame(1) [OF rd] by (simp_all add: env_ok_def sodium_ok_def)
  then show ?thesis using cm_inv_set_handshake [OF inv r(1,2)] by simp
qed

lemma find_set_handshake_Some:
  "rcu_find s c = Some r \<Longrightarrow> rcu_find (set_handshake c hs s) c = Some (r\<lparr> c_handshake := Some hs \<rparr>)"
  by simp

lemma cm_inv_noise_init:
  assumes env: "env_ok E" and inv: "cm_inv s"
  shows "cm_inv (handle_noise_init E c p s)"
proof (cases "\<exists>r hs. rcu_find s c = Some r \<and> c_handshake r = Some hs \<and> \<not> hs_initiator hs")
  case False
  then show ?thesis using inv by (auto simp: handle_noise_init_def split: option.splits)
next
  case True
  then obtain r hs where r: "rcu_find s c = Some r" "c_handshake r = Some hs" "\<not> hs_initiator hs" by blast
  obtain m hs1 where rd: "read_message (e_sodium E) p hs = (m, hs1)" by fastforce
  have inv1: "cm_inv (set_handshake c hs1 s)" by (rule cm_inv_noise_read [OF env inv r(1,2) rd])
  obtain m2 s2 where w: "cm_write_message E c (build_handshake_payload E (set_handshake c hs1 s)) hs1
      (set_handshake c hs1 s) = (m2, s2)" by fastforce
  have "cm_inv s2"
    by (rule cm_inv_write_message(1) [OF inv1 find_set_handshake_Some [OF r(1)] _ w]) simp
  then show ?thesis
    using r rd inv1 w by (auto simp: handle_noise_init_def intro: cm_inv_quiet split: option.splits)
qed

lemma auth_after_payload:
  assumes p: "process_handshake_payload E c data (set_handshake c hs1 s) = (ok, s1)" and ok
    and inv: "cm_inv (set_handshake c hs1 s)"
  obtains r hp where "rcu_find s1 c = Some r" "c_handshake r = Some hs1" "c_peer_authenticated r"
    "c_is_initiator r = hs_initiator hs1"
proof -
  obtain r hp where r: "rcu_find (set_handshake c hs1 s) c = Some r"
      "rcu_find s1 c = Some (adopt_peer (set_handshake c hs1 s) hp r)"
    using cm_inv_process_payload(2) [OF inv p \<open>ok\<close>] by auto
  then have hs: "c_handshake r = Some hs1" by (auto split: option.splits)
  then have "hs_initiator hs1 = c_is_initiator r"
    using handshake_phase(3) [OF cm_invD(6) [OF inv r(1)]] by simp
  with r hs show ?thesis by (intro that [of "adopt_peer (set_handshake c hs1 s) hp r"]) simp_all
qed

lemma auth_after_send:
  assumes "rcu_find s c = Some r" "c_peer_authenticated r" "rcu_find (send_frame E c t p s) c = Some r'"
  shows "c_peer_authenticated r'"
proof -
  obtain r0 where "rcu_find s c = Some r0" "shape r' = shape r0"
    using shape_find_Some [OF shape_send_frame assms(3)] by metis
  with assms show ?thesis by (simp add: shape_def)
qed

lemma cm_inv_noise_resp:
  assumes env: "env_ok E" and inv: "cm_inv s"
  shows "cm_inv (handle_noise_resp E c p s)"
proof (cases "\<exists>r hs. rcu_find s c = Some r \<and> c_handshake r = Some hs \<and> hs_initiator hs")
  case False
  then show ?thesis using inv by (auto simp: handle_noise_resp_def split: option.splits)
next
  case True
  then obtain r hs where r: "rcu_find s c = Some r" "c_handshake r = Some hs" "hs_initiator hs" by blast
  obtain m hs1 where rd: "read_message (e_sodium E) p hs = (m, hs1)" by fastforce
  have inv1: "cm_inv (set_handshake c hs1 s)" by (rule cm_inv_noise_read [OF env inv r(1,2) rd])
  show ?thesis
  proof (cases m)
    case None
    then show ?thesis using r rd inv1 by (simp add: handle_noise_resp_def cm_inv_quiet)
  next
    case (Some data)
    obtain ok s1 where pr: "process_handshake_payload E c data (set_handshake c hs1 s) = (ok, s1)" by fastforce
    have inv2: "cm_inv s1" by (rule cm_inv_process_payload(1) [OF inv1 pr])
    show ?thesis
    proof (cases ok)
      case False
      then show ?thesis using r rd Some pr inv2 by (simp add: handle_noise_resp_def cm_inv_quiet)
    next
      case True
      obtain r1 where r1: "rcu_find s1 c = Some r1" "c_handshake r1 = Some hs1" "c_peer_authenticated r1"
        using auth_after_payload [OF pr True inv1] by metis
      obtain m3 s2 where w: "cm_write_message E c (build_handshake_payload E s1) hs1 s1 = (m3, s2)" by fastforce
      obtain hs2 where r2: "rcu_find s2 c = Some (r1\<lparr> c_handshake := Some hs2 \<rparr>)"
        using cm_inv_write_message(2) [OF inv2 r1(1,2) w] by blast
      have inv3: "cm_inv s2" by (rule cm_inv_write_message(1) [OF inv2 r1(1,2) w])
      have "cm_inv (finalize_handshake E c (send_frame E c MSG_TYPE_NOISE_FIN x s2))" for x
        using cm_inv_finalize [OF env cm_inv_quiet(8) [OF inv3]] auth_after_send [OF r2] r1(3) by simp
      then show ?thesis
        using r rd Some pr True w inv3 by (auto simp: handle_noise_resp_def cm_inv_quiet split: option.splits)
    qed
  qed
qed

lemma cm_inv_noise_fin:
  assumes env: "env_ok E" and inv: "cm_inv s"
  shows "cm_inv (handle_noise_fin E c p s)"
proof (cases "\<exists>r hs. rcu_find s c = Some r \<and> c_handshake r = Some hs \<and> \<not> hs_initiator hs")
  case False
  then show ?thesis using inv by (auto simp: handle_noise_fin_def split: option.splits)
next
  case True
  then obtain r hs where r: "rcu_find s c = Some r" "c_handshake r = Some hs" "\<not> hs_initiator hs" by blast
  obtain m hs1 where rd: "read_message (e_sodium E) p hs = (m, hs1)" by fastforce
  have inv1: "cm_inv (set_handshake c hs1 s)" by (rule cm_inv_noise_read [OF env inv r(1,2) rd])
  show ?thesis
  proof (cases m)
    case None
    then show ?thesis using r rd inv1 by (simp add: handle_noise_fin_def cm_inv_quiet)
  next
    case (Some data)
    obtain ok s1 where pr: "process_handshake_payload E c data (set_handshake c hs1 s) = (ok, s1)" by fastforce
    have inv2: "cm_inv s1" by (rule cm_inv_process_payload(1) [OF inv1 pr])
    have "cm_inv (finalize_handshake E c s1)" if ok
      using auth_after_payload [OF pr that inv1]
      by (intro cm_inv_finalize [OF env inv2]) (metis option.inject)
    then show ?thesis
      using r rd Some pr inv2 by (cases ok) (simp_all add: handle_noise_fin_def cm_inv_quiet)
  qed
qed

subsection \<open>Connecting and disconnecting\<close>

lemma new_record_ok: "rec_ok (new_record E s c ep)" "c_id (new_record E s c ep) = c"
  "secondary (new_record E s c ep) = []"
  by (simp_all add: new_record_def rec_ok_def secondary_def fresh_record_def Let_def hs_init_wf zero_key_def)
    (simp add: hs_init_def)

lemma cm_inv_send_noise_init:
  assumes inv: "cm_inv s"
  shows "cm_inv (send_noise_init E c s)"
proof (cases "\<exists>r hs. rcu_find s c = Some r \<and> c_handshake r = Some hs")
  case False
  then show ?thesis using inv by (auto simp: send_noise_init_def split: option.splits)
next
  case True
  then obtain r hs where r: "rcu_find s c = Some r" "c_handshake r = Some hs" by blast
  obtain m s1 where w: "cm_write_message E c [] hs s = (m, s1)" by fastforce
  have "cm_inv s1" by (rule cm_inv_write_message(1) [OF inv r w])
  then show ?thesis using r w by (auto simp: send_noise_init_def cm_inv_quiet split: option.splits)
qed

lemma cm_inv_connect:
  assumes inv: "cm_inv s" and n: "next_id s \<noteq> - 1"
  shows "cm_inv (snd (handle_connect E ep s))"
proof -
  let ?s1 = "s\<lparr> next_id := next_id s + 1 \<rparr>" and ?c = "next_id s"
  let ?r = "new_record E ?s1 ?c ep"
  let ?s2 = "?s1\<lparr> records := AList.update ?c ?r (records ?s1),
    uri_index := AList.update (addr_key ep) ?c (uri_index ?s1),
    send_queues := AList.update ?c empty_queue (send_queues ?s1) \<rparr>"
  have "cm_inv (s\<lparr> next_id := ?c + 1, records := AList.update ?c ?r (records s) \<rparr>)"
    by (rule cm_inv_add_record [OF inv n]) (simp_all add: new_record_ok)
  then have "cm_inv ?s2"
    by (rule cm_inv_ishape [rotated]) (simp add: ishape_cm_def)
  then have "cm_inv (cm_stat Connect 1 ?c ?s2)" by (rule cm_inv_quiet(2))
  then show ?thesis
    using inv cm_inv_send_noise_init unfolding handle_connect_def Let_def by simp
qed

lemma cm_inv_add_transport:
  assumes inv: "cm_inv s" and n: "next_id s \<noteq> - 1"
  shows "cm_inv (snd (handle_add_transport E hex ep sch s))"
proof (cases "shutting_down s \<or> find_conn_by_pubkey s hex = CONN_ID_INVALID
    \<or> (case rcu_find s (find_conn_by_pubkey s hex) of None \<Rightarrow> True
       | Some r \<Rightarrow> c_state r \<noteq> STATE_ESTABLISHED \<or> find_path sch r \<noteq> None)")
  case True
  then show ?thesis using inv by (auto simp: handle_add_transport_def Let_def split: option.splits)
next
  case False
  let ?p = "find_conn_by_pubkey s hex" and ?t = "next_id s"
  obtain r where r: "rcu_find s ?p = Some r" "c_state r = STATE_ESTABLISHED" "find_path sch r = None"
    using False by (auto split: option.splits)
  let ?tp = "\<lparr> tp_id = ?t, tp_scheme = sch, tp_priority = scheme_priority_index s sch, tp_remote = ep,
    tp_active = True, tp_last_rtt_us = 0, tp_errors = 0, tp_added_at = e_now E \<rparr>"
  let ?f = "\<lambda>r. r\<lparr> c_transport_paths := c_transport_paths r @ [?tp] \<rparr>"
  let ?s = "(upd_rec ?p ?f (s\<lparr> next_id := ?t + 1 \<rparr>))\<lparr> transport_index := AList.update ?t ?p (transport_index s) \<rparr>"
  have find: "rcu_find ?s d = (if d = ?p then Some (?f r) else rcu_find s d)" for d
    using r(1) by (auto simp: rcu_find_def upd_rec_def)
  have ok: "rec_ok r" by (rule cm_invD(6) [OF inv r(1)])
  have ids: "set (map tp_id (c_transport_paths r)) = insert ?p (set (secondary r))"
    "map tp_id (c_transport_paths r) \<noteq> []"
    using ok cm_invD(3) [OF inv r(1)] unfolding rec_ok_def secondary_def by (cases "c_transport_paths r"; auto)+
  have fresh: "?t \<notin> set (map tp_id (c_transport_paths r))"
    using ids cm_invD(7) [OF inv r(1)] cm_invD(10) [OF inv] cm_invD(5) [OF inv r(1)] by fastforce
  have sec: "secondary (?f r) = secondary r @ [?t]"
    using ids(2) by (cases "c_transport_paths r") (simp_all add: secondary_def)
  have ok': "rec_ok (?f r)"
    using ok r(2) fresh ids(2) unfolding rec_ok_def by (auto simp: hd_append)
  have mono: "d < ?t \<Longrightarrow> d < ?t + 1" and lt: "?t < ?t + 1" for d
  proof -
    have "unat (?t + 1) = Suc (unat ?t)" using n by (metis unatSuc add.commute add_eq_0_iff2)
    then show "d < ?t \<Longrightarrow> d < ?t + 1" "?t < ?t + 1" by (simp_all add: word_less_nat_alt)
  qed
  have "cm_inv ?s"
  proof (rule cm_invI)
    show "distinct (map fst (records ?s))" using cm_invD(1) [OF inv] by (simp add: upd_rec_def)
    show "next_id ?s \<noteq> 0" using n by simp (metis add_eq_0_iff2)
  next
    fix d r' assume d: "rcu_find ?s d = Some r'"
    obtain r0 where r0: "rcu_find s d = Some r0" using d r(1) by (auto simp: find split: if_splits)
    have "\<forall>t \<in> set (secondary r0). t \<noteq> ?t"
      using cm_invD(7) [OF inv r0] cm_invD(10) [OF inv] by fastforce
    then have "c_id r' = d \<and> d \<noteq> 0 \<and> d < ?t + 1 \<and> rec_ok r'
        \<and> (\<forall>t \<in> set (secondary r'). (if t = ?t then Some ?p else map_of (transport_index s) t) = Some d)"
      using cm_invD(3-7) [OF inv r0] mono d r(1) r0 ok' sec by (auto simp: find split: if_splits)
    then show "c_id r' = d \<and> d \<noteq> 0 \<and> d < next_id ?s \<and> rec_ok r'
        \<and> (\<forall>t \<in> set (secondary r'). map_of (transport_index ?s) t = Some d)" by simp
  next
    fix hex' d assume "map_of (pk_index ?s) hex' = Some d"
    then have "map_of (pk_index s) hex' = Some d" by (simp add: upd_rec_def)
    from cm_invD(8) [OF inv this]
    show "\<exists>r. rcu_find ?s d = Some r \<and> c_state r = STATE_ESTABLISHED \<and> hex' = bytes_to_hex (c_peer_user_pubkey r)"
      using r(1) by (auto simp: find)
  next
    fix t d assume t: "map_of (transport_index ?s) t = Some d"
    show "t \<noteq> 0 \<and> t < next_id ?s \<and> rcu_find ?s t = None \<and> (\<exists>r. rcu_find ?s d = Some r \<and> t \<in> set (secondary r))"
    proof (cases "t = ?t")
      case True
      then have "d = ?p" using t by simp
      moreover have "?p \<noteq> ?t" using cm_invD(5) [OF inv r(1)] by auto
      ultimately show ?thesis
        using True sec lt cm_invD(2) [OF inv] cm_inv_next_fresh [OF inv]
        by (simp add: find)
    next
      case False
      then have t0: "map_of (transport_index s) t = Some d" using t by simp
      show ?thesis
        using cm_invD(9-12) [OF inv t0] r(1) sec mono by (auto simp: find)
    qed
  qed
  then have "cm_inv (?s\<lparr> uri_index := AList.update (addr_key ep) ?p (uri_index s) \<rparr>)" by (rule cm_inv_irrelevant(2))
  from cm_inv_quiet(1) [OF this]
  have "cm_inv (upd_bus (\<lambda>b. b\<lparr> on_transport_change := ev_emit (?p, sch, True) (on_transport_change b) \<rparr>)
      (?s\<lparr> uri_index := AList.update (addr_key ep) ?p (uri_index s) \<rparr>))" .
  moreover have "\<not> shutting_down s" "?p \<noteq> CONN_ID_INVALID" using False by blast+
  ultimately show ?thesis
    using r unfolding handle_add_transport_def Let_def by (simp add: upd_rec_def)
qed

lemma map_of_foldl_erase:
  "map_of (foldl (\<lambda>ti p. if g p \<noteq> c then erase (g p) ti else ti) ti ps) t
     = (if t \<in> g ` set ps - {c} then None else map_of ti t)"
  by (induction ps arbitrary: ti) auto

lemma cm_inv_disconnect_primary:
  assumes inv: "cm_inv s" and r: "rcu_find s c = Some r"
    and pk: "pk = (if c_peer_authenticated r then erase (bytes_to_hex (c_peer_user_pubkey r)) (pk_index s) else pk_index s)"
    and ti: "ti = foldl (\<lambda>ti p. if tp_id p \<noteq> c then erase (tp_id p) ti else ti) (transport_index s) (c_transport_paths r)"
  shows "cm_inv (s\<lparr> records := erase c (records s), pk_index := pk, transport_index := ti \<rparr>)"
proof (rule cm_inv_remove_record [OF inv r])
  have ok: "rec_ok r" by (rule cm_invD(6) [OF inv r])
  fix hex d assume d: "map_of pk hex = Some d"
  then have old: "map_of (pk_index s) hex = Some d" using pk by (auto split: if_splits)
  moreover have "d \<noteq> c"
  proof
    assume "d = c"
    then have "c_state r = STATE_ESTABLISHED" "hex = bytes_to_hex (c_peer_user_pubkey r)"
      using cm_invD(8) [OF inv old] r by auto
    then show False using d pk ok by (simp add: rec_ok_def)
  qed
  ultimately show "map_of (pk_index s) hex = Some d \<and> d \<noteq> c" by simp
next
  fix t d
  have ok: "rec_ok r" by (rule cm_invD(6) [OF inv r])
  have ids: "tp_id ` set (c_transport_paths r) - {c} = set (secondary r)"
  proof (cases "c_transport_paths r")
    case Nil
    then show ?thesis using ok by (simp add: rec_ok_def)
  next
    case (Cons p ps)
    then have "tp_id p = c" "c \<notin> tp_id ` set ps"
      using ok cm_invD(3) [OF inv r] by (auto simp: rec_ok_def)
    then show ?thesis using Cons by (auto simp: secondary_def)
  qed
  have "map_of (transport_index s) t = Some c \<longleftrightarrow> t \<in> set (secondary r)"
    using cm_invD(7) [OF inv r] cm_invD(12) [OF inv, of t c] r by auto
  moreover have "map_of ti t = (if t \<in> set (secondary r) then None else map_of (transport_index s) t)"
    unfolding ti by (simp add: map_of_foldl_erase ids)
  ultimately show "map_of ti t = Some d \<longleftrightarrow> map_of (transport_index s) t = Some d \<and> d \<noteq> c"
    using cm_invD(7) [OF inv r, of t] by auto
qed

lemma bytes_to_hex_nonempty: "bytes_to_hex b = [] \<longleftrightarrow> b = []"
  using length_bytes_to_hex [of b] by (cases "bytes_to_hex b"; cases b) auto

lemma cm_inv_disconnect_secondary:
  assumes inv: "cm_inv s" and t: "map_of (transport_index s) tid = Some p"
  shows "cm_inv (disconnect_secondary tid p s)"
proof -
  obtain r where r: "rcu_find s p = Some r" "tid \<in> set (secondary r)" using cm_invD(12) [OF inv t] by blast
  let ?f = "\<lambda>r. r\<lparr> c_transport_paths := filter (\<lambda>q. tp_id q \<noteq> tid) (c_transport_paths r) \<rparr>"
  let ?s = "upd_rec p ?f (s\<lparr> transport_index := erase tid (transport_index s) \<rparr>)"
  have find: "rcu_find ?s d = (if d = p then Some (?f r) else rcu_find s d)" for d
    using r(1) by (auto simp: rcu_find_def upd_rec_def)
  have ne: "tid \<noteq> p" using cm_invD(11) [OF inv t] r(1) by auto
  have ok: "rec_ok r" and cid: "c_id r = p" by (rule cm_invD(6) [OF inv r(1)], rule cm_invD(3) [OF inv r(1)])
  obtain q qs where q: "c_transport_paths r = q # qs" using r(2) by (cases "c_transport_paths r") (auto simp: secondary_def)
  have hq: "tp_id q = p" using ok cid q by (simp add: rec_ok_def)
  have map_f: "map tp_id (filter (\<lambda>q. tp_id q \<noteq> tid) ps) = filter (\<lambda>i. i \<noteq> tid) (map tp_id ps)" for ps
    by (induction ps) auto
  have sec: "secondary (?f r) = filter (\<lambda>i. i \<noteq> tid) (secondary r)"
    using q hq ne by (simp add: secondary_def map_f)
  have est: "c_state r = STATE_ESTABLISHED"
    using established_only [OF inv r(1)] t by blast
  have ok': "rec_ok (?f r)"
    using ok est q hq ne by (auto simp: rec_ok_def map_f)
  have "cm_inv ?s"
  proof (rule cm_invI)
    show "distinct (map fst (records ?s))" "next_id ?s \<noteq> 0" using cm_invD(1,2) [OF inv] by simp_all
  next
    fix d r' assume d: "rcu_find ?s d = Some r'"
    show "c_id r' = d \<and> d \<noteq> 0 \<and> d < next_id ?s \<and> rec_ok r'
        \<and> (\<forall>t \<in> set (secondary r'). map_of (transport_index ?s) t = Some d)"
    proof (cases "d = p")
      case True
      then have "r' = ?f r" using d r(1) by (simp add: rcu_find_other)
      then show ?thesis using True ok' sec cid cm_invD(4,5,7) [OF inv r(1)] by simp
    next
      case False
      then have r': "rcu_find s d = Some r'" using d by (simp add: rcu_find_other)
      have "tid \<notin> set (secondary r')" using cm_invD(7) [OF inv r', of tid] t False by auto
      then show ?thesis using cm_invD(3-7) [OF inv r'] by auto
    qed
  next
    fix hex d assume "map_of (pk_index ?s) hex = Some d"
    then have "map_of (pk_index s) hex = Some d" by simp
    from cm_invD(8) [OF inv this]
    show "\<exists>r. rcu_find ?s d = Some r \<and> c_state r = STATE_ESTABLISHED \<and> hex = bytes_to_hex (c_peer_user_pubkey r)"
      using r(1) by (auto simp: rcu_find_other)
  next
    fix t' d assume "map_of (transport_index ?s) t' = Some d"
    then have t': "t' \<noteq> tid" "map_of (transport_index s) t' = Some d" by (simp_all split: if_splits)
    show "t' \<noteq> 0 \<and> t' < next_id ?s \<and> rcu_find ?s t' = None \<and> (\<exists>r. rcu_find ?s d = Some r \<and> t' \<in> set (secondary r))"
      using cm_invD(9-12) [OF inv t'(2)] t'(1) r(1) sec by (auto simp: rcu_find_other)
  qed
  note i1 = this cm_inv_irrelevant(2) [OF this]
  have u: "upd_rec p ?f (s\<lparr> transport_index := ti, uri_index := u \<rparr>)
      = (upd_rec p ?f (s\<lparr> transport_index := ti \<rparr>))\<lparr> uri_index := u \<rparr>" for ti u
    by (simp add: upd_rec_def)
  have "rcu_find (s\<lparr> transport_index := erase tid (transport_index s) \<rparr>) p = Some r"
    using r(1) by (simp add: rcu_find_def)
  then show ?thesis
    using i1 unfolding disconnect_secondary_def Let_def
    by (auto simp: u intro!: cm_inv_quiet(1) split: option.splits)
qed

lemma cm_inv_disconnect:
  assumes env: "env_ok E" and inv: "cm_inv s"
  shows "cm_inv (handle_disconnect E c err s)"
proof (cases "map_of (transport_index s) c")
  case (Some p)
  have "p \<noteq> CONN_ID_INVALID"
    using cm_invD(12) [OF inv Some] cm_invD(4) [OF inv] by (auto simp: CONN_ID_INVALID_def)
  then show ?thesis
    using Some cm_inv_disconnect_secondary [OF inv Some] by (simp add: handle_disconnect_def Let_def)
next
  case None
  show ?thesis
  proof (cases "rcu_find s c")
    case None
    with \<open>map_of (transport_index s) c = None\<close> show ?thesis
      using inv by (simp add: handle_disconnect_def Let_def)
  next
    case (Some r)
    let ?pk = "if c_peer_authenticated r then erase (bytes_to_hex (c_peer_user_pubkey r)) (pk_index s) else pk_index s"
    let ?ti = "foldl (\<lambda>ti p. if tp_id p \<noteq> c then erase (tp_id p) ti else ti) (transport_index s) (c_transport_paths r)"
    have inv1: "cm_inv (s\<lparr> records := erase c (records s), pk_index := ?pk, transport_index := ?ti \<rparr>)"
      using cm_inv_disconnect_primary [OF inv Some refl refl] .
    have "bytes_to_hex (c_peer_user_pubkey r) \<noteq> []" "addr_key (c_remote r) \<noteq> []"
      using cm_invD(6) [OF inv Some] by (auto simp: bytes_to_hex_nonempty rec_ok_def addr_key_def)
    then obtain s5 where s5: "handle_disconnect E c err s = notify_handlers E (addr_key (c_remote r)) STATE_CLOSED s5"
        "records s5 = erase c (records s)" "pk_index s5 = ?pk" "transport_index s5 = ?ti" "next_id s5 = next_id s"
      using None Some by (simp add: handle_disconnect_def Let_def cm_stat_def upd_bus_def)
    have "ishape_cm s5 = ishape_cm (s\<lparr> records := erase c (records s), pk_index := ?pk, transport_index := ?ti \<rparr>)"
      unfolding ishape_cm_def s5(2-5) by simp
    from cm_inv_ishape [OF this inv1] show ?thesis
      unfolding s5(1) by (rule cm_inv_notify [OF env])
  qed
qed

subsection \<open>Receiving\<close>

lemma cm_inv_call_handler:
  assumes "env_ok E" "cm_inv s"
  shows "cm_inv (snd (call_handler E hdr ep d h n s))"
proof -
  have 1: "cm_inv (e_message E h hdr ep d (ext (HandleMessage h hdr ep d) s))"
    using assms(1) cm_inv_quiet(4) [OF assms(2)] by (simp add: env_ok_def handlers_keep_def)
  have 2: "cm_inv (snd (e_result E h hdr (payload_type hdr) (ext (OnMessageResult h hdr (payload_type hdr)) x)))"
    if "cm_inv x" for x
    using assms(1) cm_inv_quiet(4) [OF that] by (simp add: env_ok_def handlers_keep_def)
  show ?thesis using 1 2 assms(2) by (auto simp: call_handler_def Let_def)
qed

lemma cm_inv_deliver:
  assumes "env_ok E" "cm_inv s"
  shows "cm_inv (deliver E c hdr d ts r s)"
proof -
  let ?call = "call_handler E hdr ((c_remote r)\<lparr> ep_peer_id := c \<rparr>) d"
  obtain res s1 where b: "bus_dispatch bus ?call (ucast (payload_type hdr)) s = (res, s1)" by fastforce
  have "cm_inv (snd (bus_dispatch bus ?call (ucast (payload_type hdr)) s))"
    by (rule bus_dispatch_inv [of cm_inv]) (use assms cm_inv_call_handler in auto)
  then have i1: "cm_inv s1" using b by simp
  have i2: "cm_inv (upd_bus g s1)" for g by (rule cm_inv_quiet(1) [OF i1])
  have i3: "cm_inv (upd_rec c (\<lambda>r. r\<lparr> c_affinity_plugin := x \<rparr>) (upd_bus g s1))" for x g
    by (rule cm_inv_shape [OF shape_upd_rec i2]) simp
  show ?thesis
    using b i2 i3 by (auto simp: deliver_def Let_def intro: cm_inv_quiet)
qed

lemma cm_inv_relay_seen: "cm_inv s \<Longrightarrow> relay_seen E ih s = (b, s1) \<Longrightarrow> cm_inv s1"
  by (auto simp: relay_seen_def Let_def cm_inv_irrelevant(4) split: if_splits)

lemma cm_inv_relay_decide:
  assumes "cm_inv s"
  shows "relay_decide E c p s = Inl s1 \<Longrightarrow> cm_inv s1" "relay_decide E c p s = Inr (ih, ip, s1) \<Longrightarrow> cm_inv s1"
proof -
  obtain b s2 where b: "relay_seen E (header_dec (drop 33 p)) s = (b, s2)" by fastforce
  note inv2 = cm_inv_relay_seen [OF assms b]
  show "relay_decide E c p s = Inl s1 \<Longrightarrow> cm_inv s1"
    using assms inv2 b by (cases b) (auto simp: relay_decide_def Let_def intro: cm_inv_quiet split: if_splits)
  show "relay_decide E c p s = Inr (ih, ip, s1) \<Longrightarrow> cm_inv s1"
    using assms inv2 b by (cases b) (auto simp: relay_decide_def Let_def split: if_splits)
qed

lemma cm_inv_open_packet:
  assumes inv: "cm_inv s" and r: "rcu_find s c = Some r"
  shows "open_packet E c hdr p r s = Inl s1 \<Longrightarrow> cm_inv s1" "open_packet E c hdr p r s = Inr (pl, s1) \<Longrightarrow> cm_inv s1"
proof -
  have upd: "cm_inv (upd_rec c (\<lambda>r. r\<lparr> c_session := Some x \<rparr>) s)" if "c_session r \<noteq> None" for x
    by (rule cm_inv_upd_rec_keep [OF inv]) (use that r in \<open>auto simp: ishape_def\<close>)
  show "open_packet E c hdr p r s = Inl s1 \<Longrightarrow> cm_inv s1"
    using inv upd by (auto simp: open_packet_def Let_def intro: cm_inv_quiet split: option.splits prod.splits if_splits)
  show "open_packet E c hdr p r s = Inr (pl, s1) \<Longrightarrow> cm_inv s1"
    using inv upd by (auto simp: open_packet_def Let_def split: option.splits prod.splits if_splits)
qed

lemma dispatch_stepE:
  assumes "dispatch_step E c hdr p ts s = x"
  obtains "x = Inl (handle_noise_init E c p s)" | "x = Inl (handle_noise_resp E c p s)"
    | "x = Inl (handle_noise_fin E c p s)" | why where "x = Inl (cm_drop c why s)"
    | r s1 where "rcu_find s c = Some r" "c_state r = STATE_ESTABLISHED" "open_packet E c hdr p r s = Inl s1" "x = Inl s1"
    | r pl s1 s2 where "rcu_find s c = Some r" "c_state r = STATE_ESTABLISHED" "open_packet E c hdr p r s = Inr (pl, s1)"
        "s2 = cm_stat RxPacket 1 c (cm_stat RxBytes (word_of_nat (length p)) c s1)"
        "x = Inl (handle_heartbeat E c pl s2) \<or> x = relay_decide E c pl s2 \<or> x = Inl (deliver E c hdr pl ts r s2)"
  using assms by (auto simp: dispatch_step_def Let_def split: if_splits option.splits sum.splits prod.splits)

lemma cm_inv_dispatch_step:
  assumes env: "env_ok E" and inv: "cm_inv s" and x: "dispatch_step E c hdr p ts s = x"
  shows "x = Inl s1 \<Longrightarrow> cm_inv s1" "x = Inr (ih, ip, s1) \<Longrightarrow> cm_inv s1"
proof -
  have "(\<forall>s1. x = Inl s1 \<longrightarrow> cm_inv s1) \<and> (\<forall>ih ip s1. x = Inr (ih, ip, s1) \<longrightarrow> cm_inv s1)"
    using x
  proof (cases rule: dispatch_stepE)
    case (6 r pl s1 s2)
    have i2: "cm_inv s2"
      unfolding 6(4) by (intro cm_inv_quiet(2) cm_inv_open_packet(2) [OF inv 6(1,3)])
    show ?thesis
      using 6(5) cm_inv_relay_decide [OF i2] cm_inv_deliver [OF env i2] cm_inv_quiet(12) [OF i2] by auto
  qed (use cm_inv_noise_init [OF env inv] cm_inv_noise_resp [OF env inv] cm_inv_noise_fin [OF env inv]
      cm_inv_quiet(3) [OF inv] cm_inv_open_packet(1) [OF inv] in auto)
  then show "x = Inl s1 \<Longrightarrow> cm_inv s1" "x = Inr (ih, ip, s1) \<Longrightarrow> cm_inv s1" by blast+
qed

lemma cm_inv_dispatch:
  assumes env: "env_ok E" and inv: "cm_inv s"
  shows "cm_inv (dispatch_packet E c hdr p ts s)"
  using assms
proof (induction E c hdr p ts s rule: dispatch_packet.induct)
  case (1 E c hdr p ts s)
  have inv: "cm_inv (dispatch_enter s)" using 1(3) by (simp add: dispatch_enter_def cm_inv_irrelevant)
  have leave: "cm_inv (dispatch_leave x)" if "cm_inv x" for x
    using that by (simp add: dispatch_leave_def cm_inv_irrelevant)
  show ?case
  proof (cases "dispatch_step E c hdr p ts (dispatch_enter s)")
    case (Inl s1)
    then show ?thesis
      using cm_inv_dispatch_step(1) [OF 1(2) inv Inl] leave by (subst dispatch_packet.simps) simp
  next
    case (Inr z)
    obtain ih ip s1 where z: "z = (ih, ip, s1)" by (cases z) auto
    have "cm_inv s1" using cm_inv_dispatch_step(2) [OF 1(2) inv Inr] z by simp
    with 1(1) [OF Inr] 1(2) z leave Inr show ?thesis by (subst dispatch_packet.simps) simp
  qed
qed

lemma cm_inv_handle_relay:
  assumes "env_ok E" "cm_inv s"
  shows "cm_inv (handle_relay E c p s)"
  using cm_inv_relay_decide [OF assms(2), of E c p] cm_inv_dispatch [OF assms(1)]
  by (auto simp: handle_relay_def split: sum.splits)

lemma cm_inv_data_loop:
  assumes env: "env_ok E" and inv: "cm_inv s" and l: "data_loop E c ts rest used s = (b, n, s1)"
  shows "cm_inv s1"
  using assms
proof (induction E c ts rest used s rule: data_loop.induct)
  case (1 E c ts rest used s)
  let ?hdr = "header_dec rest"
  let ?s1 = "dispatch_packet E c ?hdr (take (unat (payload_len ?hdr)) (drop HDR rest)) ts s"
  have d: "cm_inv ?s1" by (rule cm_inv_dispatch [OF 1(2,3)])
  have q: "cm_inv (close_now c (cm_drop c why s))" for why by (intro cm_inv_quiet 1(3))
  show ?case
    using 1(4) d q 1(3) 1(1) [OF _ refl _ _ refl _ refl _ 1(2) d]
    by (subst (asm) data_loop.simps) (auto simp: Let_def split: if_splits)
qed

lemma cm_inv_recv_buf: "cm_inv s \<Longrightarrow> cm_inv (upd_rec c (\<lambda>r. r\<lparr> c_recv_buf := g r \<rparr>) s)"
  by (rule cm_inv_upd_rec_keep) (simp_all add: ishape_def)

lemma cm_inv_handle_data:
  assumes env: "env_ok E" and inv: "cm_inv s"
  shows "cm_inv (handle_data E c raw s)"
proof -
  have "cm_inv s2" if "data_loop E p ts buf 0 (upd_rec p (\<lambda>r. r\<lparr> c_recv_buf := buf \<rparr>) s) = (b, n, s2)" for p ts buf b n s2
    by (rule cm_inv_data_loop [OF env cm_inv_recv_buf [OF inv] that])
  moreover have "cm_inv (close_now p (cm_drop p why (upd_rec p (\<lambda>r. r\<lparr> c_recv_buf := buf \<rparr>) s)))" for p why buf
    by (intro cm_inv_quiet cm_inv_recv_buf inv)
  ultimately show ?thesis
    using inv cm_inv_dispatch [OF env inv] cm_inv_recv_buf
    by (auto simp: handle_data_def Let_def split: option.splits prod.splits bool.splits)
qed

end
