(* ===== verification/CM_System.thy ===== *)
theory CM_System
  imports CM_Invariant
begin

section \<open>The connection manager as a transition system\<close>

text \<open>
  Every entry point of the manager (the public API of \<open>lifecycle.cpp\<close> and the host API
  callbacks) is an event; \<open>exec\<close> runs one event to its end, and \<open>cm_reach\<close> collects the
  states reached from the constructor's state. Each step has its own environment. Connection ids
  are 64-bit numbers handed out once; the last of them is never used up.
\<close>

datatype cm_event =
    EvConnected endpoint_t
  | EvData conn_id bytes
  | EvDisconnected conn_id int
  | EvAddTransport string endpoint_t string
  | EvSendUri string u32 bytes
  | EvSendId conn_id u32 bytes
  | EvBroadcast u32 bytes
  | EvConnect string
  | EvDisconnect conn_id
  | EvCloseNow conn_id
  | EvRekey conn_id
  | EvRotate node_identity
  | EvRelay conn_id u8 bytes bytes
  | EvHeartbeats
  | EvCleanup
  | EvRegisterHandler handler_t
  | EvRegisterConnectorHandler handler_t
  | EvRegisterConnector string connector_ops
  | EvSchemePriority "string list"
  | EvShutdown

fun exec :: "env \<Rightarrow> cm_event \<Rightarrow> cm \<Rightarrow> cm" where
  "exec E (EvConnected ep) s = snd (handle_connect E ep s)"
| "exec E (EvData c raw) s = handle_data E c raw s"
| "exec E (EvDisconnected c err) s = handle_disconnect E c err s"
| "exec E (EvAddTransport hex ep sch) s = snd (handle_add_transport E hex ep sch s)"
| "exec E (EvSendUri uri t p) s = snd (send_uri E uri t p s)"
| "exec E (EvSendId c t p) s = snd (send_id E c t p s)"
| "exec E (EvBroadcast t p) s = broadcast E t p s"
| "exec E (EvConnect uri) s = cm_connect uri s"
| "exec E (EvDisconnect c) s = disconnect c s"
| "exec E (EvCloseNow c) s = close_now c s"
| "exec E (EvRekey c) s = snd (rekey_session E c s)"
| "exec E (EvRotate ident) s = rotate_identity_keys ident s"
| "exec E (EvRelay c ttl dest fr) s = relay E c ttl dest fr s"
| "exec E EvHeartbeats s = check_heartbeat_timeouts E s"
| "exec E EvCleanup s = cleanup_stale_pending E s"
| "exec E (EvRegisterHandler hnd) s = register_handler hnd s"
| "exec E (EvRegisterConnectorHandler hnd) s = register_handler_from_connector hnd s"
| "exec E (EvRegisterConnector sch ops) s = register_connector sch ops s"
| "exec E (EvSchemePriority l) s = set_scheme_priority l s"
| "exec E EvShutdown s = (case shutdown s of Some s1 \<Rightarrow> s1 | None \<Rightarrow> shutdown_begin s)"

inductive cm_reach :: "cm \<Rightarrow> bool" where
  start: "cm_reach (cm_init b ident cfg)"
| step: "cm_reach s \<Longrightarrow> env_ok E \<Longrightarrow> next_id s \<noteq> - 1 \<Longrightarrow> cm_reach (exec E ev s)"

subsection \<open>The invariant holds in every reachable state\<close>

lemma cm_inv_init: "cm_inv (cm_init b ident cfg)"
  by (simp add: cm_inv_def cm_init_def rcu_find_def)

lemma cm_inv_enqueue: "cm_inv s \<Longrightarrow> cm_inv (snd (enqueue_pending E k t p s))"
  by (simp add: enqueue_pending_def Let_def cm_inv_irrelevant(3))

lemma cm_inv_send_uri:
  assumes inv: "cm_inv s"
  shows "cm_inv (snd (send_uri E uri t p s))"
proof -
  have e: "cm_inv s1" if "enqueue_pending E k t p s = (ok, s1)" for k ok s1
    using cm_inv_enqueue [OF inv, of E k t p] that by simp
  show ?thesis
    using inv cm_inv_quiet(2,8,13) [OF inv] cm_inv_quiet(16) cm_inv_enqueue [OF inv]
    by (auto simp: send_uri_def dest: e split: option.splits prod.splits)
qed

lemma cm_inv_rekey: "cm_inv s \<Longrightarrow> cm_inv (snd (rekey_session E c s))"
  by (auto simp: rekey_session_def ishape_def intro!: cm_inv_upd_rec_keep split: option.splits)

lemma cm_inv_cleanup: "cm_inv s \<Longrightarrow> cm_inv (cleanup_stale_pending E s)"
  unfolding cleanup_stale_pending_def Let_def
  by (rule cm_inv_foldl) (simp_all add: drop_stale_def Let_def cm_inv_irrelevant(3) split: option.splits)

lemma cm_inv_register_handler: "cm_inv s \<Longrightarrow> cm_inv (register_handler_internal hnd src s)"
proof -
  assume inv: "cm_inv s"
  have "cm_inv (foldl (\<lambda>s t. upd_bus (\<lambda>b. snd (subscribe t n hnd pr b)) s) s ts)" for n pr ts
    by (rule cm_inv_foldl [OF cm_inv_quiet(1) inv])
  then show ?thesis
    using inv cm_inv_irrelevant(5) [OF cm_inv_quiet(1) [OF inv]] cm_inv_irrelevant(5)
    unfolding register_handler_internal_def Let_def
    by (auto split: option.splits)
qed

lemma cm_inv_exec:
  assumes env: "env_ok E" and inv: "cm_inv s" and n: "next_id s \<noteq> - 1"
  shows "cm_inv (exec E ev s)"
proof (cases ev)
  case (EvSendId c t p)
  then show ?thesis using inv cm_inv_quiet(8) [OF inv] by (auto simp: send_id_def)
next
  case EvShutdown
  have "cm_inv (shutdown_begin s)" using inv by (simp add: shutdown_begin_def cm_inv_irrelevant)
  then show ?thesis
    using EvShutdown by (auto simp: shutdown_def Let_def intro: cm_inv_quiet)
qed (use cm_inv_connect [OF inv n] cm_inv_handle_data [OF env inv] cm_inv_disconnect [OF env inv]
    cm_inv_add_transport [OF inv n] cm_inv_send_uri [OF inv] cm_inv_rekey [OF inv] cm_inv_cleanup [OF inv]
    cm_inv_register_handler [OF inv] cm_inv_irrelevant [OF inv] cm_inv_quiet [OF inv]
    in \<open>simp_all add: rotate_identity_keys_def register_handler_def register_handler_from_connector_def
      register_connector_def set_scheme_priority_def\<close>)

lemma cm_reach_inv: "cm_reach s \<Longrightarrow> cm_inv s"
  by (induction rule: cm_reach.induct) (auto intro: cm_inv_init cm_inv_exec)

end
