(* ===== verification/CM_Stable.thy ===== *)
theory CM_Stable
  imports CM_Invariant
begin

section \<open>Predicates that receiving a packet keeps\<close>

text \<open>
  The locale \<open>deliver_stable\<close> is the contract of a predicate on the state that survives the
  delivery of a user packet: it does not depend on counters, queues and the call log, on the
  session, the handshake and the peer data of a record, and on the relay fingerprints.
  \<open>receive_stable\<close> adds what the handshake changes: the public-key index, the pending messages
  that are sent out, and the removal of a duplicate connection. Under this contract
  \<open>dispatch_packet\<close> with all its handlers keeps the predicate, and under \<open>data_stable\<close> so does
  \<open>handle_data\<close>. The contracts are interpreted
  for the presence of a connection, for the content of a receive buffer and for the limit of the
  pending queues.
\<close>

definition rkeep where
  "rkeep (r :: connection_record) = (c_id r, c_recv_buf r, c_remote r, c_is_localhost r, c_is_initiator r,
     map tp_id (c_transport_paths r))"

lemma handlers_keepD:
  assumes "handlers_keep I E" "I s"
  shows "I (e_message E h hdr ep d s)" "I (snd (e_result E h hdr t s))" "I (e_conn_state E h u st s)"
  using assms by (simp_all add: handlers_keep_def)

locale deliver_stable =
  fixes P :: "cm \<Rightarrow> bool"
  assumes P_shape: "shape_cm s' = shape_cm s \<Longrightarrow> P s \<Longrightarrow> P s'"
    and P_rec: "(\<And>r. rkeep (f r) = rkeep r) \<Longrightarrow> P s \<Longrightarrow> P (upd_rec c f s)"
    and P_dedup: "P s \<Longrightarrow> P (s\<lparr> relay_dedup := d \<rparr>)"
    and P_flight: "P s \<Longrightarrow> P (s\<lparr> in_flight := n \<rparr>)"
begin

lemmas quiet =
  shape_simple [THEN P_shape] shape_send_frame [THEN P_shape] shape_close_now [THEN P_shape]
  shape_schedule [THEN P_shape] shape_relay [THEN P_shape] shape_handle_heartbeat [THEN P_shape]
  shape_send_chunks [THEN P_shape] shape_broadcast [THEN P_shape] shape_disconnect [THEN P_shape]
  shape_cm_connect [THEN P_shape] shape_check_heartbeat_timeouts [THEN P_shape]
  shape_shutdown_close [THEN P_shape]

lemma P_foldl: "(\<And>x s. P s \<Longrightarrow> P (f s x)) \<Longrightarrow> P s \<Longrightarrow> P (foldl f s xs)"
  by (induction xs arbitrary: s) auto

lemma P_call_handler:
  assumes h: "handlers_keep P E" and s: "P s"
  shows "P (snd (call_handler E hdr ep d hnd n s))"
proof -
  have "P (e_message E hnd hdr ep d (ext x s))" for x by (intro handlers_keepD(1) [OF h] quiet(4) s)
  moreover have "P (snd (e_result E hnd hdr t (ext x s1)))" if "P s1" for x t s1
    by (intro handlers_keepD(2) [OF h] quiet(4) that)
  ultimately show ?thesis using s by (simp add: call_handler_def Let_def)
qed

lemma P_deliver:
  assumes h: "handlers_keep P E" and s: "P s"
  shows "P (deliver E c hdr d ts r s)"
proof -
  let ?call = "call_handler E hdr ((c_remote r)\<lparr> ep_peer_id := c \<rparr>) d"
  obtain res s1 where b: "bus_dispatch bus ?call (ucast (payload_type hdr)) s = (res, s1)" by fastforce
  have "P (snd (bus_dispatch bus ?call (ucast (payload_type hdr)) s))"
    by (rule bus_dispatch_inv [of P]) (use s P_call_handler [OF h] in auto)
  then have "P s1" using b by simp
  then have s2: "P (upd_bus g s1)" for g by (rule quiet(1))
  have "P (upd_rec c (\<lambda>r. r\<lparr> c_affinity_plugin := x \<rparr>) (upd_bus g s1))" for x g
    by (rule P_rec [OF _ s2]) (simp add: rkeep_def)
  then show ?thesis
    using b s2 by (simp add: deliver_def Let_def quiet(2,3))
qed

lemma P_relay_seen: "P s \<Longrightarrow> relay_seen E ih s = (b, s1) \<Longrightarrow> P s1"
  by (auto simp: relay_seen_def Let_def intro: P_dedup split: if_splits)

lemma P_relay_decide:
  assumes "P s"
  shows "relay_decide E c p s = Inl s1 \<Longrightarrow> P s1" "relay_decide E c p s = Inr (ih, ip, s1) \<Longrightarrow> P s1"
proof -
  obtain b s2 where b: "relay_seen E (header_dec (drop 33 p)) s = (b, s2)" by fastforce
  note s2 = P_relay_seen [OF assms b]
  show "relay_decide E c p s = Inl s1 \<Longrightarrow> P s1" "relay_decide E c p s = Inr (ih, ip, s1) \<Longrightarrow> P s1"
    using assms s2 b by (cases b; auto simp: relay_decide_def Let_def intro: quiet split: if_splits)+
qed

lemma P_open_packet:
  assumes "P s"
  shows "open_packet E c hdr p r s = Inl s1 \<Longrightarrow> P s1" "open_packet E c hdr p r s = Inr (pl, s1) \<Longrightarrow> P s1"
  using assms by (auto simp: open_packet_def Let_def rkeep_def intro!: P_rec intro: quiet
      split: option.splits prod.splits if_splits)

lemma P_dispatch_user:
  assumes h: "handlers_keep P E" and s: "P s"
    and t: "payload_type hdr \<noteq> 1" "payload_type hdr \<noteq> 2" "payload_type hdr \<noteq> 3" "payload_type hdr \<noteq> 10"
  shows "P (dispatch_packet E c hdr p ts s)"
proof -
  let ?s = "dispatch_enter s"
  have s0: "P ?s" using s by (simp add: dispatch_enter_def P_flight)
  obtain s1 where st: "dispatch_step E c hdr p ts ?s = Inl s1" and s1: "P s1"
  proof (cases "\<exists>r pl s1. rcu_find s c = Some r \<and> c_state r = STATE_ESTABLISHED \<and> open_packet E c hdr p r ?s = Inr (pl, s1)")
    case True
    then obtain r pl s1 where o: "rcu_find s c = Some r" "c_state r = STATE_ESTABLISHED" "open_packet E c hdr p r ?s = Inr (pl, s1)"
      by blast
    define s2 where "s2 = cm_stat RxPacket 1 c (cm_stat RxBytes (word_of_nat (length p)) c s1)"
    have s2: "P s2" unfolding s2_def by (intro quiet(2) P_open_packet(2) [OF s0 o(3)])
    have "dispatch_step E c hdr p ts ?s = Inl (if payload_type hdr = 4 then handle_heartbeat E c pl s2 else deliver E c hdr pl ts r s2)"
      using o t by (simp add: dispatch_step_def wire_consts s2_def)
    then show ?thesis using that P_deliver [OF h s2] quiet(12) [OF s2] by auto
  next
    case False
    have "\<exists>why s1. dispatch_step E c hdr p ts ?s = Inl s1 \<and> (s1 = cm_drop c why ?s \<or> (\<exists>r. open_packet E c hdr p r ?s = Inl s1))"
      using False t by (auto simp: dispatch_step_def wire_consts split: option.splits sum.splits)
    then show ?thesis using that quiet(3) [OF s0] P_open_packet(1) [OF s0] by metis
  qed
  have "P (dispatch_leave s1)" using s1 by (simp add: dispatch_leave_def P_flight)
  then show ?thesis using st by (subst dispatch_packet.simps) simp
qed

end

text \<open>The handshake and the relay change more: the connection may be removed as a duplicate.\<close>

locale receive_stable = deliver_stable +
  assumes P_drop: "P s \<Longrightarrow> P (s\<lparr> records := erase c (records s), send_queues := q, uri_index := u \<rparr>)"
    and P_pk: "P s \<Longrightarrow> P (s\<lparr> pk_index := pk \<rparr>)"
    and P_sent: "P s \<Longrightarrow> P (s\<lparr> pending_messages := erase k (pending_messages s) \<rparr>)"
begin

lemma P_set_handshake: "P s \<Longrightarrow> P (set_handshake c hs s)"
  by (simp add: set_handshake_def P_rec rkeep_def)

lemma P_write_message: "P s \<Longrightarrow> cm_write_message E c p hs s = (m, s1) \<Longrightarrow> P s1"
  by (auto simp: cm_write_message_def intro: P_set_handshake quiet split: prod.splits)

lemma P_process_payload: "P s \<Longrightarrow> process_handshake_payload E c d s = (b, s1) \<Longrightarrow> P s1"
proof -
  have "rkeep (adopt_peer x hp r) = rkeep r" for x hp r
  proof -
    have "c_recv_buf (adopt_peer x hp r) = c_recv_buf r" "c_remote (adopt_peer x hp r) = c_remote r"
      by (simp_all add: adopt_peer_def upd_path_def Let_def)
    then show ?thesis by (simp add: rkeep_def)
  qed
  then show "P s \<Longrightarrow> process_handshake_payload E c d s = (b, s1) \<Longrightarrow> P s1"
    by (auto simp: process_handshake_payload_def Let_def intro: P_rec quiet split: if_splits option.splits)
qed

lemma P_notify: "handlers_keep P E \<Longrightarrow> P s \<Longrightarrow> P (notify_handlers E u st s)"
  unfolding notify_handlers_def by (rule P_foldl) (auto dest: handlers_keepD(3) intro: quiet(4))

lemma P_flush_pending: "P s \<Longrightarrow> P (flush_pending_messages E u c s)"
  by (auto simp: flush_pending_messages_def intro!: P_foldl P_sent intro: quiet split: option.splits)

lemma P_drop_duplicate: "P s \<Longrightarrow> P (drop_duplicate c r s)"
  by (auto simp: drop_duplicate_def Let_def intro: P_drop quiet)

lemma P_establish: "P s \<Longrightarrow> P (establish E c r hs s)"
  by (auto simp: establish_def Let_def rkeep_def intro!: P_pk P_rec)

lemma P_finalize:
  assumes h: "handlers_keep P E" and s: "P s"
  shows "P (finalize_handshake E c s)"
proof -
  have "P (cm_stat k v d (notify_handlers E u st (flush_pending_messages E x c (establish E c r hs s))))" for k v d u st x r hs
    by (intro quiet(2) P_notify [OF h] P_flush_pending P_establish s)
  then have "P (upd_bus g (cm_stat k v d (notify_handlers E u st (flush_pending_messages E x c (establish E c r hs s)))))"
    for g k v d u st x r hs by (rule quiet(1))
  then show ?thesis
    using s P_drop_duplicate [OF s] by (auto simp: finalize_handshake_def Let_def intro: quiet split: option.splits)
qed

lemma P_noise_init: "P s \<Longrightarrow> P (handle_noise_init E c p s)"
  by (auto simp: handle_noise_init_def Let_def intro: quiet P_set_handshake dest: P_write_message [rotated]
      split: option.splits prod.splits)

lemma P_reply_fin:
  assumes h: "handlers_keep P E" and s: "P s"
  shows "P (case cm_write_message E c pl hs s of
      (None, s2) \<Rightarrow> close_now c s2
    | (Some m, s2) \<Rightarrow> finalize_handshake E c (send_frame E c t m s2))"
proof -
  obtain m s2 where w: "cm_write_message E c pl hs s = (m, s2)" by fastforce
  note s2 = P_write_message [OF s w]
  show ?thesis
    unfolding w by (cases m) (simp_all add: quiet(9) [OF s2] P_finalize [OF h quiet(8) [OF s2]])
qed

lemma P_noise_resp:
  assumes h: "handlers_keep P E" and s: "P s"
  shows "P (handle_noise_resp E c p s)"
proof -
  have "P (case process_handshake_payload E c d (set_handshake c hs1 s) of
      (False, s1) \<Rightarrow> close_now c s1
    | (True, s1) \<Rightarrow> (case cm_write_message E c (build_handshake_payload E s1) hs1 s1 of
          (None, s2) \<Rightarrow> close_now c s2
        | (Some m, s2) \<Rightarrow> finalize_handshake E c (send_frame E c MSG_TYPE_NOISE_FIN m s2)))" for d hs1
  proof -
    obtain b s1 where pr: "process_handshake_payload E c d (set_handshake c hs1 s) = (b, s1)" by fastforce
    note s1 = P_process_payload [OF P_set_handshake [OF s] pr]
    show ?thesis
      unfolding pr using quiet(9) [OF s1] P_reply_fin [OF h s1] by (cases b) simp_all
  qed
  note answered = this
  have refused: "P (close_now c (cm_drop c AuthFail (set_handshake c hs1 s)))" for hs1
    by (intro quiet(9,3) P_set_handshake s)
  show ?thesis
  proof (cases "\<exists>r hs. rcu_find s c = Some r \<and> c_handshake r = Some hs \<and> hs_initiator hs")
    case False
    then have "handle_noise_resp E c p s = s" by (auto simp: handle_noise_resp_def split: option.split)
    then show ?thesis using s by simp
  next
    case True
    then obtain r hs where r: "rcu_find s c = Some r" "c_handshake r = Some hs" "hs_initiator hs" by blast
    obtain res hs1 where "read_message (e_sodium E) p hs = (res, hs1)" by fastforce
    then show ?thesis using r answered refused by (cases res) (simp_all add: handle_noise_resp_def)
  qed
qed

lemma P_noise_fin:
  assumes h: "handlers_keep P E" and s: "P s"
  shows "P (handle_noise_fin E c p s)"
proof (cases "\<exists>r hs. rcu_find s c = Some r \<and> c_handshake r = Some hs \<and> \<not> hs_initiator hs")
  case False
  then have "handle_noise_fin E c p s = s" by (auto simp: handle_noise_fin_def split: option.split)
  then show ?thesis using s by simp
next
  case True
  then obtain r hs where r: "rcu_find s c = Some r" "c_handshake r = Some hs" "\<not> hs_initiator hs" by blast
  obtain res hs1 where rd: "read_message (e_sodium E) p hs = (res, hs1)" by fastforce
  note s0 = P_set_handshake [OF s, of c hs1]
  show ?thesis
  proof (cases res)
    case None
    then show ?thesis using r rd quiet(9) [OF quiet(3) [OF s0]] by (simp add: handle_noise_fin_def)
  next
    case (Some d)
    obtain b s1 where pr: "process_handshake_payload E c d (set_handshake c hs1 s) = (b, s1)" by fastforce
    note s1 = P_process_payload [OF s0 pr]
    show ?thesis using r rd Some pr quiet(9) [OF s1] P_finalize [OF h s1]
      by (cases b) (simp_all add: handle_noise_fin_def)
  qed
qed

lemma P_dispatch_step:
  assumes h: "handlers_keep P E" and s: "P s" and x: "dispatch_step E c hdr p ts s = x"
  shows "case x of Inl s1 \<Rightarrow> P s1 | Inr (_, _, s1) \<Rightarrow> P s1"
  using x
proof (cases rule: dispatch_stepE)
  case (6 r pl s1 s2)
  have s2: "P s2" unfolding 6(4) by (intro quiet(2) P_open_packet(2) [OF s 6(3)])
  show ?thesis
    using 6(5) P_relay_decide [OF s2] P_deliver [OF h s2] quiet(12) [OF s2] by (auto split: sum.splits)
qed (use P_noise_init [OF s] P_noise_resp [OF h s] P_noise_fin [OF h s] quiet(3) [OF s] P_open_packet(1) [OF s] in auto)

lemma P_dispatch:
  assumes "handlers_keep P E" "P s"
  shows "P (dispatch_packet E c hdr p ts s)"
  using assms
proof (induction E c hdr p ts s rule: dispatch_packet.induct)
  case (1 E c hdr p ts s)
  have leave: "P (dispatch_leave x)" if "P x" for x using that by (simp add: dispatch_leave_def P_flight)
  have enter: "P (dispatch_enter s)" using 1(3) by (simp add: dispatch_enter_def P_flight)
  note st = P_dispatch_step [OF 1(2) enter refl, of c hdr p ts]
  show ?case
    using st 1(1,2) leave by (subst dispatch_packet.simps) (auto split: sum.splits prod.splits)
qed

end

text \<open>A predicate that does not read the receive buffers survives \<open>handle_data\<close> as well.\<close>

locale data_stable = receive_stable +
  assumes P_buf: "P s \<Longrightarrow> P (upd_rec c (\<lambda>r. r\<lparr> c_recv_buf := g r \<rparr>) s)"
begin

lemma P_data_loop: "handlers_keep P E \<Longrightarrow> P s \<Longrightarrow> data_loop E c ts rest used s = (b, n, s1) \<Longrightarrow> P s1"
proof (induction E c ts rest used s rule: data_loop.induct)
  case (1 E c ts rest used s)
  let ?hdr = "header_dec rest"
  let ?s1 = "dispatch_packet E c ?hdr (take (unat (payload_len ?hdr)) (drop HDR rest)) ts s"
  have d: "P ?s1" by (rule P_dispatch [OF 1(2,3)])
  have q: "P (close_now c (cm_drop c why s))" for why by (intro quiet(3,9) 1(3))
  show ?case
    using 1(4) d q 1(3) 1(1) [OF _ refl _ _ refl _ refl _ 1(2) d]
    by (subst (asm) data_loop.simps) (auto simp: Let_def split: if_splits)
qed

lemma P_handle_data:
  assumes h: "handlers_keep P E" and s: "P s"
  shows "P (handle_data E c raw s)"
proof -
  have "P s2" if "data_loop E p ts buf 0 (upd_rec p (\<lambda>r. r\<lparr> c_recv_buf := buf \<rparr>) s) = (b, n, s2)" for p ts buf b n s2
    by (rule P_data_loop [OF h P_buf [OF s] that])
  moreover have "P (close_now p (cm_drop p why (upd_rec p (\<lambda>r. r\<lparr> c_recv_buf := buf \<rparr>) s)))" for p why buf
    by (intro quiet(3,9) P_buf s)
  ultimately show ?thesis
    using s P_dispatch [OF h s] P_buf
    by (auto simp: handle_data_def Let_def split: option.splits prod.splits bool.splits)
qed

end

subsection \<open>The presence of a connection\<close>

definition present :: "conn_id \<Rightarrow> cm \<Rightarrow> bool" where
  "present c s \<longleftrightarrow> rcu_find s c \<noteq> None"

interpretation live: deliver_stable "present c"
proof unfold_locales
  fix s' s
  assume "shape_cm s' = shape_cm s" "present c s"
  then show "present c s'" using shape_rcu_find(1) [of s' s c] by (auto simp: present_def)
qed (auto simp: present_def rcu_find_def upd_rec_def)

subsection \<open>The receive buffer\<close>

definition recv_view :: "conn_id \<Rightarrow> bytes \<Rightarrow> cm \<Rightarrow> bool" where
  "recv_view c b s \<longleftrightarrow> (\<forall>r. rcu_find s c = Some r \<longrightarrow> c_recv_buf r = b)
     \<and> map_of (transport_index s) c = None \<and> \<not> shutting_down s"

lemma recv_view_shape: "shape_cm s' = shape_cm s \<Longrightarrow> recv_view c b s \<Longrightarrow> recv_view c b s'"
  using shape_fields(3,6) [of s' s]
  by (auto simp: recv_view_def shape_def elim!: shape_find_Some)

interpretation buf: receive_stable "recv_view c b"
proof unfold_locales
  fix f s d
  assume keep: "\<And>r. rkeep (f r) = rkeep r" and s: "recv_view c b s"
  have "c_recv_buf (f r) = c_recv_buf r" for r using keep [of r] by (simp add: rkeep_def)
  with s show "recv_view c b (upd_rec d f s)" by (auto simp: recv_view_def)
qed (erule (1) recv_view_shape, auto simp: recv_view_def rcu_find_def split: if_splits)

subsection \<open>The pending queues\<close>

definition pending_ok :: "cm \<Rightarrow> bool" where
  "pending_ok s \<longleftrightarrow> (\<forall>k q. map_of (pending_messages s) k = Some q \<longrightarrow> length q \<le> PENDING_MAX_PER_URI)"

lemma pending_ok_shape: "shape_cm s' = shape_cm s \<Longrightarrow> pending_ok s \<Longrightarrow> pending_ok s'"
  using shape_fields(10) [of s' s] by (simp add: pending_ok_def)

interpretation pend: data_stable pending_ok
  by unfold_locales (erule (1) pending_ok_shape, auto simp: pending_ok_def split: if_splits)

end
