(* ===== verification/CM_Demo.thy ===== *)
theory CM_Demo
  imports CM_System CM_Stable
begin

section \<open>A concrete node\<close>

text \<open>
  A node with concrete libraries, clocks and connectors, used to show that the hypotheses of the
  properties can hold: connection 1 is established and encrypted, connection 2 is trusted
  (localhost) and connection 3 is in the handshake.
\<close>

definition demo_env :: env where
  "demo_env = \<lparr> e_sodium = toy_sodium, e_zstd = toy_zstd, e_now = 100, e_done = 200, e_system_us = 50,
     e_rand = (\<lambda>n. replicate 32 (word_of_nat (n + 1))), e_hash64 = (\<lambda>x. x), e_send_rc = (\<lambda>_ _. 0),
     e_message = (\<lambda>_ _ _ _ s. s), e_result = (\<lambda>_ _ _ s. (PROPAGATION_CONTINUE, s)),
     e_conn_state = (\<lambda>_ _ _ s. s) \<rparr>"

lemma demo_handlers [simp]: "handlers_keep P demo_env"
  by (simp add: handlers_keep_def demo_env_def)

lemma demo_env_ok [simp]: "env_ok demo_env"
  by (simp add: env_ok_def) (simp add: demo_env_def)

definition demo_key :: "nat \<Rightarrow> bytes" where
  "demo_key n = replicate 32 (word_of_nat n)"

definition demo_identity :: node_identity where
  "demo_identity = \<lparr> user_pubkey = demo_key 1, user_seckey = demo_key 1, device_pubkey = demo_key 2, device_seckey = demo_key 2 \<rparr>"

definition demo_endpoint :: "string \<Rightarrow> u16 \<Rightarrow> endpoint_t" where
  "demo_endpoint a p = no_endpoint\<lparr> ep_address := a, ep_port := p \<rparr>"

definition demo_ops :: connector_ops where
  "demo_ops = \<lparr> co_ident = 1, co_has_send_gather = False, co_has_close = True, co_has_close_now = True \<rparr>"

definition demo_path :: "conn_id \<Rightarrow> string \<Rightarrow> u8 \<Rightarrow> endpoint_t \<Rightarrow> transport_path" where
  "demo_path t sch pr ep = \<lparr> tp_id = t, tp_scheme = sch, tp_priority = pr, tp_remote = ep, tp_active = True,
     tp_last_rtt_us = 0, tp_errors = 0, tp_added_at = 0 \<rparr>"

definition demo_established :: "conn_id \<Rightarrow> nat \<Rightarrow> endpoint_t \<Rightarrow> connection_record" where
  "demo_established c k ep = fresh_record\<lparr> c_id := c, c_state := STATE_ESTABLISHED, c_remote := ep,
     c_negotiated_scheme := ''tcp'', c_peer_schemes := [''tcp''], c_peer_user_pubkey := demo_key k,
     c_peer_device_pubkey := demo_key (k + 1), c_peer_authenticated := True, c_send_packet_id := 1,
     c_session := Some (demo_session [1] [2]), c_transport_paths := [demo_path c ''tcp'' 0 ep] \<rparr>"

definition demo_connecting :: "conn_id \<Rightarrow> endpoint_t \<Rightarrow> connection_record" where
  "demo_connecting c ep = fresh_record\<lparr> c_id := c, c_remote := ep, c_handshake := Some fresh_handshake,
     c_transport_paths := [demo_path c ''tcp'' 0 ep] \<rparr>"

definition demo_cm :: cm where
  "demo_cm = (cm_init fresh_bus demo_identity None)
     \<lparr> records := [(1, demo_established 1 7 (demo_endpoint ''10.0.0.1'' 9000)),
                   (2, (demo_established 2 9 (demo_endpoint ''127.0.0.1'' 9001))
                         \<lparr> c_is_localhost := True, c_localhost_passthrough := True \<rparr>),
                   (3, demo_connecting 3 (demo_endpoint ''10.0.0.3'' 9003))],
       send_queues := [(1, empty_queue), (2, empty_queue), (3, empty_queue)], next_id := 4,
       connectors := [(''tcp'', demo_ops)],
       uri_index := [(''10.0.0.1:9000'', 1), (''127.0.0.1:9001'', 2), (''10.0.0.3:9003'', 3)],
       pk_index := [(bytes_to_hex (demo_key 7), 1), (bytes_to_hex (demo_key 9), 2)] \<rparr>"

lemma demo_find [simp]:
  "rcu_find demo_cm 1 = Some (demo_established 1 7 (demo_endpoint ''10.0.0.1'' 9000))"
  "rcu_find demo_cm 2 = Some ((demo_established 2 9 (demo_endpoint ''127.0.0.1'' 9001))
     \<lparr> c_is_localhost := True, c_localhost_passthrough := True \<rparr>)"
  "rcu_find demo_cm 3 = Some (demo_connecting 3 (demo_endpoint ''10.0.0.3'' 9003))"
  by (simp_all add: rcu_find_def demo_cm_def)

lemma demo_cm_fields [simp]:
  "transport_index demo_cm = []" "shutting_down demo_cm = False" "connectors demo_cm = [(''tcp'', demo_ops)]"
  "scheme_priority demo_cm = [''tcp'', ''ice'']" "handler_entries demo_cm = []" "pending_messages demo_cm = []"
  "config demo_cm = None" "identity demo_cm = demo_identity" "bus demo_cm = fresh_bus"
  "send_queues demo_cm = [(1, empty_queue), (2, empty_queue), (3, empty_queue)]" "next_id demo_cm = 4"
  "relay_dedup demo_cm = []" "ext_calls demo_cm = []" "in_flight demo_cm = 0"
  "pk_index demo_cm = [(bytes_to_hex (demo_key 7), 1), (bytes_to_hex (demo_key 9), 2)]"
  "uri_index demo_cm = [(''10.0.0.1:9000'', 1), (''127.0.0.1:9001'', 2), (''10.0.0.3:9003'', 3)]"
  by (simp_all add: demo_cm_def cm_init_def)


definition demo_frame :: "u16 \<Rightarrow> u64 \<Rightarrow> bytes \<Rightarrow> bytes" where
  "demo_frame t pid p = header_enc \<lparr> magic = GNET_MAGIC, proto_ver = GNET_PROTO_VER, hflags = GNET_FLAG_TRUSTED,
     payload_type = t, payload_len = word_of_nat (length p), packet_id = pid \<rparr> @ p"

lemma demo_rcu_find:
  "rcu_find demo_cm c = (if c = 1 then Some (demo_established 1 7 (demo_endpoint ''10.0.0.1'' 9000))
     else if c = 2 then Some ((demo_established 2 9 (demo_endpoint ''127.0.0.1'' 9001))
       \<lparr> c_is_localhost := True, c_localhost_passthrough := True \<rparr>)
     else if c = 3 then Some (demo_connecting 3 (demo_endpoint ''10.0.0.3'' 9003)) else None)"
  by (simp add: rcu_find_def demo_cm_def)

lemma demo_rec_ok:
  "rec_ok (demo_established c k ep)" "rec_ok ((demo_established c k ep)\<lparr> c_is_localhost := True, c_localhost_passthrough := True \<rparr>)"
  "rec_ok (demo_connecting c ep)"
  by (simp_all add: rec_ok_def demo_established_def demo_connecting_def demo_path_def demo_key_def fresh_record_def
      fresh_handshake_def hs_wf_def zero_key_def DHLEN_def)

lemma demo_fields [simp]:
  "c_id (demo_established c k ep) = c" "c_state (demo_established c k ep) = STATE_ESTABLISHED"
  "c_remote (demo_established c k ep) = ep" "c_peer_user_pubkey (demo_established c k ep) = demo_key k"
  "c_session (demo_established c k ep) = Some (demo_session [1] [2])" "c_recv_buf (demo_established c k ep) = []"
  "c_is_localhost (demo_established c k ep) = False" "c_localhost_passthrough (demo_established c k ep) = False"
  "c_transport_paths (demo_established c k ep) = [demo_path c ''tcp'' 0 ep]"
  "c_peer_authenticated (demo_established c k ep) = True" "c_send_packet_id (demo_established c k ep) = 1"
  "c_id (demo_connecting c ep) = c" "c_state (demo_connecting c ep) = STATE_NOISE_HANDSHAKE"
  "c_remote (demo_connecting c ep) = ep" "c_session (demo_connecting c ep) = None"
  "c_handshake (demo_connecting c ep) = Some fresh_handshake" "c_recv_buf (demo_connecting c ep) = []"
  "c_transport_paths (demo_connecting c ep) = [demo_path c ''tcp'' 0 ep]"
  by (simp_all add: demo_established_def demo_connecting_def fresh_record_def)

lemma demo_records: "map fst (records demo_cm) = [1, 2, 3]"
  by (simp add: demo_cm_def)

lemma demo_cm_inv: "cm_inv demo_cm"
proof (rule cm_invI)
  fix c r
  assume "rcu_find demo_cm c = Some r"
  then show "c_id r = c \<and> c \<noteq> 0 \<and> c < next_id demo_cm \<and> rec_ok r
      \<and> (\<forall>t \<in> set (secondary r). map_of (transport_index demo_cm) t = Some c)"
    using demo_rec_ok by (auto simp: demo_rcu_find secondary_def split: if_splits)
qed (auto simp: demo_records demo_rcu_find split: if_splits)

definition demo_multi :: cm where
  "demo_multi = snd (handle_add_transport demo_env (bytes_to_hex (demo_key 7)) (demo_endpoint ''198.51.100.7'' 7000) ''ice'' demo_cm)"

lemma demo_multi_index: "cm_inv demo_multi" "map_of (transport_index demo_multi) 4 = Some 1"
proof -
  show "cm_inv demo_multi"
    unfolding demo_multi_def by (rule cm_inv_add_transport) (simp_all add: demo_cm_inv)
  show "map_of (transport_index demo_multi) 4 = Some 1"
    by (simp add: demo_multi_def handle_add_transport_def find_conn_by_pubkey_def CONN_ID_INVALID_def
        find_path_def demo_path_def upd_bus_def Let_def)
qed

end
