(* ===== verification/CM_Receive.thy ===== *)
theory CM_Receive
  imports CM_Demo
begin

section \<open>Reassembly of the byte stream\<close>

text \<open>
  The reference definition \<open>split_stream\<close> cuts a byte stream into frames; \<open>handle_data\<close>,
  with its fast path for whole frames and its buffer for fragments, dispatches exactly the frames
  of the stream, whatever the fragmentation.
\<close>

function split_stream :: "bytes \<Rightarrow> (header_t \<times> bytes) list \<times> bytes \<times> bool" where
  "split_stream b =
     (if length b < HDR then ([], b, True)
      else
        (let hdr = header_dec b; len = unat (payload_len hdr)
         in if magic hdr \<noteq> GNET_MAGIC \<or> proto_ver hdr \<noteq> GNET_PROTO_VER then ([], b, False)
            else if length b < HDR + len then ([], b, True)
            else (let (fs, rest, ok) = split_stream (drop (HDR + len) b)
                  in ((hdr, take len (drop HDR b)) # fs, rest, ok))))"
  by pat_completeness auto
termination
  by (relation "measure length") (auto simp: HDR_def)

declare split_stream.simps [simp del]

fun run_frames :: "env \<Rightarrow> conn_id \<Rightarrow> u64 \<Rightarrow> (header_t \<times> bytes) list \<Rightarrow> cm \<Rightarrow> bool \<times> cm" where
  "run_frames E c ts [] s = (True, s)"
| "run_frames E c ts ((hdr, p) # fs) s =
     (let s1 = dispatch_packet E c hdr p ts s
      in if rcu_find s1 c = None then (False, s1) else run_frames E c ts fs s1)"

inductive fed :: "env \<Rightarrow> conn_id \<Rightarrow> u64 \<Rightarrow> cm \<Rightarrow> (header_t \<times> bytes) list \<Rightarrow> cm \<Rightarrow> bool" for E c ts s where
  fed_start: "fed E c ts s [] s"
| fed_dispatch: "fed E c ts s fs s' \<Longrightarrow> fed E c ts s (fs @ [(hdr, p)]) (dispatch_packet E c hdr p ts s')"
| fed_buffer: "fed E c ts s fs s' \<Longrightarrow> fed E c ts s fs (upd_rec c (\<lambda>r. r\<lparr> c_recv_buf := g r \<rparr>) s')"

fun fits :: "bytes \<Rightarrow> bytes list \<Rightarrow> bool" where
  "fits b [] = True"
| "fits b (raw # chunks) \<longleftrightarrow> length (b @ raw) \<le> MAX_RECV_BUF \<and> fits (fst (snd (split_stream (b @ raw)))) chunks"

subsection \<open>Laws of split\_stream\<close>

lemma header_dec_append: "HDR \<le> length a \<Longrightarrow> header_dec (a @ b) = header_dec a"
proof -
  assume len: "HDR \<le> length a"
  then have "drop n a \<noteq> []" if "n \<le> 5" for n using that by (auto simp: HDR_def)
  then have "get_u8 n (a @ b) = get_u8 n a" if "n \<le> 5" for n
    using that len by (auto simp: get_u8_def HDR_def split: list.splits)
  with len show ?thesis
    by (simp add: header_dec_def get_u32_def get_u16_def get_u64_def get_arr_def HDR_def)
qed

lemma split_stream_append:
  assumes "split_stream a = (fs, rest, True)"
  shows "split_stream (a @ b) = (let (gs, r, ok) = split_stream (rest @ b) in (fs @ gs, r, ok))"
  using assms
proof (induction a arbitrary: fs rule: split_stream.induct)
  case (1 a)
  let ?hdr = "header_dec a"
  let ?tot = "HDR + unat (payload_len ?hdr)"
  show ?case
  proof (cases "HDR \<le> length a \<and> ?tot \<le> length a \<and> magic ?hdr = GNET_MAGIC \<and> proto_ver ?hdr = GNET_PROTO_VER")
    case False
    then have "fs = [] \<and> rest = a"
      using 1(2) by (subst (asm) split_stream.simps) (auto simp: Let_def split: if_splits prod.splits)
    then show ?thesis by (simp split: prod.splits)
  next
    case True
    obtain gs r ok where sp: "split_stream (drop ?tot a) = (gs, r, ok)" by (metis prod_cases3)
    have fs: "fs = (?hdr, take (unat (payload_len ?hdr)) (drop HDR a)) # gs" "r = rest" "ok = True"
      using 1(2) True sp by (subst (asm) split_stream.simps, simp add: Let_def)+
    have "split_stream (drop ?tot a @ b) = (let (gs', r', ok') = split_stream (rest @ b) in (gs @ gs', r', ok'))"
      by (rule 1(1) [OF _ refl refl]) (use True sp fs in auto)
    then show ?thesis
      using True fs(1) header_dec_append [of a b]
      by (subst split_stream.simps) (auto simp: Let_def split: prod.splits)
  qed
qed

lemma split_stream_frame:
  assumes "magic hdr = GNET_MAGIC" "proto_ver hdr = GNET_PROTO_VER" "unat (payload_len hdr) = length p"
  shows "split_stream (header_enc hdr @ p @ rest)
    = (let (fs, r, ok) = split_stream rest in ((hdr, p) # fs, r, ok))"
  by (subst split_stream.simps) (simp add: assms HDR_def Let_def)

lemma split_stream_rest:
  "split_stream b = (fs, rest, ok) \<Longrightarrow> \<exists>used. used \<le> length b \<and> rest = drop used b \<and> (used = 0 \<longleftrightarrow> fs = [])"
proof (induction b arbitrary: fs rest ok rule: split_stream.induct)
  case (1 b)
  let ?tot = "HDR + unat (payload_len (header_dec b))"
  obtain gs r k where sp: "split_stream (drop ?tot b) = (gs, r, k)" by (metis prod_cases3)
  show ?case
  proof (cases "fs = []")
    case True
    then show ?thesis
      using 1(2) by (subst (asm) split_stream.simps) (auto simp: Let_def split: if_splits prod.splits)
  next
    case False
    then have c: "HDR \<le> length b" "?tot \<le> length b" "rest = r"
      "magic (header_dec b) = GNET_MAGIC" "proto_ver (header_dec b) = GNET_PROTO_VER"
      using 1(2) sp by (subst (asm) split_stream.simps, auto simp: Let_def split: if_splits)+
    have "\<exists>used \<le> length (drop ?tot b). r = drop used (drop ?tot b) \<and> (used = 0 \<longleftrightarrow> gs = [])"
      by (rule 1(1) [OF _ refl refl _ _ sp]) (use c in auto)
    then obtain used where "used \<le> length (drop ?tot b)" "r = drop used (drop ?tot b)" by blast
    then have "used + ?tot \<le> length b \<and> rest = drop (used + ?tot) b \<and> (used + ?tot = 0 \<longleftrightarrow> fs = [])"
      using c(2,3) False by (simp add: HDR_def)
    then show ?thesis by (rule exI)
  qed
qed

lemma split_stream_normal: "split_stream b = (fs, rest, True) \<Longrightarrow> split_stream rest = ([], rest, True)"
proof (induction b arbitrary: fs rule: split_stream.induct)
  case (1 b)
  let ?tot = "HDR + unat (payload_len (header_dec b))"
  obtain gs r k where sp: "split_stream (drop ?tot b) = (gs, r, k)" by (metis prod_cases3)
  show ?case
  proof (cases "fs = []")
    case True
    then have "rest = b" using split_stream_rest [OF 1(2)] by auto
    with True 1(2) show ?thesis by simp
  next
    case False
    then have c: "HDR \<le> length b" "?tot \<le> length b" "rest = r" "k"
      "magic (header_dec b) = GNET_MAGIC" "proto_ver (header_dec b) = GNET_PROTO_VER"
      using 1(2) sp by (subst (asm) split_stream.simps, auto simp: Let_def split: if_splits)+
    show ?thesis by (rule 1(1) [OF _ refl refl]) (use c sp in auto)
  qed
qed

lemma split_stream_bad: "split_stream a = (fs, rest, False) \<Longrightarrow> split_stream (a @ b) = (fs, rest @ b, False)"
proof (induction a arbitrary: fs rule: split_stream.induct)
  case (1 a)
  let ?tot = "HDR + unat (payload_len (header_dec a))"
  obtain gs r k where sp: "split_stream (drop ?tot a) = (gs, r, k)" by (metis prod_cases3)
  have len: "HDR \<le> length a"
    using 1(2) by (rule contrapos_pp) (subst split_stream.simps, simp)
  note hdr = header_dec_append [OF len, of b]
  show ?case
  proof (cases "magic (header_dec a) \<noteq> GNET_MAGIC \<or> proto_ver (header_dec a) \<noteq> GNET_PROTO_VER")
    case True
    then show ?thesis
      using 1(2) len hdr by (subst split_stream.simps, subst (asm) split_stream.simps) auto
  next
    case False
    then have c: "?tot \<le> length a" "rest = r" "\<not> k" "fs = (header_dec a, take (unat (payload_len (header_dec a))) (drop HDR a)) # gs"
      using 1(2) sp len by (subst (asm) split_stream.simps, auto simp: Let_def split: if_splits)+
    have "split_stream (drop ?tot a @ b) = (gs, rest @ b, False)"
      by (rule 1(1) [OF _ refl refl]) (use c sp len False in auto)
    then show ?thesis using False len hdr c by (subst split_stream.simps) (auto simp: Let_def)
  qed
qed

subsection \<open>The loop of handle\_data dispatches the frames\<close>

lemma data_loop_frames:
  assumes "split_stream b = (fs, rest, True)" "run_frames E c ts fs s = (alive, s1)"
  shows "\<exists>n. data_loop E c ts b used s = (alive, n, s1) \<and> (alive \<longrightarrow> n = used + length b - length rest)"
  using assms
proof (induction b arbitrary: fs used s rule: split_stream.induct)
  case (1 b)
  let ?hdr = "header_dec b"
  let ?tot = "HDR + unat (payload_len ?hdr)"
  show ?case
  proof (cases "fs = []")
    case True
    then show ?thesis
      using 1(2,3) by (subst data_loop.simps, subst (asm) (2) split_stream.simps) (auto simp: Let_def split: if_splits prod.splits)
  next
    case False
    obtain gs r k where sp: "split_stream (drop ?tot b) = (gs, r, k)" by (metis prod_cases3)
    have c: "HDR \<le> length b" "?tot \<le> length b" "magic ?hdr = GNET_MAGIC" "proto_ver ?hdr = GNET_PROTO_VER"
      "rest = r" "k" "fs = (?hdr, take (unat (payload_len ?hdr)) (drop HDR b)) # gs"
      using 1(2) False sp by (subst (asm) split_stream.simps, auto simp: Let_def split: if_splits)+
    define s0 where "s0 = dispatch_packet E c ?hdr (take (unat (payload_len ?hdr)) (drop HDR b)) ts s"
    show ?thesis
    proof (cases "rcu_find s0 c = None")
      case True
      then show ?thesis
        using 1(3) c by (subst data_loop.simps) (simp add: Let_def s0_def [symmetric])
    next
      case False
      then have run: "run_frames E c ts gs s0 = (alive, s1)"
        using 1(3) unfolding c(7) by (simp add: Let_def s0_def [symmetric] split: if_splits)
      have "\<exists>n. data_loop E c ts (drop ?tot b) (used + ?tot) s0 = (alive, n, s1)
          \<and> (alive \<longrightarrow> n = used + ?tot + length (drop ?tot b) - length rest)"
        by (rule 1(1) [OF _ refl refl _ _ _ run]) (use c sp in auto)
      moreover have "data_loop E c ts b used s = data_loop E c ts (drop ?tot b) (used + ?tot) s0"
        using False c by (subst data_loop.simps) (auto simp: Let_def s0_def [symmetric])
      ultimately show ?thesis using c(2) by (auto simp: add.assoc)
    qed
  qed
qed

lemma run_frames_fed:
  "fed E c ts s0 gs s \<Longrightarrow> run_frames E c ts fs s = (True, s1) \<Longrightarrow> fed E c ts s0 (gs @ fs) s1"
proof (induction fs arbitrary: gs s)
  case (Cons f fs)
  obtain hdr p where f: "f = (hdr, p)" by fastforce
  let ?s = "dispatch_packet E c hdr p ts s"
  have "run_frames E c ts fs ?s = (True, s1)" using Cons.prems(2) f by (simp add: Let_def split: if_splits)
  from Cons.IH [OF fed_dispatch [OF Cons.prems(1), of hdr p] this] f show ?case by simp
qed simp

lemma fed_trans: "fed E c ts s fs s1 \<Longrightarrow> fed E c ts s1 gs s2 \<Longrightarrow> fed E c ts s (fs @ gs) s2"
  by (rotate_tac, induction rule: fed.induct) (auto intro: fed.intros simp flip: append_assoc)

lemma run_frames_view:
  assumes "\<And>b. handlers_keep (recv_view c b) E"
  shows "recv_view c b s \<Longrightarrow> run_frames E c ts fs s = (alive, s1) \<Longrightarrow>
    recv_view c b s1 \<and> (alive \<longrightarrow> fs = [] \<or> rcu_find s1 c \<noteq> None) \<and> (\<not> alive \<longrightarrow> rcu_find s1 c = None)"
proof (induction fs arbitrary: s)
  case (Cons f fs)
  obtain hdr p where f: "f = (hdr, p)" by fastforce
  let ?s = "dispatch_packet E c hdr p ts s"
  have v: "recv_view c b ?s" by (rule buf.P_dispatch [OF assms Cons.prems(1)])
  show ?case
    using Cons.IH [OF v] Cons.prems(2) v f by (auto simp: Let_def split: if_splits)
qed simp

lemma recv_view_buffer:
  "recv_view c b s \<Longrightarrow> recv_view c b' (upd_rec c (\<lambda>r. r\<lparr> c_recv_buf := b' \<rparr>) s)"
  by (auto simp: recv_view_def)

lemma fed_buffer': "fed E c ts s [] (upd_rec c (\<lambda>r. r\<lparr> c_recv_buf := g r \<rparr>) s)"
  by (rule fed_buffer [OF fed_start])

lemma complete_frame_stream:
  assumes "complete_frame raw"
  shows "split_stream raw = ([(header_dec raw, drop HDR raw)], [], True)"
  using assms unfolding complete_frame_def
  by (subst split_stream.simps, subst split_stream.simps) (auto simp: Let_def HDR_def)

lemma handle_data_step:
  assumes h: "\<And>b. handlers_keep (recv_view c b) E" and v: "recv_view c b s"
    and sp: "split_stream (b @ raw) = (fs, rest, True)" and len: "length (b @ raw) \<le> MAX_RECV_BUF"
    and alive: "rcu_find (handle_data E c raw s) c \<noteq> None"
  shows "rcu_find s c \<noteq> None \<and> recv_view c rest (handle_data E c raw s)
    \<and> fed E c (ns_u64 (e_now E)) s fs (handle_data E c raw s)"
proof -
  let ?ts = "ns_u64 (e_now E)"
  have ti: "map_of (transport_index s) c = None" "\<not> shutting_down s" using v by (simp_all add: recv_view_def)
  obtain r where r: "rcu_find s c = Some r"
    using alive ti by (cases "rcu_find s c") (simp_all add: handle_data_def)
  have b: "c_recv_buf r = b" using v r by (simp add: recv_view_def)
  show ?thesis
  proof (cases "b = [] \<and> complete_frame raw")
    case True
    have hd: "handle_data E c raw s = dispatch_packet E c (header_dec raw) (drop HDR raw) ?ts s"
      using True ti r b by (simp add: handle_data_def)
    have fs: "fs = [] @ [(header_dec raw, drop HDR raw)]" "rest = b"
      using sp complete_frame_stream [of raw] True by simp_all
    show ?thesis
      unfolding hd fs using r buf.P_dispatch [OF h v] fed_dispatch [OF fed_start] by blast
  next
    case False
    define s1 where "s1 = upd_rec c (\<lambda>r. r\<lparr> c_recv_buf := b @ raw \<rparr>) s"
    obtain live s2 where run: "run_frames E c ?ts fs s1 = (live, s2)" by fastforce
    obtain n where dl: "data_loop E c ?ts (b @ raw) 0 s1 = (live, n, s2)"
      and n: "live \<longrightarrow> n = length (b @ raw) - length rest"
      using data_loop_frames [OF sp run, of 0] by auto
    have v1: "recv_view c (b @ raw) s1" unfolding s1_def by (rule recv_view_buffer [OF v])
    note v2 = run_frames_view [OF h v1 run]
    have hd: "handle_data E c raw s = (if \<not> live \<or> n = 0 then s2
        else upd_rec c (\<lambda>r. r\<lparr> c_recv_buf := drop n (c_recv_buf r) \<rparr>) s2)"
      using False ti r b len dl by (auto simp: handle_data_def Let_def s1_def split: bool.split)
    have live: live using alive hd v2 by (auto split: if_splits)
    obtain u where u: "u \<le> length (b @ raw)" "rest = drop u (b @ raw)" using split_stream_rest [OF sp] by blast
    have "n = u" using n live u(1) unfolding u(2) length_drop by linarith
    then have rest: "rest = drop n (b @ raw)" using u(2) by (simp only:)
    have "fed E c ?ts s ([] @ fs) s2"
      by (rule run_frames_fed) (use run live in \<open>auto simp: s1_def fed_buffer'\<close>)
    then show ?thesis
      using hd live v2 r rest by (auto simp: recv_view_def intro: fed_buffer)
  qed
qed

lemma handle_data_gone:
  "recv_view c b s \<Longrightarrow> rcu_find s c = None \<Longrightarrow> handle_data E c raw s = s"
  by (simp add: recv_view_def handle_data_def)

lemma handle_data_all_gone:
  "recv_view c b s \<Longrightarrow> rcu_find s c = None \<Longrightarrow> foldl (\<lambda>s raw. handle_data E c raw s) s chunks = s"
  by (induction chunks) (simp_all add: handle_data_gone)

lemma handle_data_view_gone:
  assumes h: "\<And>b. handlers_keep (recv_view c b) E" and v: "recv_view c b s"
    and sp: "split_stream (b @ raw) = (fs, rest, True)" and len: "length (b @ raw) \<le> MAX_RECV_BUF"
    and gone: "rcu_find (handle_data E c raw s) c = None"
  shows "\<exists>b'. recv_view c b' (handle_data E c raw s)"
proof (cases "rcu_find s c")
  case None
  then show ?thesis using handle_data_gone [OF v] v by auto
next
  case (Some r)
  let ?ts = "ns_u64 (e_now E)"
  have b: "c_recv_buf r = b" "map_of (transport_index s) c = None" "\<not> shutting_down s"
    using v Some by (simp_all add: recv_view_def)
  define s1 where "s1 = upd_rec c (\<lambda>r. r\<lparr> c_recv_buf := b @ raw \<rparr>) s"
  obtain live s2 where run: "run_frames E c ?ts fs s1 = (live, s2)" by fastforce
  obtain n where dl: "data_loop E c ?ts (b @ raw) 0 s1 = (live, n, s2)"
    using data_loop_frames [OF sp run, of 0] by auto
  have "recv_view c (b @ raw) s2"
    using run_frames_view [OF h _ run] recv_view_buffer [OF v] by (auto simp: s1_def)
  note v2 = this
  have v3: "recv_view c (drop n (b @ raw)) (upd_rec c (\<lambda>r. r\<lparr> c_recv_buf := drop n (c_recv_buf r) \<rparr>) s2)"
    using v2 by (auto simp: recv_view_def)
  have "handle_data E c raw s = dispatch_packet E c (header_dec raw) (drop HDR raw) ?ts s
      \<or> handle_data E c raw s = s2
      \<or> handle_data E c raw s = upd_rec c (\<lambda>r. r\<lparr> c_recv_buf := drop n (c_recv_buf r) \<rparr>) s2"
    using Some b len dl by (auto simp: handle_data_def Let_def s1_def split: bool.split)
  then show ?thesis
    using buf.P_dispatch [OF h v, of c "header_dec raw" "drop HDR raw" ?ts] v2 v3
    by (elim disjE) (simp_all only:, blast+)
qed

lemma reassembly_stream:
  assumes h: "\<And>b. handlers_keep (recv_view c b) E"
  shows "recv_view c b s \<Longrightarrow> split_stream b = ([], b, True) \<Longrightarrow> fits b chunks \<Longrightarrow>
    split_stream (b @ concat chunks) = (fs, rest, True) \<Longrightarrow>
    rcu_find (foldl (\<lambda>s raw. handle_data E c raw s) s chunks) c \<noteq> None \<Longrightarrow>
    recv_view c rest (foldl (\<lambda>s raw. handle_data E c raw s) s chunks)
    \<and> fed E c (ns_u64 (e_now E)) s fs (foldl (\<lambda>s raw. handle_data E c raw s) s chunks)"
proof (induction chunks arbitrary: b s fs)
  case Nil
  then show ?case by (simp add: fed_start)
next
  case (Cons raw chunks)
  obtain fs1 b1 ok where sp: "split_stream (b @ raw) = (fs1, b1, ok)" by (metis prod_cases3)
  have ok: ok using split_stream_bad [of "b @ raw" fs1 b1 "concat chunks"] sp Cons.prems(4) by (cases ok) auto
  obtain fs2 where fs: "split_stream (b1 @ concat chunks) = (fs2, rest, True)" "fs = fs1 @ fs2"
    using split_stream_append [of "b @ raw" fs1 b1 "concat chunks"] sp ok Cons.prems(4)
    by (auto simp: Let_def split: prod.splits)
  have len: "length (b @ raw) \<le> MAX_RECV_BUF" and fit: "fits b1 chunks" using Cons.prems(3) sp by auto
  let ?s = "handle_data E c raw s"
  have live: "rcu_find ?s c \<noteq> None"
  proof
    assume gone: "rcu_find ?s c = None"
    obtain b' where "recv_view c b' ?s"
      using handle_data_view_gone [OF h Cons.prems(1) _ len gone] sp ok by auto
    from handle_data_all_gone [OF this gone] Cons.prems(5) gone show False by simp
  qed
  note st = handle_data_step [OF h Cons.prems(1) _ len live, of fs1 b1]
  have "recv_view c b1 ?s" "fed E c (ns_u64 (e_now E)) s fs1 ?s" using st sp ok by auto
  with Cons.IH [of b1 ?s fs2] split_stream_normal [of "b @ raw" fs1 b1] sp ok fit fs Cons.prems(5)
  show ?case by (auto intro: fed_trans)
qed

subsection \<open>Streams of frames\<close>

definition frame_bytes :: "header_t \<times> bytes \<Rightarrow> bytes" where
  "frame_bytes f = header_enc (fst f) @ snd f"

definition valid_frame :: "header_t \<times> bytes \<Rightarrow> bool" where
  "valid_frame f \<longleftrightarrow> magic (fst f) = GNET_MAGIC \<and> proto_ver (fst f) = GNET_PROTO_VER
     \<and> unat (payload_len (fst f)) = length (snd f)"

lemma split_stream_frames:
  "list_all valid_frame fs \<Longrightarrow> split_stream (concat (map frame_bytes fs) @ rest)
    = (let (gs, r, ok) = split_stream rest in (fs @ gs, r, ok))"
  by (induction fs) (auto simp: valid_frame_def frame_bytes_def split_stream_frame Let_def split: prod.splits)

lemma split_stream_Nil [simp]: "split_stream [] = ([], [], True)"
  by (subst split_stream.simps) (simp add: HDR_def)

lemma split_stream_short: "length b < HDR \<Longrightarrow> split_stream b = ([], b, True)"
  by (subst split_stream.simps) simp

lemma frame_user_kept:
  assumes h: "\<And>b. handlers_keep (recv_view c b) E" "handlers_keep (present c) E"
    and t: "payload_type hdr \<noteq> 1" "payload_type hdr \<noteq> 2" "payload_type hdr \<noteq> 3" "payload_type hdr \<noteq> 10"
    and s: "recv_view c b s" "rcu_find s c \<noteq> None"
  shows "\<exists>r. rcu_find (dispatch_packet E c hdr p ts s) c = Some r \<and> c_recv_buf r = b"
proof -
  have "present c (dispatch_packet E c hdr p ts s)"
    by (rule live.P_dispatch_user [OF h(2) _ t]) (simp add: present_def s(2))
  then show ?thesis
    using buf.P_dispatch [OF h(1) s(1), of c hdr p ts] by (auto simp: present_def recv_view_def)
qed

lemma bad_magic_step:
  assumes s: "recv_view c b s" "rcu_find s c \<noteq> None" and fit: "length (b @ raw) \<le> MAX_RECV_BUF"
    and buf: "b @ raw = frame_bytes (hdr, p) @ junk" "junk \<noteq> []" and f: "valid_frame (hdr, p)"
    and junk: "HDR \<le> length junk" "magic (header_dec junk) \<noteq> GNET_MAGIC"
    and live: "rcu_find (dispatch_packet E c hdr p (ns_u64 (e_now E)) (upd_rec c (\<lambda>r. r\<lparr> c_recv_buf := b @ raw \<rparr>) s)) c \<noteq> None"
  shows "handle_data E c raw s = close_now c (cm_drop c BadMagic
    (dispatch_packet E c hdr p (ns_u64 (e_now E)) (upd_rec c (\<lambda>r. r\<lparr> c_recv_buf := b @ raw \<rparr>) s)))"
proof -
  let ?ts = "ns_u64 (e_now E)"
  let ?s1 = "upd_rec c (\<lambda>r. r\<lparr> c_recv_buf := b @ raw \<rparr>) s"
  have f': "magic hdr = GNET_MAGIC" "proto_ver hdr = GNET_PROTO_VER" "unat (payload_len hdr) = length p"
    using f by (simp_all add: valid_frame_def)
  obtain r where r: "rcu_find s c = Some r" "c_recv_buf r = b" "map_of (transport_index s) c = None" "\<not> shutting_down s"
    using s by (auto simp: recv_view_def)
  have nc: "\<not> (b = [] \<and> complete_frame raw)"
    using buf f' by (auto simp: complete_frame_def frame_bytes_def HDR_def)
  have "data_loop E c ?ts (b @ raw) 0 ?s1
    = (False, length p + HDR, close_now c (cm_drop c BadMagic (dispatch_packet E c hdr p ?ts ?s1)))"
    unfolding buf frame_bytes_def
    using f' junk live unfolding buf frame_bytes_def
    by (subst data_loop.simps, simp add: HDR_def Let_def, subst data_loop.simps) (auto simp: HDR_def Let_def)
  then show ?thesis
    using r nc fit by (auto simp: handle_data_def Let_def)
qed

definition user_frame :: "header_t \<times> bytes \<Rightarrow> bool" where
  "user_frame f \<longleftrightarrow> payload_type (fst f) \<noteq> 1 \<and> payload_type (fst f) \<noteq> 2 \<and> payload_type (fst f) \<noteq> 3
     \<and> payload_type (fst f) \<noteq> 10"

lemma run_frames_user:
  "handlers_keep (present c) E \<Longrightarrow> list_all user_frame fs \<Longrightarrow> present c s \<Longrightarrow> run_frames E c ts fs s = (b, s1) \<Longrightarrow>
    b \<and> present c s1"
proof (induction fs arbitrary: s)
  case (Cons f fs)
  obtain hdr p where f: "f = (hdr, p)" by fastforce
  have "present c (dispatch_packet E c hdr p ts s)"
    by (rule live.P_dispatch_user) (use Cons.prems f in \<open>auto simp: user_frame_def\<close>)
  with Cons f show ?case by (auto simp: Let_def present_def split: if_splits)
qed simp

lemma handle_data_user:
  assumes h: "\<And>b. handlers_keep (recv_view c b) E" "handlers_keep (present c) E" and v: "recv_view c b s" "present c s"
    and sp: "split_stream (b @ raw) = (fs, rest, True)" "list_all user_frame fs" and len: "length (b @ raw) \<le> MAX_RECV_BUF"
  shows "present c (handle_data E c raw s)" "recv_view c rest (handle_data E c raw s)"
proof -
  let ?ts = "ns_u64 (e_now E)"
  obtain r where r: "rcu_find s c = Some r" "c_recv_buf r = b" "map_of (transport_index s) c = None" "\<not> shutting_down s"
    using v by (auto simp: recv_view_def present_def)
  define s1 where "s1 = upd_rec c (\<lambda>r. r\<lparr> c_recv_buf := b @ raw \<rparr>) s"
  obtain k s2 where run: "run_frames E c ?ts fs s1 = (k, s2)" by fastforce
  have "present c s1" using v(2) by (simp add: s1_def present_def)
  note k = run_frames_user [OF h(2) sp(2) this run]
  obtain n where dl: "data_loop E c ?ts (b @ raw) 0 s1 = (True, n, s2)"
    using data_loop_frames [OF sp(1) run, of 0] k by auto
  show "present c (handle_data E c raw s)"
  proof (cases "b = [] \<and> complete_frame raw")
    case True
    then have "user_frame (header_dec raw, drop HDR raw)" using sp complete_frame_stream [of raw] by auto
    then have "present c (dispatch_packet E c (header_dec raw) (drop HDR raw) ?ts s)"
      using live.P_dispatch_user [OF h(2) v(2)] by (simp add: user_frame_def)
    then show ?thesis using True r by (simp add: handle_data_def)
  next
    case False
    then show ?thesis using r len dl k by (auto simp: handle_data_def Let_def s1_def present_def)
  qed
  then show "recv_view c rest (handle_data E c raw s)"
    using handle_data_step [OF h(1) v(1) sp(1) len] by (simp add: present_def)
qed

subsection \<open>Properties\<close>

text \<open>
  Property C6. However the connector cuts the byte stream into calls of \<open>handle_data\<close>, the
  frames of the stream are dispatched once each and in order, and nothing is left in the buffer,
  as long as the connection is not removed and no call exceeds the buffer limit. (Handlers may do
  anything but feed this connection's receive buffer.)
\<close>

theorem stream_reassembly:
  assumes "\<And>b. handlers_keep (recv_view c b) E" "recv_view c [] s" "list_all valid_frame fs"
    "concat chunks = concat (map frame_bytes fs)" "fits [] chunks"
    "rcu_find (foldl (\<lambda>s raw. handle_data E c raw s) s chunks) c = Some r"
  shows "fed E c (ns_u64 (e_now E)) s fs (foldl (\<lambda>s raw. handle_data E c raw s) s chunks) \<and> c_recv_buf r = []"
  using reassembly_stream [OF assms(1,2), of chunks fs "[]"] split_stream_frames [OF assms(3), of "[]"] assms(4-6)
  by (auto simp: recv_view_def)

definition demo_frames :: "(header_t \<times> bytes) list" where
  "demo_frames = [(mk_header GNET_FLAG_TRUSTED 100 2 1, [5, 6]), (mk_header GNET_FLAG_TRUSTED 101 1 2, [7])]"

lemma demo_frames_valid [simp]: "list_all valid_frame demo_frames" "list_all user_frame demo_frames"
  by (simp_all add: demo_frames_def valid_frame_def user_frame_def mk_header_def)

lemma demo_view [simp]: "recv_view 2 [] demo_cm" "present 2 demo_cm"
  by (simp_all add: recv_view_def present_def demo_established_def fresh_record_def)

lemma demo_split:
  defines "x \<equiv> concat (map frame_bytes demo_frames)"
  shows "length x = 43" "split_stream x = (demo_frames, [], True)" "split_stream (take 7 x) = ([], take 7 x, True)"
proof -
  show len: "length x = 43" by (simp add: x_def demo_frames_def frame_bytes_def)
  show "split_stream x = (demo_frames, [], True)"
    using split_stream_frames [OF demo_frames_valid(1), of "[]"] by (simp add: x_def)
  show "split_stream (take 7 x) = ([], take 7 x, True)"
    by (rule split_stream_short) (simp add: HDR_def len)
qed

theorem stream_reassembly_witness:
  "let x = concat (map frame_bytes demo_frames); chunks = [take 7 x, drop 7 x];
       s = foldl (\<lambda>s raw. handle_data demo_env 2 raw s) demo_cm chunks
   in length x = 43 \<and> (\<exists>r. rcu_find s 2 = Some r \<and> c_recv_buf r = [])
      \<and> fed demo_env 2 (ns_u64 (e_now demo_env)) demo_cm demo_frames s"
proof -
  define x where "x = concat (map frame_bytes demo_frames)"
  note sp = demo_split [folded x_def]
  let ?s1 = "handle_data demo_env 2 (take 7 x) demo_cm"
  let ?s = "foldl (\<lambda>s raw. handle_data demo_env 2 raw s) demo_cm [take 7 x, drop 7 x]"
  have 1: "present 2 ?s1" "recv_view 2 (take 7 x) ?s1"
    using handle_data_user [OF demo_handlers demo_handlers demo_view, of "take 7 x" "[]" "take 7 x"] sp
    by (simp_all add: MAX_RECV_BUF_def)
  have "present 2 (handle_data demo_env 2 (drop 7 x) ?s1)"
    by (rule handle_data_user(1) [OF demo_handlers demo_handlers 1(2,1), of _ demo_frames "[]"])
      (use sp in \<open>simp_all add: MAX_RECV_BUF_def\<close>)
  then obtain r where r: "rcu_find ?s 2 = Some r" by (auto simp: present_def)
  have "fits [] [take 7 x, drop 7 x]" using sp by (simp add: MAX_RECV_BUF_def)
  moreover have "concat [take 7 x, drop 7 x] = concat (map frame_bytes demo_frames)" by (simp add: x_def)
  ultimately have "fed demo_env 2 (ns_u64 (e_now demo_env)) demo_cm demo_frames ?s \<and> c_recv_buf r = []"
    using stream_reassembly [OF demo_handlers demo_view(1) demo_frames_valid(1) _ _ r] by blast
  then show ?thesis
    using r sp(1) unfolding x_def [symmetric] Let_def by blast
qed

text \<open>
  A header with a wrong magic behind a complete frame makes \<open>handle_data\<close> return
  without removing the frame it has dispatched: the frame stays at the front of the receive buffer
  and is dispatched again with the next data of the connection (until the connector has closed it).
\<close>

theorem bad_magic_dispatches_again:
  assumes "\<And>b. handlers_keep (recv_view c b) E" "handlers_keep (present c) E"
    "recv_view c [] s" "rcu_find s c \<noteq> None" "valid_frame (hdr, p)" "user_frame (hdr, p)"
    "HDR \<le> length junk" "magic (header_dec junk) \<noteq> GNET_MAGIC"
    "length (frame_bytes (hdr, p) @ junk @ tail) \<le> MAX_RECV_BUF"
  shows "let ts = ns_u64 (e_now E); all = frame_bytes (hdr, p) @ junk;
             fill = (\<lambda>b s. upd_rec c (\<lambda>r. r\<lparr> c_recv_buf := b \<rparr>) s);
             s1 = handle_data E c all s
         in s1 = close_now c (cm_drop c BadMagic (dispatch_packet E c hdr p ts (fill all s)))
          \<and> map_option c_recv_buf (rcu_find s1 c) = Some all
          \<and> handle_data E c tail s1
              = close_now c (cm_drop c BadMagic (dispatch_packet E c hdr p ts (fill (all @ tail) s1)))"
proof -
  let ?ts = "ns_u64 (e_now E)"
  let ?all = "frame_bytes (hdr, p) @ junk"
  let ?fill = "\<lambda>b s. upd_rec c (\<lambda>r. r\<lparr> c_recv_buf := b \<rparr>) s"
  have t: "payload_type hdr \<noteq> 1" "payload_type hdr \<noteq> 2" "payload_type hdr \<noteq> 3" "payload_type hdr \<noteq> 10"
    using assms(6) by (simp_all add: user_frame_def)
  have kept: "\<exists>r. rcu_find (dispatch_packet E c hdr p ?ts (?fill b x)) c = Some r \<and> c_recv_buf r = b"
    if "recv_view c b' x" "rcu_find x c \<noteq> None" for b b' x
    using frame_user_kept [OF assms(1,2) t recv_view_buffer [OF that(1)], of b p ?ts] that(2) by simp
  have j: "junk \<noteq> []" "junk @ tail \<noteq> []" using assms(7) by (auto simp: HDR_def)
  have 1: "handle_data E c ?all s = close_now c (cm_drop c BadMagic (dispatch_packet E c hdr p ?ts (?fill ?all s)))"
    using bad_magic_step [OF assms(3,4) _ _ j(1) assms(5,7,8), of ?all E] kept [OF assms(3,4), of ?all] assms(9) by auto
  obtain r where r: "rcu_find (dispatch_packet E c hdr p ?ts (?fill ?all s)) c = Some r" "c_recv_buf r = ?all"
    using kept [OF assms(3,4), of ?all] by blast
  let ?s1 = "handle_data E c ?all s"
  have sh: "shape_cm ?s1 = shape_cm (dispatch_packet E c hdr p ?ts (?fill ?all s))" unfolding 1 by simp
  have v: "recv_view c ?all ?s1"
    by (rule recv_view_shape [OF sh]) (rule buf.P_dispatch [OF assms(1) recv_view_buffer [OF assms(3)]])
  have alive: "rcu_find ?s1 c \<noteq> None" using shape_rcu_find(1) [OF sh, of c] r(1) by auto
  have hd: "magic (header_dec (junk @ tail)) \<noteq> GNET_MAGIC" using header_dec_append [OF assms(7), of tail] assms(8) by simp
  have 2: "handle_data E c tail ?s1
      = close_now c (cm_drop c BadMagic (dispatch_packet E c hdr p ?ts (?fill (?all @ tail) ?s1)))"
    using bad_magic_step [OF v alive _ _ j(2) assms(5) _ hd, of tail E] kept [OF v alive, of "?all @ tail"] assms(7,9) by auto
  show ?thesis
    unfolding Let_def using 1 2 v alive by (auto simp: recv_view_def)
qed

theorem bad_magic_dispatches_again_witness:
  "\<exists>hdr p junk. length junk = 20 \<and> frame_bytes (hdr, p) \<noteq> []
     \<and> map_option c_recv_buf (rcu_find (handle_data demo_env 2 (frame_bytes (hdr, p) @ junk) demo_cm) 2)
         = Some (frame_bytes (hdr, p) @ junk)"
proof -
  define f :: "header_t \<times> bytes" where "f = (mk_header GNET_FLAG_TRUSTED 100 2 1, [5, 6])"
  define junk :: bytes where "junk = replicate 20 0"
  have v: "valid_frame f" "user_frame f" "length (frame_bytes f) = 22" "length junk = 20"
    by (simp_all add: f_def junk_def valid_frame_def user_frame_def mk_header_def frame_bytes_def)
  have "magic (header_dec junk) = get_u32 0 junk" by (simp add: header_dec_def)
  also have "\<dots> = 0" by (simp add: junk_def get_u32_def get_arr_def numeral_eq_Suc)
  finally have m: "magic (header_dec junk) \<noteq> GNET_MAGIC" by (simp add: GNET_MAGIC_def)
  have "map_option c_recv_buf (rcu_find (handle_data demo_env 2 (frame_bytes f @ junk) demo_cm) 2) = Some (frame_bytes f @ junk)"
    by (rule bad_magic_dispatches_again [of 2 demo_env demo_cm "fst f" "snd f" junk "[]", unfolded Let_def prod.collapse,
          THEN conjunct2, THEN conjunct1])
      (use v m in \<open>simp_all add: HDR_def MAX_RECV_BUF_def\<close>)
  moreover have "frame_bytes f \<noteq> []" using v(3) by auto
  ultimately show ?thesis using v(4) by (metis prod.collapse)
qed

text \<open>
  A receive buffer that would exceed 16 MB closes the connection: the overflow is
  counted, every path is closed, and nothing of the data is dispatched.
\<close>

theorem recv_overflow_closes:
  assumes "recv_view c b s" "rcu_find s c = Some r" "MAX_RECV_BUF < length (b @ raw)" "b \<noteq> []"
  shows "handle_data E c raw s = close_now c (cm_drop c RecvBufOverflow (upd_rec c (\<lambda>r. r\<lparr> c_recv_buf := b @ raw \<rparr>) s))"
  using assms by (auto simp: recv_view_def handle_data_def Let_def)

theorem recv_overflow_closes_witness:
  "let s = upd_rec 2 (\<lambda>r. r\<lparr> c_recv_buf := [1] \<rparr>) demo_cm; raw = replicate MAX_RECV_BUF 0
   in handle_data demo_env 2 raw s
      = close_now 2 (cm_drop 2 RecvBufOverflow (upd_rec 2 (\<lambda>r. r\<lparr> c_recv_buf := 1 # raw \<rparr>) s))"
proof -
  let ?s = "upd_rec 2 (\<lambda>r. r\<lparr> c_recv_buf := [1] \<rparr>) demo_cm"
  have "recv_view 2 [1] ?s" by (rule recv_view_buffer [OF demo_view(1)])
  from recv_overflow_closes [OF this, of _ "replicate MAX_RECV_BUF 0"] show ?thesis by (simp add: Let_def)
qed

text \<open>
  Data of a secondary transport goes through the same receive buffer as the data of
  the primary one, so a fragment of a frame that waits in the buffer is continued by whatever
  arrives first on any transport of the peer.
\<close>

theorem secondary_shares_buffer:
  assumes "cm_inv s" "map_of (transport_index s) t = Some c"
  shows "handle_data E t raw s = handle_data E c raw s"
proof -
  obtain r where "rcu_find s c = Some r" using cm_invD(12) [OF assms] by blast
  then have "map_of (transport_index s) c = None"
    using cm_invD(11) [OF assms(1), of c] by (cases "map_of (transport_index s) c") auto
  then show ?thesis using assms(2) by (simp add: handle_data_def)
qed

theorem secondary_shares_buffer_witness:
  "handle_data demo_env 4 [1, 2, 3] demo_multi = handle_data demo_env 1 [1, 2, 3] demo_multi"
  by (rule secondary_shares_buffer [OF demo_multi_index])

end
