(* ===== verification/CM_Security.thy ===== *)
theory CM_Security
  imports CM_Receive
begin

section \<open>Authentication and protection of packets\<close>

text \<open>
  What a packet has to pass before a handler sees it, when a peer counts as authenticated, which
  nonces frames are encrypted under, and that a frame built on one side is delivered with its
  payload on the other.
\<close>

lemma dispatch_in_flight [simp]: "dispatch_leave (upd_bus g (dispatch_enter s)) = upd_bus g s"
  by (simp add: dispatch_leave_def dispatch_enter_def upd_bus_def)

lemma dispatch_drop [simp]: "dispatch_leave (cm_drop c why (dispatch_enter s)) = cm_drop c why s"
  by (simp add: cm_drop_def)

lemma dispatch_upd_rec: "upd_rec c f (dispatch_enter s) = dispatch_enter (upd_rec c f s)"
  by (simp add: dispatch_enter_def upd_rec_def)

definition user_type :: "u16 \<Rightarrow> bool" where
  "user_type t \<longleftrightarrow> t \<notin> {1, 2, 3, 4, 10}"

lemma dispatch_user:
  assumes "user_type (payload_type hdr)" "rcu_find s c = Some r" "c_state r = STATE_ESTABLISHED"
  shows "dispatch_packet E c hdr p ts s =
    (case open_packet E c hdr p r (dispatch_enter s) of
       Inl s1 \<Rightarrow> dispatch_leave s1
     | Inr (plain, s1) \<Rightarrow> dispatch_leave (deliver E c hdr plain ts r
         (cm_stat RxPacket 1 c (cm_stat RxBytes (word_of_nat (length p)) c s1))))"
  using assms
  by (subst dispatch_packet.simps) (auto simp: dispatch_step_def user_type_def wire_consts split: sum.splits)

lemma build_frame_encrypted:
  assumes "rcu_find s c = Some r" "c_session r = Some ses" "\<not> c_is_localhost r" "\<not> c_localhost_passthrough r"
    "\<not> is_handshake_type t"
  shows "\<exists>en th lv. build_frame E c t p s =
    (let wire = session_encrypt (e_sodium E) (e_zstd E) ses p (c_send_packet_id r) en th lv
     in (header_enc (mk_header 0 t (length wire) (c_send_packet_id r)) @ wire,
         upd_rec c (\<lambda>r. r\<lparr> c_send_packet_id := c_send_packet_id r + 1 \<rparr>) s))"
  using assms by (auto simp: build_frame_def Let_def)

definition matched_peers :: "env \<Rightarrow> env \<Rightarrow> cm \<Rightarrow> conn_id \<Rightarrow> connection_record \<Rightarrow> noise_session
    \<Rightarrow> cm \<Rightarrow> conn_id \<Rightarrow> connection_record \<Rightarrow> noise_session \<Rightarrow> bool" where
  "matched_peers A B a ca ra sa b cb rb sb \<longleftrightarrow>
     aead_ok (e_sodium A) \<and> zstd_ok (e_zstd A) \<and> e_sodium B = e_sodium A \<and> e_zstd B = e_zstd A
     \<and> rcu_find a ca = Some ra \<and> c_session ra = Some sa \<and> rec_ok ra \<and> \<not> c_is_localhost ra
     \<and> rcu_find b cb = Some rb \<and> c_session rb = Some sb \<and> rec_ok rb \<and> \<not> c_is_localhost rb \<and> recv_view cb [] b
     \<and> recv_key sb = send_key sa \<and> fst (accept (c_send_packet_id ra) (recv_window sb))"

lemma received_frame:
  assumes peers: "matched_peers A B a ca ra sa b cb rb sb"
    and msg: "\<not> is_handshake_type t" "length payload \<le> 128 * 1024 * 1024"
    and frame: "build_frame A ca t payload a = (frame, a1)" "length frame < 2 ^ 32"
  obtains hdr wire where "header_dec frame = hdr" "length frame = HDR + length wire"
    "handle_data B cb frame b = dispatch_packet B cb hdr wire (ns_u64 (e_now B)) b"
    "hflags hdr = 0" "packet_id hdr = c_send_packet_id ra" "payload_type hdr = ucast t"
    "session_decrypt (e_sodium B) (e_zstd B) sb wire (packet_id hdr)
      = (payload, sb\<lparr> recv_window := snd (accept (c_send_packet_id ra) (recv_window sb)) \<rparr>)"
    "c_state rb = STATE_ESTABLISHED" "\<not> c_localhost_passthrough rb" "\<not> c_is_localhost rb" "c_session rb = Some sb"
    "rcu_find b cb = Some rb"
proof -
  let ?n = "c_send_packet_id ra"
  note p = peers [unfolded matched_peers_def]
  have st: "c_state rb = STATE_ESTABLISHED" "\<not> c_localhost_passthrough rb" "\<not> c_localhost_passthrough ra"
    using p by (auto simp: rec_ok_def)
  have sender: "rcu_find a ca = Some ra" "c_session ra = Some sa" "\<not> c_is_localhost ra" using p by simp_all
  obtain en th lv where bf: "build_frame A ca t payload a =
      (let wire = session_encrypt (e_sodium A) (e_zstd A) sa payload ?n en th lv
       in (header_enc (mk_header 0 t (length wire) ?n) @ wire,
           upd_rec ca (\<lambda>r. r\<lparr> c_send_packet_id := c_send_packet_id r + 1 \<rparr>) a))"
    using build_frame_encrypted [OF sender st(3) msg(1)] by blast
  define wire where "wire = session_encrypt (e_sodium A) (e_zstd A) sa payload ?n en th lv"
  define hdr where "hdr = mk_header 0 t (length wire) ?n"
  have fr: "frame = header_enc hdr @ wire" using bf frame(1) by (simp add: Let_def wire_def hdr_def)
  have len: "unat (payload_len hdr) = length wire"
    using frame(2) fr by (simp add: hdr_def mk_header_def unat_of_nat)
  have hd: "header_dec frame = hdr" "drop HDR frame = wire" by (simp_all add: fr HDR_def)
  have "complete_frame frame"
    using len by (simp add: complete_frame_def hd fr HDR_def hdr_def mk_header_def Let_def)
  then have "handle_data B cb frame b = dispatch_packet B cb hdr wire (ns_u64 (e_now B)) b"
    using p by (simp add: handle_data_def recv_view_def hd)
  moreover have "session_decrypt (e_sodium B) (e_zstd B) sb wire ?n
      = (payload, sb\<lparr> recv_window := snd (accept ?n (recv_window sb)) \<rparr>)"
    using session_encrypt_decrypt [of "e_sodium A" "e_zstd A" sb sa ?n payload en th lv] p msg(2)
    by (simp add: wire_def)
  moreover have "hflags hdr = 0" "packet_id hdr = ?n" "payload_type hdr = ucast t" by (simp_all add: hdr_def mk_header_def)
  moreover have "length frame = HDR + length wire" by (simp add: fr HDR_def)
  ultimately show ?thesis using that [of hdr wire] hd(1) st(1,2) p by simp
qed

lemma frame_ciphertext:
  assumes peers: "matched_peers A B a ca ra sa b cb rb sb"
    and msg: "\<not> is_handshake_type t" and frame: "build_frame A ca t payload a = (frame, a1)"
  obtains en th lv wire where "frame = header_enc (mk_header 0 t (length wire) (c_send_packet_id ra)) @ wire"
    "aead_encrypt (e_sodium A) (send_key sa) (nonce12 (c_send_packet_id ra)) [] (session_body (e_zstd A) payload en th lv) = Some wire"
proof -
  note p = peers [unfolded matched_peers_def]
  have sender: "rcu_find a ca = Some ra" "c_session ra = Some sa" "\<not> c_is_localhost ra" "\<not> c_localhost_passthrough ra"
    using p by (auto simp: rec_ok_def)
  obtain en th lv where bf: "fst (build_frame A ca t payload a) =
      (let wire = session_encrypt (e_sodium A) (e_zstd A) sa payload (c_send_packet_id ra) en th lv
       in header_enc (mk_header 0 t (length wire) (c_send_packet_id ra)) @ wire)"
    using build_frame_encrypted [OF sender msg, of A payload] by (auto simp: Let_def)
  obtain wire where w:
    "aead_encrypt (e_sodium A) (send_key sa) (nonce12 (c_send_packet_id ra)) [] (session_body (e_zstd A) payload en th lv) = Some wire"
    using p unfolding aead_ok_def by blast
  show ?thesis by (rule that [OF _ w]) (use bf w frame in \<open>simp add: session_encrypt_def Let_def\<close>)
qed

fun build_all :: "env \<Rightarrow> conn_id \<Rightarrow> (u32 \<times> bytes) list \<Rightarrow> cm \<Rightarrow> bytes list \<times> cm" where
  "build_all E c [] s = ([], s)"
| "build_all E c ((t, p) # ms) s =
     (let (f, s1) = build_frame E c t p s; (fs, s2) = build_all E c ms s1 in (f # fs, s2))"

lemma build_all_numbers:
  assumes "rcu_find s c = Some r" "c_session r = Some ses" "\<not> c_is_localhost r" "\<not> c_localhost_passthrough r"
    "list_all (\<lambda>(t, _). \<not> is_handshake_type t) ms" "build_all E c ms s = (fs, s1)"
  shows "length fs = length ms \<and> (\<forall>i < length ms. packet_id (header_dec (fs ! i)) = c_send_packet_id r + word_of_nat i
    \<and> (\<exists>en th lv. drop HDR (fs ! i) = session_encrypt (e_sodium E) (e_zstd E) ses (snd (ms ! i))
          (packet_id (header_dec (fs ! i))) en th lv))"
  using assms
proof (induction ms arbitrary: s r fs)
  case (Cons m ms)
  obtain t p where m: "m = (t, p)" by fastforce
  have t: "\<not> is_handshake_type t" using Cons.prems(5) m by simp
  obtain en th lv where bf: "build_frame E c t p s =
      (let wire = session_encrypt (e_sodium E) (e_zstd E) ses p (c_send_packet_id r) en th lv
       in (header_enc (mk_header 0 t (length wire) (c_send_packet_id r)) @ wire,
           upd_rec c (\<lambda>r. r\<lparr> c_send_packet_id := c_send_packet_id r + 1 \<rparr>) s))"
    using build_frame_encrypted [OF Cons.prems(1-4) t] by blast
  define wire where "wire = session_encrypt (e_sodium E) (e_zstd E) ses p (c_send_packet_id r) en th lv"
  define f where "f = header_enc (mk_header 0 t (length wire) (c_send_packet_id r)) @ wire"
  have f: "packet_id (header_dec f) = c_send_packet_id r" "drop HDR f = wire"
    by (simp_all add: f_def mk_header_def HDR_def)
  define s2 where "s2 = upd_rec c (\<lambda>r. r\<lparr> c_send_packet_id := c_send_packet_id r + 1 \<rparr>) s"
  obtain gs where gs: "build_all E c ms s2 = (gs, s1)" "fs = f # gs"
    using Cons.prems(6) bf m by (auto simp: Let_def s2_def f_def wire_def split: prod.splits)
  let ?r = "r\<lparr> c_send_packet_id := c_send_packet_id r + 1 \<rparr>"
  have r2: "rcu_find s2 c = Some ?r" using Cons.prems(1) by (simp add: s2_def)
  have IH: "length gs = length ms \<and> (\<forall>i < length ms. packet_id (header_dec (gs ! i)) = c_send_packet_id ?r + word_of_nat i
    \<and> (\<exists>en th lv. drop HDR (gs ! i) = session_encrypt (e_sodium E) (e_zstd E) ses (snd (ms ! i))
          (packet_id (header_dec (gs ! i))) en th lv))"
    by (rule Cons.IH [OF r2 _ _ _ _ gs(1)]) (use Cons.prems(2-5) in simp_all)
  have "packet_id (header_dec (fs ! i)) = c_send_packet_id r + word_of_nat i
    \<and> (\<exists>en th lv. drop HDR (fs ! i) = session_encrypt (e_sodium E) (e_zstd E) ses (snd ((m # ms) ! i))
          (packet_id (header_dec (fs ! i))) en th lv)" if "i < length (m # ms)" for i
  proof (cases i)
    case 0
    then show ?thesis using f gs(2) m by (auto simp: wire_def)
  next
    case (Suc j)
    then have j: "j < length ms" "fs ! i = gs ! j" "(m # ms) ! i = ms ! j" using that gs(2) by simp_all
    have "c_send_packet_id ?r + word_of_nat j = c_send_packet_id r + word_of_nat i" using Suc by simp
    with IH j show ?thesis unfolding j(2,3) by metis
  qed
  moreover have "length fs = length (m # ms)" using IH gs(2) by simp
  ultimately show ?case by blast
qed simp

subsection \<open>Properties\<close>

text \<open>
  Property C4. \<open>process_handshake_payload\<close> accepts a peer exactly when the payload is long
  enough, the user key's signature over both public keys verifies, and the device key converts to
  the static key that the Noise handshake authenticated; then and only then the record is marked
  authenticated with these keys. Every other outcome leaves all records as they were.
\<close>

theorem handshake_authenticates_peer:
  fixes E :: env and data :: bytes
  defines "hp \<equiv> handshake_payload_dec data" and "L \<equiv> e_sodium E"
  shows "(fst (process_handshake_payload E c data s) \<longleftrightarrow>
      (\<exists>r hs. handshake_payload_size \<le> length data
         \<and> sign_verify L (hp_signature hp) (hp_user_pubkey hp @ hp_device_pubkey hp) (hp_user_pubkey hp)
         \<and> rcu_find s c = Some r \<and> c_handshake r = Some hs \<and> pk_to_curve L (hp_device_pubkey hp) = Some (hs_rs hs)))
    \<and> records (snd (process_handshake_payload E c data s)) =
        (if fst (process_handshake_payload E c data s) then modify c (adopt_peer s hp) (records s) else records s)
    \<and> c_peer_authenticated (adopt_peer s hp r) \<and> c_peer_user_pubkey (adopt_peer s hp r) = hp_user_pubkey hp
    \<and> c_peer_device_pubkey (adopt_peer s hp r) = hp_device_pubkey hp"
  unfolding hp_def L_def
  by (auto simp: process_handshake_payload_def Let_def upd_rec_def adopt_peer_def upd_path_def cm_drop_def upd_bus_def
      split: option.splits if_splits)

text \<open>
  Property C7. A packet that is not a handshake message changes nothing but a drop counter if its
  connection is unknown, not yet established, or remote while the packet claims to be trusted.
\<close>

theorem unauthenticated_packets_dropped:
  assumes "payload_type hdr \<notin> {1, 2, 3}"
    "case rcu_find s c of None \<Rightarrow> True
       | Some r \<Rightarrow> c_state r \<noteq> STATE_ESTABLISHED
           \<or> rec_ok r \<and> \<not> c_is_localhost r \<and> hflags hdr AND GNET_FLAG_TRUSTED \<noteq> 0"
  shows "dispatch_packet E c hdr p ts s = cm_drop c
    (case rcu_find s c of None \<Rightarrow> ConnNotFound
       | Some r \<Rightarrow> if c_state r \<noteq> STATE_ESTABLISHED then StateNotEstablished else TrustedFromRemote) s"
  using assms
  by (subst dispatch_packet.simps)
    (auto simp: dispatch_step_def open_packet_def wire_consts rec_ok_def split: option.splits)

theorem unauthenticated_packets_dropped_witness:
  "dispatch_packet demo_env 3 (mk_header 0 100 2 1) [5, 6] 0 demo_cm = cm_drop 3 StateNotEstablished demo_cm
   \<and> dispatch_packet demo_env 1 (mk_header GNET_FLAG_TRUSTED 100 2 1) [5, 6] 0 demo_cm = cm_drop 1 TrustedFromRemote demo_cm"
  using unauthenticated_packets_dropped [of "mk_header 0 100 2 1" demo_cm 3 demo_env "[5, 6]" 0]
    unauthenticated_packets_dropped [of "mk_header GNET_FLAG_TRUSTED 100 2 1" demo_cm 1 demo_env "[5, 6]" 0] demo_rec_ok
  by (simp add: mk_header_def GNET_FLAG_TRUSTED_def)

text \<open>
  Property C1. End to end: a message that one node frames for an established remote connection is
  handed, with the same type and the same payload, to the handlers of the node that holds the
  matching session, when the frame's number is one its window accepts. The frame is a header and
  the ciphertext of the payload, raw or compressed, under the session's key and the frame's number.
  The message is of a type that goes to the handlers, not empty (the receiver drops an empty one:
  \<open>empty_message_dropped\<close>) and at most 128 MB long; the frame's length fits in 32 bits.
\<close>

theorem end_to_end_delivery:
  assumes "matched_peers A B a ca ra sa b cb rb sb"
    "user_type (ucast t)" "\<not> is_handshake_type t" "payload \<noteq> []" "length payload \<le> 128 * 1024 * 1024"
    "build_frame A ca t payload a = (frame, a1)" "length frame < 2 ^ 32"
  shows "let hdr = header_dec frame;
             sb1 = sb\<lparr> recv_window := snd (accept (c_send_packet_id ra) (recv_window sb)) \<rparr>;
             b1 = upd_rec cb (\<lambda>r. r\<lparr> c_session := Some sb1 \<rparr>) (dispatch_enter b)
         in payload_type hdr = ucast t \<and> packet_id hdr = c_send_packet_id ra
          \<and> (\<exists>wire en th lv. frame = header_enc hdr @ wire
              \<and> aead_encrypt (e_sodium A) (send_key sa) (nonce12 (packet_id hdr)) [] (session_body (e_zstd A) payload en th lv) = Some wire)
          \<and> handle_data B cb frame b = dispatch_leave (deliver B cb hdr payload (ns_u64 (e_now B)) rb
              (cm_stat RxPacket 1 cb (cm_stat RxBytes (word_of_nat (length frame - HDR)) cb b1)))"
proof -
  from received_frame [OF assms(1,3,5,6,7)] obtain hdr wire where w: "header_dec frame = hdr" "length frame = HDR + length wire"
    "handle_data B cb frame b = dispatch_packet B cb hdr wire (ns_u64 (e_now B)) b"
    "hflags hdr = 0" "packet_id hdr = c_send_packet_id ra" "payload_type hdr = ucast t"
    "session_decrypt (e_sodium B) (e_zstd B) sb wire (packet_id hdr)
      = (payload, sb\<lparr> recv_window := snd (accept (c_send_packet_id ra) (recv_window sb)) \<rparr>)"
    "c_state rb = STATE_ESTABLISHED" "\<not> c_localhost_passthrough rb" "\<not> c_is_localhost rb" "c_session rb = Some sb"
    "rcu_find b cb = Some rb" .
  then have "handle_data B cb frame b = dispatch_leave (deliver B cb hdr payload (ns_u64 (e_now B)) rb
      (cm_stat RxPacket 1 cb (cm_stat RxBytes (word_of_nat (length frame - HDR)) cb
        (upd_rec cb (\<lambda>r. r\<lparr> c_session := Some (sb\<lparr> recv_window := snd (accept (c_send_packet_id ra) (recv_window sb)) \<rparr>) \<rparr>) (dispatch_enter b)))))"
    using dispatch_user [OF _ w(12,8), of hdr B wire "ns_u64 (e_now B)"] assms(2,4)
    by (simp add: Let_def open_packet_def)
  moreover from frame_ciphertext [OF assms(1,3,6)] obtain en th lv ct where
    ct: "frame = header_enc (mk_header 0 t (length ct) (c_send_packet_id ra)) @ ct"
    "aead_encrypt (e_sodium A) (send_key sa) (nonce12 (c_send_packet_id ra)) [] (session_body (e_zstd A) payload en th lv) = Some ct" .
  moreover have "header_dec frame = mk_header 0 t (length ct) (c_send_packet_id ra)" by (simp add: ct(1))
  ultimately show ?thesis using w(1,5,6) by (auto simp: Let_def)
qed

definition demo_peer :: cm where
  "demo_peer = upd_rec 1 (\<lambda>r. r\<lparr> c_session := Some (demo_session [2] [1]) \<rparr>) demo_cm"

lemma demo_matched:
  "matched_peers demo_env demo_env demo_cm 1 (demo_established 1 7 (demo_endpoint ''10.0.0.1'' 9000)) (demo_session [1] [2])
     demo_peer 1 ((demo_established 1 7 (demo_endpoint ''10.0.0.1'' 9000))\<lparr> c_session := Some (demo_session [2] [1]) \<rparr>)
     (demo_session [2] [1])"
proof -
  have "aead_ok toy_sodium" using toy_sodium_ok(1) by (simp add: sodium_ok_def)
  moreover have "fst (accept 1 (recv_window (demo_session [2] [1])))"
    by (simp add: demo_session_def accept_def empty_window_def)
  moreover have "rec_ok ((demo_established c k ep)\<lparr> c_session := Some x \<rparr>)" for c k ep x
    using demo_rec_ok(1) [of c k ep] by (simp add: rec_ok_def demo_established_def fresh_record_def)
  ultimately show ?thesis
    using demo_rec_ok(1) toy_zstd_ok
    by (simp add: matched_peers_def recv_view_def demo_peer_def) (simp add: demo_env_def demo_session_def)
qed

lemma demo_wire: "length (session_encrypt toy_sodium toy_zstd (demo_session [1] [2]) [42] 1 True 512 1) = 18"
  "length (session_encrypt toy_sodium toy_zstd (demo_session [1] [2]) [] 1 True 512 1) = 17"
  by code_simp+

lemma demo_built:
  "length (fst (build_frame demo_env 1 100 [42] demo_cm)) = 38" "length (fst (build_frame demo_env 1 100 [] demo_cm)) = 37"
  using demo_wire
  by (simp_all add: build_frame_def is_handshake_type_def wire_consts) (simp_all add: demo_env_def)

theorem end_to_end_delivery_witness:
  "let frame = fst (build_frame demo_env 1 100 [42] demo_cm)
   in length frame = 38 \<and> payload_type (header_dec frame) = 100
    \<and> (\<exists>b r. handle_data demo_env 1 frame demo_peer
          = dispatch_leave (deliver demo_env 1 (header_dec frame) [42] (ns_u64 (e_now demo_env)) r b))"
proof -
  obtain frame a1 where f: "build_frame demo_env 1 100 [42] demo_cm = (frame, a1)" by fastforce
  have "user_type (ucast (100 :: u32))" "\<not> is_handshake_type 100" "length frame = 38"
    using demo_built f by (simp_all add: user_type_def is_handshake_type_def wire_consts)
  with end_to_end_delivery [OF demo_matched _ _ _ _ f] show ?thesis
    unfolding Let_def f fst_conv by (auto simp: Let_def)
qed

text \<open>
  A message with an empty payload never arrives over an encrypted connection: the
  receiver takes the empty plaintext for a failed decryption and counts the packet as dropped,
  although it was genuine and has used up its number.
\<close>

theorem empty_message_dropped:
  assumes "matched_peers A B a ca ra sa b cb rb sb" "user_type (ucast t)" "\<not> is_handshake_type t"
    "build_frame A ca t [] a = (frame, a1)" "length frame < 2 ^ 32"
  shows "handle_data B cb frame b = cm_drop cb DecryptFail
    (upd_rec cb (\<lambda>r. r\<lparr> c_session := Some (sb\<lparr> recv_window := snd (accept (c_send_packet_id ra) (recv_window sb)) \<rparr>) \<rparr>) b)"
proof -
  from received_frame [OF assms(1,3) _ assms(4,5)] obtain hdr wire where w: "header_dec frame = hdr" "length frame = HDR + length wire"
    "handle_data B cb frame b = dispatch_packet B cb hdr wire (ns_u64 (e_now B)) b"
    "hflags hdr = 0" "packet_id hdr = c_send_packet_id ra" "payload_type hdr = ucast t"
    "session_decrypt (e_sodium B) (e_zstd B) sb wire (packet_id hdr)
      = ([], sb\<lparr> recv_window := snd (accept (c_send_packet_id ra) (recv_window sb)) \<rparr>)"
    "c_state rb = STATE_ESTABLISHED" "\<not> c_localhost_passthrough rb" "\<not> c_is_localhost rb" "c_session rb = Some sb"
    "rcu_find b cb = Some rb" by auto
  then show ?thesis
    using dispatch_user [OF _ w(12,8), of hdr B wire "ns_u64 (e_now B)"] assms(2)
    by (simp add: Let_def open_packet_def dispatch_upd_rec)
qed

theorem empty_message_dropped_witness:
  "\<exists>b. handle_data demo_env 1 (fst (build_frame demo_env 1 100 [] demo_cm)) demo_peer = cm_drop 1 DecryptFail b"
proof -
  obtain frame a1 where f: "build_frame demo_env 1 100 [] demo_cm = (frame, a1)" by fastforce
  have "user_type (ucast (100 :: u32))" "\<not> is_handshake_type 100" "length frame = 37"
    using demo_built f by (simp_all add: user_type_def is_handshake_type_def wire_consts)
  with empty_message_dropped [OF demo_matched _ _ f] show ?thesis
    unfolding f fst_conv by auto
qed

text \<open>
  Property C8. No AEAD nonce is used twice: the frames of an encrypted connection are numbered
  consecutively, each is encrypted under its own number, and the numbers are distinct as long as
  fewer than 2 to the 64 frames are built under the same keys.
\<close>

theorem frame_nonces_unique:
  assumes "rcu_find s c = Some r" "c_session r = Some ses" "rec_ok r" "\<not> c_is_localhost r"
    "list_all (\<lambda>(t, _). \<not> is_handshake_type t) ms" "build_all E c ms s = (fs, s1)" "length ms < 2 ^ 64"
  shows "map (packet_id \<circ> header_dec) fs = map (\<lambda>i. c_send_packet_id r + word_of_nat i) [0..<length ms]
    \<and> distinct (map (packet_id \<circ> header_dec) fs)
    \<and> (\<forall>i < length ms. \<exists>en th lv. drop HDR (fs ! i) = session_encrypt (e_sodium E) (e_zstd E) ses (snd (ms ! i))
          (packet_id (header_dec (fs ! i))) en th lv)"
proof -
  have "\<not> c_localhost_passthrough r" using assms(3,4) by (auto simp: rec_ok_def)
  note n = build_all_numbers [OF assms(1,2,4) this assms(5,6)]
  have ids: "map (packet_id \<circ> header_dec) fs = map (\<lambda>i. c_send_packet_id r + word_of_nat i) [0..<length ms]"
    using n by (intro nth_equalityI) auto
  have inj: "inj_on (\<lambda>i. c_send_packet_id r + word_of_nat i) {0..<length ms}"
  proof (rule inj_onI)
    fix i j
    assume "i \<in> {0..<length ms}" "j \<in> {0..<length ms}" "c_send_packet_id r + word_of_nat i = c_send_packet_id r + word_of_nat j"
    then have "unat (word_of_nat i :: u64) = unat (word_of_nat j :: u64)" "i < 2 ^ 64" "j < 2 ^ 64"
      using assms(7) by auto
    then show "i = j" by (simp add: unat_of_nat)
  qed
  have "distinct (map (\<lambda>i. c_send_packet_id r + word_of_nat i) [0..<length ms])"
    using inj by (simp add: distinct_map)
  then have "distinct (map (packet_id \<circ> header_dec) fs)" unfolding ids .
  with ids n show ?thesis by blast
qed

theorem frame_nonces_unique_witness:
  "map (packet_id \<circ> header_dec) (fst (build_all demo_env 1 [(100, [1]), (101, [2, 3]), (100, [])] demo_cm)) = [1, 2, 3]"
proof -
  obtain fs s1 where b: "build_all demo_env 1 [(100, [1]), (101, [2, 3]), (100, [])] demo_cm = (fs, s1)" by fastforce
  have "map (packet_id \<circ> header_dec) fs = [1, 2, 3]"
    using frame_nonces_unique [OF demo_find(1) _ demo_rec_ok(1) _ _ b] by (simp add: is_handshake_type_def wire_consts)
  then show ?thesis unfolding b fst_conv .
qed

end
