(* ===== verification/CM_Sending.thy ===== *)
theory CM_Sending
  imports CM_Security
begin

section \<open>Sending over several paths\<close>

text \<open>
  What the send side does with frames: the order in which paths are tried and what a failure does
  to a path, the chunks of a long payload, and the queues of messages that wait for a connection.
\<close>

subsection \<open>The calls for a batch\<close>

text \<open>
  What a connector answers may depend on all calls made before (the argument \<open>log\<close>): a connector
  accepts a batch after a log when its answer to each call, made after the calls before it, is
  success.
\<close>

definition gathers :: "connector_ops \<Rightarrow> bytes list \<Rightarrow> bool" where
  "gathers ops batch \<longleftrightarrow> co_has_send_gather ops \<and> length batch > 1"

definition send_calls :: "connector_ops \<Rightarrow> conn_id \<Rightarrow> bytes list \<Rightarrow> ext_call list" where
  "send_calls ops t batch = (if gathers ops batch then [OpsSendGather ops t batch] else map (OpsSendTo ops t) batch)"

primrec accepts_each :: "env \<Rightarrow> ext_call list \<Rightarrow> ext_call list \<Rightarrow> bool" where
  "accepts_each E log [] = True"
| "accepts_each E log (c # cs) = (e_send_rc E log c = 0 \<and> accepts_each E (log @ [c]) cs)"

definition accepts :: "env \<Rightarrow> ext_call list \<Rightarrow> connector_ops \<Rightarrow> conn_id \<Rightarrow> bytes list \<Rightarrow> bool" where
  "accepts E log ops t batch \<longleftrightarrow>
     (if gathers ops batch then e_send_rc E log (OpsSendGather ops t batch) \<ge> 0 else accepts_each E log (map (OpsSendTo ops t) batch))"

lemma ext_calls_simps [simp]:
  "ext_calls (cm_stat k v c s) = ext_calls s" "ext_calls (cm_drop c why s) = ext_calls s"
  "ext_calls (ext x s) = ext_calls s @ [x]" "ext_calls (upd_bus g s) = ext_calls s"
  "ext_calls (set_queue c q s) = ext_calls s"
  by (simp_all add: cm_stat_def cm_drop_def ext_def upd_bus_def set_queue_def)

lemma find_connector_cong: "connectors s' = connectors s \<Longrightarrow> find_connector s' sch = find_connector s sch"
  by (simp add: find_connector_def)

lemma connectors_simps [simp]:
  "connectors (cm_stat k v c s) = connectors s" "connectors (cm_drop c why s) = connectors s"
  "connectors (ext x s) = connectors s" "connectors (upd_bus g s) = connectors s" "connectors (set_queue c q s) = connectors s"
  by (simp_all add: cm_stat_def cm_drop_def ext_def upd_bus_def set_queue_def)

lemma send_queues_simps [simp]:
  "send_queues (cm_stat k v c s) = send_queues s" "send_queues (cm_drop c why s) = send_queues s"
  "send_queues (ext x s) = send_queues s" "send_queues (upd_bus g s) = send_queues s" "send_queues (upd_rec c f s) = send_queues s"
  by (simp_all add: cm_stat_def cm_drop_def ext_def upd_bus_def upd_rec_def)

lemma send_each_calls:
  "send_each E t ops fs ok s = (b, s1) \<Longrightarrow> b = (ok \<and> accepts_each E (ext_calls s) (map (OpsSendTo ops t) fs))
    \<and> ext_calls s1 = ext_calls s @ map (OpsSendTo ops t) fs \<and> records s1 = records s \<and> connectors s1 = connectors s
    \<and> send_queues s1 = send_queues s"
proof (induction fs arbitrary: ok s)
  case (Cons f fs)
  then show ?case by (cases "e_send_rc E (ext_calls s) (OpsSendTo ops t f) = 0") (fastforce simp: Let_def)+
qed simp

lemma flush_frames_calls:
  assumes "batch \<noteq> []" "flush_frames_to_connector E t ops batch s = (b, s1)"
  shows "b = accepts E (ext_calls s) ops t batch \<and> ext_calls s1 = ext_calls s @ send_calls ops t batch
    \<and> records s1 = records s \<and> connectors s1 = connectors s \<and> send_queues s1 = send_queues s"
proof (cases "gathers ops batch")
  case True
  then show ?thesis
    using assms by (auto simp: flush_frames_to_connector_def gathers_def accepts_def send_calls_def Let_def split: if_splits)
next
  case False
  then have "send_each E t ops batch True s = (b, s1)"
    using assms by (auto simp: flush_frames_to_connector_def gathers_def split: if_splits)
  from send_each_calls [OF this] False show ?thesis by (simp add: accepts_def send_calls_def)
qed

definition fail_path :: "cm \<Rightarrow> nat \<times> transport_path \<Rightarrow> connection_record \<Rightarrow> connection_record" where
  "fail_path s ip r = (if find_connector s (tp_scheme (snd ip)) = None then r else upd_path (fst ip) path_failed r)"

definition path_calls :: "cm \<Rightarrow> bytes list \<Rightarrow> nat \<times> transport_path \<Rightarrow> ext_call list" where
  "path_calls s batch ip =
     (case find_connector s (tp_scheme (snd ip)) of None \<Rightarrow> [] | Some ops \<Rightarrow> send_calls ops (tp_id (snd ip)) batch)"

definition path_accepts :: "env \<Rightarrow> cm \<Rightarrow> bytes list \<Rightarrow> ext_call list \<Rightarrow> nat \<times> transport_path \<Rightarrow> bool" where
  "path_accepts E s batch log ip =
     (case find_connector s (tp_scheme (snd ip)) of None \<Rightarrow> False | Some ops \<Rightarrow> accepts E log ops (tp_id (snd ip)) batch)"

text \<open>Each of the paths refuses the batch after the calls made for those before it.\<close>

primrec refuse_in_turn :: "env \<Rightarrow> cm \<Rightarrow> bytes list \<Rightarrow> ext_call list \<Rightarrow> (nat \<times> transport_path) list \<Rightarrow> bool" where
  "refuse_in_turn E s batch log [] = True"
| "refuse_in_turn E s batch log (ip # ips) \<longleftrightarrow>
     \<not> path_accepts E s batch log ip \<and> refuse_in_turn E s batch (log @ path_calls s batch ip) ips"

lemma path_cong:
  assumes "connectors s' = connectors s"
  shows "fail_path s' = fail_path s" "path_calls s' = path_calls s" "path_accepts E s' = path_accepts E s"
    "refuse_in_turn E s' batch log ips = refuse_in_turn E s batch log ips"
proof -
  show *: "fail_path s' = fail_path s" "path_calls s' = path_calls s" "path_accepts E s' = path_accepts E s"
    using find_connector_cong [OF assms] by (simp_all add: fun_eq_iff fail_path_def path_calls_def path_accepts_def)
  show "refuse_in_turn E s' batch log ips = refuse_in_turn E s batch log ips"
    by (induction ips arbitrary: log) (simp_all add: *)
qed

lemma try_paths_skip:
  assumes b: "batch \<noteq> []" and r: "rcu_find s c = Some r" and no: "\<not> path_accepts E s batch (ext_calls s) ip"
  shows "\<exists>s1. try_paths E c (ip # ps) batch s = try_paths E c ps batch s1
    \<and> rcu_find s1 c = Some (fail_path s ip r) \<and> ext_calls s1 = ext_calls s @ path_calls s batch ip \<and> connectors s1 = connectors s
    \<and> send_queues s1 = send_queues s"
proof -
  obtain i p where ip: "ip = (i, p)" by fastforce
  show ?thesis
  proof (cases "find_connector s (tp_scheme p)")
    case None
    then show ?thesis using r ip by (intro exI [of _ s]) (simp add: fail_path_def path_calls_def)
  next
    case (Some ops)
    obtain ok s0 where fl: "flush_frames_to_connector E (tp_id p) ops batch s = (ok, s0)" by fastforce
    note f = flush_frames_calls [OF b fl]
    have "\<not> ok" using f no Some ip by (simp add: path_accepts_def)
    then show ?thesis
      using f fl r Some ip
      by (intro exI [of _ "upd_rec c (upd_path i path_failed) s0"])
        (simp add: fail_path_def path_calls_def rcu_find_def upd_rec_def)
  qed
qed

lemma try_paths_hit:
  assumes b: "batch \<noteq> []" and r: "rcu_find s c = Some r" and yes: "path_accepts E s batch (ext_calls s) (i, p)"
  shows "\<exists>s1. try_paths E c ((i, p) # ps) batch s = (True, s1)
    \<and> rcu_find s1 c = Some (upd_path i path_ok r) \<and> ext_calls s1 = ext_calls s @ path_calls s batch (i, p) \<and> send_queues s1 = send_queues s"
proof -
  obtain ops where ops: "find_connector s (tp_scheme p) = Some ops" using yes by (auto simp: path_accepts_def split: option.splits)
  obtain ok s0 where fl: "flush_frames_to_connector E (tp_id p) ops batch s = (ok, s0)" by fastforce
  note f = flush_frames_calls [OF b fl]
  have ok using f yes ops by (simp add: path_accepts_def)
  then show ?thesis
    using f fl r ops by (simp add: path_calls_def rcu_find_def upd_rec_def)
qed

lemma try_paths_skip_all:
  assumes b: "batch \<noteq> []"
  shows "rcu_find s c = Some r \<Longrightarrow> refuse_in_turn E s batch (ext_calls s) pre \<Longrightarrow>
    \<exists>s1. try_paths E c (pre @ rest) batch s = try_paths E c rest batch s1 \<and> rcu_find s1 c = Some (fold (fail_path s) pre r)
      \<and> ext_calls s1 = ext_calls s @ concat (map (path_calls s batch) pre) \<and> connectors s1 = connectors s \<and> send_queues s1 = send_queues s"
proof (induction pre arbitrary: s r)
  case (Cons ip pre)
  obtain s1 where s1: "try_paths E c (ip # pre @ rest) batch s = try_paths E c (pre @ rest) batch s1"
    "rcu_find s1 c = Some (fail_path s ip r)" "ext_calls s1 = ext_calls s @ path_calls s batch ip" "connectors s1 = connectors s"
    "send_queues s1 = send_queues s"
    using try_paths_skip [OF b Cons.prems(1), of E ip "pre @ rest"] Cons.prems(2) by auto
  note eq = path_cong [OF s1(4)]
  show ?case using Cons.IH [OF s1(2)] Cons.prems(2) s1 by (auto simp: eq)
qed auto

lemma flush_queue_active:
  assumes "\<not> shutting_down s" "rcu_find s c = Some r" "map_of (send_queues s) c = Some q" "drain_batch 64 q = (batch, q1)" "batch \<noteq> []"
    "map (\<lambda>i. (i, c_transport_paths r ! i)) (active_paths r) = paths" "paths \<noteq> []"
  shows "flush_queue E c s = (let (ok, s1) = try_paths E c paths batch (set_queue c q1 s) in if ok then s1 else cm_drop c ConnectorNotFound s1)"
  unfolding flush_queue_def using assms by (simp add: Let_def split: prod.split)

subsection \<open>The best path\<close>

lemma best_index_min:
  "case best_index k ps best of
     None \<Rightarrow> best = None \<and> (\<forall>p \<in> set ps. \<not> tp_active p)
   | Some (i, b) \<Rightarrow> (\<forall>p \<in> set ps. tp_active p \<longrightarrow> tp_priority b \<le> tp_priority p)
       \<and> (\<forall>j q. best = Some (j, q) \<longrightarrow> tp_priority b \<le> tp_priority q)
       \<and> (best = Some (i, b) \<or> (k \<le> i \<and> i < k + length ps \<and> b = ps ! (i - k) \<and> tp_active b))"
proof (induction k ps best rule: best_index.induct)
  case (1 i best)
  then show ?case by (auto split: option.splits)
next
  case (2 k p ps best)
  let ?best = "if tp_active p \<and> (case best of None \<Rightarrow> True | Some (_, b) \<Rightarrow> tp_priority p < tp_priority b) then Some (k, p) else best"
  show ?case
  proof (cases "best_index (k + 1) ps ?best")
    case None
    with 2 show ?thesis by (auto split: if_splits option.splits)
  next
    case (Some ib)
    obtain i b where ib: "ib = (i, b)" by fastforce
    have IH: "\<forall>p \<in> set ps. tp_active p \<longrightarrow> tp_priority b \<le> tp_priority p"
      "\<forall>j q. ?best = Some (j, q) \<longrightarrow> tp_priority b \<le> tp_priority q"
      "?best = Some (i, b) \<or> (k + 1 \<le> i \<and> i < k + 1 + length ps \<and> b = ps ! (i - (k + 1)) \<and> tp_active b)"
      using 2 Some ib by simp_all
    have p: "tp_active p \<longrightarrow> tp_priority b \<le> tp_priority p"
      using IH(2) by (cases best) (auto split: if_splits prod.splits intro: order.trans)
    have q: "tp_priority b \<le> tp_priority q" if "best = Some (j, q)" for j q
      using IH(2) that by (auto split: if_splits intro: order.trans less_imp_le)
    have "best = Some (i, b) \<or> (k \<le> i \<and> i < k + length (p # ps) \<and> b = (p # ps) ! (i - k) \<and> tp_active b)"
      using IH(3) by (auto split: if_splits simp: nth_Cons')
    then show ?thesis using Some ib IH(1) p q by simp
  qed
qed

lemma best_path_min:
  assumes "best_path r = Some (i, b)"
  shows "i < length (c_transport_paths r)" "b = c_transport_paths r ! i" "tp_active b"
    "p \<in> set (c_transport_paths r) \<Longrightarrow> tp_active p \<Longrightarrow> tp_priority b \<le> tp_priority p"
  using best_index_min [where k = 0 and ps = "c_transport_paths r" and best = None] assms by (auto simp: best_path_def)

lemma active_paths_set: "set (active_paths r) = {i. i < length (c_transport_paths r) \<and> tp_active (c_transport_paths r ! i)}"
  by (auto simp: active_paths_def Let_def)

lemma active_paths_hd:
  assumes "active_paths r = i # rest" "p \<in> set (c_transport_paths r)" "tp_active p"
  shows "tp_priority (c_transport_paths r ! i) \<le> tp_priority p"
proof -
  obtain j where j: "j < length (c_transport_paths r)" "p = c_transport_paths r ! j" using assms(2) by (metis in_set_conv_nth)
  then have "j \<in> set (active_paths r)" using assms(3) by (simp add: active_paths_set)
  moreover have "sorted (map (\<lambda>i. unat (tp_priority (c_transport_paths r ! i))) (active_paths r))"
    by (simp add: active_paths_def Let_def)
  ultimately show ?thesis using assms(1) j by (auto simp: word_le_nat_alt)
qed

subsection \<open>Chunks\<close>

function chunks_of :: "bytes \<Rightarrow> bytes list" where
  "chunks_of p = (if p = [] then [] else take CHUNK_SIZE p # chunks_of (drop CHUNK_SIZE p))"
  by pat_completeness auto
termination
  by (relation "measure length") (auto simp: CHUNK_SIZE_def)

declare chunks_of.simps [simp del]

lemma send_chunks_fold: "send_chunks E c t p s = foldl (\<lambda>s ch. send_frame E c t ch s) s (chunks_of p)"
  by (induction E c t p s rule: send_chunks.induct) (subst send_chunks.simps, subst chunks_of.simps, simp)

lemma chunks_of_concat: "concat (chunks_of p) = p"
  by (induction p rule: chunks_of.induct) (subst chunks_of.simps, auto)

lemma chunks_of_sizes: "ch \<in> set (chunks_of p) \<Longrightarrow> ch \<noteq> [] \<and> length ch \<le> CHUNK_SIZE"
  by (induction p rule: chunks_of.induct) (subst (asm) (2) chunks_of.simps, auto simp: CHUNK_SIZE_def split: if_splits)

subsection \<open>Pending queues\<close>

lemma drop_stale_other: "k \<noteq> u \<Longrightarrow> map_of (pending_messages (drop_stale E u s)) k = map_of (pending_messages s) k"
  by (auto simp: drop_stale_def Let_def split: option.splits)

lemma drop_stale_here:
  "map_of (pending_messages (drop_stale E u s)) u = (case map_of (pending_messages s) u of None \<Rightarrow> None
     | Some q \<Rightarrow> (let q1 = filter (\<lambda>m. \<not> stale E m) q in if q1 = [] then None else Some q1))"
  by (auto simp: drop_stale_def Let_def split: option.splits)

lemma drop_stale_twice: "map_of (pending_messages (drop_stale E u (drop_stale E u s))) k = map_of (pending_messages (drop_stale E u s)) k"
  by (cases "k = u") (auto simp: drop_stale_other drop_stale_here Let_def split: option.splits)

lemma drop_stale_all:
  "map_of (pending_messages (foldl (\<lambda>s u. drop_stale E u s) s us)) k =
     (if k \<in> set us then map_of (pending_messages (drop_stale E k s)) k else map_of (pending_messages s) k)"
proof (induction us arbitrary: s)
  case (Cons u us)
  have "k \<noteq> u \<Longrightarrow> map_of (pending_messages (drop_stale E k (drop_stale E u s))) k = map_of (pending_messages (drop_stale E k s)) k"
    by (simp add: drop_stale_here drop_stale_other)
  then show ?case
    using Cons.IH [of "drop_stale E u s"] by (cases "k = u") (auto simp: drop_stale_twice drop_stale_other)
qed simp

lemma pending_ok_cong: "pending_messages s' = pending_messages s \<Longrightarrow> pending_ok s \<Longrightarrow> pending_ok s'"
  by (simp add: pending_ok_def)

lemma pending_ok_enqueue: "pending_ok s \<Longrightarrow> enqueue_pending E k t p s = (b, s1) \<Longrightarrow> pending_ok s1"
  by (auto simp: enqueue_pending_def pending_ok_def Let_def PENDING_MAX_PER_URI_def split: if_splits option.splits)

lemma pending_ok_send_uri: "pending_ok s \<Longrightarrow> pending_ok (snd (send_uri E uri t p s))"
  by (auto simp: send_uri_def dest: pending_ok_enqueue intro: pend.quiet pending_ok_enqueue split: option.splits prod.splits)

lemma pending_ok_noise_init: "pending_ok s \<Longrightarrow> pending_ok (send_noise_init E c s)"
  by (auto simp: send_noise_init_def dest: pend.P_write_message intro: pend.quiet split: option.splits prod.splits)

lemma pending_ok_connect: "pending_ok s \<Longrightarrow> pending_ok (snd (handle_connect E ep s))"
proof -
  assume s: "pending_ok s"
  have "pending_ok (s\<lparr> next_id := n, records := x, uri_index := u, send_queues := q \<rparr>)" for n x u q
    by (rule pending_ok_cong [OF _ s]) simp
  then show ?thesis
    using s by (simp add: handle_connect_def Let_def pend.quiet(2) pending_ok_noise_init)
qed

lemma pending_ok_add_transport: "pending_ok s \<Longrightarrow> pending_ok (snd (handle_add_transport E hex ep sch s))"
  by (auto simp: handle_add_transport_def Let_def pending_ok_def upd_bus_def split: option.splits)

lemma pending_ok_drop_stale: "pending_ok s \<Longrightarrow> pending_ok (drop_stale E u s)"
  unfolding pending_ok_def
proof (intro allI impI)
  fix k q
  assume ok: "\<forall>k q. map_of (pending_messages s) k = Some q \<longrightarrow> length q \<le> PENDING_MAX_PER_URI"
    and m: "map_of (pending_messages (drop_stale E u s)) k = Some q"
  show "length q \<le> PENDING_MAX_PER_URI"
  proof (cases "k = u")
    case True
    then obtain q0 where "map_of (pending_messages s) u = Some q0" "q = filter (\<lambda>m. \<not> stale E m) q0"
      using m by (auto simp: drop_stale_here Let_def split: option.splits if_splits)
    then show ?thesis using ok length_filter_le order.trans by metis
  qed (use ok m in \<open>auto simp: drop_stale_other\<close>)
qed

lemma pending_ok_disconnect:
  assumes h: "handlers_keep pending_ok E" and s: "pending_ok s"
  shows "pending_ok (handle_disconnect E c err s)"
proof -
  have sec: "pending_ok (disconnect_secondary t d s)" for t d
    using s by (auto simp: disconnect_secondary_def Let_def pending_ok_def upd_bus_def split: option.splits)
  show ?thesis
    using s sec by (auto simp: handle_disconnect_def Let_def intro!: pend.P_notify [OF h] split: option.splits)
      (auto simp: pending_ok_def cm_stat_def upd_bus_def split: if_splits)
qed

lemma pending_ok_register: "pending_ok s \<Longrightarrow> pending_ok (register_handler_internal hnd src s)"
proof -
  assume s: "pending_ok s"
  have "pending_ok (foldl (\<lambda>s t. upd_bus (\<lambda>b. snd (subscribe t n hnd pr b)) s) s ts)" for n pr ts
    by (rule pend.P_foldl [OF pend.quiet(1) s])
  then show ?thesis
    using s by (auto simp: register_handler_internal_def Let_def pending_ok_def upd_bus_def split: option.splits)
qed

lemma pending_ok_fields [simp]:
  "pending_ok (s\<lparr> identity := i \<rparr>) = pending_ok s" "pending_ok (s\<lparr> connectors := co \<rparr>) = pending_ok s"
  "pending_ok (s\<lparr> scheme_priority := sp \<rparr>) = pending_ok s" "pending_ok (s\<lparr> shutting_down := sd \<rparr>) = pending_ok s"
  by (simp_all add: pending_ok_def)

lemma pending_ok_exec:
  assumes h: "handlers_keep pending_ok E" and s: "pending_ok s"
  shows "pending_ok (exec E ev s)"
proof (cases ev)
  case (EvSendId c t p)
  then show ?thesis using s pend.quiet(8) [OF s] by (auto simp: send_id_def)
next
  case EvShutdown
  have "pending_ok (shutdown_begin s)" using s by (simp add: shutdown_begin_def pending_ok_def)
  then show ?thesis using EvShutdown by (auto simp: shutdown_def Let_def intro: pend.quiet)
next
  case (EvRekey c)
  then show ?thesis using s by (auto simp: rekey_session_def pending_ok_def split: option.splits)
next
  case EvCleanup
  then show ?thesis using s by (auto simp: cleanup_stale_pending_def Let_def intro: pend.P_foldl pending_ok_drop_stale)
qed (use s pending_ok_connect [OF s] pend.P_handle_data [OF h s] pending_ok_disconnect [OF h s] pending_ok_add_transport [OF s]
    pending_ok_send_uri [OF s] pending_ok_register [OF s] pend.quiet [OF s]
    in \<open>simp_all add: rotate_identity_keys_def register_handler_def register_handler_from_connector_def
      register_connector_def set_scheme_priority_def\<close>)

subsection \<open>Properties\<close>

text \<open>
  Property C12. Failover of \<open>flush_queue\<close>: the batch taken from the queue of a connection with active
  paths is given to them in the order of their priority. A path whose connector refuses the batch,
  after all the calls made before, gets one more error and the next one is tried with the whole
  batch; a path without a connector is passed over. The first path that accepts the batch has its
  error count reset, and later paths are not used. When all refuse, the batch is lost and counted
  as a drop. The calls made are exactly the calls for the tried paths, in order, and the queue is
  left with the frames behind the batch. (\<open>rest\<close> starts with the path that accepts, and is empty when
  none does. Nothing is assumed of what connectors answer.)
\<close>

theorem send_failover:
  assumes "\<not> shutting_down s" "rcu_find s c = Some r" "map_of (send_queues s) c = Some q" "drain_batch 64 q = (batch, q1)" "batch \<noteq> []"
    and paths: "map (\<lambda>i. (i, c_transport_paths r ! i)) (active_paths r) = pre @ rest" "pre @ rest \<noteq> []"
    and pre: "refuse_in_turn E s batch (ext_calls s) pre"
    and rest: "case rest of [] \<Rightarrow> True | ip # _ \<Rightarrow> path_accepts E s batch (ext_calls s @ concat (map (path_calls s batch) pre)) ip"
  defines "s1 \<equiv> flush_queue E c s"
  shows "rcu_find s1 c = Some (case rest of [] \<Rightarrow> fold (fail_path s) pre r | (i, p) # _ \<Rightarrow> upd_path i path_ok (fold (fail_path s) pre r))
    \<and> ext_calls s1 = ext_calls s @ concat (map (path_calls s batch) (pre @ take 1 rest))
    \<and> map_of (send_queues s1) c = Some q1
    \<and> (rest = [] \<longrightarrow> (\<exists>s0. s1 = cm_drop c ConnectorNotFound s0))"
proof -
  let ?s = "set_queue c q1 s"
  have eq: "rcu_find ?s c = Some r" "ext_calls ?s = ext_calls s" "connectors ?s = connectors s" "map_of (send_queues ?s) c = Some q1"
    using assms(2,3) by (simp_all add: rcu_find_def set_queue_def)
  note cong = path_cong [OF eq(3)]
  have "refuse_in_turn E ?s batch (ext_calls ?s) pre" using pre by (simp add: cong eq)
  from try_paths_skip_all [OF assms(5) eq(1) this, of rest] obtain s2 where s2:
    "try_paths E c (pre @ rest) batch ?s = try_paths E c rest batch s2" "rcu_find s2 c = Some (fold (fail_path s) pre r)"
    "ext_calls s2 = ext_calls s @ concat (map (path_calls s batch) pre)" "connectors s2 = connectors s" "send_queues s2 = send_queues ?s"
    by (auto simp: cong eq)
  note flush = flush_queue_active [OF assms(1-5) paths, of E, unfolded s2(1)]
  show ?thesis
  proof (cases rest)
    case Nil
    then show ?thesis using flush s2 eq(4) by (auto simp: s1_def rcu_find_def cm_drop_def upd_bus_def)
  next
    case (Cons ip post)
    obtain i p where ip: "ip = (i, p)" by fastforce
    have "path_accepts E s2 batch (ext_calls s2) (i, p)" using rest Cons ip s2(3) path_cong(3) [OF s2(4)] by simp
    from try_paths_hit [OF assms(5) s2(2) this, of post] obtain s3 where s3:
      "try_paths E c ((i, p) # post) batch s2 = (True, s3)" "rcu_find s3 c = Some (upd_path i path_ok (fold (fail_path s) pre r))"
      "ext_calls s3 = ext_calls s2 @ path_calls s2 batch (i, p)" "send_queues s3 = send_queues s2" by auto
    then have "s1 = s3" using flush Cons ip by (simp add: s1_def)
    then show ?thesis using s3(2-4) s2(3,5) path_cong(2) [OF s2(4)] eq(4) Cons ip by simp
  qed
qed

text \<open>A connection with two paths; the connector of the better one, for \<open>ice\<close>, refuses everything.\<close>

definition refusing_env :: env where
  "refusing_env = demo_env\<lparr> e_send_rc := (\<lambda>log x. case x of OpsSendTo ops t f \<Rightarrow> if co_ident ops = 2 then - 1 else 0 | _ \<Rightarrow> 0) \<rparr>"

definition two_path_record :: connection_record where
  "two_path_record = (demo_established 1 7 (demo_endpoint ''10.0.0.1'' 9000))
     \<lparr> c_transport_paths := [demo_path 1 ''tcp'' 1 no_endpoint, demo_path 4 ''ice'' 0 no_endpoint] \<rparr>"

definition two_path_cm :: cm where
  "two_path_cm = demo_cm\<lparr> records := [(1, two_path_record)], connectors := [(''tcp'', demo_ops), (''ice'', demo_ops\<lparr> co_ident := 2 \<rparr>)],
     send_queues := [(1, empty_queue\<lparr> frames := [[7], [8]], pending_bytes := 2 \<rparr>)] \<rparr>"

theorem send_failover_witness:
  "let s1 = flush_queue refusing_env 1 two_path_cm; ice = demo_ops\<lparr> co_ident := 2 \<rparr>
   in ext_calls s1 = [OpsSendTo ice 4 [7], OpsSendTo ice 4 [8], OpsSendTo demo_ops 1 [7], OpsSendTo demo_ops 1 [8]]
     \<and> map_option (\<lambda>r. map tp_errors (c_transport_paths r)) (rcu_find s1 1) = Some [0, 1]"
proof -
  let ?paths = "[(1, demo_path 4 ''ice'' 0 no_endpoint), (0, demo_path 1 ''tcp'' 1 no_endpoint)]"
  have s: "\<not> shutting_down two_path_cm" "rcu_find two_path_cm 1 = Some two_path_record" "ext_calls two_path_cm = []"
    "map_of (send_queues two_path_cm) 1 = Some (empty_queue\<lparr> frames := [[7], [8]], pending_bytes := 2 \<rparr>)"
    "find_connector two_path_cm ''ice'' = Some (demo_ops\<lparr> co_ident := 2 \<rparr>)" "find_connector two_path_cm ''tcp'' = Some demo_ops"
    by (simp_all add: two_path_cm_def rcu_find_def find_connector_def)
  have d: "drain_batch 64 (empty_queue\<lparr> frames := [[7], [8]], pending_bytes := 2 \<rparr>) = ([[7], [8]], empty_queue)"
    by (simp add: drain_batch_def total_bytes_def empty_queue_def)
  have p: "map (\<lambda>i. (i, c_transport_paths two_path_record ! i)) (active_paths two_path_record) = [?paths ! 0] @ [?paths ! 1]"
    by (simp add: active_paths_def two_path_record_def demo_path_def Let_def)
  have no: "refuse_in_turn refusing_env two_path_cm [[7], [8]] (ext_calls two_path_cm) [?paths ! 0]"
    and yes: "path_accepts refusing_env two_path_cm [[7], [8]]
      (ext_calls two_path_cm @ concat (map (path_calls two_path_cm [[7], [8]]) [?paths ! 0])) (?paths ! 1)"
    by (simp_all add: path_accepts_def accepts_def gathers_def demo_path_def s) (simp_all add: refusing_env_def demo_ops_def)
  show ?thesis
    using send_failover [OF s(1,2,4) d _ p _ no, simplified list.case, OF _ _ yes]
    by (simp add: s path_calls_def send_calls_def gathers_def demo_path_def fail_path_def upd_path_def two_path_record_def
        path_ok_def path_failed_def Let_def) (simp add: demo_ops_def)
qed

text \<open>
  A path leaves service at its third consecutive error and not before; a success
  in between starts the count again.
\<close>

theorem path_deactivated_after_three:
  "tp_active ((path_failed ^^ n) (path_ok p)) \<longleftrightarrow> tp_active p \<and> n < 3"
proof (induction n rule: less_induct)
  case (less n)
  have err: "tp_errors ((path_failed ^^ k) (path_ok p)) = word_of_nat k" for k
    by (induction k) (auto simp: path_failed_def path_ok_def Let_def)
  show ?case
  proof (cases n)
    case 0
    then show ?thesis by (simp add: path_ok_def)
  next
    case (Suc k)
    have step: "tp_active ((path_failed ^^ n) (path_ok p))
        \<longleftrightarrow> tp_active ((path_failed ^^ k) (path_ok p)) \<and> \<not> (3 :: u32) \<le> word_of_nat k + 1"
      using Suc err [of k] by (auto simp: path_failed_def [of "(path_failed ^^ k) (path_ok p)"] Let_def)
    have small: "k < 3 \<Longrightarrow> (3 :: u32) \<le> word_of_nat k + 1 \<longleftrightarrow> k = 2"
    proof -
      assume "k < 3"
      then have "k = 0 \<or> k = 1 \<or> k = 2" by auto
      then show ?thesis by (auto simp: word_le_nat_alt)
    qed
    show ?thesis using step small less.IH [of k] Suc by auto
  qed
qed

text \<open>
  The order in which \<open>flush_queue\<close> tries the paths starts with a path as good as
  \<open>best_path\<close>: no active path has a smaller priority number than either, and one exists
  exactly when the other does.
\<close>

theorem best_path_first:
  "case active_paths r of
     [] \<Rightarrow> best_path r = None
   | i # _ \<Rightarrow> \<exists>j b. best_path r = Some (j, b) \<and> tp_active b
       \<and> tp_priority b = tp_priority (c_transport_paths r ! i)
       \<and> (\<forall>p \<in> set (c_transport_paths r). tp_active p \<longrightarrow> tp_priority b \<le> tp_priority p)"
proof (cases "active_paths r")
  case Nil
  have "best_path r = None"
  proof (rule ccontr)
    assume "best_path r \<noteq> None"
    then obtain j b where "best_path r = Some (j, b)" by auto
    from best_path_min(1-3) [OF this] have "j \<in> set (active_paths r)" by (simp add: active_paths_set)
    with Nil show False by simp
  qed
  with Nil show ?thesis by simp
next
  case (Cons i rest)
  then have i: "i < length (c_transport_paths r)" "tp_active (c_transport_paths r ! i)"
    using active_paths_set [of r] by (auto simp: set_eq_iff)
  then have mem: "c_transport_paths r ! i \<in> set (c_transport_paths r)" by simp
  have "best_path r \<noteq> None"
    using best_index_min [where k = 0 and ps = "c_transport_paths r" and best = None] i mem
    by (auto simp: best_path_def split: option.splits)
  then obtain j b where jb: "best_path r = Some (j, b)" by auto
  note m = best_path_min [OF jb]
  have "tp_priority b = tp_priority (c_transport_paths r ! i)"
    using active_paths_hd [OF Cons, of b] m(4) [OF mem i(2)] m(1-3) by (simp add: order.antisym)
  then show ?thesis using Cons jb m(3,4) by auto
qed

theorem best_path_first_witness:
  "let r = fresh_record\<lparr> c_transport_paths := [demo_path 1 ''tcp'' 1 no_endpoint, demo_path 2 ''ice'' 0 no_endpoint] \<rparr>
   in active_paths r = [1, 0] \<and> map_option (tp_priority \<circ> snd) (best_path r) = Some 0"
proof -
  define r where "r = fresh_record\<lparr> c_transport_paths := [demo_path 1 ''tcp'' 1 no_endpoint, demo_path 2 ''ice'' 0 no_endpoint] \<rparr>"
  have a: "active_paths r = [1, 0]" unfolding r_def by code_simp
  have p: "tp_priority (c_transport_paths r ! 1) = 0" by (simp add: r_def demo_path_def)
  from best_path_first [of r, unfolded a list.case] obtain j b
    where "best_path r = Some (j, b)" "tp_priority b = tp_priority (c_transport_paths r ! 1)" by blast
  with a p show ?thesis unfolding r_def [symmetric] Let_def by simp
qed

text \<open>
  A payload longer than two chunks is sent as consecutive frames whose payloads are
  non-empty, at most 1 MB each, and together the payload.
\<close>

theorem long_payload_chunked:
  assumes "resolve_uri s uri = Some c" "rcu_find s c = Some r" "c_state r = STATE_ESTABLISHED" "uri \<noteq> []" "\<not> shutting_down s"
    "2 * CHUNK_SIZE < length payload" "get_pending_bytes s CONN_ID_INVALID + length payload \<le> GLOBAL_MAX_IN_FLIGHT"
  shows "\<exists>chs. send_uri E uri t payload s = (True, foldl (\<lambda>s ch. send_frame E c t ch s) s chs)
    \<and> concat chs = payload \<and> (\<forall>ch \<in> set chs. ch \<noteq> [] \<and> length ch \<le> CHUNK_SIZE)"
  using assms chunks_of_concat [of payload] chunks_of_sizes [of _ payload]
  by (intro exI [of _ "chunks_of payload"]) (simp add: send_uri_def send_chunks_fold)

theorem long_payload_chunked_witness:
  "\<exists>chs. send_uri demo_env ''tcp://10.0.0.1:9000'' 100 (replicate (3 * CHUNK_SIZE) 0) demo_cm
      = (True, foldl (\<lambda>s ch. send_frame demo_env 1 100 ch s) demo_cm chs)
    \<and> concat chs = replicate (3 * CHUNK_SIZE) 0"
proof -
  have "resolve_uri demo_cm ''tcp://10.0.0.1:9000'' = Some 1"
    by (simp add: resolve_uri_def uri_key_of_def starts_with_def)
  moreover have "get_pending_bytes demo_cm CONN_ID_INVALID = 0"
    by (simp add: get_pending_bytes_def empty_queue_def)
  ultimately show ?thesis
    using long_payload_chunked [OF _ demo_find(1), of "''tcp://10.0.0.1:9000''" "replicate (3 * CHUNK_SIZE) 0" demo_env 100]
    by (auto simp: CHUNK_SIZE_def GLOBAL_MAX_IN_FLIGHT_def)
qed

text \<open>
  Property C13. No operation of the manager lets a queue of messages waiting for a connection grow
  beyond 100.
\<close>

theorem pending_queues_bounded:
  assumes "handlers_keep pending_ok E" "pending_ok s"
  shows "pending_ok (exec E ev s)"
  by (rule pending_ok_exec [OF assms])

theorem pending_queues_bounded_witness:
  "pending_ok (exec demo_env (EvSendUri ''tcp://192.0.2.1:1'' 100 [1]) demo_cm)"
  by (rule pending_queues_bounded) (simp_all add: pending_ok_def)

text \<open>
  \<open>cleanup_stale_pending\<close> treats each address on its own: a queue whose oldest
  message is older than 30 s loses exactly its stale messages and disappears when none is left, any
  other queue is untouched; so when a queue is in order of arrival, no stale message remains in it.
\<close>

theorem cleanup_removes_stale:
  assumes "distinct (map fst (pending_messages s))"
  shows "map_of (pending_messages (cleanup_stale_pending E s)) k =
      (case map_of (pending_messages s) k of
         Some (m # q) \<Rightarrow> if stale E m
           then (let q1 = filter (\<lambda>m. \<not> stale E m) (m # q) in if q1 = [] then None else Some q1)
           else Some (m # q)
       | other \<Rightarrow> other)
    \<and> (\<forall>q. map_of (pending_messages s) k = Some q \<and> sorted (map pm_queued_at q) \<longrightarrow>
        (\<forall>q1. map_of (pending_messages (cleanup_stale_pending E s)) k = Some q1 \<longrightarrow> (\<forall>m \<in> set q1. \<not> stale E m)))"
proof -
  define us where "us = map fst (filter (\<lambda>(_, q). case q of [] \<Rightarrow> False | m # _ \<Rightarrow> stale E m) (pending_messages s))"
  have us: "k \<in> set us \<longleftrightarrow> (\<exists>m q. map_of (pending_messages s) k = Some (m # q) \<and> stale E m)"
    using assms by (force simp: us_def split: list.splits)
  have eq: "map_of (pending_messages (cleanup_stale_pending E s)) k =
      (case map_of (pending_messages s) k of
         Some (m # q) \<Rightarrow> if stale E m
           then (let q1 = filter (\<lambda>m. \<not> stale E m) (m # q) in if q1 = [] then None else Some q1)
           else Some (m # q)
       | other \<Rightarrow> other)"
    unfolding cleanup_stale_pending_def Let_def us_def [symmetric] drop_stale_all using us
    by (auto simp: drop_stale_here Let_def split: option.splits list.splits)
  have "\<not> stale E x" if "sorted (map pm_queued_at (m # q))" "\<not> stale E m" "x \<in> set (m # q)" for m q x
    using that by (auto simp: stale_def)
  then show ?thesis
    unfolding eq by (auto simp: Let_def split: list.splits if_splits)
qed

theorem cleanup_removes_stale_witness:
  "let old = \<lparr> pm_type = 100, pm_payload = [1], pm_queued_at = - 40000000000 \<rparr>;
       new = \<lparr> pm_type = 100, pm_payload = [2], pm_queued_at = 0 \<rparr>
   in map_of (pending_messages (cleanup_stale_pending demo_env (demo_cm\<lparr> pending_messages := [(''a'', [old, new]), (''b'', [new])] \<rparr>))) ''a''
      = Some [new]"
  using cleanup_removes_stale [of "demo_cm\<lparr> pending_messages := [(''a'', [\<lparr> pm_type = 100, pm_payload = [1], pm_queued_at = - 40000000000 \<rparr>,
      \<lparr> pm_type = 100, pm_payload = [2], pm_queued_at = 0 \<rparr>]), (''b'', [\<lparr> pm_type = 100, pm_payload = [2], pm_queued_at = 0 \<rparr>])] \<rparr>" demo_env "''a''"]
  by (simp add: stale_def demo_env_def PENDING_TTL_def second_ns_def)

end
