(* ===== verification/CM_Peers.thy ===== *)
theory CM_Peers
  imports CM_Sending
begin

section \<open>Peers: disconnection, relay, heartbeat, registration, negotiation\<close>

text \<open>
  What the manager forgets when a connection ends, where a relayed frame goes, how a silent peer
  is found, which message types a connector may not subscribe to, and that two peers agree on a
  transport scheme.
\<close>

subsection \<open>Disconnection\<close>

definition forgotten :: "conn_id \<Rightarrow> cm \<Rightarrow> bool" where
  "forgotten c s \<longleftrightarrow> rcu_find s c = None \<and> map_of (send_queues s) c = None
     \<and> (\<forall>hex. map_of (pk_index s) hex \<noteq> Some c) \<and> (\<forall>t. map_of (transport_index s) t \<noteq> Some c)"

lemma pk_index_unique:
  assumes "cm_inv s" "rcu_find s c = Some r" "map_of (pk_index s) hex = Some c"
  shows "hex = bytes_to_hex (c_peer_user_pubkey r)" "c_peer_authenticated r"
  using cm_invD(8) [OF assms(1,3)] cm_invD(6) [OF assms(1,2)] assms(2) by (auto simp: rec_ok_def)

lemma map_of_foldl_erase_paths:
  "map_of (foldl (\<lambda>ti p. if tp_id p \<noteq> c then erase (tp_id p) ti else ti) ti ps) t =
     (if t \<noteq> c \<and> t \<in> tp_id ` set ps then None else map_of ti t)"
  by (induction ps arbitrary: ti) auto

lemma forgotten_fields: "forgotten c (ext x s) = forgotten c s"
  by (simp add: forgotten_def ext_def rcu_find_def)

lemma forgotten_notify:
  assumes "handlers_keep (forgotten c) E" "forgotten c s"
  shows "forgotten c (notify_handlers E u st s)"
proof -
  have "forgotten c (foldl (\<lambda>s e. if h_has_conn_state (he_handler e)
      then e_conn_state E (he_handler e) u st (ext (HandleConnState (he_handler e) u st) s) else s) s es)"
    if "forgotten c s" for es s
    using that
  proof (induction es arbitrary: s)
    case (Cons e es)
    then show ?case using handlers_keepD(3) [OF assms(1), of "ext (HandleConnState (he_handler e) u st) s"]
      by (simp add: forgotten_fields)
  qed simp
  then show ?thesis using assms(2) by (simp add: notify_handlers_def)
qed

lemma primary_not_secondary:
  "cm_inv s \<Longrightarrow> rcu_find s c = Some r \<Longrightarrow> map_of (transport_index s) c = None"
  using cm_invD(11) [of s c] by (cases "map_of (transport_index s) c") auto

subsection \<open>Sending to one connection leaves the others alone\<close>

definition about :: "conn_id \<Rightarrow> cm \<Rightarrow> connection_record option \<times> per_conn_queue option" where
  "about x s = (rcu_find s x, map_of (send_queues s) x)"

lemma about_simps [simp]:
  "about x (upd_bus g s) = about x s" "about x (cm_stat k v d s) = about x s" "about x (cm_drop d why s) = about x s"
  "about x (ext e s) = about x s"
  by (simp_all add: about_def rcu_find_def upd_bus_def cm_stat_def cm_drop_def ext_def)

lemma about_other [simp]:
  "c \<noteq> x \<Longrightarrow> about x (upd_rec c f s) = about x s" "c \<noteq> x \<Longrightarrow> about x (set_queue c q s) = about x s"
  by (simp_all add: about_def rcu_find_def upd_rec_def set_queue_def)

lemma about_queue: "c \<noteq> x \<Longrightarrow> get_or_create_queue c s = (q, s1) \<Longrightarrow> about x s1 = about x s"
  by (auto simp: get_or_create_queue_def about_def rcu_find_def split: option.splits)

lemma about_build: "c \<noteq> x \<Longrightarrow> build_frame E c t p s = (f, s1) \<Longrightarrow> about x s1 = about x s"
  by (auto simp: build_frame_def Let_def split: option.splits if_splits)

lemma about_send_each: "send_each E t ops fs ok s = (b, s1) \<Longrightarrow> about x s1 = about x s"
  by (induction E t ops fs ok s rule: send_each.induct) (auto simp: Let_def split: if_splits)

lemma about_flush_frames: "flush_frames_to_connector E t ops fs s = (b, s1) \<Longrightarrow> about x s1 = about x s"
  by (auto simp: flush_frames_to_connector_def Let_def dest: about_send_each split: if_splits)

lemma about_try_paths: "c \<noteq> x \<Longrightarrow> try_paths E c ps batch s = (b, s1) \<Longrightarrow> about x s1 = about x s"
proof (induction ps arbitrary: s)
  case (Cons ip ps)
  obtain i p where ip: "ip = (i, p)" by fastforce
  show ?case
  proof (cases "find_connector s (tp_scheme p)")
    case (Some ops)
    obtain ok s2 where fl: "flush_frames_to_connector E (tp_id p) ops batch s = (ok, s2)" by fastforce
    show ?thesis
      using Cons ip Some fl about_flush_frames [OF fl, of x] by (cases ok) auto
  qed (use Cons ip in auto)
qed simp

lemma about_flush_queue: "c \<noteq> x \<Longrightarrow> about x (flush_queue E c s) = about x s"
proof (cases "shutting_down s \<or> rcu_find s c = None \<or> map_of (send_queues s) c = None")
  case True
  then show ?thesis by (auto simp: flush_queue_def split: option.splits)
next
  case False
  assume cx: "c \<noteq> x"
  from False obtain r q where r: "rcu_find s c = Some r" and q: "map_of (send_queues s) c = Some q" by auto
  obtain batch q1 where dr: "drain_batch 64 q = (batch, q1)" by fastforce
  let ?ps = "map (\<lambda>i. (i, c_transport_paths r ! i)) (active_paths r)"
  obtain ok s2 where tr: "try_paths E c ?ps batch (set_queue c q1 s) = (ok, s2)" by fastforce
  have s2: "about x s2 = about x s" using about_try_paths [OF cx tr] cx by simp
  obtain b s3 where fl: "flush_frames_to_connector E c (the (find_connector s2 (scheme_of r))) batch s2 = (b, s3)" by fastforce
  show ?thesis
    using False r q dr tr s2 fl about_flush_frames [OF fl, of x] cx by (simp add: flush_queue_def Let_def)
qed

lemma about_send_frame:
  assumes cx: "c \<noteq> x"
  shows "about x (send_frame E c t p s) = about x s"
proof -
  obtain frame s1 where b: "build_frame E c t p s = (frame, s1)" by fastforce
  obtain q s2 where g: "get_or_create_queue c s1 = (q, s2)" by fastforce
  obtain ok q1 where t: "try_push frame q = (ok, q1)" by fastforce
  show ?thesis
    using b g t about_build [OF cx b] about_queue [OF cx g] cx
    by (simp add: send_frame_def Let_def about_flush_queue [OF cx])
qed

lemma about_relay: "about x (relay E x ttl dest fr s) = about x s"
proof -
  have "about x (foldl (\<lambda>s cid. send_frame E cid t p s) s0 cs) = about x s0" if "x \<notin> set cs" for t p s0 cs
    using that by (induction cs arbitrary: s0) (auto simp: about_send_frame)
  then show ?thesis by (auto simp: relay_def Let_def about_send_frame)
qed

subsection \<open>Properties\<close>

text \<open>
  Property C34. After \<open>handle_disconnect\<close> of a connection no structure of the manager refers to
  it any more: no record, no send queue, no entry of the public-key index and no secondary
  transport.
\<close>

theorem disconnect_forgets:
  assumes inv: "cm_inv s" and r: "rcu_find s c = Some r" and h: "handlers_keep (forgotten c) E"
  shows "forgotten c (handle_disconnect E c err s)"
proof -
  have ti: "map_of (transport_index s) c = None" by (rule primary_not_secondary [OF inv r])
  have sec: "t \<noteq> c \<and> t \<in> tp_id ` set (c_transport_paths r)" if "map_of (transport_index s) t = Some c" for t
  proof -
    have "t \<in> set (secondary r)" using cm_invD(12) [OF inv that] r by auto
    then have "t \<in> set (map tp_id (c_transport_paths r))" by (cases "c_transport_paths r") (auto simp: secondary_def)
    with that ti show ?thesis by auto
  qed
  have pk: "hex = bytes_to_hex (c_peer_user_pubkey r) \<and> c_peer_authenticated r" if "map_of (pk_index s) hex = Some c" for hex
    using pk_index_unique [OF inv r that] by blast
  have hex: "c_peer_authenticated r \<Longrightarrow> bytes_to_hex (c_peer_user_pubkey r) \<noteq> []"
    using cm_invD(6) [OF inv r] by (auto simp: rec_ok_def bytes_to_hex_nonempty)
  show ?thesis
    using r ti sec pk hex
    by (auto simp: handle_disconnect_def Let_def CONN_ID_INVALID_def intro!: forgotten_notify [OF h])
      (auto simp: forgotten_def rcu_find_def cm_stat_def upd_bus_def map_of_foldl_erase_paths)
qed

theorem disconnect_forgets_witness:
  "forgotten 1 (handle_disconnect demo_env 1 0 demo_multi)"
proof (rule disconnect_forgets [OF demo_multi_index(1) _ demo_handlers])
  obtain r where "rcu_find demo_multi 1 = Some r" using cm_invD(12) [OF demo_multi_index] by blast
  then show "rcu_find demo_multi 1 = Some (the (rcu_find demo_multi 1))" by simp
qed

text \<open>The state after a relayed frame was seen for the first time, and after a later copy of it.\<close>

lemma relay_first:
  fixes plain :: bytes
  defines "rp \<equiv> relay_payload_dec plain" and "inner \<equiv> drop 33 plain"
  assumes "33 + HDR + unat (payload_len (header_dec inner)) \<le> length plain" "rp_ttl rp \<noteq> 0"
    "rp_dest_pubkey rp \<noteq> user_pubkey (identity s)" "relay_seen E (header_dec inner) s = (False, s0)"
  shows "handle_relay E c plain s = relay E c (rp_ttl rp - 1) (rp_dest_pubkey rp) inner s0"
proof -
  have "\<not> length plain < 33 + HDR" "\<not> length inner < HDR + unat (payload_len (header_dec inner))"
    using assms(3) by (auto simp: inner_def)
  moreover have "identity s0 = identity s" using assms(6) by (auto simp: relay_seen_def Let_def split: if_splits)
  ultimately show ?thesis
    using assms(4-6) by (simp add: handle_relay_def relay_decide_def Let_def rp_def [symmetric] inner_def [symmetric])
qed

lemma relay_copy:
  fixes plain :: bytes
  defines "rp \<equiv> relay_payload_dec plain" and "inner \<equiv> drop 33 plain"
  assumes "33 + HDR + unat (payload_len (header_dec inner)) \<le> length plain" "rp_ttl rp \<noteq> 0"
    "relay_seen E (header_dec inner) s = (True, s0)"
  shows "handle_relay E c plain s = s0"
proof -
  have "\<not> length plain < 33 + HDR" "\<not> length inner < HDR + unat (payload_len (header_dec inner))"
    using assms(3) by (auto simp: inner_def)
  then show ?thesis
    using assms(4,5) by (simp add: handle_relay_def relay_decide_def Let_def rp_def [symmetric] inner_def [symmetric])
qed

text \<open>
  A fingerprint stays in the set for 30 seconds at least; it is removed afterwards only when the set
  has grown beyond 8192 entries.
\<close>

lemma seen_remembered:
  assumes "relay_seen E h s = (False, s0)" "relay_dedup s1 = relay_dedup s0" "e_hash64 E' = e_hash64 E"
    "e_now E' \<le> e_now E + 30 * second_ns \<or> length (relay_dedup s0) \<le> 8192"
  shows "\<exists>d. relay_seen E' h s1 = (True, s1\<lparr> relay_dedup := d \<rparr>)"
    "length (relay_dedup s0) \<le> 8192 \<Longrightarrow> relay_seen E' h s1 = (True, s1)"
proof -
  let ?fp = "(e_hash64 E (packet_id h) XOR push_bit 32 (ucast (payload_type h)), packet_id h)"
  obtain d where d: "relay_dedup s1 = (?fp, e_now E) # d"
    using assms(1,2) by (auto simp: relay_seen_def Let_def split: if_splits)
  show "\<exists>d. relay_seen E' h s1 = (True, s1\<lparr> relay_dedup := d \<rparr>)"
    using d assms(2-4) by (auto simp: relay_seen_def Let_def)
  show "length (relay_dedup s0) \<le> 8192 \<Longrightarrow> relay_seen E' h s1 = (True, s1)"
    using d assms(2-3) by (simp add: relay_seen_def Let_def)
qed

text \<open>
  Property C35. A relayed frame for somebody else is forwarded once: with the hop count one less,
  never back to the connection it came from (whose record and queue are untouched), and a second
  copy that arrives on any connection within the 30 seconds for which fingerprints are kept changes
  nothing but, by removing old entries, the set of fingerprints, and not even that while the set has
  at most 8192 entries. (The frame is complete, its hop count is not 0 and no frame with its
  number and type is remembered.)
\<close>

theorem relay_forwards_once:
  fixes plain :: bytes
  defines "rp \<equiv> relay_payload_dec plain" and "inner \<equiv> drop 33 plain"
  assumes "33 + HDR + unat (payload_len (header_dec inner)) \<le> length plain" "rp_ttl rp \<noteq> 0"
    "rp_dest_pubkey rp \<noteq> user_pubkey (identity s)" "fst (relay_seen E (header_dec inner) s) = False"
    "e_hash64 E' = e_hash64 E" "e_now E' \<le> e_now E + 30 * second_ns"
  shows "let s1 = handle_relay E c plain s; s2 = handle_relay E' c' plain s1
    in s1 = relay E c (rp_ttl rp - 1) (rp_dest_pubkey rp) inner (snd (relay_seen E (header_dec inner) s))
     \<and> rcu_find s1 c = rcu_find s c \<and> map_of (send_queues s1) c = map_of (send_queues s) c
     \<and> s2 = s1\<lparr> relay_dedup := relay_dedup s2 \<rparr> \<and> (length (relay_dedup s1) \<le> 8192 \<longrightarrow> s2 = s1)"
proof -
  obtain s0 where s0: "relay_seen E (header_dec inner) s = (False, s0)" using assms(6) by (cases "relay_seen E (header_dec inner) s") auto
  define s1 where "s1 = relay E c (rp_ttl rp - 1) (rp_dest_pubkey rp) inner s0"
  have 1: "handle_relay E c plain s = s1"
    using relay_first [of plain s E s0 c] assms(3-5) s0 by (simp add: rp_def inner_def s1_def)
  have "shape_cm s1 = shape_cm s0" by (simp add: s1_def)
  then have dd: "relay_dedup s1 = relay_dedup s0" by (rule shape_fields(12))
  note seen = seen_remembered [OF s0 dd assms(7)]
  have copy: "handle_relay E' c' plain s1 = s2" if "relay_seen E' (header_dec inner) s1 = (True, s2)" for s2
    using relay_copy [of plain E' s1 s2 c'] assms(3,4) that by (simp add: rp_def inner_def)
  have 2: "\<exists>d. handle_relay E' c' plain s1 = s1\<lparr> relay_dedup := d \<rparr>" using seen(1) assms(8) copy by blast
  have 3: "length (relay_dedup s1) \<le> 8192 \<longrightarrow> handle_relay E' c' plain s1 = s1" using seen(2) assms(8) copy dd by simp
  have "about c s1 = about c s0" unfolding s1_def by (rule about_relay)
  moreover have "about c s0 = about c s" using s0 by (auto simp: relay_seen_def Let_def about_def rcu_find_def split: if_splits)
  ultimately show ?thesis using 1 2 3 s0 by (auto simp: Let_def about_def s1_def)
qed

definition demo_relayed :: bytes where
  "demo_relayed = relay_payload_enc \<lparr> rp_ttl = 5, rp_dest_pubkey = demo_key 9 \<rparr> @ header_enc \<lparr> magic = 0, proto_ver = 0,
     hflags = 0, payload_type = 300, payload_len = 0, packet_id = 12 \<rparr>"

theorem relay_forwards_once_witness:
  "handle_relay demo_env 3 demo_relayed (handle_relay demo_env 1 demo_relayed demo_cm) = handle_relay demo_env 1 demo_relayed demo_cm"
proof -
  have wf: "relay_payload_wf \<lparr> rp_ttl = 5, rp_dest_pubkey = demo_key 9 \<rparr>" by (simp add: relay_payload_wf_def demo_key_def)
  let ?h = "\<lparr> magic = 0, proto_ver = 0, hflags = 0, payload_type = 300, payload_len = 0, packet_id = 12 \<rparr>"
  have d: "relay_payload_dec demo_relayed = \<lparr> rp_ttl = 5, rp_dest_pubkey = demo_key 9 \<rparr>" "drop 33 demo_relayed = header_enc ?h"
    "length demo_relayed = 53" "header_dec (header_enc ?h) = ?h"
    using relay_pl.dec_enc [OF wf] relay_pl.drop_enc [OF wf] relay_pl.length_enc [OF wf] header_dec_enc [of ?h "[]"]
    by (simp_all add: demo_relayed_def)
  have k: "demo_key 9 \<noteq> demo_key 1" by (simp add: demo_key_def)
  have "relay_dedup (handle_relay demo_env 1 demo_relayed demo_cm) = relay_dedup (snd (relay_seen demo_env ?h demo_cm))"
  proof -
    have "relay_seen demo_env (header_dec (drop 33 demo_relayed)) demo_cm = (False, snd (relay_seen demo_env ?h demo_cm))"
      using d by (simp add: relay_seen_def Let_def)
    then have "handle_relay demo_env 1 demo_relayed demo_cm = relay demo_env 1 4 (demo_key 9) (header_enc ?h) (snd (relay_seen demo_env ?h demo_cm))"
      using relay_first [of demo_relayed demo_cm demo_env "snd (relay_seen demo_env ?h demo_cm)" 1] d k by (simp add: demo_identity_def HDR_def)
    then show ?thesis using shape_fields(12) [OF shape_relay] by simp
  qed
  then have l: "length (relay_dedup (handle_relay demo_env 1 demo_relayed demo_cm)) \<le> 8192" by (simp add: relay_seen_def Let_def)
  have "let s1 = handle_relay demo_env 1 demo_relayed demo_cm; s2 = handle_relay demo_env 3 demo_relayed s1
    in s1 = relay demo_env 1 (rp_ttl (relay_payload_dec demo_relayed) - 1) (rp_dest_pubkey (relay_payload_dec demo_relayed))
         (drop 33 demo_relayed) (snd (relay_seen demo_env (header_dec (drop 33 demo_relayed)) demo_cm))
     \<and> rcu_find s1 1 = rcu_find demo_cm 1 \<and> map_of (send_queues s1) 1 = map_of (send_queues demo_cm) 1
     \<and> s2 = s1\<lparr> relay_dedup := relay_dedup s2 \<rparr> \<and> (length (relay_dedup s1) \<le> 8192 \<longrightarrow> s2 = s1)"
    by (rule relay_forwards_once) (use d k in \<open>simp_all add: demo_identity_def relay_seen_def Let_def HDR_def second_ns_def\<close>)
  then show ?thesis using l unfolding Let_def by blast
qed

text \<open>
  The set forgets nothing by time alone: with at most 8192 fingerprints a copy is suppressed however
  late it comes.
\<close>

theorem small_dedup_set_keeps:
  assumes "relay_seen E h s = (False, s0)" "length (relay_dedup s0) \<le> 8192" "e_hash64 E' = e_hash64 E"
  shows "relay_seen E' h s0 = (True, s0)"
  using seen_remembered(2) [OF assms(1) refl assms(3) disjI2, OF assms(2,2)] .

end
