(* ===== verification/Ice_Connector.thy ===== *)
theory Ice_Connector
  imports Ice_Safety CM_Peers
begin

section \<open>The ICE connector on top of the connection manager\<close>

text \<open>
  \<open>plugins/connectors/ice/ice.cpp\<close>. The node is the connection manager, the connector's map
  from peers to sessions and the session objects; an object outlives its entry in the map, since
  its timers and its receive loop hold a reference to it. The host API calls of the connector are
  the operations of the manager. What the connector posts to its \<open>io_context\<close> is a list of
  tasks, run one at a time. Threads, logging and the plugin entry point are left out.
\<close>

subsection \<open>Configuration\<close>

fun skip_spaces :: "string \<Rightarrow> string" where
  "skip_spaces [] = []"
| "skip_spaces (c # cs) = (if c \<in> {CHR '' '', CHR 0x09, CHR 0x0A, CHR 0x0B, CHR 0x0C, CHR 0x0D} then skip_spaces cs else c # cs)"

definition is_digit :: "char \<Rightarrow> bool" where
  "is_digit c \<longleftrightarrow> 48 \<le> (of_char c :: nat) \<and> (of_char c :: nat) \<le> 57"

definition digits_value :: "string \<Rightarrow> int" where
  "digits_value ds = foldl (\<lambda>v c. 10 * v + (of_char c - 48)) 0 ds"

text \<open>\<open>std::atoi\<close>; its result is only defined when the number fits an \<open>int\<close>.\<close>

definition atoi :: "string \<Rightarrow> int" where
  "atoi str =
     (case skip_spaces str of
        CHR ''-'' # ds \<Rightarrow> - digits_value (takeWhile is_digit ds)
      | CHR ''+'' # ds \<Rightarrow> digits_value (takeWhile is_digit ds)
      | ds \<Rightarrow> digits_value (takeWhile is_digit ds))"

definition trim_spaces :: "string \<Rightarrow> string" where
  "trim_spaces e = rev (dropWhile (\<lambda>c. c = CHR '' '') (rev (dropWhile (\<lambda>c. c = CHR '' '') e)))"

definition stun_server_of :: "string \<Rightarrow> string \<times> u16" where
  "stun_server_of entry =
     (if CHR '':'' \<in> set entry
      then let tail = rev (takeWhile (\<lambda>c. c \<noteq> CHR '':'') (rev entry));
               host = take (length entry - length tail - 1) entry;
               p = atoi tail
           in (host, if 0 < p \<and> p \<le> 65535 then word_of_int p else 19302)
      else (entry, 19302))"

function parse_stun_servers :: "string \<Rightarrow> (string \<times> u16) list" where
  "parse_stun_servers val =
     (if val = [] then []
      else let entry = takeWhile (\<lambda>c. c \<noteq> CHR '','') val;
               rest = drop (length entry + 1) val;
               e = trim_spaces entry
           in (if e = [] then [] else [stun_server_of e]) @ parse_stun_servers rest)"
  by pat_completeness auto
termination by (relation "measure length") (auto simp: length_greater_0_conv [symmetric] simp del: length_greater_0_conv)

declare parse_stun_servers.simps [simp del]

definition default_ice_config :: ice_config where
  "default_ice_config = \<lparr> ic_stun_servers = [(''stun.l.google.com'', 19302), (''stun1.l.google.com'', 19302), (''stun2.l.google.com'', 19302)],
     ic_session_timeout = 10, ic_keepalive_interval = 20, ic_consent_max_failures = 3 \<rparr>"

text \<open>\<open>config_get\<close> copies at most 255 characters; an absent key reads as the empty string.\<close>

definition config_get :: "(string \<Rightarrow> string option) \<Rightarrow> string \<Rightarrow> string" where
  "config_get cfg key = (case cfg key of None \<Rightarrow> [] | Some v \<Rightarrow> take 255 v)"

definition positive_setting :: "(string \<Rightarrow> string option) \<Rightarrow> string \<Rightarrow> int \<Rightarrow> int" where
  "positive_setting cfg key old = (let v = config_get cfg key in if v \<noteq> [] \<and> atoi v > 0 then atoi v else old)"

definition init_config :: "(string \<Rightarrow> string option) \<Rightarrow> (string \<Rightarrow> string option) \<Rightarrow> ice_config" where
  "init_config cfg getenv =
     (let v = config_get cfg ''ice.stun_servers'';
          d = default_ice_config;
          servers =
            (if v \<noteq> [] then parse_stun_servers v
             else case getenv ''GOODNET_STUN_SERVER'' of
                    Some host \<Rightarrow>
                      (let p = (case getenv ''GOODNET_STUN_PORT'' of Some ps \<Rightarrow> atoi ps | None \<Rightarrow> 0)
                       in [(host, if 0 < p \<and> p \<le> 65535 then word_of_int p else 19302)])
                  | None \<Rightarrow> ic_stun_servers d)
      in \<lparr> ic_stun_servers = servers,
           ic_session_timeout = positive_setting cfg ''ice.session_timeout'' (ic_session_timeout d),
           ic_keepalive_interval = positive_setting cfg ''ice.keepalive_interval'' (ic_keepalive_interval d),
           ic_consent_max_failures = positive_setting cfg ''ice.consent_failures'' (ic_consent_max_failures d) \<rparr>)"

subsection \<open>The node\<close>

datatype ice_task =
    Task_create string
  | Task_send conn_id bytes
  | Task_close conn_id
  | Task_signal string u8 bytes

record ice_node =
  nd_cm :: cm
  nd_sessions :: "(string \<times> nat) list"
  nd_objects :: "(nat \<times> ice_session) list"
  nd_config :: ice_config
  nd_draws :: nat
  nd_datagrams :: "(nat \<times> udp_endpoint \<times> bytes) list"
  nd_tasks :: "ice_task list"

definition kind_offer :: u8 where "kind_offer = 0"
definition kind_answer :: u8 where "kind_answer = 1"
definition EIO :: int where "EIO = 5"

definition nd_post :: "ice_task \<Rightarrow> ice_node \<Rightarrow> ice_node" where
  "nd_post t nd = nd\<lparr> nd_tasks := nd_tasks nd @ [t] \<rparr>"

definition by_peer :: "string \<Rightarrow> ice_node \<Rightarrow> nat option" where
  "by_peer h nd = map_of (nd_sessions nd) h"

definition conn_of :: "ice_node \<Rightarrow> nat \<Rightarrow> conn_id option" where
  "conn_of nd oid = map_option ses_conn_id (map_of (nd_objects nd) oid)"

definition by_conn :: "conn_id \<Rightarrow> ice_node \<Rightarrow> (string \<times> nat) option" where
  "by_conn c nd = List.find (\<lambda>(_, oid). conn_of nd oid = Some c) (nd_sessions nd)"

subsection \<open>Signals and session callbacks\<close>

definition send_signal :: "env \<Rightarrow> string \<Rightarrow> u8 \<Rightarrow> bytes \<Rightarrow> ice_node \<Rightarrow> ice_node" where
  "send_signal E peer_hex kind signal_data nd =
     (let pkt = ice_signal_payload_enc \<lparr> is_kind = kind, is_pad = replicate 3 0, is_sdp_len = word_of_nat (length signal_data) \<rparr>
                @ signal_data;
          sig_conn = find_conn_by_pubkey (nd_cm nd) peer_hex
      in nd\<lparr> nd_cm := (if sig_conn \<noteq> CONN_ID_INVALID then snd (send_id E sig_conn MSG_TYPE_ICE_SIGNAL pkt (nd_cm nd))
                       else snd (send_uri E (''ice://'' @ peer_hex) MSG_TYPE_ICE_SIGNAL pkt (nd_cm nd))) \<rparr>)"

definition on_session_gathered :: "env \<Rightarrow> ice_session \<Rightarrow> ice_node \<Rightarrow> ice_node" where
  "on_session_gathered E s nd =
     send_signal E (ses_peer_hex s) (if ses_controlling s then kind_offer else kind_answer) (serialize_signal s) nd"

definition session_endpoint :: "ice_session \<Rightarrow> endpoint_t" where
  "session_endpoint s = \<lparr> ep_address = take 127 (ses_peer_hex s), ep_port = 0, ep_pubkey = replicate 32 0, ep_peer_id = 0, ep_flags = 0 \<rparr>"

definition on_session_connected :: "env \<Rightarrow> nat \<Rightarrow> ice_session \<Rightarrow> ice_node \<Rightarrow> ice_node" where
  "on_session_connected E oid s nd =
     (let sig_conn = find_conn_by_pubkey (nd_cm nd) (ses_peer_hex s);
          ep = session_endpoint s;
          (cid, cm1) = (if sig_conn \<noteq> CONN_ID_INVALID then handle_add_transport E (ses_peer_hex s) ep ''ice'' (nd_cm nd)
                        else handle_connect E ep (nd_cm nd));
          nd1 = nd\<lparr> nd_cm := cm1 \<rparr>
      in if cid = CONN_ID_INVALID then nd1
         else nd1\<lparr> nd_objects := modify oid (\<lambda>s. s\<lparr> ses_conn_id := cid \<rparr>) (nd_objects nd1) \<rparr>)"

definition on_session_failed :: "env \<Rightarrow> ice_session \<Rightarrow> ice_node \<Rightarrow> ice_node" where
  "on_session_failed E s nd =
     (let nd1 = (if ses_conn_id s \<noteq> CONN_ID_INVALID then nd\<lparr> nd_cm := handle_disconnect E (ses_conn_id s) EIO (nd_cm nd) \<rparr> else nd)
      in nd1\<lparr> nd_sessions := erase (ses_peer_hex s) (nd_sessions nd1) \<rparr>)"

definition on_session_data :: "env \<Rightarrow> ice_session \<Rightarrow> bytes \<Rightarrow> ice_node \<Rightarrow> ice_node" where
  "on_session_data E s data nd =
     (if ses_conn_id s = CONN_ID_INVALID then nd else nd\<lparr> nd_cm := handle_data E (ses_conn_id s) data (nd_cm nd) \<rparr>)"

definition handle_out :: "env \<Rightarrow> nat \<Rightarrow> ice_out \<Rightarrow> ice_node \<Rightarrow> ice_node" where
  "handle_out E oid x nd =
     (case map_of (nd_objects nd) oid of None \<Rightarrow> nd
      | Some s \<Rightarrow>
          (case x of
             Datagram ep pkt \<Rightarrow> nd\<lparr> nd_datagrams := nd_datagrams nd @ [(oid, ep, pkt)] \<rparr>
           | On_gathered \<Rightarrow> on_session_gathered E s nd
           | On_connected \<Rightarrow> on_session_connected E oid s nd
           | On_failed \<Rightarrow> on_session_failed E s nd
           | On_data data \<Rightarrow> on_session_data E s data nd))"

text \<open>A method of a session object, and the callbacks it makes, in their order.\<close>

definition run_session :: "env \<Rightarrow> nat \<Rightarrow> (ice_session \<Rightarrow> ice_session) \<Rightarrow> ice_node \<Rightarrow> ice_node" where
  "run_session E oid f nd =
     (case map_of (nd_objects nd) oid of None \<Rightarrow> nd
      | Some s \<Rightarrow>
          (let s1 = f (s\<lparr> ses_out := [], ses_draws := nd_draws nd \<rparr>);
               nd1 = nd\<lparr> nd_objects := AList.update oid s1 (nd_objects nd), nd_draws := ses_draws s1 \<rparr>
           in foldl (\<lambda>nd x. handle_out E oid x nd) nd1 (ses_out s1)))"

definition create_session :: "env \<Rightarrow> asio_env \<Rightarrow> string \<Rightarrow> bool \<Rightarrow> ice_node \<Rightarrow> nat option \<times> ice_node" where
  "create_session E W peer controlling nd =
     (if map_of (nd_sessions nd) peer \<noteq> None then (None, nd)
      else let oid = length (nd_objects nd);
               s = new_session W (nd_draws nd) peer controlling (nd_config nd);
               nd1 = nd\<lparr> nd_objects := nd_objects nd @ [(oid, s)], nd_draws := ses_draws s,
                         nd_sessions := AList.update peer oid (nd_sessions nd) \<rparr>
           in (Some oid, run_session E oid (gather W) nd1))"

subsection \<open>Connector operations\<close>

definition connect_target :: "string \<Rightarrow> string" where
  "connect_target uri = (case find_sep uri of Some p \<Rightarrow> drop (p + 3) uri | None \<Rightarrow> uri)"

definition do_connect :: "string \<Rightarrow> ice_node \<Rightarrow> int \<times> ice_node" where
  "do_connect uri nd =
     (let target = connect_target uri
      in if length target \<noteq> 64 then (-1, nd) else (0, nd_post (Task_create target) nd))"

definition do_send :: "conn_id \<Rightarrow> bytes \<Rightarrow> ice_node \<Rightarrow> int \<times> ice_node" where
  "do_send c data nd = (0, nd_post (Task_send c data) nd)"

definition do_close :: "conn_id \<Rightarrow> ice_node \<Rightarrow> ice_node" where
  "do_close c nd = nd_post (Task_close c) nd"

definition on_ice_signal :: "endpoint_t \<Rightarrow> bytes \<Rightarrow> ice_node \<Rightarrow> ice_node" where
  "on_ice_signal ep pl nd =
     (if length pl < 8 then nd
      else let h = ice_signal_payload_dec pl
           in if length pl < 8 + unat (is_sdp_len h) then nd
              else if unat (is_sdp_len h) < 44 then nd
              else nd_post (Task_signal (bytes_to_hex (ep_pubkey ep)) (is_kind h) (get_arr 8 (unat (is_sdp_len h)) pl)) nd)"

definition decode_signal :: "bytes \<Rightarrow> (ice_signal_data \<times> ice_candidate_wire list) option" where
  "decode_signal buf =
     (let sd = ice_signal_data_dec buf; n = unat (sd_candidate_count sd)
      in if length buf < 44 + n * 24 then None
         else Some (sd, map (\<lambda>i. ice_candidate_wire_dec (drop (44 + i * 24) buf)) [0..<n]))"

fun run_task :: "env \<Rightarrow> asio_env \<Rightarrow> ice_task \<Rightarrow> ice_node \<Rightarrow> ice_node" where
  "run_task E W (Task_create peer) nd = snd (create_session E W peer True nd)"
| "run_task E W (Task_send c data) nd =
     (case by_conn c nd of None \<Rightarrow> nd
      | Some (_, oid) \<Rightarrow>
          (case map_of (nd_objects nd) oid of None \<Rightarrow> nd
           | Some s \<Rightarrow> if ses_state s \<noteq> St_Connected then nd else run_session E oid (ses_send W data) nd))"
| "run_task E W (Task_close c) nd =
     (case by_conn c nd of None \<Rightarrow> nd
      | Some (peer, oid) \<Rightarrow>
          (let nd1 = run_session E oid (ses_close W) nd;
               nd2 = nd1\<lparr> nd_cm := handle_disconnect E c 0 (nd_cm nd1) \<rparr>
           in nd2\<lparr> nd_sessions := erase peer (nd_sessions nd2) \<rparr>))"
| "run_task E W (Task_signal peer kind buf) nd =
     (case decode_signal buf of None \<Rightarrow> nd
      | Some (sd, candidates) \<Rightarrow>
          if kind = kind_offer
          then (case create_session E W peer False nd of
                  (None, nd1) \<Rightarrow> nd1
                | (Some oid, nd1) \<Rightarrow> run_session E oid (set_remote W sd candidates) nd1)
          else (case by_peer peer nd of None \<Rightarrow> nd
                | Some oid \<Rightarrow> run_session E oid (set_remote W sd candidates) nd))"

definition on_shutdown :: "env \<Rightarrow> asio_env \<Rightarrow> ice_node \<Rightarrow> ice_node" where
  "on_shutdown E W nd =
     (foldl (\<lambda>nd (_, oid). run_session E oid (ses_close W) nd) nd (nd_sessions nd))\<lparr> nd_sessions := [], nd_tasks := [] \<rparr>"

subsection \<open>Signals carry credentials and candidates\<close>

lemma remote_fields_keep [simp]:
  "ses_remote_creds (send_to W ep pkt s) = ses_remote_creds s" "ses_remote_candidates (send_to W ep pkt s) = ses_remote_candidates s"
  by (simp_all add: send_to_def put_out_def)

lemma remote_send_built [simp]:
  "ses_remote_creds (send_built W ep m s) = ses_remote_creds s" "ses_remote_candidates (send_built W ep m s) = ses_remote_candidates s"
  by (simp_all add: send_built_def split: sum.splits)

lemma begin_checks_remote [simp]:
  "ses_remote_creds (begin_checks W s) = ses_remote_creds s" "ses_remote_candidates (begin_checks W s) = ses_remote_candidates s"
  by (simp_all add: begin_checks_def send_next_check_def check_pair_def fail_session_def put_out_def transition_def
      start_session_timeout_def form_check_list_def ses_draw_def Let_def)

lemma set_remote_fields:
  "ses_remote_creds (set_remote W d cs s) = \<lparr> cr_ufrag = cstr (sd_ufrag d), cr_pwd = cstr (sd_pwd d) \<rparr>"
  "ses_remote_candidates (set_remote W d cs s) = map wire_to_candidate cs"
  by (simp_all add: set_remote_def Let_def)

definition signal_head :: "ice_session \<Rightarrow> ice_signal_data" where
  "signal_head s = \<lparr> sd_ufrag = pad_to 16 (bytes_of_string (cr_ufrag (ses_local_creds s))),
     sd_pwd = pad_to 24 (bytes_of_string (cr_pwd (ses_local_creds s))),
     sd_candidate_count = word_of_nat (length (ses_local_candidates s)), sd_pad = 0 \<rparr>"

lemma drop_fixed_blocks:
  "\<forall>x \<in> set xs. length (f x) = n \<Longrightarrow> i < length xs \<Longrightarrow> \<exists>r. drop (i * n) (concat (map f xs)) = f (xs ! i) @ r"
proof (induction xs arbitrary: i)
  case (Cons x xs)
  then show ?case by (cases i) auto
qed simp

lemma length_serialized:
  assumes "list_all candidate_wf (ses_local_candidates s)"
  shows "length (serialize_signal s) = 44 + 24 * length (ses_local_candidates s)"
proof -
  have "length (concat (map (\<lambda>c. ice_candidate_wire_enc (candidate_to_wire c)) cs)) = 24 * length cs" if "list_all candidate_wf cs" for cs
    using that by (induction cs) (auto simp: candidate_wire.length_enc candidate_to_wire_wf)
  moreover have "ice_signal_data_wf (signal_head s)" by (simp add: ice_signal_data_wf_def signal_head_def)
  ultimately show ?thesis
    using assms signal_data.length_enc [of "signal_head s"] by (simp add: serialize_signal_def signal_head_def)
qed

lemma decode_serialized:
  assumes "list_all candidate_wf (ses_local_candidates s)" "length (ses_local_candidates s) < 65536"
  shows "decode_signal (serialize_signal s) = Some (signal_head s, map candidate_to_wire (ses_local_candidates s))"
proof -
  let ?cs = "ses_local_candidates s" and ?f = "\<lambda>c. ice_candidate_wire_enc (candidate_to_wire c)"
  have ser: "serialize_signal s = ice_signal_data_enc (signal_head s) @ concat (map ?f ?cs)"
    by (simp add: serialize_signal_def signal_head_def)
  have wf: "ice_signal_data_wf (signal_head s)" by (simp add: ice_signal_data_wf_def signal_head_def)
  have head: "ice_signal_data_dec (serialize_signal s) = signal_head s" "length (ice_signal_data_enc (signal_head s)) = 44"
    unfolding ser using signal_data.dec_enc [OF wf] signal_data.length_enc [OF wf] by simp_all
  have cwf: "ice_candidate_wire_wf (candidate_to_wire c)" if "c \<in> set ?cs" for c
    using assms(1) that by (auto simp: list_all_iff intro: candidate_to_wire_wf)
  have len: "\<forall>c \<in> set ?cs. length (?f c) = 24" using candidate_wire.length_enc [OF cwf] by simp
  have total: "length (serialize_signal s) = 44 + 24 * length ?cs" by (rule length_serialized [OF assms(1)])
  have n: "unat (sd_candidate_count (signal_head s)) = length ?cs"
    using assms(2) by (simp add: signal_head_def unat_of_nat)
  have "ice_candidate_wire_dec (drop (44 + i * 24) (serialize_signal s)) = candidate_to_wire (?cs ! i)" if i: "i < length ?cs" for i
  proof -
    obtain r where "drop (i * 24) (concat (map ?f ?cs)) = ?f (?cs ! i) @ r" using drop_fixed_blocks [OF len i] by blast
    then have "drop (44 + i * 24) (serialize_signal s) = ?f (?cs ! i) @ r"
      unfolding ser using head(2) by simp
    then show ?thesis using candidate_wire.dec_enc [OF cwf [OF nth_mem [OF i]]] by simp
  qed
  then show ?thesis
    using n total head(1) by (simp add: decode_signal_def Let_def) (auto intro: nth_equalityI)
qed

subsection \<open>Properties\<close>

text \<open>
  Property C33. The signal one session writes is the description the other session works with: sent
  as the payload of an ICE signal it is accepted by \<open>on_ice_signal\<close> as it is, decodes, and
  \<open>set_remote\<close> takes over exactly the credentials and candidates of the sender.
\<close>

theorem ice_signal_roundtrip:
  assumes creds: "ses_local_creds s = generate_credentials r1 r2"
    and cands: "list_all candidate_wf (ses_local_candidates s)" "length (ses_local_candidates s) < 65536"
  shows "on_ice_signal ep (ice_signal_payload_enc \<lparr> is_kind = kind, is_pad = replicate 3 0,
        is_sdp_len = word_of_nat (length (serialize_signal s)) \<rparr> @ serialize_signal s) nd
      = nd_post (Task_signal (bytes_to_hex (ep_pubkey ep)) kind (serialize_signal s)) nd
    \<and> (\<exists>sd ws. decode_signal (serialize_signal s) = Some (sd, ws)
        \<and> ses_remote_creds (set_remote W sd ws t) = ses_local_creds s
        \<and> ses_remote_candidates (set_remote W sd ws t) = ses_local_candidates s)"
proof -
  have "map wire_to_candidate (map candidate_to_wire (ses_local_candidates s)) = ses_local_candidates s"
    using cands(1) by (intro nth_equalityI) (auto simp: list_all_length wire_candidate_roundtrip)
  moreover have "\<lparr> cr_ufrag = cstr (sd_ufrag (signal_head s)), cr_pwd = cstr (sd_pwd (signal_head s)) \<rparr> = ses_local_creds s"
    by (simp add: creds signal_head_def generate_credentials_def cstr_pad_to nul_free_random)
  ultimately have dec: "\<exists>sd ws. decode_signal (serialize_signal s) = Some (sd, ws)
        \<and> ses_remote_creds (set_remote W sd ws t) = ses_local_creds s
        \<and> ses_remote_candidates (set_remote W sd ws t) = ses_local_candidates s"
    using decode_serialized [OF cands] by (simp add: set_remote_fields)
  let ?h = "\<lparr> is_kind = kind, is_pad = replicate 3 0, is_sdp_len = word_of_nat (length (serialize_signal s)) \<rparr>"
  have wf: "ice_signal_payload_wf ?h" by (simp add: ice_signal_payload_wf_def)
  have len: "length (serialize_signal s) = 44 + 24 * length (ses_local_candidates s)" by (rule length_serialized [OF cands(1)])
  have "length (serialize_signal s) < 2 ^ 32" using len cands(2) by simp
  then have n: "unat (word_of_nat (length (serialize_signal s)) :: u32) = length (serialize_signal s)"
    by (simp add: unat_of_nat)
  have "on_ice_signal ep (ice_signal_payload_enc ?h @ serialize_signal s) nd
      = nd_post (Task_signal (bytes_to_hex (ep_pubkey ep)) kind (serialize_signal s)) nd"
    using ice_signal.dec_enc [OF wf] ice_signal.length_enc [OF wf] n len
    by (simp add: on_ice_signal_def Let_def)
  with dec show ?thesis by blast
qed

definition demo_node :: ice_node where
  "demo_node = \<lparr> nd_cm = demo_cm, nd_sessions = [], nd_objects = [], nd_config = demo_ice_config, nd_draws = 0, nd_datagrams = [], nd_tasks = [] \<rparr>"

theorem ice_signal_roundtrip_witness:
  "\<exists>sd ws. decode_signal (serialize_signal demo_controlling) = Some (sd, ws)
     \<and> ses_remote_creds (set_remote demo_asio sd ws demo_controlled) = ses_local_creds demo_controlling
     \<and> ses_remote_candidates (set_remote demo_asio sd ws demo_controlled) = ses_local_candidates demo_controlling"
proof -
  have c: "ses_local_creds demo_controlling = generate_credentials (w_rand demo_asio 0 16) (w_rand demo_asio 1 24)"
    by (simp add: demo_controlling_def demo_ice_def new_session_def)
  have w: "list_all candidate_wf (ses_local_candidates demo_controlling)" "length (ses_local_candidates demo_controlling) < 65536"
    by (simp_all add: demo_controlling_def candidate_wf_def demo_candidate_def default_candidate_def ip_wf_def)
  show ?thesis
    using ice_signal_roundtrip [OF c w, of "demo_endpoint ''10.0.0.1'' 9000" kind_offer demo_node demo_asio demo_controlled] by blast
qed

end
