(* ===== verification/Tcp_Connector.thy ===== *)
theory Tcp_Connector
  imports CM_Sending
begin

section \<open>The TCP connector on top of the connection manager\<close>

text \<open>
  \<open>plugins/connectors/tcp/tcp.cpp\<close>. The node is the connection manager, the connector's map of
  connections and the connection objects, which outlive their entry in the map. Two or more threads
  run the \<open>io_context\<close>, so posted functions and completion handlers overtake each other: an event of
  \<open>tcp_step\<close> runs any posted function or any completion that is due. A function that takes
  the locks several times is cut into events there: \<open>register_socket\<close> between \<open>notify_connect\<close>
  and the entry in the map, and a send between its place in the queue and \<open>start_write\<close>. The read
  chain of a connection has its buffer for itself, so \<open>notify_data\<close> is one event with the handler
  it is called from. The last four fields of a connection are not state of the program: they record
  what arrived, what was handed to the core, what was queued, and whether a write failed.
\<close>

subsection \<open>State\<close>

definition MAX_PAYLOAD :: nat where "MAX_PAYLOAD = 64 * 1024 * 1024"
definition WRITE_BATCH_SIZE :: nat where "WRITE_BATCH_SIZE = 64"

datatype read_op = No_read | Read_header | Read_body nat
datatype write_op = Start_write | Async_write "bytes list"

record tcp_connection =
  tc_open :: bool
  tc_id :: conn_id
  tc_remote :: endpoint_t
  tc_frame_buf :: bytes
  tc_write_queue :: "bytes list"
  tc_writing :: bool
  tc_reading :: read_op
  tc_writers :: "write_op list"
  tc_incoming :: bytes
  tc_written :: bytes
  tc_received :: bytes
  tc_delivered :: "bytes list"
  tc_queued :: "bytes list"
  tc_write_failed :: bool

text \<open>The peer of a socket: address, port and whether it is a loopback address.\<close>

record socket_peer =
  so_address :: string
  so_port :: u16
  so_loopback :: bool

datatype tcp_task =
    Tcp_connect string string
  | Tcp_send conn_id "bytes list"
  | Tcp_close conn_id bool
  | Tcp_close_all

record tcp_node =
  tn_cm :: cm
  tn_ident :: nat
  tn_connections :: "(conn_id \<times> nat) list"
  tn_objects :: "tcp_connection list"
  tn_registering :: "(conn_id \<times> endpoint_t \<times> bool) list"
  tn_resolving :: "(string \<times> string) list"
  tn_acceptor_open :: bool
  tn_accepts :: nat
  tn_tasks :: "tcp_task list"
  tn_stopped :: bool

definition upd_object :: "nat \<Rightarrow> (tcp_connection \<Rightarrow> tcp_connection) \<Rightarrow> tcp_node \<Rightarrow> tcp_node" where
  "upd_object k f nd = nd\<lparr> tn_objects := (tn_objects nd)[k := f (tn_objects nd ! k)] \<rparr>"

definition tcp_post :: "tcp_task \<Rightarrow> tcp_node \<Rightarrow> tcp_node" where
  "tcp_post t nd = nd\<lparr> tn_tasks := tn_tasks nd @ [t] \<rparr>"

definition new_connection :: "conn_id \<Rightarrow> endpoint_t \<Rightarrow> tcp_connection" where
  "new_connection c ep = \<lparr> tc_open = True, tc_id = c, tc_remote = ep, tc_frame_buf = replicate HDR 0,
     tc_write_queue = [], tc_writing = False, tc_reading = No_read, tc_writers = [], tc_incoming = [], tc_written = [],
     tc_received = [], tc_delivered = [], tc_queued = [], tc_write_failed = False \<rparr>"

subsection \<open>Operations the core calls\<close>

text \<open>\<open>target.rfind(':')\<close> splits host and port at the last colon.\<close>

definition split_target :: "string \<Rightarrow> (string \<times> string) option" where
  "split_target target =
     (if CHR '':'' \<in> set target
      then let port = rev (takeWhile (\<lambda>c. c \<noteq> CHR '':'') (rev target))
           in Some (take (length target - length port - 1) target, port)
      else None)"

definition tcp_do_connect :: "string \<Rightarrow> tcp_node \<Rightarrow> int \<times> tcp_node" where
  "tcp_do_connect uri nd =
     (case split_target (uri_key_of uri) of
        None \<Rightarrow> (-1, nd)
      | Some (host, port) \<Rightarrow> (0, tcp_post (Tcp_connect host port) nd))"

definition tcp_do_send :: "conn_id \<Rightarrow> bytes \<Rightarrow> tcp_node \<Rightarrow> int \<times> tcp_node" where
  "tcp_do_send c data nd = (0, tcp_post (Tcp_send c [data]) nd)"

definition tcp_do_send_gather :: "conn_id \<Rightarrow> bytes list \<Rightarrow> tcp_node \<Rightarrow> int \<times> tcp_node" where
  "tcp_do_send_gather c iov nd = (0, tcp_post (Tcp_send c iov) nd)"

definition tcp_do_close :: "conn_id \<Rightarrow> bool \<Rightarrow> tcp_node \<Rightarrow> tcp_node" where
  "tcp_do_close c hard nd = tcp_post (Tcp_close c hard) nd"

text \<open>
  The function posted by \<open>on_shutdown\<close> runs only if a thread gets to it before \<open>io_.stop()\<close>.
\<close>

definition tcp_on_shutdown :: "tcp_node \<Rightarrow> tcp_node" where
  "tcp_on_shutdown nd = tcp_post Tcp_close_all nd"

definition accept_next :: "tcp_node \<Rightarrow> tcp_node" where
  "accept_next nd = (if tn_acceptor_open nd then nd\<lparr> tn_accepts := tn_accepts nd + 1 \<rparr> else nd)"

text \<open>
  How opening the acceptor ends: listening, an address that does not parse (before the old acceptor
  is replaced), or a failure of the new acceptor, which is open or not by then.
\<close>

datatype listen_result = Listening | Bad_address | Setup_failed bool

definition tcp_do_listen :: "listen_result \<Rightarrow> tcp_node \<Rightarrow> int \<times> tcp_node" where
  "tcp_do_listen res nd =
     (case res of
        Listening \<Rightarrow> (0, accept_next (nd\<lparr> tn_acceptor_open := True \<rparr>))
      | Bad_address \<Rightarrow> (-1, nd)
      | Setup_failed opened \<Rightarrow> (-1, nd\<lparr> tn_acceptor_open := opened \<rparr>))"

subsection \<open>Calls into the core\<close>

text \<open>
  What the manager asks of this connector while it runs arrives as the calls above
  (\<open>IConnector::to_c_ops\<close>).
\<close>

fun take_call :: "tcp_node \<Rightarrow> ext_call \<Rightarrow> tcp_node" where
  "take_call nd (OpsConnect ops uri) = (if co_ident ops = tn_ident nd then snd (tcp_do_connect uri nd) else nd)"
| "take_call nd (OpsSendTo ops c f) = (if co_ident ops = tn_ident nd then snd (tcp_do_send c f nd) else nd)"
| "take_call nd (OpsSendGather ops c fs) = (if co_ident ops = tn_ident nd then snd (tcp_do_send_gather c fs nd) else nd)"
| "take_call nd (OpsClose ops c) = (if co_ident ops = tn_ident nd then tcp_do_close c False nd else nd)"
| "take_call nd (OpsCloseNow ops c) = (if co_ident ops = tn_ident nd then tcp_do_close c True nd else nd)"
| "take_call nd _ = nd"

definition via_core :: "(cm \<Rightarrow> cm) \<Rightarrow> tcp_node \<Rightarrow> tcp_node" where
  "via_core f nd =
     (let s = f (tn_cm nd)
      in foldl take_call (nd\<lparr> tn_cm := s \<rparr>) (drop (length (ext_calls (tn_cm nd))) (ext_calls s)))"

definition notify_data :: "env \<Rightarrow> conn_id \<Rightarrow> bytes \<Rightarrow> tcp_node \<Rightarrow> tcp_node" where
  "notify_data E c data nd = via_core (handle_data E c data) nd"

definition notify_disconnect :: "env \<Rightarrow> conn_id \<Rightarrow> int \<Rightarrow> tcp_node \<Rightarrow> tcp_node" where
  "notify_disconnect E c err nd = via_core (handle_disconnect E c err) nd"

subsection \<open>New sockets\<close>

text \<open>\<open>None\<close>: \<open>remote_endpoint()\<close> throws, and the endpoint stays empty.\<close>

definition socket_endpoint :: "socket_peer option \<Rightarrow> bool \<Rightarrow> endpoint_t" where
  "socket_endpoint peer outbound =
     (case peer of
        None \<Rightarrow> no_endpoint
      | Some p \<Rightarrow> no_endpoint\<lparr> ep_address := take 127 (so_address p), ep_port := so_port p,
          ep_flags := (if so_loopback p then EP_FLAG_TRUSTED else 0) OR (if outbound then EP_FLAG_OUTBOUND else 0) \<rparr>)"

definition accepted_next :: "bool \<Rightarrow> tcp_node \<Rightarrow> tcp_node" where
  "accepted_next outbound nd = (if outbound then nd else accept_next nd)"

definition register_socket :: "env \<Rightarrow> socket_peer option \<Rightarrow> bool \<Rightarrow> tcp_node \<Rightarrow> tcp_node" where
  "register_socket E peer outbound nd =
     (let ep = socket_endpoint peer outbound;
          c = fst (handle_connect E ep (tn_cm nd));
          nd1 = via_core (\<lambda>s. snd (handle_connect E ep s)) nd
      in if c = CONN_ID_INVALID then accepted_next outbound nd1
         else nd1\<lparr> tn_registering := tn_registering nd1 @ [(c, ep, outbound)] \<rparr>)"

definition start_read_header :: "tcp_connection \<Rightarrow> tcp_connection" where
  "start_read_header c = c\<lparr> tc_frame_buf := take HDR (tc_frame_buf c), tc_reading := Read_header \<rparr>"

definition finish_registration :: "nat \<Rightarrow> tcp_node \<Rightarrow> tcp_node" where
  "finish_registration i nd =
     (let (c, ep, outbound) = tn_registering nd ! i
      in accepted_next outbound
           (nd\<lparr> tn_registering := take i (tn_registering nd) @ drop (i + 1) (tn_registering nd),
                tn_connections := AList.update c (length (tn_objects nd)) (tn_connections nd),
                tn_objects := tn_objects nd @ [start_read_header (new_connection c ep)] \<rparr>))"

subsection \<open>Reading\<close>

datatype read_error = Eof | Operation_aborted | Other_error int

definition on_read_error :: "env \<Rightarrow> nat \<Rightarrow> read_error \<Rightarrow> tcp_node \<Rightarrow> tcp_node" where
  "on_read_error E k ec nd =
     (let c = tc_id (tn_objects nd ! k);
          err = (case ec of Eof \<Rightarrow> 0 | Operation_aborted \<Rightarrow> 0 | Other_error v \<Rightarrow> v);
          nd1 = notify_disconnect E c err (upd_object k (\<lambda>x. x\<lparr> tc_reading := No_read \<rparr>) nd)
      in nd1\<lparr> tn_connections := erase c (tn_connections nd1) \<rparr>)"

definition on_protocol_error :: "env \<Rightarrow> nat \<Rightarrow> tcp_node \<Rightarrow> tcp_node" where
  "on_protocol_error E k nd =
     (let c = tc_id (tn_objects nd ! k);
          nd1 = notify_disconnect E c 1 (upd_object k (\<lambda>x. x\<lparr> tc_reading := No_read, tc_open := False \<rparr>) nd)
      in nd1\<lparr> tn_connections := erase c (tn_connections nd1) \<rparr>)"

definition on_frame :: "env \<Rightarrow> nat \<Rightarrow> tcp_node \<Rightarrow> tcp_node" where
  "on_frame E k nd =
     (let x = tn_objects nd ! k;
          nd1 = upd_object k (\<lambda>x. x\<lparr> tc_delivered := tc_delivered x @ [tc_frame_buf x] \<rparr>) nd
      in upd_object k start_read_header (notify_data E (tc_id x) (tc_frame_buf x) nd1))"

definition on_header :: "env \<Rightarrow> nat \<Rightarrow> tcp_node \<Rightarrow> tcp_node" where
  "on_header E k nd =
     (let nd1 = upd_object k (\<lambda>x. x\<lparr> tc_frame_buf := take HDR (tc_incoming x), tc_incoming := drop HDR (tc_incoming x) \<rparr>) nd;
          hdr = header_dec (tc_frame_buf (tn_objects nd1 ! k));
          plen = unat (payload_len hdr)
      in if magic hdr \<noteq> GNET_MAGIC then on_protocol_error E k nd1
         else if proto_ver hdr \<noteq> GNET_PROTO_VER then on_protocol_error E k nd1
         else if plen = 0 then on_frame E k nd1
         else if plen > MAX_PAYLOAD then on_protocol_error E k nd1
         else upd_object k (\<lambda>x. x\<lparr> tc_frame_buf := tc_frame_buf x @ replicate plen 0, tc_reading := Read_body plen \<rparr>) nd1)"

definition on_body :: "env \<Rightarrow> nat \<Rightarrow> nat \<Rightarrow> tcp_node \<Rightarrow> tcp_node" where
  "on_body E plen k nd =
     on_frame E k (upd_object k (\<lambda>x. x\<lparr> tc_frame_buf := take HDR (tc_frame_buf x) @ take plen (tc_incoming x),
       tc_incoming := drop plen (tc_incoming x) \<rparr>) nd)"

subsection \<open>Writing\<close>

definition queue_frames :: "bytes list \<Rightarrow> tcp_connection \<Rightarrow> tcp_connection" where
  "queue_frames fs x =
     (let x1 = x\<lparr> tc_write_queue := tc_write_queue x @ fs, tc_queued := tc_queued x @ fs \<rparr>
      in if tc_writing x1 then x1 else x1\<lparr> tc_writing := True, tc_writers := tc_writers x1 @ [Start_write] \<rparr>)"

definition drop_writer :: "nat \<Rightarrow> tcp_connection \<Rightarrow> tcp_connection" where
  "drop_writer j x = x\<lparr> tc_writers := take j (tc_writers x) @ drop (j + 1) (tc_writers x) \<rparr>"

definition start_write :: "nat \<Rightarrow> tcp_connection \<Rightarrow> tcp_connection" where
  "start_write j x =
     (if tc_write_queue x = [] then drop_writer j (x\<lparr> tc_writing := False \<rparr>)
      else let n = min (length (tc_write_queue x)) WRITE_BATCH_SIZE
           in x\<lparr> tc_write_queue := drop n (tc_write_queue x),
                 tc_writers := (tc_writers x)[j := Async_write (take n (tc_write_queue x))] \<rparr>)"

text \<open>How a write ends: complete, or after some bytes, aborted or with an error.\<close>

datatype write_result = Write_ok | Write_aborted nat | Write_error nat

definition write_done :: "nat \<Rightarrow> bytes list \<Rightarrow> write_result \<Rightarrow> tcp_connection \<Rightarrow> tcp_connection" where
  "write_done j fs res x =
     (let n = (case res of Write_ok \<Rightarrow> total_bytes fs | Write_aborted n \<Rightarrow> n | Write_error n \<Rightarrow> n);
          x1 = drop_writer j (x\<lparr> tc_written := tc_written x @ take n (concat fs),
                 tc_write_failed := (tc_write_failed x \<or> res \<noteq> Write_ok) \<rparr>)
      in case res of
           Write_error _ \<Rightarrow> x1\<lparr> tc_write_queue := [], tc_writing := False \<rparr>
         | _ \<Rightarrow> if tc_write_queue x1 = [] then x1\<lparr> tc_writing := False \<rparr>
                else x1\<lparr> tc_writers := tc_writers x1 @ [Start_write] \<rparr>)"

subsection \<open>Posted functions\<close>

definition close_socket :: "nat \<Rightarrow> tcp_node \<Rightarrow> tcp_node" where
  "close_socket k nd = upd_object k (\<lambda>x. x\<lparr> tc_open := False \<rparr>) nd"

fun tcp_run :: "env \<Rightarrow> tcp_task \<Rightarrow> tcp_node \<Rightarrow> tcp_node" where
  "tcp_run E (Tcp_connect host port) nd = nd\<lparr> tn_resolving := tn_resolving nd @ [(host, port)] \<rparr>"
| "tcp_run E (Tcp_send c fs) nd =
     (case map_of (tn_connections nd) c of None \<Rightarrow> nd | Some k \<Rightarrow> upd_object k (queue_frames fs) nd)"
| "tcp_run E (Tcp_close c hard) nd =
     (case map_of (tn_connections nd) c of
        None \<Rightarrow> notify_disconnect E c 0 nd
      | Some k \<Rightarrow>
          (let nd1 = close_socket k nd
           in notify_disconnect E c 0 (nd1\<lparr> tn_connections := erase c (tn_connections nd1) \<rparr>)))"
| "tcp_run E Tcp_close_all nd =
     (foldl (\<lambda>nd (_, k). close_socket k nd) (nd\<lparr> tn_acceptor_open := False \<rparr>) (tn_connections nd))\<lparr> tn_connections := [] \<rparr>"

subsection \<open>Steps\<close>

datatype tcp_event =
    Core_call cm_event
  | Run_task nat
  | Accepted "socket_peer option"
  | Accept_error
  | Connect_done nat "socket_peer option option"
  | Registered nat
  | Bytes_arrive nat bytes
  | Read_done nat
  | Read_fails nat read_error
  | Write_starts nat nat
  | Write_ends nat nat write_result
  | Io_stopped

fun tcp_enabled :: "tcp_event \<Rightarrow> tcp_node \<Rightarrow> bool" where
  "tcp_enabled (Core_call ev) nd = True"
| "tcp_enabled (Run_task i) nd = (i < length (tn_tasks nd))"
| "tcp_enabled (Accepted p) nd = (tn_accepts nd > 0)"
| "tcp_enabled Accept_error nd = (tn_accepts nd > 0)"
| "tcp_enabled (Connect_done i p) nd = (i < length (tn_resolving nd))"
| "tcp_enabled (Registered i) nd = (i < length (tn_registering nd))"
| "tcp_enabled (Bytes_arrive k bs) nd = (k < length (tn_objects nd))"
| "tcp_enabled (Read_done k) nd = (k < length (tn_objects nd) \<and>
     (case tc_reading (tn_objects nd ! k) of No_read \<Rightarrow> False
      | Read_header \<Rightarrow> HDR \<le> length (tc_incoming (tn_objects nd ! k))
      | Read_body n \<Rightarrow> n \<le> length (tc_incoming (tn_objects nd ! k))))"
| "tcp_enabled (Read_fails k ec) nd = (k < length (tn_objects nd) \<and> tc_reading (tn_objects nd ! k) \<noteq> No_read)"
| "tcp_enabled (Write_starts k j) nd = (k < length (tn_objects nd) \<and> j < length (tc_writers (tn_objects nd ! k))
     \<and> tc_writers (tn_objects nd ! k) ! j = Start_write)"
| "tcp_enabled (Write_ends k j res) nd = (k < length (tn_objects nd) \<and> j < length (tc_writers (tn_objects nd ! k))
     \<and> tc_writers (tn_objects nd ! k) ! j \<noteq> Start_write)"
| "tcp_enabled Io_stopped nd = True"

fun tcp_step :: "env \<Rightarrow> tcp_event \<Rightarrow> tcp_node \<Rightarrow> tcp_node" where
  "tcp_step E (Core_call ev) nd = via_core (exec E ev) nd"
| "tcp_step E (Run_task i) nd =
     tcp_run E (tn_tasks nd ! i) (nd\<lparr> tn_tasks := take i (tn_tasks nd) @ drop (i + 1) (tn_tasks nd) \<rparr>)"
| "tcp_step E (Accepted p) nd = register_socket E p False (nd\<lparr> tn_accepts := tn_accepts nd - 1 \<rparr>)"
| "tcp_step E Accept_error nd = accept_next (nd\<lparr> tn_accepts := tn_accepts nd - 1 \<rparr>)"
| "tcp_step E (Connect_done i res) nd =
     (let nd1 = nd\<lparr> tn_resolving := take i (tn_resolving nd) @ drop (i + 1) (tn_resolving nd) \<rparr>
      in case res of None \<Rightarrow> nd1 | Some p \<Rightarrow> register_socket E p True nd1)"
| "tcp_step E (Registered i) nd = finish_registration i nd"
| "tcp_step E (Bytes_arrive k bs) nd =
     upd_object k (\<lambda>x. x\<lparr> tc_incoming := tc_incoming x @ bs, tc_received := tc_received x @ bs \<rparr>) nd"
| "tcp_step E (Read_done k) nd =
     (case tc_reading (tn_objects nd ! k) of No_read \<Rightarrow> nd
      | Read_header \<Rightarrow> on_header E k nd
      | Read_body n \<Rightarrow> on_body E n k nd)"
| "tcp_step E (Read_fails k ec) nd = on_read_error E k ec nd"
| "tcp_step E (Write_starts k j) nd = upd_object k (start_write j) nd"
| "tcp_step E (Write_ends k j res) nd =
     (case tc_writers (tn_objects nd ! k) ! j of Start_write \<Rightarrow> nd
      | Async_write fs \<Rightarrow> upd_object k (write_done j fs res) nd)"
| "tcp_step E Io_stopped nd = nd\<lparr> tn_stopped := True \<rparr>"

definition tcp_init :: "cm \<Rightarrow> nat \<Rightarrow> tcp_node" where
  "tcp_init s ident = \<lparr> tn_cm = s, tn_ident = ident, tn_connections = [], tn_objects = [], tn_registering = [],
     tn_resolving = [], tn_acceptor_open = False, tn_accepts = 0, tn_tasks = [], tn_stopped = False \<rparr>"

inductive tcp_reach :: "tcp_node \<Rightarrow> bool" where
  tcp_start: "tcp_reach (tcp_init s ident)"
| tcp_listen: "tcp_reach nd \<Longrightarrow> tcp_reach (snd (tcp_do_listen res nd))"
| tcp_shutdown: "tcp_reach nd \<Longrightarrow> tcp_reach (tcp_on_shutdown nd)"
| tcp_event: "tcp_reach nd \<Longrightarrow> \<not> tn_stopped nd \<Longrightarrow> tcp_enabled ev nd \<Longrightarrow> tcp_reach (tcp_step E ev nd)"

subsection \<open>What calls into the core leave alone\<close>

lemma take_call_keeps:
  "tn_objects (take_call nd c) = tn_objects nd \<and> tn_connections (take_call nd c) = tn_connections nd
     \<and> tn_registering (take_call nd c) = tn_registering nd \<and> tn_ident (take_call nd c) = tn_ident nd
     \<and> tn_cm (take_call nd c) = tn_cm nd"
  by (cases c) (simp_all add: tcp_do_connect_def tcp_do_send_def tcp_do_send_gather_def tcp_do_close_def tcp_post_def
      split: option.splits prod.splits)

lemma take_calls_keep:
  "tn_objects (foldl take_call nd cs) = tn_objects nd" "tn_connections (foldl take_call nd cs) = tn_connections nd"
  "tn_registering (foldl take_call nd cs) = tn_registering nd" "tn_ident (foldl take_call nd cs) = tn_ident nd"
  "tn_cm (foldl take_call nd cs) = tn_cm nd"
  by (induction cs arbitrary: nd) (simp_all add: take_call_keeps)

lemma via_core_keeps [simp]:
  "tn_objects (via_core f nd) = tn_objects nd" "tn_connections (via_core f nd) = tn_connections nd"
  "tn_registering (via_core f nd) = tn_registering nd" "tn_cm (via_core f nd) = f (tn_cm nd)"
  by (simp_all add: via_core_def take_calls_keep Let_def)

lemma notify_objects [simp]:
  "tn_objects (notify_data E c d nd) = tn_objects nd" "tn_objects (notify_disconnect E c err nd) = tn_objects nd"
  by (simp_all add: notify_data_def notify_disconnect_def)

lemma accept_keeps [simp]:
  "tn_objects (accept_next nd) = tn_objects nd" "tn_objects (accepted_next ob nd) = tn_objects nd"
  "tn_connections (accept_next nd) = tn_connections nd" "tn_connections (accepted_next ob nd) = tn_connections nd"
  by (simp_all add: accept_next_def accepted_next_def)

lemma register_socket_objects [simp]: "tn_objects (register_socket E p ob nd) = tn_objects nd"
  by (simp add: register_socket_def Let_def)

lemma upd_object_objects: "tn_objects (upd_object k f nd) = (tn_objects nd)[k := f (tn_objects nd ! k)]"
  by (simp add: upd_object_def)

subsection \<open>The invariant of a connection\<close>

definition in_flight_bytes :: "tcp_connection \<Rightarrow> bytes" where
  "in_flight_bytes x = concat (map (\<lambda>w. case w of Start_write \<Rightarrow> [] | Async_write fs \<Rightarrow> concat fs) (tc_writers x))"

definition write_ok :: "tcp_connection \<Rightarrow> bool" where
  "write_ok x \<longleftrightarrow> (tc_writing x \<longleftrightarrow> tc_writers x \<noteq> []) \<and> length (tc_writers x) \<le> 1
     \<and> (\<not> tc_write_failed x \<longrightarrow> tc_written x @ in_flight_bytes x @ concat (tc_write_queue x) = concat (tc_queued x))"

definition frame_ok :: "bytes \<Rightarrow> bool" where
  "frame_ok d \<longleftrightarrow> complete_frame d \<and> unat (payload_len (header_dec d)) \<le> MAX_PAYLOAD"

fun stream_ok :: "read_op \<Rightarrow> bytes \<Rightarrow> bytes list \<Rightarrow> bytes \<Rightarrow> bytes \<Rightarrow> bool" where
  "stream_ok No_read received delivered buf incoming \<longleftrightarrow> (\<exists>rest. received = concat delivered @ rest)"
| "stream_ok Read_header received delivered buf incoming \<longleftrightarrow> received = concat delivered @ incoming \<and> HDR \<le> length buf"
| "stream_ok (Read_body n) received delivered buf incoming \<longleftrightarrow>
     received = concat delivered @ take HDR buf @ incoming \<and> HDR \<le> length buf
     \<and> magic (header_dec buf) = GNET_MAGIC \<and> proto_ver (header_dec buf) = GNET_PROTO_VER
     \<and> unat (payload_len (header_dec buf)) = n \<and> n \<le> MAX_PAYLOAD"

definition read_ok :: "tcp_connection \<Rightarrow> bool" where
  "read_ok x \<longleftrightarrow> list_all frame_ok (tc_delivered x)
     \<and> stream_ok (tc_reading x) (tc_received x) (tc_delivered x) (tc_frame_buf x) (tc_incoming x)"

lemma single_writer: "length ws \<le> 1 \<Longrightarrow> j < length ws \<Longrightarrow> ws ! j = w \<Longrightarrow> j = 0 \<and> ws = [w]"
  by (cases ws) auto

lemma write_ok_queue: "write_ok x \<Longrightarrow> write_ok (queue_frames fs x)"
  by (auto simp: write_ok_def queue_frames_def in_flight_bytes_def Let_def simp flip: append_assoc)

lemma write_ok_start:
  assumes "write_ok x" "j < length (tc_writers x)" "tc_writers x ! j = Start_write"
  shows "write_ok (start_write j x)"
proof -
  have w: "j = 0" "tc_writers x = [Start_write]"
    using single_writer [OF _ assms(2,3)] assms(1) by (simp_all add: write_ok_def)
  have "concat (take n q) @ concat (drop n q) = concat q" for n and q :: "bytes list"
    by (metis append_take_drop_id concat_append)
  with assms(1) w show ?thesis
    by (auto simp: write_ok_def start_write_def drop_writer_def in_flight_bytes_def Let_def)
qed

lemma write_ok_done:
  assumes "write_ok x" "j < length (tc_writers x)" "tc_writers x ! j = Async_write fs"
  shows "write_ok (write_done j fs res x)"
proof -
  have w: "j = 0" "tc_writers x = [Async_write fs]"
    using single_writer [OF _ assms(2,3)] assms(1) by (simp_all add: write_ok_def)
  have "take (total_bytes fs) (concat fs) = concat fs"
    by (simp add: total_bytes_def length_concat)
  with assms(1) w show ?thesis
    by (cases res) (auto simp: write_ok_def write_done_def drop_writer_def in_flight_bytes_def Let_def)
qed

lemma ok_other_fields [simp]:
  "write_ok (x\<lparr> tc_frame_buf := b \<rparr>) = write_ok x" "write_ok (x\<lparr> tc_incoming := b \<rparr>) = write_ok x"
  "write_ok (x\<lparr> tc_received := b \<rparr>) = write_ok x" "write_ok (x\<lparr> tc_delivered := d \<rparr>) = write_ok x"
  "write_ok (x\<lparr> tc_reading := op \<rparr>) = write_ok x" "write_ok (x\<lparr> tc_open := oo \<rparr>) = write_ok x"
  "read_ok (x\<lparr> tc_open := oo \<rparr>) = read_ok x" "write_ok (start_read_header x) = write_ok x"
  by (simp_all add: write_ok_def in_flight_bytes_def read_ok_def start_read_header_def)

lemma read_ok_write:
  "read_ok (queue_frames fs x) = read_ok x" "read_ok (start_write j x) = read_ok x" "read_ok (write_done j fs res x) = read_ok x"
  by (simp_all add: read_ok_def queue_frames_def start_write_def write_done_def drop_writer_def Let_def split: write_result.splits)

lemma read_ok_arrive: "read_ok x \<Longrightarrow> read_ok (x\<lparr> tc_incoming := tc_incoming x @ bs, tc_received := tc_received x @ bs \<rparr>)"
  by (cases "tc_reading x") (auto simp: read_ok_def)

lemma read_ok_stop: "read_ok x \<Longrightarrow> read_ok (x\<lparr> tc_reading := No_read \<rparr>)"
  by (cases "tc_reading x") (auto simp: read_ok_def)

lemma header_dec_take: "HDR \<le> length b \<Longrightarrow> header_dec (take HDR b) = header_dec b"
  using header_dec_append [of "take HDR b" "drop HDR b"] by simp

text \<open>A frame handed to the core, and the read of the next header.\<close>

definition frame_done :: "bytes \<Rightarrow> bytes \<Rightarrow> tcp_connection \<Rightarrow> tcp_connection" where
  "frame_done d rest x = start_read_header (x\<lparr> tc_frame_buf := d, tc_incoming := rest, tc_delivered := tc_delivered x @ [d] \<rparr>)"

lemma read_ok_frame:
  assumes "read_ok x" "tc_reading x = Read_header" "HDR \<le> length (tc_incoming x)"
    and "magic (header_dec (tc_incoming x)) = GNET_MAGIC" "proto_ver (header_dec (tc_incoming x)) = GNET_PROTO_VER"
  shows "payload_len (header_dec (tc_incoming x)) = 0 \<Longrightarrow> read_ok (frame_done (take HDR (tc_incoming x)) (drop HDR (tc_incoming x)) x)"
    and "unat (payload_len (header_dec (tc_incoming x))) = n \<Longrightarrow> n \<le> MAX_PAYLOAD \<Longrightarrow>
      read_ok (x\<lparr> tc_incoming := drop HDR (tc_incoming x), tc_frame_buf := take HDR (tc_incoming x) @ replicate n 0, tc_reading := Read_body n \<rparr>)"
  using assms header_dec_append [of "take HDR (tc_incoming x)"]
  by (auto simp: read_ok_def frame_done_def start_read_header_def frame_ok_def complete_frame_def header_dec_take Let_def)

lemma read_ok_body:
  assumes "read_ok x" "tc_reading x = Read_body n" "n \<le> length (tc_incoming x)"
  shows "read_ok (frame_done (take HDR (tc_frame_buf x) @ take n (tc_incoming x)) (drop n (tc_incoming x)) x)"
  using assms header_dec_append [of "take HDR (tc_frame_buf x)" "take n (tc_incoming x)"]
  by (auto simp: read_ok_def frame_done_def start_read_header_def frame_ok_def complete_frame_def header_dec_take Let_def)

definition objects_ok :: "tcp_node \<Rightarrow> bool" where
  "objects_ok nd \<longleftrightarrow> list_all (\<lambda>x. write_ok x \<and> read_ok x) (tn_objects nd)"

lemma objects_ok_cong: "tn_objects nd' = tn_objects nd \<Longrightarrow> objects_ok nd' = objects_ok nd"
  by (simp add: objects_ok_def)

lemma objects_ok_upd:
  assumes "objects_ok nd" "tn_objects nd' = (tn_objects nd)[k := y]"
    and "k < length (tn_objects nd) \<Longrightarrow> write_ok (tn_objects nd ! k) \<Longrightarrow> read_ok (tn_objects nd ! k) \<Longrightarrow> write_ok y \<and> read_ok y"
  shows "objects_ok nd'"
proof (cases "k < length (tn_objects nd)")
  case True
  then show ?thesis
    using assms set_update_subset_insert [of "tn_objects nd" k y] by (auto simp: objects_ok_def list_all_iff)
next
  case False
  then show ?thesis using assms by (simp add: objects_ok_def list_update_beyond)
qed

lemma on_error_objects:
  "tn_objects (on_read_error E k ec nd) = (tn_objects nd)[k := (tn_objects nd ! k)\<lparr> tc_reading := No_read \<rparr>]"
  "tn_objects (on_protocol_error E k nd) = (tn_objects nd)[k := (tn_objects nd ! k)\<lparr> tc_reading := No_read, tc_open := False \<rparr>]"
  by (simp_all add: on_read_error_def on_protocol_error_def upd_object_objects Let_def)

lemma on_frame_objects:
  assumes "k < length (tn_objects nd)"
  shows "tn_objects (on_frame E k (upd_object k (\<lambda>x. x\<lparr> tc_frame_buf := d x, tc_incoming := rest x \<rparr>) nd)) =
    (tn_objects nd)[k := frame_done (d (tn_objects nd ! k)) (rest (tn_objects nd ! k)) (tn_objects nd ! k)]"
  using assms by (simp add: on_frame_def upd_object_objects frame_done_def Let_def)

lemma objects_ok_header:
  assumes ok: "objects_ok nd" and k: "k < length (tn_objects nd)" "tc_reading (tn_objects nd ! k) = Read_header"
    "HDR \<le> length (tc_incoming (tn_objects nd ! k))"
  shows "objects_ok (on_header E k nd)"
proof -
  let ?x = "tn_objects nd ! k"
  let ?b = "take HDR (tc_incoming ?x)" and ?r = "drop HDR (tc_incoming ?x)"
  let ?hdr = "header_dec (tc_incoming ?x)"
  have x: "write_ok ?x" "read_ok ?x" using ok k(1) by (simp_all add: objects_ok_def list_all_length)
  have stop: "read_ok (?x\<lparr> tc_frame_buf := ?b, tc_incoming := ?r, tc_reading := No_read \<rparr>)"
    using x(2) k(2) by (auto simp: read_ok_def)
  note eqs = on_header_def Let_def upd_object_objects on_frame_objects on_error_objects header_dec_take unat_eq_0
  consider "magic ?hdr \<noteq> GNET_MAGIC \<or> proto_ver ?hdr \<noteq> GNET_PROTO_VER \<or> unat (payload_len ?hdr) > MAX_PAYLOAD"
    | "magic ?hdr = GNET_MAGIC" "proto_ver ?hdr = GNET_PROTO_VER" "payload_len ?hdr = 0"
    | "magic ?hdr = GNET_MAGIC" "proto_ver ?hdr = GNET_PROTO_VER" "payload_len ?hdr \<noteq> 0" "unat (payload_len ?hdr) \<le> MAX_PAYLOAD"
    by linarith
  then show ?thesis
  proof cases
    case 1
    then have "tn_objects (on_header E k nd)
        = (tn_objects nd)[k := ?x\<lparr> tc_frame_buf := ?b, tc_incoming := ?r, tc_reading := No_read, tc_open := False \<rparr>]"
      using k by (auto simp: eqs)
    from objects_ok_upd [OF ok this] show ?thesis using x stop by simp
  next
    case 2
    then have "tn_objects (on_header E k nd) = (tn_objects nd)[k := frame_done ?b ?r ?x]"
      using k by (simp add: eqs)
    from objects_ok_upd [OF ok this] show ?thesis using x read_ok_frame(1) [OF x(2) k(2,3) 2] by (simp add: frame_done_def)
  next
    case 3
    let ?n = "unat (payload_len ?hdr)"
    have "tn_objects (on_header E k nd)
        = (tn_objects nd)[k := ?x\<lparr> tc_incoming := ?r, tc_frame_buf := ?b @ replicate ?n 0, tc_reading := Read_body ?n \<rparr>]"
      using k 3 by (simp add: eqs)
    from objects_ok_upd [OF ok this] show ?thesis using x read_ok_frame(2) [OF x(2) k(2,3) 3(1,2) refl 3(4)] by simp
  qed
qed

lemma objects_ok_body:
  assumes ok: "objects_ok nd" and k: "k < length (tn_objects nd)" "tc_reading (tn_objects nd ! k) = Read_body n"
    "n \<le> length (tc_incoming (tn_objects nd ! k))"
  shows "objects_ok (on_body E n k nd)"
proof -
  have "tn_objects (on_body E n k nd) = (tn_objects nd)[k := frame_done (take HDR (tc_frame_buf (tn_objects nd ! k))
      @ take n (tc_incoming (tn_objects nd ! k))) (drop n (tc_incoming (tn_objects nd ! k))) (tn_objects nd ! k)]"
    unfolding on_body_def by (rule on_frame_objects [OF k(1)])
  from objects_ok_upd [OF ok this] show ?thesis
    using read_ok_body [OF _ k(2,3)] by (simp add: frame_done_def)
qed

lemma objects_ok_keep [simp]:
  "objects_ok (via_core f nd) = objects_ok nd" "objects_ok (notify_disconnect E c err nd) = objects_ok nd"
  "objects_ok (register_socket E p ob nd) = objects_ok nd" "objects_ok (accept_next nd) = objects_ok nd"
  "objects_ok (nd\<lparr> tn_tasks := ts \<rparr>) = objects_ok nd" "objects_ok (nd\<lparr> tn_connections := cs \<rparr>) = objects_ok nd"
  "objects_ok (nd\<lparr> tn_accepts := n \<rparr>) = objects_ok nd" "objects_ok (nd\<lparr> tn_resolving := rs \<rparr>) = objects_ok nd"
  "objects_ok (nd\<lparr> tn_acceptor_open := b \<rparr>) = objects_ok nd" "objects_ok (nd\<lparr> tn_stopped := b \<rparr>) = objects_ok nd"
  by (simp_all add: objects_ok_def)

lemma objects_ok_upd_object:
  assumes "objects_ok nd" "\<And>x. write_ok x \<Longrightarrow> read_ok x \<Longrightarrow> write_ok (f x) \<and> read_ok (f x)"
  shows "objects_ok (upd_object k f nd)"
  using objects_ok_upd [OF assms(1) upd_object_objects] assms(2) by blast

lemma objects_ok_close: "objects_ok nd \<Longrightarrow> objects_ok (close_socket k nd)"
  unfolding close_socket_def by (rule objects_ok_upd_object) simp_all

lemma objects_ok_run:
  assumes ok: "objects_ok nd"
  shows "objects_ok (tcp_run E t nd)"
proof (cases t)
  case Tcp_close_all
  have "objects_ok nd \<Longrightarrow> objects_ok (foldl (\<lambda>nd (_, k). close_socket k nd) nd cs)" for cs :: "(conn_id \<times> nat) list" and nd
    by (induction cs arbitrary: nd) (auto intro: objects_ok_close)
  with ok Tcp_close_all show ?thesis by simp
next
  case (Tcp_send c fs)
  with ok show ?thesis
    by (auto intro!: objects_ok_upd_object simp: write_ok_queue read_ok_write split: option.splits)
qed (use ok objects_ok_close in \<open>auto simp: Let_def split: option.splits\<close>)

lemma new_connection_ok: "write_ok (new_connection c ep) \<and> read_ok (start_read_header (new_connection c ep))"
  by (simp add: write_ok_def in_flight_bytes_def read_ok_def start_read_header_def new_connection_def)

lemma objects_ok_step:
  assumes ok: "objects_ok nd" and en: "tcp_enabled ev nd"
  shows "objects_ok (tcp_step E ev nd)"
proof (cases ev)
  case (Connect_done i res)
  with ok show ?thesis by (simp add: Let_def split: option.splits)
next
  case (Registered i)
  obtain c ep ob where "tn_registering nd ! i = (c, ep, ob)" by (metis prod_cases3)
  with ok Registered show ?thesis
    by (simp add: finish_registration_def objects_ok_def new_connection_ok)
next
  case (Bytes_arrive k bs)
  show ?thesis unfolding Bytes_arrive tcp_step.simps
    by (rule objects_ok_upd_object [OF ok]) (simp add: read_ok_arrive)
next
  case (Read_done k)
  with ok en show ?thesis
    by (auto intro: objects_ok_header objects_ok_body split: read_op.splits)
next
  case (Read_fails k ec)
  show ?thesis unfolding Read_fails tcp_step.simps
    by (rule objects_ok_upd [OF ok on_error_objects(1)]) (simp add: read_ok_stop)
next
  case (Write_starts k j)
  with en show ?thesis
    by (auto intro!: objects_ok_upd [OF ok upd_object_objects] simp: write_ok_start read_ok_write)
next
  case (Write_ends k j res)
  with en show ?thesis
    by (auto intro!: objects_ok_upd [OF ok upd_object_objects] simp: write_ok_done read_ok_write ok split: write_op.splits)
qed (use ok objects_ok_run in auto)

lemma tcp_reach_ok: "tcp_reach nd \<Longrightarrow> objects_ok nd"
proof (induction rule: tcp_reach.induct)
  case (tcp_listen nd res)
  then show ?case by (cases res) (simp_all add: tcp_do_listen_def)
qed (simp_all add: objects_ok_step tcp_on_shutdown_def tcp_post_def, simp add: objects_ok_def tcp_init_def)

subsection \<open>The frames of the stream\<close>

definition frame_parts :: "bytes \<Rightarrow> header_t \<times> bytes" where
  "frame_parts d = (header_dec d, drop HDR d)"

lemma split_delivered_frames:
  "list_all frame_ok ds \<Longrightarrow> split_stream (concat ds @ rest)
     = (let (fs, r, ok) = split_stream rest in (map frame_parts ds @ fs, r, ok))"
proof (induction ds)
  case (Cons d ds)
  then have d: "HDR \<le> length d" "length d = HDR + unat (payload_len (header_dec d))"
    "magic (header_dec d) = GNET_MAGIC" "proto_ver (header_dec d) = GNET_PROTO_VER"
    by (simp_all add: frame_ok_def complete_frame_def Let_def)
  have "d = header_enc (header_dec d) @ drop HDR d"
    using header.enc_dec [of d] d(1) by (simp add: HDR_def get_arr_0)
  then have "split_stream (concat (d # ds) @ rest)
      = split_stream (header_enc (header_dec d) @ drop HDR d @ (concat ds @ rest))"
    by (metis append.assoc concat.simps(2))
  also have "\<dots> = (let (fs, r, ok) = split_stream (concat ds @ rest) in ((header_dec d, drop HDR d) # fs, r, ok))"
    by (rule split_stream_frame) (use d in simp_all)
  finally show ?case using Cons by (auto simp: frame_parts_def Let_def split: prod.splits)
qed (simp split: prod.splits)

lemma handle_whole_frame:
  assumes "frame_ok d" "\<not> shutting_down s" "map_of (transport_index s) c = None" "rcu_find s c = Some r" "c_recv_buf r = []"
  shows "handle_data E c d s = dispatch_packet E c (header_dec d) (drop HDR d) (ns_u64 (e_now E)) s"
  using assms by (simp add: handle_data_def frame_ok_def)

subsection \<open>The first message of an outgoing connection\<close>

lemma send_frame_one_path:
  assumes live: "\<not> shutting_down s" and r: "rcu_find s c = Some r" "c_transport_paths r = [p]" "tp_active p"
    and ops: "find_connector s (tp_scheme p) = Some ops" and q: "map_of (send_queues s) c = Some empty_queue"
    and f: "build_frame E c t pl s = (f, s1)" "f \<noteq> []" "length f \<le> MAX_BYTES"
  shows "ext_calls (send_frame E c t pl s) = ext_calls s @ [OpsSendTo ops (tp_id p) f]"
proof -
  have s1: "s1 = upd_rec c (\<lambda>r. r\<lparr> c_send_packet_id := c_send_packet_id r + 1 \<rparr>) s"
    using f(1) r(1) by (auto simp: build_frame_def Let_def split: if_splits)
  let ?q = "empty_queue\<lparr> frames := [f], pending_bytes := length f \<rparr>"
  let ?s2 = "set_queue c ?q s1"
  have "get_or_create_queue c s1 = (empty_queue, s1)" "try_push f empty_queue = (True, ?q)"
    using q f(3) by (simp_all add: get_or_create_queue_def s1 upd_rec_def try_push_def empty_queue_def)
  then have "send_frame E c t pl s = flush_queue E c ?s2"
    using live f by (simp add: send_frame_def)
  moreover have fl: "\<not> shutting_down ?s2" "rcu_find ?s2 c = Some (r\<lparr> c_send_packet_id := c_send_packet_id r + 1 \<rparr>)"
      "map_of (send_queues ?s2) c = Some ?q"
    using live r(1) q by (simp_all add: s1 set_queue_def upd_rec_def rcu_find_def)
  moreover have "drain_batch 64 ?q = ([f], empty_queue)" by (simp add: drain_batch_def empty_queue_def)
  moreover have "active_paths (r\<lparr> c_send_packet_id := n \<rparr>) = [0]" for n using r(2,3) by (simp add: active_paths_def)
  moreover have "find_connector s' (tp_scheme p) = Some ops" "ext_calls s' = ext_calls s" if "s' = set_queue c empty_queue ?s2" for s'
    using ops that by (simp_all add: s1 upd_rec_def set_queue_def find_connector_def)
  ultimately show ?thesis
    using r(2) by (simp add: flush_queue_def flush_frames_to_connector_def Let_def)
qed

lemma first_message_length:
  assumes "dh_ok L"
  shows "\<exists>m hs1. write_message L rnd [] (hs_init L True pk sk fresh_handshake) = (Some m, hs1) \<and> length m = DHLEN"
  using assms
  by (auto simp: write_message_def write_msg1_def andthen_def ret_def put_e_def put_enc_def generate_keypair_def count_step_def
      encrypt_and_hash_def cs_encrypt_def hs_init_def sym_init_def fresh_handshake_def fresh_cipher_def mix_hash_def dh_ok_def Let_def)

lemma outbound_connect_sends:
  assumes live: "\<not> shutting_down s" and ops: "find_connector s ''tcp'' = Some ops" and dh: "dh_ok (e_sodium E)"
    and out: "ep_flags ep AND EP_FLAG_OUTBOUND \<noteq> 0"
  shows "fst (handle_connect E ep s) = next_id s"
    and "\<exists>f. ext_calls (snd (handle_connect E ep s)) = ext_calls s @ [OpsSendTo ops (next_id s) f]"
proof -
  let ?c = "next_id s"
  show "fst (handle_connect E ep s) = ?c" using live by (simp add: handle_connect_def Let_def)
  define s1 where "s1 = s\<lparr> next_id := ?c + 1 \<rparr>"
  define r where "r = new_record E s1 ?c ep"
  define s3 where "s3 = cm_stat Connect 1 ?c (s1\<lparr> records := AList.update ?c r (records s1),
    uri_index := AList.update (addr_key ep) ?c (uri_index s1), send_queues := AList.update ?c empty_queue (send_queues s1) \<rparr>)"
  have hc: "snd (handle_connect E ep s) = send_noise_init E ?c s3"
    using live out by (simp add: handle_connect_def Let_def s3_def r_def s1_def)
  have r3: "rcu_find s3 ?c = Some r" by (simp add: s3_def rcu_find_def cm_stat_def upd_bus_def update_conv')
  obtain pk sk where hs: "c_handshake r = Some (hs_init (e_sodium E) True pk sk fresh_handshake)"
    using out by (simp add: r_def new_record_def Let_def)
  obtain m hs1 where m: "write_message (e_sodium E) (e_rand E (rand_ctr s3)) [] (hs_init (e_sodium E) True pk sk fresh_handshake) = (Some m, hs1)"
    "length m = DHLEN"
    using first_message_length [OF dh] by blast
  define s4 where "s4 = set_handshake ?c hs1 (s3\<lparr> rand_ctr := rand_ctr s3 + 1 \<rparr>)"
  have sni: "send_noise_init E ?c s3 = send_frame E ?c MSG_TYPE_NOISE_INIT m s4"
    using r3 hs m by (simp add: send_noise_init_def cm_write_message_def s4_def)
  have r4: "rcu_find s4 ?c = Some (r\<lparr> c_handshake := Some hs1 \<rparr>)" using r3 by (simp add: s4_def)
  obtain f s5 where f: "build_frame E ?c MSG_TYPE_NOISE_INIT m s4 = (f, s5)" by fastforce
  have "c_session r = None" by (simp add: r_def new_record_def fresh_record_def Let_def)
  then have len: "length f = 20 + DHLEN"
    using f r4 m(2) header.length_enc by (auto simp: build_frame_def is_handshake_type_def Let_def split: if_splits)
  obtain p where p: "c_transport_paths r = [p]" "tp_active p" "tp_scheme p = ''tcp''" "tp_id p = ?c"
    by (simp add: r_def new_record_def Let_def)
  have "ext_calls (send_frame E ?c MSG_TYPE_NOISE_INIT m s4) = ext_calls s4 @ [OpsSendTo ops (tp_id p) f]"
  proof (rule send_frame_one_path [OF _ r4 _ p(2) _ _ f])
    show "\<not> shutting_down s4" "find_connector s4 (tp_scheme p) = Some ops" "map_of (send_queues s4) ?c = Some empty_queue"
      using live ops p(3) by (simp_all add: s4_def s3_def s1_def set_handshake_def upd_rec_def cm_stat_def upd_bus_def
          find_connector_def update_conv')
  qed (use p(1) len in \<open>auto simp: DHLEN_def MAX_BYTES_def\<close>)
  moreover have "ext_calls s4 = ext_calls s"
    by (simp add: s4_def s3_def s1_def set_handshake_def upd_rec_def cm_stat_def upd_bus_def)
  ultimately show "\<exists>f. ext_calls (snd (handle_connect E ep s)) = ext_calls s @ [OpsSendTo ops ?c f]"
    using hc sni p(4) by auto
qed

lemma register_outbound:
  fixes p :: socket_peer and nd :: tcp_node and E :: env
  assumes "\<not> shutting_down (tn_cm nd)" "find_connector (tn_cm nd) ''tcp'' = Some ops" "co_ident ops = tn_ident nd"
    "dh_ok (e_sodium E)" "next_id (tn_cm nd) \<noteq> CONN_ID_INVALID"
  defines "c \<equiv> next_id (tn_cm nd)" and "ep \<equiv> socket_endpoint (Some p) True"
  shows "\<exists>f. register_socket E (Some p) True nd = nd\<lparr> tn_cm := snd (handle_connect E ep (tn_cm nd)),
    tn_tasks := tn_tasks nd @ [Tcp_send c [f]], tn_registering := tn_registering nd @ [(c, ep, True)] \<rparr>"
proof -
  have out: "ep_flags ep AND EP_FLAG_OUTBOUND \<noteq> 0"
    by (simp add: ep_def socket_endpoint_def EP_FLAG_OUTBOUND_def EP_FLAG_TRUSTED_def)
  obtain f where f: "ext_calls (snd (handle_connect E ep (tn_cm nd))) = ext_calls (tn_cm nd) @ [OpsSendTo ops c f]"
    using outbound_connect_sends(2) [OF assms(1,2,4) out] by (auto simp: c_def)
  show ?thesis
    unfolding register_socket_def via_core_def
    using f assms(3,5) outbound_connect_sends(1) [OF assms(1,2,4) out]
    by (auto simp: tcp_do_send_def tcp_post_def Let_def ep_def c_def)
qed

subsection \<open>A run of the connector\<close>

definition demo_target :: string where "demo_target = ''tcp://10.0.0.9:9000''"

definition demo_peer :: socket_peer where
  "demo_peer = \<lparr> so_address = ''10.0.0.9'', so_port = 9000, so_loopback = False \<rparr>"

text \<open>Connecting to a peer: the call of the core, its posted function, the connection, the first message.\<close>

lemma outbound_nodes:
  assumes live: "\<not> shutting_down s" and ops: "find_connector s ''tcp'' = Some demo_ops" and n: "next_id s \<noteq> CONN_ID_INVALID"
  defines "nd0 \<equiv> tcp_init s 1" and "E \<equiv> demo_env" and "c \<equiv> next_id s" and "ep \<equiv> socket_endpoint (Some demo_peer) True"
  defines "nd1 \<equiv> tcp_step E (Core_call (EvConnect demo_target)) nd0"
  defines "nd2 \<equiv> tcp_step E (Run_task 0) nd1"
  defines "nd3 \<equiv> tcp_step E (Connect_done 0 (Some (Some demo_peer))) nd2"
  obtains f where "nd1 = nd0\<lparr> tn_cm := ext (OpsConnect demo_ops demo_target) s, tn_tasks := [Tcp_connect ''10.0.0.9'' ''9000''] \<rparr>"
    "nd2 = nd1\<lparr> tn_tasks := [], tn_resolving := [(''10.0.0.9'', ''9000'')] \<rparr>"
    "nd3 = nd2\<lparr> tn_resolving := [], tn_cm := snd (handle_connect E ep (tn_cm nd2)), tn_tasks := [Tcp_send c [f]], tn_registering := [(c, ep, True)] \<rparr>"
proof -
  have uri: "uri_scheme_of demo_target = ''tcp''" "snd (tcp_do_connect demo_target nd) = tcp_post (Tcp_connect ''10.0.0.9'' ''9000'') nd" for nd
    by (simp_all add: demo_target_def uri_scheme_of_def uri_key_of_def starts_with_def split_target_def tcp_do_connect_def)
  have 1: "nd1 = nd0\<lparr> tn_cm := ext (OpsConnect demo_ops demo_target) s, tn_tasks := [Tcp_connect ''10.0.0.9'' ''9000''] \<rparr>"
    by (simp add: nd1_def nd0_def tcp_init_def via_core_def cm_connect_def uri ops ext_def tcp_post_def Let_def)
      (simp add: demo_ops_def)
  then have 2: "nd2 = nd1\<lparr> tn_tasks := [], tn_resolving := [(''10.0.0.9'', ''9000'')] \<rparr>"
    by (simp add: nd2_def nd0_def tcp_init_def)
  have dh: "dh_ok (e_sodium E)" using toy_sodium_ok by (simp add: E_def demo_env_def sodium_ok_def)
  have "find_connector (ext x s) sch = find_connector s sch" for x sch by (simp add: find_connector_def ext_def)
  then obtain f where f: "register_socket E (Some demo_peer) True (nd2\<lparr> tn_resolving := [] \<rparr>) = nd2\<lparr> tn_resolving := [],
      tn_cm := snd (handle_connect E ep (tn_cm nd2)), tn_tasks := [Tcp_send c [f]], tn_registering := [(c, ep, True)] \<rparr>"
    using register_outbound [of "nd2\<lparr> tn_resolving := [] \<rparr>" demo_ops E demo_peer] dh live ops n
    by (auto simp: 2 1 nd0_def tcp_init_def ext_def demo_ops_def ep_def c_def)
  then have "nd3 = nd2\<lparr> tn_resolving := [], tn_cm := snd (handle_connect E ep (tn_cm nd2)), tn_tasks := [Tcp_send c [f]], tn_registering := [(c, ep, True)] \<rparr>"
    by (simp add: nd3_def 2)
  with 1 2 show ?thesis by (rule that)
qed

lemma outbound_run:
  "\<exists>nd f ep. tcp_reach nd \<and> \<not> tn_stopped nd \<and> tn_tasks nd = [Tcp_send 4 [f]] \<and> tn_connections nd = [(4, 0)]
     \<and> tn_objects nd = [start_read_header (new_connection 4 ep)]"
proof -
  let ?ep = "socket_endpoint (Some demo_peer) True"
  define nd0 where "nd0 = tcp_init demo_cm 1"
  define nd1 where "nd1 = tcp_step demo_env (Core_call (EvConnect demo_target)) nd0"
  define nd2 where "nd2 = tcp_step demo_env (Run_task 0) nd1"
  define nd3 where "nd3 = tcp_step demo_env (Connect_done 0 (Some (Some demo_peer))) nd2"
  obtain f where nds: "nd1 = nd0\<lparr> tn_cm := ext (OpsConnect demo_ops demo_target) demo_cm, tn_tasks := [Tcp_connect ''10.0.0.9'' ''9000''] \<rparr>"
    "nd2 = nd1\<lparr> tn_tasks := [], tn_resolving := [(''10.0.0.9'', ''9000'')] \<rparr>"
    "nd3 = nd2\<lparr> tn_resolving := [], tn_cm := snd (handle_connect demo_env ?ep (tn_cm nd2)), tn_tasks := [Tcp_send 4 [f]], tn_registering := [(4, ?ep, True)] \<rparr>"
    using outbound_nodes [of demo_cm] by (auto simp: find_connector_def CONN_ID_INVALID_def nd0_def nd1_def nd2_def nd3_def)
  have nd0: "tn_tasks nd0 = []" "tn_resolving nd0 = []" "tn_registering nd0 = []" "tn_connections nd0 = []" "tn_objects nd0 = []" "\<not> tn_stopped nd0"
    by (simp_all add: nd0_def tcp_init_def)
  have "tcp_reach nd1" unfolding nd1_def nd0_def by (rule tcp_event [OF tcp_start]) (simp_all add: tcp_init_def)
  then have "tcp_reach nd2" unfolding nd2_def by (rule tcp_event) (simp_all add: nds(1) nd0)
  then have "tcp_reach nd3" unfolding nd3_def by (rule tcp_event) (simp_all add: nds(1,2) nd0)
  then have "tcp_reach (tcp_step demo_env (Registered 0) nd3)"
    by (rule tcp_event) (simp_all add: nds nd0)
  then show ?thesis
    by (intro exI conjI) (assumption, simp_all add: nds nd0 finish_registration_def accepted_next_def)
qed

subsection \<open>Properties\<close>

text \<open>
  Property C14. However its threads interleave, the connector writes the frames of a connection one
  after another: there is at most one write under way and \<open>writing\<close> says whether there is, and,
  while no write has failed, the bytes on the socket, those under way and those queued are the
  frames in the order in which they were queued, each once.
\<close>

theorem tcp_writes_in_order:
  assumes "tcp_reach nd" "x \<in> set (tn_objects nd)"
  shows "length (tc_writers x) \<le> 1 \<and> (tc_writing x \<longleftrightarrow> tc_writers x \<noteq> [])
    \<and> (\<not> tc_write_failed x \<longrightarrow> tc_written x @ in_flight_bytes x @ concat (tc_write_queue x) = concat (tc_queued x))"
  using tcp_reach_ok [OF assms(1)] assms(2) by (auto simp: objects_ok_def list_all_iff write_ok_def)

theorem tcp_writes_in_order_witness:
  "\<exists>nd x f. tcp_reach nd \<and> x \<in> set (tn_objects nd) \<and> tc_queued x = [f] \<and> length (tc_writers x) \<le> 1
     \<and> tc_written x @ in_flight_bytes x @ concat (tc_write_queue x) = f"
proof -
  obtain nd f ep where nd: "tcp_reach nd" "\<not> tn_stopped nd" "tn_tasks nd = [Tcp_send 4 [f]]" "tn_connections nd = [(4, 0)]"
    "tn_objects nd = [start_read_header (new_connection 4 ep)]"
    using outbound_run by blast
  let ?x = "queue_frames [f] (start_read_header (new_connection 4 ep))"
  let ?nd = "tcp_step demo_env (Run_task 0) nd"
  have r: "tcp_reach ?nd" by (rule tcp_event [OF nd(1,2)]) (simp add: nd(3))
  have x: "?x \<in> set (tn_objects ?nd)" "tc_queued ?x = [f]" "\<not> tc_write_failed ?x"
    using nd(3-5) by (simp_all add: upd_object_def queue_frames_def start_read_header_def new_connection_def Let_def)
  from tcp_writes_in_order [OF r x(1)] x(2,3)
  have "length (tc_writers ?x) \<le> 1" "tc_written ?x @ in_flight_bytes ?x @ concat (tc_write_queue ?x) = f" by simp_all
  with r x(1,2) show ?thesis by blast
qed

text \<open>
  Property C15. The read loop of the TCP connector hands the core the frames of the byte stream:
  what it delivered is a beginning of the frames that the reference definition cuts out of the
  received bytes, all of them when the loop waits for more; and each is a whole frame, which the
  core dispatches as it is when nothing is left in its receive buffer.
\<close>

theorem tcp_reads_frames:
  assumes "tcp_reach nd" "k < length (tn_objects nd)"
  defines "x \<equiv> tn_objects nd ! k"
  shows "(\<exists>later r ok. split_stream (tc_received x) = (map frame_parts (tc_delivered x) @ later, r, ok)
        \<and> (tc_reading x \<noteq> No_read \<and> \<not> tcp_enabled (Read_done k) nd \<longrightarrow> later = [] \<and> ok))
    \<and> (\<forall>d \<in> set (tc_delivered x). \<forall>E s c rec. \<not> shutting_down s \<and> map_of (transport_index s) c = None
        \<and> rcu_find s c = Some rec \<and> c_recv_buf rec = []
        \<longrightarrow> handle_data E c d s = dispatch_packet E c (header_dec d) (drop HDR d) (ns_u64 (e_now E)) s)"
proof (intro conjI)
  have ok: "list_all frame_ok (tc_delivered x)"
    "stream_ok (tc_reading x) (tc_received x) (tc_delivered x) (tc_frame_buf x) (tc_incoming x)"
    using tcp_reach_ok [OF assms(1)] assms(2) unfolding x_def by (simp_all add: objects_ok_def list_all_length read_ok_def)
  then obtain rest where rest: "tc_received x = concat (tc_delivered x) @ rest"
    by (cases "tc_reading x") auto
  have "split_stream rest = ([], rest, True)" if "tc_reading x \<noteq> No_read" "\<not> tcp_enabled (Read_done k) nd"
  proof (cases "tc_reading x")
    case Read_header
    then have "rest = tc_incoming x" "length (tc_incoming x) < HDR" using ok(2) rest that(2) assms(2) by (auto simp: x_def)
    then show ?thesis by (subst split_stream.simps) simp
  next
    case (Read_body n)
    then have "rest = take HDR (tc_frame_buf x) @ tc_incoming x" "length (tc_incoming x) < n" "HDR \<le> length (tc_frame_buf x)"
      using ok(2) rest that(2) assms(2) by (auto simp: x_def)
    then show ?thesis
      using ok(2) Read_body header_dec_append [of "take HDR (tc_frame_buf x)" "tc_incoming x"]
      by (subst split_stream.simps) (simp add: header_dec_take Let_def)
  qed (use that in simp)
  then show "\<exists>later r ok. split_stream (tc_received x) = (map frame_parts (tc_delivered x) @ later, r, ok)
      \<and> (tc_reading x \<noteq> No_read \<and> \<not> tcp_enabled (Read_done k) nd \<longrightarrow> later = [] \<and> ok)"
    unfolding rest split_delivered_frames [OF ok(1)] by (cases "split_stream rest") auto
  show "\<forall>d \<in> set (tc_delivered x). \<forall>E s c rec. \<not> shutting_down s \<and> map_of (transport_index s) c = None
        \<and> rcu_find s c = Some rec \<and> c_recv_buf rec = []
        \<longrightarrow> handle_data E c d s = dispatch_packet E c (header_dec d) (drop HDR d) (ns_u64 (e_now E)) s"
    using ok(1) handle_whole_frame by (auto simp: list_all_iff)
qed

theorem tcp_reads_frames_witness:
  "let d = header_enc \<lparr> magic = GNET_MAGIC, proto_ver = GNET_PROTO_VER, hflags = 0, payload_type = 100, payload_len = 0, packet_id = 1 \<rparr>
   in \<exists>nd. tcp_reach nd \<and> tc_received (tn_objects nd ! 0) = d @ [1, 2] \<and> tc_delivered (tn_objects nd ! 0) = [d]
        \<and> (\<exists>r. split_stream (d @ [1, 2]) = ([frame_parts d], r, True))"
proof -
  define d where "d = header_enc \<lparr> magic = GNET_MAGIC, proto_ver = GNET_PROTO_VER, hflags = 0, payload_type = 100, payload_len = 0, packet_id = 1 \<rparr>"
  have d: "length d = HDR" "header_dec (d @ r) = \<lparr> magic = GNET_MAGIC, proto_ver = GNET_PROTO_VER, hflags = 0, payload_type = 100,
      payload_len = 0, packet_id = 1 \<rparr>" "header_dec d = header_dec (d @ r)" for r
    using header.length_enc header.dec_enc header.dec_exact by (simp_all add: d_def HDR_def)
  obtain nd ep where nd: "tcp_reach nd" "\<not> tn_stopped nd" "tn_objects nd = [start_read_header (new_connection 4 ep)]"
    using outbound_run by blast
  let ?nd1 = "tcp_step demo_env (Bytes_arrive 0 (d @ [1, 2])) nd"
  let ?nd2 = "tcp_step demo_env (Read_done 0) ?nd1"
  have o1: "tn_objects ?nd1 = [(start_read_header (new_connection 4 ep))\<lparr> tc_incoming := d @ [1, 2], tc_received := d @ [1, 2] \<rparr>]"
    by (simp add: upd_object_def nd(3) start_read_header_def new_connection_def)
  have r1: "tcp_reach ?nd1" "\<not> tn_stopped ?nd1" "tcp_enabled (Read_done 0) ?nd1"
    using tcp_event [OF nd(1,2), of "Bytes_arrive 0 (d @ [1, 2])"] nd(2,3) o1 d(1)
    by (simp_all add: upd_object_def start_read_header_def)
  have r2: "tcp_reach ?nd2" by (rule tcp_event [OF r1])
  obtain x where x: "tn_objects ?nd2 = [x]" "tc_received x = d @ [1, 2]" "tc_delivered x = [d]" "tc_incoming x = [1, 2]" "tc_reading x = Read_header"
    using o1 d(1) d(2) [of "[]"] r1(3) unfolding tcp_step.simps(8) [of demo_env 0 ?nd1]
    by (simp add: start_read_header_def on_header_def upd_object_objects on_frame_def new_connection_def Let_def)
  show ?thesis
    using tcp_reads_frames [OF r2, of 0] r2 x by (auto simp: Let_def HDR_def d_def [symmetric])
qed

text \<open>
  The first handshake message of an outgoing connection can be lost: the core sends it
  from inside \<open>notify_connect\<close>, before \<open>register_socket\<close> enters the connection in the map. If another
  thread runs the posted send in between, the frame is discarded without an error; after the
  registration nothing of it is queued or posted any more.
\<close>

theorem tcp_first_message_lost:
  fixes p :: socket_peer and nd :: tcp_node and E :: env
  assumes "\<not> shutting_down (tn_cm nd)" "find_connector (tn_cm nd) ''tcp'' = Some ops" "co_ident ops = tn_ident nd"
    "dh_ok (e_sodium E)" "tn_tasks nd = []" "tn_registering nd = []" "next_id (tn_cm nd) \<noteq> CONN_ID_INVALID"
    "map_of (tn_connections nd) (next_id (tn_cm nd)) = None"
  defines "nd1 \<equiv> register_socket E (Some p) True nd"
  shows "(\<exists>f. tn_tasks nd1 = [Tcp_send (next_id (tn_cm nd)) [f]])
    \<and> (let nd2 = tcp_step E' (Registered 0) (tcp_step E' (Run_task 0) nd1)
       in tn_tasks nd2 = [] \<and> map_of (tn_connections nd2) (next_id (tn_cm nd)) = Some (length (tn_objects nd))
          \<and> tn_objects nd2 = tn_objects nd @ [start_read_header (new_connection (next_id (tn_cm nd)) (socket_endpoint (Some p) True))])"
proof -
  obtain f where nd1: "nd1 = nd\<lparr> tn_cm := snd (handle_connect E (socket_endpoint (Some p) True) (tn_cm nd)),
      tn_tasks := [Tcp_send (next_id (tn_cm nd)) [f]], tn_registering := [(next_id (tn_cm nd), socket_endpoint (Some p) True, True)] \<rparr>"
    using register_outbound [OF assms(1-4,7), of p] assms(5,6) by (auto simp: nd1_def)
  show ?thesis
    using assms(8) by (simp add: nd1 finish_registration_def accepted_next_def update_conv' Let_def)
qed

definition demo_tcp :: tcp_node where
  "demo_tcp = (tcp_init demo_cm 1)\<lparr> tn_connections := [(1, 0)], tn_objects := [start_read_header (new_connection 1 (demo_endpoint ''10.0.0.1'' 9000))] \<rparr>"

theorem tcp_first_message_lost_witness:
  "let nd1 = register_socket demo_env (Some \<lparr> so_address = ''10.0.0.9'', so_port = 9000, so_loopback = False \<rparr>) True demo_tcp
   in \<exists>f. tn_tasks nd1 = [Tcp_send 4 [f]]"
proof -
  have "dh_ok (e_sodium demo_env)" using toy_sodium_ok by (simp add: demo_env_def sodium_ok_def)
  then show ?thesis
    using tcp_first_message_lost [of demo_tcp demo_ops demo_env]
    by (auto simp: demo_tcp_def tcp_init_def find_connector_def demo_ops_def CONN_ID_INVALID_def Let_def)
qed

text \<open>
  Two sends can change places: the connector answers both with success, but the threads
  of its \<open>io_context\<close> may run the second posted function first, so that the later frame is queued,
  and hence written, before the earlier one.
\<close>

theorem tcp_sends_overtake:
  assumes "map_of (tn_connections nd) c = Some k" "k < length (tn_objects nd)" "tn_tasks nd = []"
  shows "let (rc1, nd1) = tcp_do_send c a nd; (rc2, nd2) = tcp_do_send c b nd1;
             nd3 = tcp_step E (Run_task 0) (tcp_step E (Run_task 1) nd2)
         in rc1 = 0 \<and> rc2 = 0 \<and> tc_write_queue (tn_objects nd3 ! k) = tc_write_queue (tn_objects nd ! k) @ [b, a]"
  using assms by (simp add: tcp_do_send_def tcp_post_def upd_object_def queue_frames_def Let_def)

theorem tcp_sends_overtake_witness:
  "tc_write_queue (tn_objects (tcp_step demo_env (Run_task 0) (tcp_step demo_env (Run_task 1)
     (snd (tcp_do_send 1 [11] (snd (tcp_do_send 1 [10] demo_tcp)))))) ! 0) = [[11], [10]]"
  using tcp_sends_overtake [of demo_tcp 1 0 "[10]" "[11]" demo_env]
  by (simp add: demo_tcp_def tcp_init_def tcp_do_send_def start_read_header_def new_connection_def Let_def)

end
