(* ===== verification/Node_Config.thy ===== *)
theory Node_Config
  imports Ice_Connector "HOL-Library.List_Lexorder" "HOL-Library.Char_ord"
begin

section \<open>Configuration\<close>

text \<open>
  \<open>include/config.hpp\<close> and \<open>src/config.cpp\<close>: the typed sections with their defaults, reading them
  from a JSON document, writing them back, and access by dotted keys. The JSON library is a
  parameter: \<open>js_parse\<close> and \<open>js_dump\<close> return \<open>None\<close> where it throws. A JSON object is the list of its
  members in the order of the keys, which is how the library keeps and compares them; a C++ \<open>int\<close> is
  a 32-bit word, and converting a JSON integer to it wraps.
\<close>

subsection \<open>JSON documents\<close>

datatype json =
    J_null
  | J_bool bool
  | J_int int
  | J_float
  | J_string string
  | J_array "json list"
  | J_object "(string \<times> json) list"

definition j_object :: "(string \<times> json) list \<Rightarrow> json" where
  "j_object kvs = J_object (sort_key fst kvs)"

definition j_get :: "json \<Rightarrow> string \<Rightarrow> json option" where
  "j_get j k = (case j of J_object kvs \<Rightarrow> map_of kvs k | _ \<Rightarrow> None)"

record json_lib =
  js_parse :: "string \<Rightarrow> json option"
  js_dump :: "json \<Rightarrow> string option"

definition json_ok :: "json_lib \<Rightarrow> bool" where
  "json_ok J \<longleftrightarrow> (\<forall>kvs t. js_dump J (j_object kvs) = Some t \<longrightarrow> js_parse J t = Some (j_object kvs))"

subsection \<open>Sections\<close>

type_synonym i32 = "32 word"

record core_section =
  listen_address :: string
  listen_port :: i32
  io_threads :: i32
  max_connections :: i32

record log_section =
  log_level :: string
  log_file :: string
  log_max_size :: i32
  log_max_files :: i32

record security_section =
  key_exchange_timeout :: i32
  max_auth_attempts :: i32
  sec_session_timeout :: i32

record compression_section =
  comp_enabled :: bool
  comp_threshold :: i32
  comp_level :: i32

record plugins_section =
  base_dir :: string
  auto_load :: bool
  scan_interval :: i32
  extra_dirs :: string

record identity_section =
  id_dir :: string
  ssh_key_path :: string
  use_machine_id :: bool
  skip_ssh_fallback :: bool

record ice_section =
  stun_servers :: string
  ice_session_timeout :: i32
  ice_keepalive_interval :: i32
  ice_consent_max_failures :: i32

record config =
  cf_core :: core_section
  cf_logging :: log_section
  cf_security :: security_section
  cf_compression :: compression_section
  cf_plugins :: plugins_section
  cf_identity :: identity_section
  cf_ice :: ice_section
  cf_last_file :: string

definition default_config :: config where
  "default_config = \<lparr>
     cf_core = \<lparr> listen_address = ''0.0.0.0'', listen_port = 25565, io_threads = 0, max_connections = 1000 \<rparr>,
     cf_logging = \<lparr> log_level = ''info'', log_file = [], log_max_size = 10485760, log_max_files = 5 \<rparr>,
     cf_security = \<lparr> key_exchange_timeout = 30, max_auth_attempts = 3, sec_session_timeout = 3600 \<rparr>,
     cf_compression = \<lparr> comp_enabled = True, comp_threshold = 512, comp_level = 1 \<rparr>,
     cf_plugins = \<lparr> base_dir = [], auto_load = True, scan_interval = 300, extra_dirs = [] \<rparr>,
     cf_identity = \<lparr> id_dir = ''~/.goodnet'', ssh_key_path = [], use_machine_id = True, skip_ssh_fallback = False \<rparr>,
     cf_ice = \<lparr> stun_servers = ''stun.l.google.com:19302,stun1.l.google.com:19302,stun2.l.google.com:19302'',
       ice_session_timeout = 10, ice_keepalive_interval = 20, ice_consent_max_failures = 3 \<rparr>,
     cf_last_file = [] \<rparr>"

subsection \<open>Reading\<close>

text \<open>A member of the right type replaces the setting; anything else leaves it as it was.\<close>

definition get_str :: "json option \<Rightarrow> string \<Rightarrow> string \<Rightarrow> string" where
  "get_str sec k old = (case sec of None \<Rightarrow> old | Some c \<Rightarrow> (case j_get c k of Some (J_string v) \<Rightarrow> v | _ \<Rightarrow> old))"

definition get_int :: "json option \<Rightarrow> string \<Rightarrow> i32 \<Rightarrow> i32" where
  "get_int sec k old = (case sec of None \<Rightarrow> old | Some c \<Rightarrow> (case j_get c k of Some (J_int v) \<Rightarrow> word_of_int v | _ \<Rightarrow> old))"

definition get_bool :: "json option \<Rightarrow> string \<Rightarrow> bool \<Rightarrow> bool" where
  "get_bool sec k old = (case sec of None \<Rightarrow> old | Some c \<Rightarrow> (case j_get c k of Some (J_bool v) \<Rightarrow> v | _ \<Rightarrow> old))"

definition read_core :: "json option \<Rightarrow> core_section \<Rightarrow> core_section" where
  "read_core c x = \<lparr> listen_address = get_str c ''listen_address'' (listen_address x),
     listen_port = get_int c ''listen_port'' (listen_port x), io_threads = get_int c ''io_threads'' (io_threads x),
     max_connections = get_int c ''max_connections'' (max_connections x) \<rparr>"

definition read_logging :: "json option \<Rightarrow> log_section \<Rightarrow> log_section" where
  "read_logging c x = \<lparr> log_level = get_str c ''level'' (log_level x), log_file = get_str c ''file'' (log_file x),
     log_max_size = get_int c ''max_size'' (log_max_size x), log_max_files = get_int c ''max_files'' (log_max_files x) \<rparr>"

definition read_security :: "json option \<Rightarrow> security_section \<Rightarrow> security_section" where
  "read_security c x = \<lparr> key_exchange_timeout = get_int c ''key_exchange_timeout'' (key_exchange_timeout x),
     max_auth_attempts = get_int c ''max_auth_attempts'' (max_auth_attempts x),
     sec_session_timeout = get_int c ''session_timeout'' (sec_session_timeout x) \<rparr>"

definition read_compression :: "json option \<Rightarrow> compression_section \<Rightarrow> compression_section" where
  "read_compression c x = \<lparr> comp_enabled = get_bool c ''enabled'' (comp_enabled x),
     comp_threshold = get_int c ''threshold'' (comp_threshold x), comp_level = get_int c ''level'' (comp_level x) \<rparr>"

definition read_plugins :: "json option \<Rightarrow> plugins_section \<Rightarrow> plugins_section" where
  "read_plugins c x = \<lparr> base_dir = get_str c ''base_dir'' (base_dir x), auto_load = get_bool c ''auto_load'' (auto_load x),
     scan_interval = get_int c ''scan_interval'' (scan_interval x), extra_dirs = get_str c ''extra_dirs'' (extra_dirs x) \<rparr>"

definition read_identity :: "json option \<Rightarrow> identity_section \<Rightarrow> identity_section" where
  "read_identity c x = \<lparr> id_dir = get_str c ''dir'' (id_dir x), ssh_key_path = get_str c ''ssh_key_path'' (ssh_key_path x),
     use_machine_id = get_bool c ''use_machine_id'' (use_machine_id x),
     skip_ssh_fallback = get_bool c ''skip_ssh_fallback'' (skip_ssh_fallback x) \<rparr>"

definition read_ice :: "json option \<Rightarrow> ice_section \<Rightarrow> ice_section" where
  "read_ice c x = \<lparr> stun_servers = get_str c ''stun_servers'' (stun_servers x),
     ice_session_timeout = get_int c ''session_timeout'' (ice_session_timeout x),
     ice_keepalive_interval = get_int c ''keepalive_interval'' (ice_keepalive_interval x),
     ice_consent_max_failures = get_int c ''consent_max_failures'' (ice_consent_max_failures x) \<rparr>"

definition parse_json :: "json_lib \<Rightarrow> string \<Rightarrow> config \<Rightarrow> bool \<times> config" where
  "parse_json J txt cfg =
     (case js_parse J txt of
        None \<Rightarrow> (False, cfg)
      | Some j \<Rightarrow>
          (True, cfg\<lparr> cf_core := read_core (j_get j ''core'') (cf_core cfg),
             cf_logging := read_logging (j_get j ''logging'') (cf_logging cfg),
             cf_security := read_security (j_get j ''security'') (cf_security cfg),
             cf_compression := read_compression (j_get j ''compression'') (cf_compression cfg),
             cf_plugins := read_plugins (j_get j ''plugins'') (cf_plugins cfg),
             cf_identity := read_identity (j_get j ''identity'') (cf_identity cfg),
             cf_ice := read_ice (j_get j ''ice'') (cf_ice cfg) \<rparr>))"

subsection \<open>Writing\<close>

definition j_num :: "i32 \<Rightarrow> json" where "j_num w = J_int (sint w)"

definition config_json :: "config \<Rightarrow> json" where
  "config_json cfg = j_object [
     (''core'', j_object [(''listen_address'', J_string (listen_address (cf_core cfg))),
        (''listen_port'', j_num (listen_port (cf_core cfg))), (''io_threads'', j_num (io_threads (cf_core cfg))),
        (''max_connections'', j_num (max_connections (cf_core cfg)))]),
     (''logging'', j_object [(''level'', J_string (log_level (cf_logging cfg))), (''file'', J_string (log_file (cf_logging cfg))),
        (''max_size'', j_num (log_max_size (cf_logging cfg))), (''max_files'', j_num (log_max_files (cf_logging cfg)))]),
     (''security'', j_object [(''key_exchange_timeout'', j_num (key_exchange_timeout (cf_security cfg))),
        (''max_auth_attempts'', j_num (max_auth_attempts (cf_security cfg))),
        (''session_timeout'', j_num (sec_session_timeout (cf_security cfg)))]),
     (''compression'', j_object [(''enabled'', J_bool (comp_enabled (cf_compression cfg))),
        (''threshold'', j_num (comp_threshold (cf_compression cfg))), (''level'', j_num (comp_level (cf_compression cfg)))]),
     (''plugins'', j_object [(''base_dir'', J_string (base_dir (cf_plugins cfg))), (''auto_load'', J_bool (auto_load (cf_plugins cfg))),
        (''scan_interval'', j_num (scan_interval (cf_plugins cfg))), (''extra_dirs'', J_string (extra_dirs (cf_plugins cfg)))]),
     (''identity'', j_object [(''dir'', J_string (id_dir (cf_identity cfg))), (''ssh_key_path'', J_string (ssh_key_path (cf_identity cfg))),
        (''use_machine_id'', J_bool (use_machine_id (cf_identity cfg))),
        (''skip_ssh_fallback'', J_bool (skip_ssh_fallback (cf_identity cfg)))]),
     (''ice'', j_object [(''stun_servers'', J_string (stun_servers (cf_ice cfg))),
        (''session_timeout'', j_num (ice_session_timeout (cf_ice cfg))),
        (''keepalive_interval'', j_num (ice_keepalive_interval (cf_ice cfg))),
        (''consent_max_failures'', j_num (ice_consent_max_failures (cf_ice cfg)))])]"

subsection \<open>Files\<close>

text \<open>
  The files of the node: contents by path, and which paths can be opened for reading or writing (the
  latter includes that the directories above the file can be created). A file that cannot be written
  stays as it was.
\<close>

record file_system =
  fs_files :: "string \<Rightarrow> bytes option"
  fs_readable :: "string \<Rightarrow> bool"
  fs_writable :: "string \<Rightarrow> bool"

definition fs_exists :: "string \<Rightarrow> file_system \<Rightarrow> bool" where
  "fs_exists p F \<longleftrightarrow> fs_files F p \<noteq> None"

definition fs_read :: "string \<Rightarrow> file_system \<Rightarrow> bytes option" where
  "fs_read p F = (if fs_readable F p then fs_files F p else None)"

definition fs_write :: "string \<Rightarrow> bytes \<Rightarrow> file_system \<Rightarrow> bool \<times> file_system" where
  "fs_write p b F = (if fs_writable F p then (True, F\<lparr> fs_files := (fs_files F)(p := Some b) \<rparr>) else (False, F))"

definition load_from_file :: "json_lib \<Rightarrow> file_system \<Rightarrow> string \<Rightarrow> config \<Rightarrow> bool \<times> config" where
  "load_from_file J F path cfg =
     (if \<not> fs_exists path F then (False, cfg)
      else case fs_read path F of
        None \<Rightarrow> (False, cfg)
      | Some b \<Rightarrow>
          (case parse_json J (string_of_bytes b) cfg of
             (False, cfg1) \<Rightarrow> (False, cfg1)
           | (True, cfg1) \<Rightarrow> (True, cfg1\<lparr> cf_last_file := path \<rparr>)))"

definition config_new :: "bool \<Rightarrow> json_lib \<Rightarrow> file_system \<Rightarrow> string \<Rightarrow> config" where
  "config_new defaults_only J F cwd =
     (if defaults_only then default_config else snd (load_from_file J F (cwd @ ''/config.json'') default_config))"

definition config_reload :: "json_lib \<Rightarrow> file_system \<Rightarrow> config \<Rightarrow> bool \<times> config" where
  "config_reload J F cfg = (if cf_last_file cfg = [] then (False, cfg) else load_from_file J F (cf_last_file cfg) cfg)"

text \<open>
  The file is opened, and so emptied, before the document is made; when the library throws then, it
  stays empty.
\<close>

definition save_to_file :: "json_lib \<Rightarrow> string \<Rightarrow> config \<Rightarrow> file_system \<Rightarrow> bool \<times> file_system" where
  "save_to_file J path cfg F =
     (case fs_write path [] F of
        (False, F1) \<Rightarrow> (False, F1)
      | (True, F1) \<Rightarrow>
          (case js_dump J (config_json cfg) of
             None \<Rightarrow> (False, F1)
           | Some t \<Rightarrow> fs_write path (bytes_of_string t) F1))"

subsection \<open>Access by key\<close>

definition to_string_int :: "i32 \<Rightarrow> string" where
  "to_string_int w = (if sint w < 0 then CHR ''-'' # to_string (nat (- sint w)) else to_string (nat (sint w)))"

definition to_string_bool :: "bool \<Rightarrow> string" where
  "to_string_bool b = (if b then ''true'' else ''false'')"

definition extract_first_stun :: "string \<Rightarrow> string \<times> string" where
  "extract_first_stun csv =
     (let e = trim_spaces (takeWhile (\<lambda>c. c \<noteq> CHR '','') csv)
      in if CHR '':'' \<in> set e
         then let port = rev (takeWhile (\<lambda>c. c \<noteq> CHR '':'') (rev e)) in (take (length e - length port - 1) e, port)
         else (e, ''19302''))"

definition raw_settings :: "config \<Rightarrow> (string \<times> string) list" where
  "raw_settings cfg = [
     (''core.listen_address'', listen_address (cf_core cfg)), (''core.listen_port'', to_string_int (listen_port (cf_core cfg))),
     (''core.io_threads'', to_string_int (io_threads (cf_core cfg))),
     (''core.max_connections'', to_string_int (max_connections (cf_core cfg))),
     (''logging.level'', log_level (cf_logging cfg)), (''logging.file'', log_file (cf_logging cfg)),
     (''logging.max_size'', to_string_int (log_max_size (cf_logging cfg))),
     (''logging.max_files'', to_string_int (log_max_files (cf_logging cfg))),
     (''security.key_exchange_timeout'', to_string_int (key_exchange_timeout (cf_security cfg))),
     (''security.max_auth_attempts'', to_string_int (max_auth_attempts (cf_security cfg))),
     (''security.session_timeout'', to_string_int (sec_session_timeout (cf_security cfg))),
     (''compression.enabled'', to_string_bool (comp_enabled (cf_compression cfg))),
     (''compression.threshold'', to_string_int (comp_threshold (cf_compression cfg))),
     (''compression.level'', to_string_int (comp_level (cf_compression cfg))),
     (''plugins.base_dir'', base_dir (cf_plugins cfg)), (''plugins.auto_load'', to_string_bool (auto_load (cf_plugins cfg))),
     (''plugins.scan_interval'', to_string_int (scan_interval (cf_plugins cfg))), (''plugins.extra_dirs'', extra_dirs (cf_plugins cfg)),
     (''identity.dir'', id_dir (cf_identity cfg)), (''identity.ssh_key_path'', ssh_key_path (cf_identity cfg)),
     (''identity.use_machine_id'', to_string_bool (use_machine_id (cf_identity cfg))),
     (''identity.skip_ssh_fallback'', to_string_bool (skip_ssh_fallback (cf_identity cfg))),
     (''ice.stun_servers'', stun_servers (cf_ice cfg)),
     (''ice.session_timeout'', to_string_int (ice_session_timeout (cf_ice cfg))),
     (''ice.keepalive_interval'', to_string_int (ice_keepalive_interval (cf_ice cfg))),
     (''ice.consent_max_failures'', to_string_int (ice_consent_max_failures (cf_ice cfg))),
     (''ice.consent_failures'', to_string_int (ice_consent_max_failures (cf_ice cfg))),
     (''ice.stun_server'', fst (extract_first_stun (stun_servers (cf_ice cfg)))),
     (''ice.stun_port'', snd (extract_first_stun (stun_servers (cf_ice cfg))))]"

definition get_raw :: "config \<Rightarrow> string \<Rightarrow> string option" where
  "get_raw cfg key = map_of (raw_settings cfg) key"

definition compression_of :: "config \<Rightarrow> compression_cfg" where
  "compression_of cfg = \<lparr> cc_enabled = comp_enabled (cf_compression cfg), cc_threshold = sint (comp_threshold (cf_compression cfg)),
     cc_level = sint (comp_level (cf_compression cfg)) \<rparr>"

subsection \<open>Reading back what was written\<close>

lemma map_of_sort_fst:
  assumes "distinct (map fst kvs)"
  shows "map_of (sort_key fst kvs) = map_of kvs"
proof -
  have "mset (map fst (sort_key fst kvs)) = mset (map fst kvs)" by simp
  then have "distinct (map fst (sort_key fst kvs))" using assms mset_eq_imp_distinct_iff by blast
  then show ?thesis using assms by (metis map_of_inject_set set_sort)
qed

lemma j_get_object: "distinct (map fst kvs) \<Longrightarrow> j_get (j_object kvs) k = map_of kvs k"
  by (simp add: j_get_def j_object_def map_of_sort_fst)

lemma get_fields:
  "get_str (Some c) k old = (case j_get c k of Some (J_string v) \<Rightarrow> v | _ \<Rightarrow> old)"
  "get_int (Some c) k i = (case j_get c k of Some (J_int v) \<Rightarrow> word_of_int v | _ \<Rightarrow> i)"
  "get_bool (Some c) k b = (case j_get c k of Some (J_bool v) \<Rightarrow> v | _ \<Rightarrow> b)"
  by (simp_all add: get_str_def get_int_def get_bool_def)

lemmas read_defs = read_core_def read_logging_def read_security_def read_compression_def read_plugins_def read_identity_def read_ice_def

lemma parse_config_json:
  assumes "js_parse J t = Some (config_json cfg)"
  shows "parse_json J t old = (True, cfg\<lparr> cf_last_file := cf_last_file old \<rparr>)"
  using assms
  by (simp add: parse_json_def config_json_def j_get_object read_defs get_fields j_num_def)

lemma config_json_object: "\<exists>kvs. config_json cfg = j_object kvs"
  unfolding config_json_def by blast

subsection \<open>Numbers as text\<close>

lemma digit_char: "d < 10 \<Longrightarrow> is_digit (char_of (48 + d :: nat)) \<and> (of_char (char_of (48 + d :: nat)) :: int) = 48 + int d"
proof -
  assume "d < 10"
  then have "(of_char (char_of (48 + d :: nat)) :: nat) = 48 + d" by simp
  moreover have "(of_char c :: int) = int (of_char c)" for c by (simp add: of_nat_of_char)
  ultimately show ?thesis using \<open>d < 10\<close> by (simp add: is_digit_def)
qed

lemma digits_atoi: "list_all is_digit (digits n) \<and> digits_value (digits n) = int n \<and> digits n \<noteq> []"
proof (induction n rule: digits.induct)
  case (1 n)
  show ?case
  proof (cases "n < 10")
    case True
    then show ?thesis using digit_char [of n] by (subst (1 2 3) digits.simps) (simp add: digits_value_def)
  next
    case False
    have "n mod 10 < 10" by simp
    with False 1 digit_char [of "n mod 10"] show ?thesis
      by (subst (1 2 3) digits.simps) (simp add: digits_value_def, presburger)
  qed
qed

lemma digits_length: "n < 2 ^ 31 \<Longrightarrow> length (digits n) \<le> 31"
proof -
  have "n < 2 ^ k \<Longrightarrow> 0 < k \<Longrightarrow> length (digits n) \<le> k" for k
  proof (induction k arbitrary: n)
    case (Suc k)
    show ?case
    proof (cases "n < 10")
      case True
      then show ?thesis by (subst digits.simps) simp
    next
      case False
      then have "n div 10 < 2 ^ k" "0 < k" using Suc.prems(1) by (simp, cases k, simp_all)
      from Suc.IH [OF this] False show ?thesis by (subst digits.simps) simp
    qed
  qed simp
  then show "n < 2 ^ 31 \<Longrightarrow> length (digits n) \<le> 31" by simp
qed

lemma atoi_unsigned:
  assumes "skip_spaces str = c # cs" "c \<noteq> CHR ''-''" "c \<noteq> CHR ''+''"
  shows "atoi str = digits_value (takeWhile is_digit (c # cs))"
  using assms unfolding atoi_def by (cases c) (auto split: bool.split)

lemma atoi_digits: "atoi (digits n) = int n"
proof -
  obtain c cs where d: "digits n = c # cs" "is_digit c" using digits_atoi [of n] by (cases "digits n") auto
  have nd: "c \<notin> {CHR '' '', CHR 0x09, CHR 0x0A, CHR 0x0B, CHR 0x0C, CHR 0x0D}" "c \<noteq> CHR ''-''" "c \<noteq> CHR ''+''"
    using d(2) by (auto simp: is_digit_def)
  have "skip_spaces (digits n) = c # cs" using nd(1) by (simp add: d(1))
  from atoi_unsigned [OF this nd(2,3)] show ?thesis
    using digits_atoi [of n] d(1) by (metis list_all_iff takeWhile_eq_all_conv)
qed

subsection \<open>Properties\<close>

text \<open>
  Property C37. What \<open>save_to_file\<close> wrote, \<open>load_from_file\<close> reads back: every setting of every section,
  whatever the settings were before, and \<open>reload\<close> does so again from the same file.
\<close>

theorem config_roundtrip:
  assumes J: "json_ok J" and saved: "save_to_file J path cfg F = (True, F1)"
    and readable: "fs_readable F path" and path: "path \<noteq> []"
  shows "load_from_file J F1 path old = (True, cfg\<lparr> cf_last_file := path \<rparr>)
    \<and> config_reload J F1 (any\<lparr> cf_last_file := path \<rparr>) = (True, cfg\<lparr> cf_last_file := path \<rparr>)"
proof -
  obtain t where t: "js_dump J (config_json cfg) = Some t" "F1 = F\<lparr> fs_files := (fs_files F)(path := Some (bytes_of_string t)) \<rparr>"
    using saved by (auto simp: save_to_file_def fs_write_def split: if_splits option.splits)
  obtain kvs where "config_json cfg = j_object kvs" using config_json_object by blast
  then have "js_parse J t = Some (config_json cfg)" using J t(1) by (simp add: json_ok_def)
  then have "load_from_file J F1 path old = (True, cfg\<lparr> cf_last_file := path \<rparr>)" for old
    using readable by (simp add: load_from_file_def fs_exists_def fs_read_def t(2) parse_config_json)
  then show ?thesis using path by (simp add: config_reload_def)
qed

definition demo_json :: json_lib where
  "demo_json = \<lparr> js_parse = (\<lambda>t. if t = ''{}'' then Some (config_json default_config) else None),
     js_dump = (\<lambda>j. if j = config_json default_config then Some ''{}'' else None) \<rparr>"

definition demo_fs :: file_system where
  "demo_fs = \<lparr> fs_files = (\<lambda>_. None), fs_readable = (\<lambda>_. True), fs_writable = (\<lambda>_. True) \<rparr>"

theorem config_roundtrip_witness:
  "load_from_file demo_json (snd (save_to_file demo_json ''/etc/gn.json'' default_config demo_fs)) ''/etc/gn.json''
     (default_config\<lparr> cf_compression := \<lparr> comp_enabled = False, comp_threshold = 7, comp_level = 9 \<rparr> \<rparr>)
   = (True, default_config\<lparr> cf_last_file := ''/etc/gn.json'' \<rparr>)"
proof -
  let ?p = "''/etc/gn.json''"
  have ok: "json_ok demo_json" by (simp add: json_ok_def demo_json_def)
  have "save_to_file demo_json ?p default_config demo_fs
      = (True, snd (save_to_file demo_json ?p default_config demo_fs))"
    by (simp add: save_to_file_def fs_write_def demo_fs_def demo_json_def)
  from config_roundtrip [OF ok this] show ?thesis by (simp add: demo_fs_def)
qed

text \<open>
  The ICE settings of the configuration are what the ICE connector works with: the
  server list is the one parsed from the first 255 characters of the configured text, and the three
  numbers arrive unchanged when they are positive (they travel as decimal text).
\<close>

theorem ice_settings_reach_connector:
  assumes "stun_servers (cf_ice cfg) \<noteq> []" "0 < sint (ice_session_timeout (cf_ice cfg))"
    "0 < sint (ice_keepalive_interval (cf_ice cfg))" "0 < sint (ice_consent_max_failures (cf_ice cfg))"
  shows "init_config (get_raw cfg) getenv =
    \<lparr> ic_stun_servers = parse_stun_servers (take 255 (stun_servers (cf_ice cfg))),
      ic_session_timeout = sint (ice_session_timeout (cf_ice cfg)), ic_keepalive_interval = sint (ice_keepalive_interval (cf_ice cfg)),
      ic_consent_max_failures = sint (ice_consent_max_failures (cf_ice cfg)) \<rparr>"
proof -
  have num: "take 255 (to_string_int w) = digits (nat (sint w))" "atoi (digits (nat (sint w))) = sint w" "digits (nat (sint w)) \<noteq> []"
    if "0 < sint w" for w :: i32
  proof -
    have "sint w < 2 ^ 31" using sint_lt [of w] by simp
    then have "nat (sint w) < 2 ^ 31" using that by simp
    then have "length (digits (nat (sint w))) \<le> 255" using digits_length [of "nat (sint w)"] by simp
    then show "take 255 (to_string_int w) = digits (nat (sint w))" using that by (simp add: to_string_int_def to_string_def)
  qed (use that atoi_digits digits_atoi in auto)
  have raw: "get_raw cfg ''ice.stun_servers'' = Some (stun_servers (cf_ice cfg))"
    "get_raw cfg ''ice.session_timeout'' = Some (to_string_int (ice_session_timeout (cf_ice cfg)))"
    "get_raw cfg ''ice.keepalive_interval'' = Some (to_string_int (ice_keepalive_interval (cf_ice cfg)))"
    "get_raw cfg ''ice.consent_failures'' = Some (to_string_int (ice_consent_max_failures (cf_ice cfg)))"
    by (simp_all add: get_raw_def raw_settings_def)
  show ?thesis
    using num [OF assms(2)] num [OF assms(3)] num [OF assms(4)] assms
    by (simp add: init_config_def positive_setting_def config_get_def raw Let_def)
qed

theorem ice_settings_reach_connector_witness:
  "init_config (get_raw (default_config\<lparr> cf_ice := \<lparr> stun_servers = ''stun.example:3478'', ice_session_timeout = 7,
       ice_keepalive_interval = 15, ice_consent_max_failures = 2 \<rparr> \<rparr>)) (\<lambda>_. None) =
   \<lparr> ic_stun_servers = [(''stun.example'', 3478)], ic_session_timeout = 7, ic_keepalive_interval = 15, ic_consent_max_failures = 2 \<rparr>"
proof -
  have "parse_stun_servers ''stun.example:3478'' = [(''stun.example'', 3478)]"
    by (subst parse_stun_servers.simps)
      (simp add: trim_spaces_def stun_server_of_def parse_stun_servers.simps atoi_def digits_value_def is_digit_def Let_def)
  then show ?thesis
    using ice_settings_reach_connector [of "default_config\<lparr> cf_ice := \<lparr> stun_servers = ''stun.example:3478'', ice_session_timeout = 7,
       ice_keepalive_interval = 15, ice_consent_max_failures = 2 \<rparr> \<rparr>" "\<lambda>_. None"] by simp
qed

end
