(* ===== verification/Plugin_Manager.thy ===== *)
theory Plugin_Manager
  imports Node_Config
begin

section \<open>The plugin manager\<close>

text \<open>
  \<open>core/pm\<close>, \<open>core/types/plugin.hpp\<close> and \<open>core/dynlib.hpp\<close>. What \<open>dlopen\<close> finds behind a path, the
  SHA-256 function and the JSON library are parameters; a plugin's entry point may call the host
  API, so it is a function on the state of the connection manager that returns the plugin's table or
  nothing (a non-zero return code or a null pointer). The log records entry points that ran,
  \<open>shutdown\<close> calls and closed libraries. \<open>pe_debug\<close> is a build without \<open>NDEBUG\<close>, in which the
  arguments of the debug log are evaluated.
\<close>

subsection \<open>Plugins and tables\<close>

record connector_plugin =
  cp_ops :: connector_ops
  cp_scheme :: string
  cp_name :: string

record plugin_lib =
  pl_handler_init :: "(cm \<Rightarrow> handler_t option \<times> cm) option"
  pl_connector_init :: "(cm \<Rightarrow> connector_plugin option \<times> cm) option"

record plugin_env =
  pe_json :: json_lib
  pe_sha256 :: "bytes \<Rightarrow> bytes"
  pe_dlopen :: "string \<Rightarrow> plugin_lib option"
  pe_debug :: bool

record handler_info =
  hi_handler :: handler_t
  hi_path :: string
  hi_name :: string
  hi_enabled :: bool

record connector_info =
  ci_plugin :: connector_plugin
  ci_path :: string
  ci_name :: string
  ci_scheme :: string
  ci_enabled :: bool

datatype plugin_event = Initialised string | Shut_down string | Lib_closed string

record plugin_manager =
  pm_handlers :: "(string \<times> handler_info) list"
  pm_connectors :: "(string \<times> connector_info) list"
  pm_log :: "plugin_event list"
  pm_cm :: cm

datatype plugin_error =
    Not_found | Manifest_missing | Hash_mismatch | Metadata_error | Dlopen_failed | Handler_init_failed
  | Handler_exists string | Connector_init_failed | Scheme_empty | Scheme_exists string | No_entry_point

definition pm_note :: "plugin_event list \<Rightarrow> plugin_manager \<Rightarrow> plugin_manager" where
  "pm_note es pm = pm\<lparr> pm_log := pm_log pm @ es \<rparr>"

subsection \<open>Paths\<close>

definition path_filename :: "string \<Rightarrow> string" where
  "path_filename p = rev (takeWhile (\<lambda>c. c \<noteq> CHR ''/'') (rev p))"

definition path_extension :: "string \<Rightarrow> string" where
  "path_extension p =
     (let f = path_filename p; tail = rev (takeWhile (\<lambda>c. c \<noteq> CHR ''.'') (rev f))
      in if f = ''.'' \<or> f = ''..'' \<or> length tail = length f \<or> length tail + 1 = length f then [] else CHR ''.'' # tail)"

definition path_stem :: "string \<Rightarrow> string" where
  "path_stem p = (let f = path_filename p in take (length f - length (path_extension p)) f)"

definition DYNLIB_EXT :: string where "DYNLIB_EXT = ''.so''"

subsection \<open>Verification\<close>

definition calculate_sha256 :: "plugin_env \<Rightarrow> file_system \<Rightarrow> string \<Rightarrow> string" where
  "calculate_sha256 P F path = (case fs_read path F of None \<Rightarrow> [] | Some b \<Rightarrow> bytes_to_hex (pe_sha256 P b))"

text \<open>\<open>at(k).get<std::string>()\<close>: \<open>None\<close> where it throws.\<close>

definition string_at :: "json \<Rightarrow> string \<Rightarrow> string option" where
  "string_at j k = (case j_get j k of Some (J_string v) \<Rightarrow> Some v | _ \<Rightarrow> None)"

definition manifest_hash :: "plugin_env \<Rightarrow> json \<Rightarrow> string option" where
  "manifest_hash P data =
     (case j_get data ''meta'' of None \<Rightarrow> None
      | Some meta \<Rightarrow>
          if pe_debug P \<and> (string_at meta ''name'' = None \<or> string_at meta ''version'' = None) then None
          else case j_get data ''integrity'' of None \<Rightarrow> None | Some i \<Rightarrow> string_at i ''hash'')"

definition verify_metadata :: "plugin_env \<Rightarrow> file_system \<Rightarrow> string \<Rightarrow> plugin_error + unit" where
  "verify_metadata P F path =
     (let json_path = path @ ''.json''
      in if \<not> fs_exists json_path F then Inl Manifest_missing
         else case fs_read json_path F of None \<Rightarrow> Inl Metadata_error
           | Some b \<Rightarrow>
               (case js_parse (pe_json P) (string_of_bytes b) of None \<Rightarrow> Inl Metadata_error
                | Some data \<Rightarrow>
                    (case manifest_hash P data of None \<Rightarrow> Inl Metadata_error
                     | Some expected \<Rightarrow> if expected \<noteq> calculate_sha256 P F path then Inl Hash_mismatch else Inr ())))"

subsection \<open>Loading\<close>

definition run_init :: "(cm \<Rightarrow> 'a option \<times> cm) \<Rightarrow> string \<Rightarrow> plugin_manager \<Rightarrow> 'a option \<times> plugin_manager" where
  "run_init init path pm = (let (r, s) = init (pm_cm pm) in (r, pm_note [Initialised path] (pm\<lparr> pm_cm := s \<rparr>)))"

text \<open>
  A plugin whose entry point ran and that is then refused is dropped before its table is stored, so
  its library is closed without \<open>shutdown\<close>. \<open>lib\<close> is the event of closing the library, none for a
  plugin linked statically.
\<close>

definition add_handler :: "plugin_event list \<Rightarrow> string \<Rightarrow> string \<Rightarrow> (cm \<Rightarrow> handler_t option \<times> cm) \<Rightarrow> plugin_manager
    \<Rightarrow> (plugin_error + unit) \<times> plugin_manager" where
  "add_handler lib path fallback init pm =
     (case run_init init path pm of
        (None, pm1) \<Rightarrow> (Inl Handler_init_failed, pm_note lib pm1)
      | (Some h, pm1) \<Rightarrow>
          (let name = (case h_name h of Some n \<Rightarrow> if n \<noteq> [] then n else fallback | None \<Rightarrow> fallback)
           in if map_of (pm_handlers pm1) name \<noteq> None then (Inl (Handler_exists name), pm_note lib pm1)
              else (Inr (), pm1\<lparr> pm_handlers := AList.update name
                      \<lparr> hi_handler = h, hi_path = path, hi_name = name, hi_enabled = True \<rparr> (pm_handlers pm1) \<rparr>)))"

definition add_connector :: "plugin_event list \<Rightarrow> string \<Rightarrow> string \<Rightarrow> (cm \<Rightarrow> connector_plugin option \<times> cm) \<Rightarrow> plugin_manager
    \<Rightarrow> (plugin_error + unit) \<times> plugin_manager" where
  "add_connector lib path fallback init pm =
     (case run_init init path pm of
        (None, pm1) \<Rightarrow> (Inl Connector_init_failed, pm_note lib pm1)
      | (Some c, pm1) \<Rightarrow>
          (let sch = take 255 (cp_scheme c); name = take 255 (cp_name c)
           in if sch = [] then (Inl Scheme_empty, pm_note lib pm1)
              else if map_of (pm_connectors pm1) sch \<noteq> None then (Inl (Scheme_exists sch), pm_note lib pm1)
              else (Inr (), pm1\<lparr> pm_connectors := AList.update sch
                      \<lparr> ci_plugin = c, ci_path = path, ci_name = (if name \<noteq> [] then name else fallback), ci_scheme = sch,
                        ci_enabled = True \<rparr> (pm_connectors pm1) \<rparr>)))"

definition load_plugin :: "plugin_env \<Rightarrow> file_system \<Rightarrow> string \<Rightarrow> plugin_manager \<Rightarrow> (plugin_error + unit) \<times> plugin_manager" where
  "load_plugin P F path pm =
     (if \<not> fs_exists path F then (Inl Not_found, pm)
      else case verify_metadata P F path of Inl e \<Rightarrow> (Inl e, pm)
        | Inr _ \<Rightarrow>
            (case pe_dlopen P path of None \<Rightarrow> (Inl Dlopen_failed, pm)
             | Some lib \<Rightarrow>
                 (case pl_handler_init lib of
                    Some init \<Rightarrow> add_handler [Lib_closed path] path (path_stem path) init pm
                  | None \<Rightarrow>
                      (case pl_connector_init lib of
                         Some init \<Rightarrow> add_connector [Lib_closed path] path (path_stem path) init pm
                       | None \<Rightarrow> (Inl No_entry_point, pm_note [Lib_closed path] pm)))))"

text \<open>The regular files below the base directory, in the order of the directory iterator.\<close>

definition load_all_plugins :: "plugin_env \<Rightarrow> file_system \<Rightarrow> string list \<Rightarrow> plugin_manager \<Rightarrow> plugin_manager" where
  "load_all_plugins P F paths pm = foldl (\<lambda>pm p. snd (load_plugin P F p pm)) pm (filter (\<lambda>p. path_extension p = DYNLIB_EXT) paths)"

record static_plugin =
  sp_name :: string
  sp_handler_init :: "(cm \<Rightarrow> handler_t option \<times> cm) option"
  sp_connector_init :: "(cm \<Rightarrow> connector_plugin option \<times> cm) option"

definition load_static_plugin :: "static_plugin \<Rightarrow> plugin_manager \<Rightarrow> plugin_manager" where
  "load_static_plugin e pm =
     (case sp_handler_init e of
        Some init \<Rightarrow> snd (add_handler [] [] (sp_name e) init pm)
      | None \<Rightarrow>
          (case sp_connector_init e of
             Some init \<Rightarrow> snd (add_connector [] [] (sp_name e) init pm)
           | None \<Rightarrow> pm))"

definition load_static_plugins :: "static_plugin list \<Rightarrow> plugin_manager \<Rightarrow> plugin_manager" where
  "load_static_plugins es pm = foldl (\<lambda>pm e. load_static_plugin e pm) pm es"

subsection \<open>Unloading\<close>

definition close_info :: "string \<Rightarrow> string \<Rightarrow> plugin_event list" where
  "close_info name path = [Shut_down name] @ (if path = [] then [] else [Lib_closed path])"

definition unload_handler :: "string \<Rightarrow> plugin_manager \<Rightarrow> bool \<times> plugin_manager" where
  "unload_handler name pm =
     (case map_of (pm_handlers pm) name of None \<Rightarrow> (False, pm)
      | Some i \<Rightarrow> (True, pm_note (close_info name (hi_path i)) (pm\<lparr> pm_handlers := erase name (pm_handlers pm) \<rparr>)))"

definition unload_connector :: "string \<Rightarrow> plugin_manager \<Rightarrow> bool \<times> plugin_manager" where
  "unload_connector sch pm =
     (case map_of (pm_connectors pm) sch of None \<Rightarrow> (False, pm)
      | Some i \<Rightarrow> (True, pm_note (close_info sch (ci_path i)) (pm\<lparr> pm_connectors := erase sch (pm_connectors pm) \<rparr>)))"

definition unload_all :: "plugin_manager \<Rightarrow> plugin_manager" where
  "unload_all pm =
     pm_note (concat (map (\<lambda>(n, i). close_info n (hi_path i)) (pm_handlers pm)) @ concat (map (\<lambda>(n, i). close_info n (ci_path i)) (pm_connectors pm)))
       (pm\<lparr> pm_handlers := [], pm_connectors := [] \<rparr>)"

definition enable_handler :: "string \<Rightarrow> plugin_manager \<Rightarrow> bool \<times> plugin_manager" where
  "enable_handler name pm =
     (if map_of (pm_handlers pm) name = None then (False, pm)
      else (True, pm\<lparr> pm_handlers := modify name (\<lambda>i. i\<lparr> hi_enabled := True \<rparr>) (pm_handlers pm) \<rparr>))"

definition disable_handler :: "string \<Rightarrow> plugin_manager \<Rightarrow> bool \<times> plugin_manager" where
  "disable_handler name pm =
     (if map_of (pm_handlers pm) name = None then (False, pm)
      else (True, pm\<lparr> pm_handlers := modify name (\<lambda>i. i\<lparr> hi_enabled := False \<rparr>) (pm_handlers pm) \<rparr>))"

subsection \<open>Queries\<close>

definition find_handler_by_name :: "string \<Rightarrow> plugin_manager \<Rightarrow> handler_t option" where
  "find_handler_by_name name pm =
     (case map_of (pm_handlers pm) name of None \<Rightarrow> None | Some i \<Rightarrow> if hi_enabled i then Some (hi_handler i) else None)"

definition find_connector_by_scheme :: "string \<Rightarrow> plugin_manager \<Rightarrow> connector_ops option" where
  "find_connector_by_scheme sch pm =
     (case map_of (pm_connectors pm) sch of None \<Rightarrow> None | Some i \<Rightarrow> if ci_enabled i then Some (cp_ops (ci_plugin i)) else None)"

definition get_active_handlers :: "plugin_manager \<Rightarrow> handler_t list" where
  "get_active_handlers pm = map (\<lambda>(_, i). hi_handler i) (filter (\<lambda>(_, i). hi_enabled i) (pm_handlers pm))"

definition get_active_connectors :: "plugin_manager \<Rightarrow> connector_plugin list" where
  "get_active_connectors pm = map (\<lambda>(_, i). ci_plugin i) (filter (\<lambda>(_, i). ci_enabled i) (pm_connectors pm))"

definition get_enabled_handler_names :: "plugin_manager \<Rightarrow> string list" where
  "get_enabled_handler_names pm = map fst (filter (\<lambda>(_, i). hi_enabled i) (pm_handlers pm))"

definition get_enabled_handler_count :: "plugin_manager \<Rightarrow> nat" where
  "get_enabled_handler_count pm = length (filter (\<lambda>(_, i). hi_enabled i) (pm_handlers pm))"

definition get_enabled_connector_count :: "plugin_manager \<Rightarrow> nat" where
  "get_enabled_connector_count pm = length (filter (\<lambda>(_, i). ci_enabled i) (pm_connectors pm))"

subsection \<open>Properties\<close>

lemma pm_note_simps [simp]:
  "pm_handlers (pm_note es pm) = pm_handlers pm" "pm_connectors (pm_note es pm) = pm_connectors pm"
  "pm_cm (pm_note es pm) = pm_cm pm" "pm_log (pm_note es pm) = pm_log pm @ es"
  by (simp_all add: pm_note_def)

lemma run_init_tables:
  "run_init init path pm = (r, pm1) \<Longrightarrow> pm_handlers pm1 = pm_handlers pm \<and> pm_connectors pm1 = pm_connectors pm
     \<and> pm_log pm1 = pm_log pm @ [Initialised path] \<and> pm_cm pm1 = snd (init (pm_cm pm))"
  by (auto simp: run_init_def split: prod.splits)

lemma update_fresh: "map_of m k = None \<Longrightarrow> AList.update k v m = m @ [(k, v)]"
  by (induction m) (auto split: if_splits)

definition added_handler :: "string \<Rightarrow> plugin_manager \<Rightarrow> plugin_manager \<Rightarrow> bool" where
  "added_handler path pm pm' \<longleftrightarrow> (\<exists>i. map_of (pm_handlers pm) (hi_name i) = None \<and> hi_path i = path \<and> hi_enabled i
     \<and> pm_handlers pm' = pm_handlers pm @ [(hi_name i, i)] \<and> pm_connectors pm' = pm_connectors pm)"

definition added_connector :: "string \<Rightarrow> plugin_manager \<Rightarrow> plugin_manager \<Rightarrow> bool" where
  "added_connector path pm pm' \<longleftrightarrow> (\<exists>i. map_of (pm_connectors pm) (ci_scheme i) = None \<and> ci_scheme i \<noteq> [] \<and> ci_path i = path
     \<and> ci_enabled i \<and> ci_scheme i = take 255 (cp_scheme (ci_plugin i))
     \<and> pm_connectors pm' = pm_connectors pm @ [(ci_scheme i, i)] \<and> pm_handlers pm' = pm_handlers pm)"

definition same_tables :: "plugin_manager \<Rightarrow> plugin_manager \<Rightarrow> bool" where
  "same_tables pm pm' \<longleftrightarrow> pm_handlers pm' = pm_handlers pm \<and> pm_connectors pm' = pm_connectors pm"

lemma add_handler_tables:
  "add_handler lib path fallback init pm = (r, pm') \<Longrightarrow> (case r of Inl _ \<Rightarrow> same_tables pm pm' | Inr _ \<Rightarrow> added_handler path pm pm')"
  by (auto simp: add_handler_def added_handler_def same_tables_def update_fresh Let_def
      dest: run_init_tables split: prod.splits option.splits if_splits)

lemma add_connector_tables:
  "add_connector lib path fallback init pm = (r, pm') \<Longrightarrow> (case r of Inl _ \<Rightarrow> same_tables pm pm' | Inr _ \<Rightarrow> added_connector path pm pm')"
  by (auto simp: add_connector_def added_connector_def same_tables_def update_fresh Let_def
      dest!: run_init_tables split: prod.splits option.splits if_splits)

lemma verify_metadata_ok:
  "verify_metadata P F path = Inr x \<Longrightarrow> \<exists>b data. fs_read (path @ ''.json'') F = Some b
     \<and> js_parse (pe_json P) (string_of_bytes b) = Some data \<and> manifest_hash P data = Some (calculate_sha256 P F path)"
  by (auto simp: verify_metadata_def Let_def split: if_splits option.splits)

text \<open>
  Property C19. \<open>load_plugin\<close> enters a plugin in the tables only from a library whose SHA-256 is the one its manifest
  states: a successful load read such a manifest and added exactly one enabled entry, under a name or
  scheme that was free, and kept all others; a load that fails leaves both tables as they were.
  (Statically linked plugins, \<open>load_static_plugin\<close>, come with the program and have no manifest.)
\<close>

theorem plugin_load_verified:
  "case load_plugin P F path pm of
     (Inl _, pm') \<Rightarrow> same_tables pm pm'
   | (Inr _, pm') \<Rightarrow>
       (\<exists>b data. fs_read (path @ ''.json'') F = Some b \<and> js_parse (pe_json P) (string_of_bytes b) = Some data
          \<and> manifest_hash P data = Some (calculate_sha256 P F path))
       \<and> (added_handler path pm pm' \<or> added_connector path pm pm')"
proof -
  have "same_tables pm pm" "same_tables pm (pm_note es pm)" for es by (simp_all add: same_tables_def)
  then show ?thesis
    by (auto simp: load_plugin_def dest!: verify_metadata_ok dest: add_handler_tables add_connector_tables
        split: prod.splits sum.splits option.splits if_splits)
qed

text \<open>
  A connector that is refused because its scheme is taken has run its entry point, which may have
  started threads; its library is closed without \<open>shutdown\<close>.
\<close>

lemma refused_connector_not_shut_down:
  assumes "fs_exists path F" "verify_metadata P F path = Inr ()" "pe_dlopen P path = Some lib"
    "pl_handler_init lib = None" "pl_connector_init lib = Some init" "init (pm_cm pm) = (Some c, s)"
    "take 255 (cp_scheme c) = sch" "sch \<noteq> []" "map_of (pm_connectors pm) sch = Some i"
  shows "load_plugin P F path pm = (Inl (Scheme_exists sch), pm\<lparr> pm_cm := s, pm_log := pm_log pm @ [Initialised path, Lib_closed path] \<rparr>)"
  using assms by (simp add: load_plugin_def add_connector_def run_init_def pm_note_def Let_def)

end
