(* ===== verification/Node_Core.thy ===== *)
theory Node_Core
  imports Node_Identity Plugin_Manager
begin

section \<open>The core: construction, run loop, forwarding\<close>

text \<open>
  \<open>src/core.cpp\<close>: the constructor loads the identity, creates the connection manager and the plugin
  manager, loads the plugins and registers them; \<open>run_async\<close> and \<open>stop\<close> start and end the threads and
  the heartbeat timer; everything else forwards to the connection manager. The contents of
  directories are parameters: all files below the plugin directory, \<open>None\<close> when it cannot be opened,
  and what is found at the path of an extra directory. Logging is left out.
\<close>

datatype dir_listing = Not_a_directory | Unreadable | Entries "string list"

record core_env =
  ce_identity :: identity_env
  ce_plugins :: plugin_env
  ce_registry :: "static_plugin list"
  ce_files_below :: "string \<Rightarrow> string list option"
  ce_directory :: "string \<Rightarrow> dir_listing"
  ce_hardware_threads :: int

record core =
  nc_config :: config
  nc_identity :: node_identity
  nc_pm :: plugin_manager
  nc_running :: bool
  nc_threads :: int
  nc_timer :: bool
  nc_stopped :: bool

text \<open>The exceptions the constructor lets through.\<close>

datatype core_error = Identity_failed identity_error | Plugin_dir_failed

abbreviation nc_cm :: "core \<Rightarrow> cm" where
  "nc_cm k \<equiv> pm_cm (nc_pm k)"

definition upd_cm :: "(cm \<Rightarrow> cm) \<Rightarrow> core \<Rightarrow> core" where
  "upd_cm f k = k\<lparr> nc_pm := (nc_pm k)\<lparr> pm_cm := f (nc_cm k) \<rparr> \<rparr>"

subsection \<open>Construction\<close>

function split_dirs :: "string \<Rightarrow> string list" where
  "split_dirs val =
     (if val = [] then []
      else let d = takeWhile (\<lambda>c. c \<noteq> CHR '';'') val in d # split_dirs (drop (length d + 1) val))"
  by pat_completeness auto
termination by (relation "measure length") (auto simp: length_greater_0_conv [symmetric] simp del: length_greater_0_conv)

declare split_dirs.simps [simp del]

text \<open>\<open>None\<close> stands for the exception of \<open>directory_iterator\<close>, which the constructor lets through.\<close>

primrec load_dirs :: "core_env \<Rightarrow> file_system \<Rightarrow> string list \<Rightarrow> plugin_manager \<Rightarrow> plugin_manager option" where
  "load_dirs C F [] pm = Some pm"
| "load_dirs C F (d # ds) pm =
     (if d = [] then load_dirs C F ds pm
      else case ce_directory C d of
        Not_a_directory \<Rightarrow> load_dirs C F ds pm
      | Unreadable \<Rightarrow> None
      | Entries es \<Rightarrow>
          load_dirs C F ds (foldl (\<lambda>pm p. snd (load_plugin (ce_plugins C) F p pm)) pm
            (filter (\<lambda>p. path_extension p \<in> {''.so'', ''.dylib'', ''.dll''}) es)))"

definition load_extra_dirs :: "core_env \<Rightarrow> file_system \<Rightarrow> string \<Rightarrow> plugin_manager \<Rightarrow> plugin_manager option" where
  "load_extra_dirs C F dirs pm = load_dirs C F (split_dirs dirs) pm"

definition register_plugins :: "plugin_manager \<Rightarrow> plugin_manager" where
  "register_plugins pm =
     (let s1 = foldl (\<lambda>s c. let sch = take 63 (cp_scheme c) in if sch = [] then s else register_connector sch (cp_ops c) s)
                 (pm_cm pm) (get_active_connectors pm)
      in pm\<lparr> pm_cm := foldl (\<lambda>s h. register_handler h s) s1 (get_active_handlers pm) \<rparr>)"

definition start_plugins :: "core_env \<Rightarrow> file_system \<Rightarrow> plugins_section \<Rightarrow> plugin_manager \<Rightarrow> plugin_manager option" where
  "start_plugins C F cfg pm =
     (let pm1 = load_static_plugins (ce_registry C) pm
      in if \<not> auto_load cfg then Some pm1
         else case (if base_dir cfg = [] then Some [] else ce_files_below C (base_dir cfg)) of None \<Rightarrow> None
           | Some paths \<Rightarrow>
               map_option register_plugins (load_extra_dirs C F (extra_dirs cfg) (load_all_plugins (ce_plugins C) F paths pm1)))"

definition core_construct :: "core_env \<Rightarrow> config \<Rightarrow> key_state \<Rightarrow> core_error + (core \<times> key_state)" where
  "core_construct C cfg st =
     (let id_cfg = (cf_identity cfg)\<lparr> id_dir := expand_home (ce_identity C) (id_dir (cf_identity cfg)) \<rparr>
      in case load_or_generate (ce_identity C) id_cfg st of Inl e \<Rightarrow> Inl (Identity_failed e)
         | Inr (ident, st1) \<Rightarrow>
             (case start_plugins C (ks_files st1) (cf_plugins cfg)
                     \<lparr> pm_handlers = [], pm_connectors = [], pm_log = [], pm_cm = cm_init fresh_bus ident (Some (compression_of cfg)) \<rparr> of
                None \<Rightarrow> Inl Plugin_dir_failed
              | Some pm \<Rightarrow>
                  Inr (\<lparr> nc_config = cfg, nc_identity = ident, nc_pm = pm, nc_running = False, nc_threads = 0, nc_timer = False,
                         nc_stopped = False \<rparr>, st1)))"

subsection \<open>Running and stopping\<close>

definition run_async :: "core_env \<Rightarrow> int \<Rightarrow> core \<Rightarrow> core" where
  "run_async C threads k =
     (if nc_running k then k
      else let n = (if threads > 0 then threads else sint (io_threads (cf_core (nc_config k))))
           in k\<lparr> nc_running := True, nc_timer := True, nc_threads := (if n \<le> 0 then max 2 (ce_hardware_threads C) else n) \<rparr>)"

text \<open>The handler of the heartbeat timer; it runs only while the \<open>io_context\<close> runs.\<close>

definition on_heartbeat_timer :: "env \<Rightarrow> core \<Rightarrow> core" where
  "on_heartbeat_timer E k =
     (if nc_timer k \<and> \<not> nc_stopped k then upd_cm (\<lambda>s. cleanup_stale_pending E (check_heartbeat_timeouts E s)) k else k)"

text \<open>\<open>None\<close> while \<open>ConnectionManager::shutdown\<close> waits for dispatches in flight.\<close>

definition core_stop :: "core \<Rightarrow> core option" where
  "core_stop k =
     (if \<not> nc_running k then Some k
      else case shutdown (nc_cm k) of None \<Rightarrow> None
        | Some s \<Rightarrow> Some (k\<lparr> nc_running := False, nc_timer := False, nc_stopped := True, nc_threads := 0,
             nc_pm := unload_all ((nc_pm k)\<lparr> pm_cm := s \<rparr>) \<rparr>))"

subsection \<open>Forwarding\<close>

definition core_call :: "env \<Rightarrow> cm_event \<Rightarrow> core \<Rightarrow> core" where
  "core_call E ev k = upd_cm (exec E ev) k"

definition core_peer_pubkey :: "conn_id \<Rightarrow> core \<Rightarrow> bytes" where
  "core_peer_pubkey c k = (case get_peer_pubkey (nc_cm k) c of Some pk \<Rightarrow> pk | None \<Rightarrow> [])"

definition core_rotate_identity :: "core_env \<Rightarrow> key_state \<Rightarrow> core \<Rightarrow> identity_error + (core \<times> key_state)" where
  "core_rotate_identity C st k =
     (let id_cfg = (cf_identity (nc_config k))\<lparr> id_dir := expand_home (ce_identity C) (id_dir (cf_identity (nc_config k))) \<rparr>
      in case load_or_generate (ce_identity C) id_cfg st of Inl e \<Rightarrow> Inl e
         | Inr (ident, st1) \<Rightarrow> Inr (upd_cm (rotate_identity_keys ident) k, st1))"

definition reload_config :: "json_lib \<Rightarrow> file_system \<Rightarrow> core \<Rightarrow> bool \<times> core" where
  "reload_config J F k =
     (case config_reload J F (nc_config k) of
        (ok, cfg) \<Rightarrow> (ok, upd_cm (\<lambda>s. s\<lparr> config := Some (compression_of cfg) \<rparr>) (k\<lparr> nc_config := cfg \<rparr>)))"

subsection \<open>Plugins during construction\<close>

text \<open>
  All an entry point may do to the manager is to register handlers
  (\<open>IConnector::register_extra_handler\<close>).
\<close>

definition init_registers :: "(cm \<Rightarrow> 'a option \<times> cm) \<Rightarrow> bool" where
  "init_registers init \<longleftrightarrow> (\<forall>s. \<exists>hs. snd (init s) = foldl (\<lambda>s h. register_handler_from_connector h s) s hs)"

definition plugins_ok :: "core_env \<Rightarrow> bool" where
  "plugins_ok C \<longleftrightarrow>
     (\<forall>p lib. pe_dlopen (ce_plugins C) p = Some lib \<longrightarrow>
        pred_option init_registers (pl_handler_init lib) \<and> pred_option init_registers (pl_connector_init lib))
     \<and> (\<forall>e \<in> set (ce_registry C). pred_option init_registers (sp_handler_init e) \<and> pred_option init_registers (sp_connector_init e))"

definition cm_kept :: "cm \<Rightarrow> cm \<Rightarrow> bool" where
  "cm_kept s s' \<longleftrightarrow> (cm_reach s \<and> next_id s \<noteq> - 1 \<longrightarrow> cm_reach s') \<and> next_id s' = next_id s
     \<and> connectors s' = connectors s \<and> identity s' = identity s"

lemma cm_kept_refl [simp]: "cm_kept s s" by (simp add: cm_kept_def)

lemma cm_kept_trans: "cm_kept s s1 \<Longrightarrow> cm_kept s1 s2 \<Longrightarrow> cm_kept s s2" by (simp add: cm_kept_def)

lemma cm_kept_foldl:
  assumes "\<And>s x. x \<in> set xs \<Longrightarrow> cm_kept s (f s x)"
  shows "cm_kept s (foldl f s xs)"
  using assms by (induction xs arbitrary: s) (auto intro: cm_kept_trans)

lemma cm_kept_register: "cm_kept s (register_handler h s)" "cm_kept s (register_handler_from_connector h s)"
proof -
  have b: "connectors (upd_bus f s) = connectors s" "identity (upd_bus f s) = identity s" "next_id (upd_bus f s) = next_id s" for f s
    by (simp_all add: upd_bus_def)
  have "connectors (foldl (\<lambda>s t. upd_bus (g t) s) s ts) = connectors s \<and> identity (foldl (\<lambda>s t. upd_bus (g t) s) s ts) = identity s
      \<and> next_id (foldl (\<lambda>s t. upd_bus (g t) s) s ts) = next_id s"
    for g and ts :: "u32 list" by (induction ts arbitrary: s) (simp_all add: upd_bus_def)
  with b have fields: "next_id (register_handler_internal h src s) = next_id s" "connectors (register_handler_internal h src s) = connectors s"
    "identity (register_handler_internal h src s) = identity s" for src
    by (simp_all add: register_handler_internal_def Let_def split: option.split)
  show "cm_kept s (register_handler h s)"
    using fields cm_reach.step [OF _ demo_env_ok, of s "EvRegisterHandler h"] by (simp add: cm_kept_def register_handler_def)
  show "cm_kept s (register_handler_from_connector h s)"
    using fields cm_reach.step [OF _ demo_env_ok, of s "EvRegisterConnectorHandler h"] by (simp add: cm_kept_def register_handler_from_connector_def)
qed

lemma cm_kept_init: "init_registers init \<Longrightarrow> cm_kept s (snd (init s))"
  unfolding init_registers_def
  by (metis (mono_tags, lifting) cm_kept_foldl cm_kept_register(2))

lemma cm_kept_add:
  "init_registers hi \<Longrightarrow> cm_kept (pm_cm pm) (pm_cm (snd (add_handler lib path fb hi pm)))"
  "init_registers ci \<Longrightarrow> cm_kept (pm_cm pm) (pm_cm (snd (add_connector lib path fb ci pm)))"
  using cm_kept_init [of hi "pm_cm pm"] cm_kept_init [of ci "pm_cm pm"]
  by (auto simp: add_handler_def add_connector_def Let_def dest!: run_init_tables split: prod.splits option.splits)

subsection \<open>The table of connectors\<close>

definition schemes_ok :: "plugin_manager \<Rightarrow> bool" where
  "schemes_ok pm \<longleftrightarrow> distinct (map fst (pm_connectors pm))
     \<and> (\<forall>(k, i) \<in> set (pm_connectors pm). k = take 255 (cp_scheme (ci_plugin i)) \<and> k \<noteq> [])"

lemma schemes_ok_cong: "pm_connectors pm' = pm_connectors pm \<Longrightarrow> schemes_ok pm' = schemes_ok pm"
  by (simp add: schemes_ok_def)

lemma schemes_ok_added: "schemes_ok pm \<Longrightarrow> added_connector path pm pm' \<Longrightarrow> schemes_ok pm'"
  by (auto simp: schemes_ok_def added_connector_def map_of_eq_None_iff)

definition pm_grows :: "plugin_manager \<Rightarrow> plugin_manager \<Rightarrow> bool" where
  "pm_grows pm pm' \<longleftrightarrow> cm_kept (pm_cm pm) (pm_cm pm') \<and> (schemes_ok pm \<longrightarrow> schemes_ok pm')"

lemma pm_grows_foldl:
  assumes "\<And>pm x. x \<in> set xs \<Longrightarrow> pm_grows pm (f pm x)"
  shows "pm_grows pm (foldl f pm xs)"
  using assms by (induction xs arbitrary: pm) (auto simp: pm_grows_def intro: cm_kept_trans)

lemma pm_grows_add:
  "init_registers hi \<Longrightarrow> pm_grows pm (snd (add_handler lib path fb hi pm))"
  "init_registers ci \<Longrightarrow> pm_grows pm (snd (add_connector lib path fb ci pm))"
  using add_handler_tables [of lib path fb hi pm] add_connector_tables [of lib path fb ci pm] cm_kept_add
  by (auto simp: pm_grows_def same_tables_def added_handler_def prod_eq_iff intro: schemes_ok_added split: sum.splits
      dest: schemes_ok_cong)

lemma plugins_okD:
  "plugins_ok C \<Longrightarrow> pe_dlopen (ce_plugins C) p = Some lib \<Longrightarrow> pl_handler_init lib = Some hi \<Longrightarrow> init_registers hi"
  "plugins_ok C \<Longrightarrow> pe_dlopen (ce_plugins C) p = Some lib \<Longrightarrow> pl_connector_init lib = Some ci \<Longrightarrow> init_registers ci"
  "plugins_ok C \<Longrightarrow> e \<in> set (ce_registry C) \<Longrightarrow> sp_handler_init e = Some hi \<Longrightarrow> init_registers hi"
  "plugins_ok C \<Longrightarrow> e \<in> set (ce_registry C) \<Longrightarrow> sp_connector_init e = Some ci \<Longrightarrow> init_registers ci"
  unfolding plugins_ok_def by (metis option.pred_inject(2))+

lemma pm_grows_load:
  assumes "plugins_ok C"
  shows "pm_grows pm (snd (load_plugin (ce_plugins C) F path pm))"
proof -
  have same: "pm_grows pm pm" "pm_grows pm (pm_note es pm)" for es by (simp_all add: pm_grows_def schemes_ok_def)
  show ?thesis
    using same plugins_okD(1,2) [OF assms]
    by (auto simp: load_plugin_def intro: pm_grows_add split: sum.splits option.splits)
qed

lemma pm_grows_static: "plugins_ok C \<Longrightarrow> pm_grows pm (load_static_plugins (ce_registry C) pm)"
  unfolding load_static_plugins_def
proof (rule pm_grows_foldl)
  fix pm e assume "plugins_ok C" "e \<in> set (ce_registry C)"
  moreover have "pm_grows pm pm" by (simp add: pm_grows_def)
  ultimately show "pm_grows pm (load_static_plugin e pm)"
    using plugins_okD(3,4) by (auto simp: load_static_plugin_def intro: pm_grows_add split: option.splits)
qed

lemma pm_grows_trans: "pm_grows a b \<Longrightarrow> pm_grows b c \<Longrightarrow> pm_grows a c"
  by (auto simp: pm_grows_def intro: cm_kept_trans)

lemma map_of_filter_snd:
  "distinct (map fst al) \<Longrightarrow> map_of (filter (\<lambda>(_, v). P v) al) k = (case map_of al k of Some v \<Rightarrow> if P v then Some v else None | None \<Rightarrow> None)"
proof (induction al)
  case (Cons a al)
  then show ?case by (auto simp: map_of_eq_None_iff split: option.splits)
qed simp

lemma register_schemes:
  assumes "distinct (map fst cs)" "\<forall>(k, i) \<in> set cs. k = cp_scheme (ci_plugin i) \<and> k \<noteq> [] \<and> length k \<le> 63"
  defines "reg \<equiv> \<lambda>s c. let sch = take 63 (cp_scheme c) in if sch = [] then s else register_connector sch (cp_ops c) s"
  shows "map_of (connectors (foldl reg s (map (\<lambda>(_, i). ci_plugin i) cs))) sch
    = (case map_of cs sch of Some i \<Rightarrow> Some (cp_ops (ci_plugin i)) | None \<Rightarrow> map_of (connectors s) sch)"
  using assms(1,2)
proof (induction cs arbitrary: s)
  case (Cons a cs)
  obtain k i where a: "a = (k, i)" by fastforce
  have "reg s (ci_plugin i) = register_connector k (cp_ops (ci_plugin i)) s"
    using Cons.prems(2) a by (auto simp: reg_def)
  moreover have "map_of cs k = None" using Cons.prems(1) a by (simp add: map_of_eq_None_iff)
  ultimately show ?case
    using Cons a by (auto simp: register_connector_def update_conv' split: option.splits)
qed simp

lemma register_keeps:
  fixes cs :: "connector_plugin list"
  defines "reg \<equiv> \<lambda>s c. let sch = take 63 (cp_scheme c) in if sch = [] then s else register_connector sch (cp_ops c) s"
  shows "cm_reach s \<Longrightarrow> next_id s \<noteq> - 1 \<Longrightarrow> cm_reach (foldl reg s cs)" "identity (foldl reg s cs) = identity s" "next_id (foldl reg s cs) = next_id s"
proof -
  have "cm_reach (register_connector sch ops s)" if "cm_reach s" "next_id s \<noteq> - 1" for sch ops s
    using cm_reach.step [OF that(1) demo_env_ok that(2), of "EvRegisterConnector sch ops"] by simp
  then show "cm_reach s \<Longrightarrow> next_id s \<noteq> - 1 \<Longrightarrow> cm_reach (foldl reg s cs)"
    by (induction cs arbitrary: s) (auto simp: reg_def Let_def register_connector_def)
  show "identity (foldl reg s cs) = identity s" "next_id (foldl reg s cs) = next_id s"
    by (induction cs arbitrary: s) (auto simp: reg_def Let_def register_connector_def)
qed

lemma register_plugins_tables [simp]:
  "pm_connectors (register_plugins pm) = pm_connectors pm" "pm_handlers (register_plugins pm) = pm_handlers pm"
  by (simp_all add: register_plugins_def Let_def)

lemma register_plugins_cm:
  defines "reg \<equiv> \<lambda>s c. let sch = take 63 (cp_scheme c) in if sch = [] then s else register_connector sch (cp_ops c) s"
  shows "cm_kept (foldl reg (pm_cm pm) (get_active_connectors pm)) (pm_cm (register_plugins pm))"
  unfolding register_plugins_def Let_def reg_def
  by (simp add: cm_kept_foldl cm_kept_register(1))

lemma register_plugins_connectors:
  assumes ok: "schemes_ok pm" and short: "\<forall>(_, i) \<in> set (pm_connectors pm). length (cp_scheme (ci_plugin i)) \<le> 63"
    and none: "connectors (pm_cm pm) = []"
  shows "map_of (connectors (pm_cm (register_plugins pm))) sch = find_connector_by_scheme sch pm"
proof -
  let ?cs = "filter (\<lambda>(_, i). ci_enabled i) (pm_connectors pm)"
  have d: "distinct (map fst ?cs)" using ok by (simp add: schemes_ok_def distinct_map_filter)
  have k: "\<forall>(k, i) \<in> set ?cs. k = cp_scheme (ci_plugin i) \<and> k \<noteq> [] \<and> length k \<le> 63"
    using ok short by (fastforce simp: schemes_ok_def)
  show ?thesis
    using register_schemes [OF d k, of "pm_cm pm" sch] register_plugins_cm [of pm] none map_of_filter_snd [of "pm_connectors pm" ci_enabled sch] ok
    by (auto simp: cm_kept_def get_active_connectors_def find_connector_by_scheme_def schemes_ok_def split: option.splits)
qed

lemma pm_grows_dirs:
  assumes "plugins_ok C"
  shows "load_dirs C F ds pm = Some pm' \<Longrightarrow> pm_grows pm pm'"
proof (induction ds arbitrary: pm)
  case Nil
  then show ?case by (simp add: pm_grows_def)
next
  case (Cons d ds)
  have step: "pm_grows pm (foldl (\<lambda>pm p. snd (load_plugin (ce_plugins C) F p pm)) pm ps)" for ps
    by (rule pm_grows_foldl [OF pm_grows_load [OF assms]])
  show ?case
    using Cons by (auto split: if_splits dir_listing.splits intro: pm_grows_trans [OF step])
qed

lemma pm_grows_start:
  assumes "plugins_ok C" "start_plugins C F cfg pm = Some pm''"
  shows "\<exists>pm'. pm_grows pm pm' \<and> pm'' = (if auto_load cfg then register_plugins pm' else pm')"
proof (cases "auto_load cfg")
  case False
  then show ?thesis using assms pm_grows_static [OF assms(1)] by (auto simp: start_plugins_def Let_def)
next
  case True
  let ?pm1 = "load_static_plugins (ce_registry C) pm"
  obtain paths pm' where p: "load_extra_dirs C F (extra_dirs cfg) (load_all_plugins (ce_plugins C) F paths ?pm1) = Some pm'"
    "pm'' = register_plugins pm'"
    using assms(2) True by (auto simp: start_plugins_def Let_def split: if_splits option.splits)
  have "pm_grows ?pm1 (load_all_plugins (ce_plugins C) F paths ?pm1)"
    unfolding load_all_plugins_def by (rule pm_grows_foldl [OF pm_grows_load [OF assms(1)]])
  moreover have "pm_grows (load_all_plugins (ce_plugins C) F paths ?pm1) pm'"
    using p(1) unfolding load_extra_dirs_def by (rule pm_grows_dirs [OF assms(1)])
  ultimately have "pm_grows pm pm'" using pm_grows_static [OF assms(1)] pm_grows_trans by blast
  then show ?thesis using p(2) True by auto
qed

lemma core_constructD:
  assumes "core_construct C cfg st = Inr (k, st1)"
  obtains ident where "nc_identity k = ident" "nc_config k = cfg"
    "load_or_generate (ce_identity C) ((cf_identity cfg)\<lparr> id_dir := expand_home (ce_identity C) (id_dir (cf_identity cfg)) \<rparr>) st = Inr (ident, st1)"
    "start_plugins C (ks_files st1) (cf_plugins cfg)
       \<lparr> pm_handlers = [], pm_connectors = [], pm_log = [], pm_cm = cm_init fresh_bus ident (Some (compression_of cfg)) \<rparr> = Some (nc_pm k)"
  using assms by (auto simp: core_construct_def Let_def split: sum.splits option.splits)

subsection \<open>A concrete core\<close>

definition demo_core_env :: core_env where
  "demo_core_env = \<lparr> ce_identity = demo_identity_env,
     ce_plugins = \<lparr> pe_json = demo_json, pe_sha256 = (\<lambda>b. b), pe_dlopen = (\<lambda>_. None), pe_debug = False \<rparr>,
     ce_registry = [\<lparr> sp_name = ''tcp'', sp_handler_init = None,
       sp_connector_init = Some (\<lambda>s. (Some \<lparr> cp_ops = demo_ops, cp_scheme = ''tcp'', cp_name = ''tcp'' \<rparr>, s)) \<rparr>],
     ce_files_below = (\<lambda>_. None), ce_directory = (\<lambda>_. Not_a_directory), ce_hardware_threads = 4 \<rparr>"

definition demo_core_config :: config where
  "demo_core_config = default_config\<lparr> cf_identity := demo_identity_cfg,
     cf_plugins := (cf_plugins default_config)\<lparr> auto_load := True, base_dir := [], extra_dirs := [] \<rparr> \<rparr>"

lemma demo_core_start:
  obtains k st1 where "core_construct demo_core_env demo_core_config \<lparr> ks_files = demo_fs, ks_draws = 3 \<rparr> = Inr (k, st1)"
    "map (\<lambda>(sch, i). (sch, cp_scheme (ci_plugin i))) (pm_connectors (nc_pm k)) = [(''tcp'', ''tcp'')]"
    "find_connector_by_scheme ''tcp'' (nc_pm k) = Some demo_ops" "user_seckey (nc_identity k) = replicate 64 3"
proof -
  have dir: "(cf_identity demo_core_config)\<lparr> id_dir := expand_home (ce_identity demo_core_env) (id_dir (cf_identity demo_core_config)) \<rparr> = demo_identity_cfg"
    by (simp add: demo_core_config_def demo_identity_cfg_def expand_home_def starts_with_def)
  obtain ident st1 where start: "load_or_generate demo_identity_env demo_identity_cfg \<lparr> ks_files = demo_fs, ks_draws = 3 \<rparr> = Inr (ident, st1)"
    "user_seckey ident = replicate 64 3"
    by (rule demo_identity_start [OF demo_identity_files(4)])
  have env: "ce_identity demo_core_env = demo_identity_env" by (simp add: demo_core_env_def)
  let ?pm0 = "\<lparr> pm_handlers = [], pm_connectors = [], pm_log = [], pm_cm = cm_init fresh_bus ident (Some (compression_of demo_core_config)) \<rparr>"
  obtain pm where pm: "start_plugins demo_core_env (ks_files st1) (cf_plugins demo_core_config) ?pm0 = Some pm"
    "map (\<lambda>(sch, i). (sch, cp_scheme (ci_plugin i))) (pm_connectors pm) = [(''tcp'', ''tcp'')]"
    "find_connector_by_scheme ''tcp'' pm = Some demo_ops"
    by (simp add: start_plugins_def load_all_plugins_def register_plugins_def load_static_plugins_def load_static_plugin_def add_connector_def
      run_init_def load_extra_dirs_def demo_core_env_def demo_core_config_def default_config_def split_dirs.simps find_connector_by_scheme_def Let_def)
  have "core_construct demo_core_env demo_core_config \<lparr> ks_files = demo_fs, ks_draws = 3 \<rparr> = Inr (
      \<lparr> nc_config = demo_core_config, nc_identity = ident, nc_pm = pm,
        nc_running = False, nc_threads = 0, nc_timer = False, nc_stopped = False \<rparr>, st1)"
    unfolding core_construct_def Let_def dir using start(1) env pm(1) by simp
  then show ?thesis by (rule that) (simp_all add: start(2) pm)
qed

lemma demo_plugins_ok: "plugins_ok demo_core_env"
proof -
  have "init_registers (\<lambda>s. (Some x, s))" for x :: 'x by (auto simp: init_registers_def intro: exI [of _ "[]"])
  then show ?thesis by (simp add: plugins_ok_def demo_core_env_def)
qed

subsection \<open>Properties\<close>

lemma constructed_manager:
  assumes start: "core_construct C cfg st = Inr (k, st1)" and C: "plugins_ok C"
  shows "cm_reach (nc_cm k) \<and> identity (nc_cm k) = nc_identity k \<and> next_id (nc_cm k) = 1"
    "\<exists>pm'. schemes_ok pm' \<and> connectors (pm_cm pm') = [] \<and> nc_pm k = (if auto_load (cf_plugins cfg) then register_plugins pm' else pm')"
proof -
  obtain ident where k: "nc_identity k = ident" "start_plugins C (ks_files st1) (cf_plugins cfg)
      \<lparr> pm_handlers = [], pm_connectors = [], pm_log = [], pm_cm = cm_init fresh_bus ident (Some (compression_of cfg)) \<rparr> = Some (nc_pm k)"
    using core_constructD [OF start] by metis
  let ?pm0 = "\<lparr> pm_handlers = [], pm_connectors = [], pm_log = [], pm_cm = cm_init fresh_bus ident (Some (compression_of cfg)) \<rparr>"
  obtain pm' where g: "pm_grows ?pm0 pm'" and n: "nc_pm k = (if auto_load (cf_plugins cfg) then register_plugins pm' else pm')"
    using pm_grows_start [OF C k(2)] by blast
  have "cm_reach (cm_init fresh_bus ident (Some (compression_of cfg)))" "next_id (cm_init fresh_bus ident (Some (compression_of cfg))) \<noteq> - 1"
    by (rule cm_reach.start, simp add: cm_init_def)
  then have pm': "cm_reach (pm_cm pm')" "next_id (pm_cm pm') = 1" "connectors (pm_cm pm') = []" "identity (pm_cm pm') = ident" "schemes_ok pm'"
    using g by (simp_all add: pm_grows_def cm_kept_def schemes_ok_def) (simp_all add: cm_init_def)
  moreover have "cm_reach (pm_cm (register_plugins pm'))" "identity (pm_cm (register_plugins pm')) = ident" "next_id (pm_cm (register_plugins pm')) = 1"
    using register_plugins_cm [of pm'] register_keeps [of "pm_cm pm'" "get_active_connectors pm'"] pm' by (simp_all add: cm_kept_def)
  ultimately show "cm_reach (nc_cm k) \<and> identity (nc_cm k) = nc_identity k \<and> next_id (nc_cm k) = 1"
    "\<exists>pm'. schemes_ok pm' \<and> connectors (pm_cm pm') = [] \<and> nc_pm k = (if auto_load (cf_plugins cfg) then register_plugins pm' else pm')"
    using n k(1) by auto
qed

text \<open>
  Property C16. A core that was constructed is wired up: its connection manager is in a state that the
  manager's own entry points reach, so that it satisfies the state invariant, and has the identity that
  was loaded, and, when \<open>auto_load\<close> is on, the manager finds for every scheme exactly the enabled
  connector that the plugin manager has for it. The conditions: the entry points of plugins do
  nothing to the manager but register handlers (\<open>plugins_ok\<close>), and the schemes of the loaded
  connectors have at most 63 characters (a longer one is registered cut off). With \<open>auto_load\<close> off the
  manager knows no connector: see \<open>static_plugins_unregistered\<close>.
\<close>

theorem core_wired:
  assumes start: "core_construct C cfg st = Inr (k, st1)" and C: "plugins_ok C"
    and short: "\<forall>(_, i) \<in> set (pm_connectors (nc_pm k)). length (cp_scheme (ci_plugin i)) \<le> 63"
  shows "cm_reach (nc_cm k) \<and> cm_inv (nc_cm k) \<and> identity (nc_cm k) = nc_identity k
    \<and> (auto_load (cf_plugins cfg) \<longrightarrow> (\<forall>sch. map_of (connectors (nc_cm k)) sch = find_connector_by_scheme sch (nc_pm k)))"
proof -
  obtain pm' where pm': "schemes_ok pm'" "connectors (pm_cm pm') = []" "nc_pm k = (if auto_load (cf_plugins cfg) then register_plugins pm' else pm')"
    using constructed_manager(2) [OF start C] by blast
  have "map_of (connectors (pm_cm (register_plugins pm'))) sch = find_connector_by_scheme sch (register_plugins pm')"
    if "auto_load (cf_plugins cfg)" for sch
    using register_plugins_connectors [OF pm'(1) _ pm'(2)] short pm'(3) that by (simp add: find_connector_by_scheme_def)
  then show ?thesis using constructed_manager(1) [OF start C] cm_reach_inv pm'(3) by auto
qed

theorem core_wired_witness:
  "\<exists>k st1. core_construct demo_core_env demo_core_config \<lparr> ks_files = demo_fs, ks_draws = 3 \<rparr> = Inr (k, st1)
     \<and> cm_inv (nc_cm k) \<and> user_seckey (identity (nc_cm k)) = replicate 64 3 \<and> map_of (connectors (nc_cm k)) ''tcp'' = Some demo_ops"
proof -
  obtain k st1 where k: "core_construct demo_core_env demo_core_config \<lparr> ks_files = demo_fs, ks_draws = 3 \<rparr> = Inr (k, st1)"
    "map (\<lambda>(sch, i). (sch, cp_scheme (ci_plugin i))) (pm_connectors (nc_pm k)) = [(''tcp'', ''tcp'')]"
    "find_connector_by_scheme ''tcp'' (nc_pm k) = Some demo_ops" "user_seckey (nc_identity k) = replicate 64 3"
    by (rule demo_core_start)
  have "\<forall>(_, i) \<in> set (pm_connectors (nc_pm k)). length (cp_scheme (ci_plugin i)) \<le> 63" using k(2) by (auto simp: map_eq_Cons_conv)
  moreover have "auto_load (cf_plugins demo_core_config)" by (simp add: demo_core_config_def)
  ultimately show ?thesis using core_wired [OF k(1) demo_plugins_ok] k by auto
qed

text \<open>
  With \<open>auto_load\<close> off the statically linked plugins are loaded, but none is registered: the manager
  knows no connector.
\<close>

lemma static_plugins_unregistered:
  assumes "core_construct C cfg st = Inr (k, st1)" "plugins_ok C" "\<not> auto_load (cf_plugins cfg)"
  shows "connectors (nc_cm k) = [] \<and> (\<exists>pm. nc_pm k = load_static_plugins (ce_registry C) pm)"
proof -
  obtain ident where "start_plugins C (ks_files st1) (cf_plugins cfg)
      \<lparr> pm_handlers = [], pm_connectors = [], pm_log = [], pm_cm = cm_init fresh_bus ident (Some (compression_of cfg)) \<rparr> = Some (nc_pm k)"
    using core_constructD [OF assms(1)] by metis
  then have k: "nc_pm k = load_static_plugins (ce_registry C)
      \<lparr> pm_handlers = [], pm_connectors = [], pm_log = [], pm_cm = cm_init fresh_bus ident (Some (compression_of cfg)) \<rparr>"
    using assms(3) by (simp add: start_plugins_def)
  show ?thesis
    using pm_grows_static [OF assms(2)] k by (auto simp: pm_grows_def cm_kept_def cm_init_def)
qed

text \<open>
  Rotating the identity keys does not rotate them: \<open>rotate_identity_keys\<close> loads the
  identity the way the constructor did and finds the keys the constructor left in the files, so that
  the node keeps its old identity, whatever the random generator would have given.
\<close>

theorem rotation_keeps_keys:
  assumes start: "core_construct C cfg st = Inr (k, st1)" and C: "plugins_ok C" and W: "keys_sized (ce_identity C)"
  defines "icfg \<equiv> (cf_identity cfg)\<lparr> id_dir := expand_home (ce_identity C) (id_dir (cf_identity cfg)) \<rparr>"
  assumes acc: "\<forall>p \<in> set (own_paths icfg). fs_readable (ks_files st) p \<and> fs_writable (ks_files st) p"
    and sep: "set (own_paths icfg) \<inter> set (system_paths (ce_identity C) icfg) = {}"
  shows "core_rotate_identity (C\<lparr> ce_identity := (ce_identity C)\<lparr> ie_random := rnd, ie_sign_keypair := gen \<rparr> \<rparr>) st1 k
    = Inr (upd_cm (\<lambda>s. s\<lparr> identity := nc_identity k \<rparr>) k, st1)"
proof -
  obtain ident where l: "load_or_generate (ce_identity C) icfg st = Inr (ident, st1)" "nc_identity k = ident" "nc_config k = cfg"
    unfolding icfg_def using core_constructD [OF start] by metis
  have "expand_home (W\<lparr> ie_random := rnd, ie_sign_keypair := gen \<rparr>) d = expand_home W d" for W d by (simp add: expand_home_def)
  then show ?thesis
    using load_or_generate_again [OF W l(1) acc sep] l(2,3)
    by (simp add: core_rotate_identity_def icfg_def [symmetric] rotate_identity_keys_def upd_cm_def)
qed

theorem rotation_keeps_keys_witness:
  "\<exists>k st1. core_construct demo_core_env demo_core_config \<lparr> ks_files = demo_fs, ks_draws = 3 \<rparr> = Inr (k, st1)
     \<and> core_rotate_identity (demo_core_env\<lparr> ce_identity := demo_identity_env\<lparr> ie_random := \<lambda>_. [9], ie_sign_keypair := \<lambda>_. ([8], [8]) \<rparr> \<rparr>) st1 k
       = Inr (upd_cm (\<lambda>s. s\<lparr> identity := nc_identity k \<rparr>) k, st1)"
proof -
  obtain k st1 where k: "core_construct demo_core_env demo_core_config \<lparr> ks_files = demo_fs, ks_draws = 3 \<rparr> = Inr (k, st1)"
    by (rule demo_core_start)
  have env: "ce_identity demo_core_env = demo_identity_env" by (simp add: demo_core_env_def)
  have dir: "(cf_identity demo_core_config)\<lparr> id_dir := expand_home demo_identity_env (id_dir (cf_identity demo_core_config)) \<rparr> = demo_identity_cfg"
    by (simp add: demo_core_config_def demo_identity_cfg_def expand_home_def starts_with_def)
  show ?thesis
    using rotation_keeps_keys [OF k demo_plugins_ok, where rnd = "\<lambda>_. [9]" and gen = "\<lambda>_. ([8], [8])"] demo_identity_files k unfolding env dir by auto
qed

text \<open>
  A core that was stopped does not run again: \<open>run_async\<close> starts its threads and its timer on an
  \<open>io_context\<close> that is stopped, so the heartbeat never checks a connection.
\<close>

lemma restarted_core_idle:
  assumes "nc_running k" "core_stop k = Some k'"
  shows "nc_running (run_async C n k') \<and> on_heartbeat_timer E (run_async C n k') = run_async C n k'
    \<and> pm_handlers (nc_pm (run_async C n k')) = [] \<and> pm_connectors (nc_pm (run_async C n k')) = []"
  using assms by (auto simp: core_stop_def run_async_def on_heartbeat_timer_def unload_all_def Let_def split: if_splits option.splits)

end
