(* ===== verification/Node_System.thy ===== *)
theory Node_System
  imports Tcp_Connector Node_Core
begin

section \<open>The core and its TCP connector as one system\<close>

text \<open>
  A running node: the core of \<open>src/core.cpp\<close> and the TCP connector it loaded, around one connection
  manager. A turn of the core runs an operation of the core and hands the connector the calls the
  manager made meanwhile; a turn of the connector runs one of its handlers, with the calls into the
  manager this makes. What the components that drive a manager have in common is the interface
  \<open>cm_driver\<close>.
\<close>

subsection \<open>Components that drive a connection manager\<close>

inductive driven :: "('n \<Rightarrow> cm) \<Rightarrow> ('e \<Rightarrow> 'n \<Rightarrow> bool) \<Rightarrow> (env \<Rightarrow> 'e \<Rightarrow> 'n \<Rightarrow> 'n) \<Rightarrow> 'n \<Rightarrow> 'n \<Rightarrow> bool"
  for view enabled drive where
  driven_refl: "driven view enabled drive n n"
| driven_step: "driven view enabled drive n m \<Longrightarrow> env_ok E \<Longrightarrow> next_id (view m) \<noteq> - 1 \<Longrightarrow> enabled ev m
    \<Longrightarrow> driven view enabled drive n (drive E ev m)"

locale cm_driver =
  fixes view :: "'n \<Rightarrow> cm" and enabled :: "'e \<Rightarrow> 'n \<Rightarrow> bool" and drive :: "env \<Rightarrow> 'e \<Rightarrow> 'n \<Rightarrow> 'n" and ok :: "'n \<Rightarrow> bool"
  assumes keeps_ok: "ok n \<Longrightarrow> enabled ev n \<Longrightarrow> ok (drive E ev n)"
    and keeps_inv: "ok n \<Longrightarrow> env_ok E \<Longrightarrow> next_id (view n) \<noteq> - 1 \<Longrightarrow> enabled ev n \<Longrightarrow> cm_inv (view n) \<Longrightarrow> cm_inv (view (drive E ev n))"
begin

lemma driven_consistent:
  assumes "driven view enabled drive n m" "ok n" "cm_inv (view n)"
  shows "ok m \<and> cm_inv (view m)"
  using assms by (induction rule: driven.induct) (auto intro: keeps_ok keeps_inv)

end

subsection \<open>The TCP connector\<close>

lemma object_turn_cm [simp]:
  "tn_cm (upd_object k f nd) = tn_cm nd" "tn_cm (accept_next nd) = tn_cm nd" "tn_cm (accepted_next ob nd) = tn_cm nd"
  "tn_cm (close_socket k nd) = tn_cm nd"
  by (simp_all add: upd_object_def accept_next_def accepted_next_def close_socket_def)

lemma close_sockets_cm [simp]: "tn_cm (foldl (\<lambda>nd (_, k). close_socket k nd) nd cs) = tn_cm nd"
  for cs :: "(conn_id \<times> nat) list"
  by (induction cs arbitrary: nd) auto

lemma tcp_calls_cm [simp]:
  "tn_cm (notify_data E c d nd) = handle_data E c d (tn_cm nd)"
  "tn_cm (notify_disconnect E c err nd) = handle_disconnect E c err (tn_cm nd)"
  "tn_cm (register_socket E p ob nd) = snd (handle_connect E (socket_endpoint p ob) (tn_cm nd))"
  "tn_cm (finish_registration i nd) = tn_cm nd"
  by (simp_all add: notify_data_def notify_disconnect_def register_socket_def finish_registration_def Let_def split: prod.split)

lemma tcp_reads_cm:
  "tn_cm (on_read_error E k ec nd) = handle_disconnect E (tc_id (tn_objects nd ! k))
     (case ec of Eof \<Rightarrow> 0 | Operation_aborted \<Rightarrow> 0 | Other_error v \<Rightarrow> v) (tn_cm nd)"
  "tn_cm (on_protocol_error E k nd) = handle_disconnect E (tc_id (tn_objects nd ! k)) 1 (tn_cm nd)"
  "tn_cm (on_frame E k nd) = handle_data E (tc_id (tn_objects nd ! k)) (tc_frame_buf (tn_objects nd ! k)) (tn_cm nd)"
  by (simp_all add: on_read_error_def on_protocol_error_def on_frame_def Let_def)

text \<open>A step of the connector makes at most one call into the core.\<close>

lemma tcp_one_entry: "tn_cm (tcp_step E ev nd) = tn_cm nd \<or> (\<exists>cev. tn_cm (tcp_step E ev nd) = exec E cev (tn_cm nd))"
proof -
  have d: "\<exists>cev. handle_data E c raw s = exec E cev s" "\<exists>cev. handle_disconnect E c err s = exec E cev s"
    "\<exists>cev. snd (handle_connect E ep s) = exec E cev s" for c raw err ep s
    by (rule exI [of _ "EvData c raw"], simp) (rule exI [of _ "EvDisconnected c err"], simp, rule exI [of _ "EvConnected ep"], simp)
  have run: "tn_cm (tcp_run E t nd) = tn_cm nd \<or> (\<exists>cev. tn_cm (tcp_run E t nd) = exec E cev (tn_cm nd))" for t nd
    by (cases t) (auto simp: Let_def d split: option.split)
  show ?thesis
  proof (cases ev)
    case (Run_task i)
    show ?thesis using run [of "tn_tasks nd ! i" "nd\<lparr> tn_tasks := take i (tn_tasks nd) @ drop (i + 1) (tn_tasks nd) \<rparr>"] by (simp add: Run_task)
  next
    case (Read_done k)
    then show ?thesis
      by (auto simp: on_header_def on_body_def tcp_reads_cm Let_def d split: read_op.split)
  qed (auto simp: tcp_reads_cm Let_def d split: option.split write_op.split)
qed

definition tcp_live :: "tcp_event \<Rightarrow> tcp_node \<Rightarrow> bool" where
  "tcp_live ev nd \<longleftrightarrow> \<not> tn_stopped nd \<and> tcp_enabled ev nd"

text \<open>
  The map of the connector and its connection objects agree: the object entered under an id is the
  one created for that id. No step changes the id of an object.
\<close>

definition table_ok :: "tcp_node \<Rightarrow> bool" where
  "table_ok nd \<longleftrightarrow> (\<forall>c k. map_of (tn_connections nd) c = Some k \<longrightarrow> k < length (tn_objects nd) \<and> tc_id (tn_objects nd ! k) = c)"

definition same_table :: "tcp_node \<Rightarrow> tcp_node \<Rightarrow> bool" where
  "same_table nd nd' \<longleftrightarrow> map tc_id (tn_objects nd') = map tc_id (tn_objects nd)
     \<and> (\<forall>c k. map_of (tn_connections nd') c = Some k \<longrightarrow> map_of (tn_connections nd) c = Some k)"

lemma same_table_refl [simp]: "same_table nd nd" by (simp add: same_table_def)

lemma same_table_trans: "same_table a b \<Longrightarrow> same_table b c \<Longrightarrow> same_table a c" by (simp add: same_table_def)

lemma same_table_ok:
  assumes "same_table nd nd'" "table_ok nd"
  shows "table_ok nd'"
proof -
  have "length (tn_objects nd') = length (tn_objects nd)"
    using assms(1) unfolding same_table_def by (metis length_map)
  moreover have "tc_id (tn_objects nd' ! k) = tc_id (tn_objects nd ! k)" if "k < length (tn_objects nd)" for k
    using assms(1) that calculation unfolding same_table_def by (metis nth_map)
  ultimately show ?thesis using assms unfolding same_table_def table_ok_def by metis
qed

lemma same_table_fields [simp]:
  "same_table a (nd\<lparr> tn_tasks := ts \<rparr>) = same_table a nd" "same_table a (nd\<lparr> tn_accepts := n \<rparr>) = same_table a nd"
  "same_table a (nd\<lparr> tn_resolving := rs \<rparr>) = same_table a nd" "same_table a (nd\<lparr> tn_acceptor_open := b \<rparr>) = same_table a nd"
  "same_table a (nd\<lparr> tn_stopped := b \<rparr>) = same_table a nd" "same_table a (nd\<lparr> tn_registering := rg \<rparr>) = same_table a nd"
  "same_table a (via_core f nd) = same_table a nd" "same_table a (notify_data E c d nd) = same_table a nd"
  "same_table a (notify_disconnect E c err nd) = same_table a nd" "same_table a (accept_next nd) = same_table a nd"
  "same_table a (accepted_next ob nd) = same_table a nd" "same_table a (register_socket E p ob nd) = same_table a nd"
  by (simp_all add: same_table_def notify_data_def notify_disconnect_def register_socket_def Let_def)

lemma same_table_object: "(\<And>x. tc_id (f x) = tc_id x) \<Longrightarrow> same_table a nd \<Longrightarrow> same_table a (upd_object k f nd)"
  by (auto simp: same_table_def upd_object_def map_update list_update_same_conv) (metis list_update_id map_update)

lemma same_table_erase: "same_table a nd \<Longrightarrow> same_table a (nd\<lparr> tn_connections := erase c (tn_connections nd) \<rparr>)"
  by (auto simp: same_table_def split: if_splits)

lemma tc_id_kept [simp]:
  "tc_id (queue_frames fs x) = tc_id x" "tc_id (drop_writer j x) = tc_id x" "tc_id (start_write j x) = tc_id x"
  "tc_id (write_done j fs res x) = tc_id x" "tc_id (start_read_header x) = tc_id x"
  by (simp_all add: queue_frames_def drop_writer_def start_write_def write_done_def start_read_header_def Let_def split: write_result.split)

lemmas same_table_intros = same_table_object same_table_erase

lemma same_table_reads:
  "same_table a nd \<Longrightarrow> same_table a (on_read_error E k ec nd)" "same_table a nd \<Longrightarrow> same_table a (on_protocol_error E k nd)"
  "same_table a nd \<Longrightarrow> same_table a (on_frame E k nd)"
  unfolding on_read_error_def on_protocol_error_def on_frame_def Let_def by (auto intro!: same_table_intros)

lemma same_table_close: "same_table a nd \<Longrightarrow> same_table a (close_socket k nd)"
  unfolding close_socket_def by (rule same_table_object) simp_all

lemma same_table_run: "same_table nd (tcp_run E t nd)"
proof (cases t)
  case Tcp_close_all
  have "same_table a nd \<Longrightarrow> same_table a (foldl (\<lambda>nd (_, k). close_socket k nd) nd cs)" for a nd and cs :: "(conn_id \<times> nat) list"
    by (induction cs arbitrary: nd) (auto intro: same_table_close)
  from this [of nd "nd\<lparr> tn_acceptor_open := False \<rparr>" "tn_connections nd"]
  show ?thesis by (simp add: Tcp_close_all same_table_def)
qed (auto simp: Let_def intro!: same_table_intros same_table_close split: option.splits)

lemma table_ok_registered: "table_ok nd \<Longrightarrow> table_ok (finish_registration i nd)"
  by (cases "tn_registering nd ! i")
    (auto simp: finish_registration_def table_ok_def nth_append new_connection_def update_conv' dest: less_SucI split: if_splits)

lemma table_ok_step:
  assumes "table_ok nd"
  shows "table_ok (tcp_step E ev nd)"
proof (cases ev)
  case (Registered i)
  then show ?thesis using table_ok_registered [OF assms] by simp
next
  case (Run_task i)
  have "same_table nd (tcp_step E ev nd)"
    using same_table_run [of "nd\<lparr> tn_tasks := take i (tn_tasks nd) @ drop (i + 1) (tn_tasks nd) \<rparr>" E "tn_tasks nd ! i"]
    by (simp add: Run_task same_table_def)
  then show ?thesis using assms by (rule same_table_ok)
next
  case (Read_done k)
  have "same_table nd (tcp_step E ev nd)"
    by (auto simp: Read_done on_header_def on_body_def Let_def intro!: same_table_reads same_table_object split: read_op.split)
  then show ?thesis using assms by (rule same_table_ok)
qed (rule same_table_ok [OF _ assms], auto simp: Let_def intro!: same_table_reads same_table_object split: option.split write_op.split)+

definition tcp_ok :: "tcp_node \<Rightarrow> bool" where
  "tcp_ok nd \<longleftrightarrow> objects_ok nd \<and> table_ok nd"

lemma tcp_ok_init [simp]: "tcp_ok (tcp_init s ident)"
  by (simp add: tcp_ok_def objects_ok_def table_ok_def tcp_init_def)

interpretation tcp_driver: cm_driver tn_cm tcp_live tcp_step tcp_ok
proof
  show "tcp_ok nd \<Longrightarrow> tcp_live ev nd \<Longrightarrow> tcp_ok (tcp_step E ev nd)" for nd ev E
    by (simp add: tcp_ok_def tcp_live_def objects_ok_step table_ok_step)
  show "env_ok E \<Longrightarrow> next_id (tn_cm nd) \<noteq> - 1 \<Longrightarrow> cm_inv (tn_cm nd) \<Longrightarrow> cm_inv (tn_cm (tcp_step E ev nd))" for E nd ev
    using tcp_one_entry cm_inv_exec by metis
qed

subsection \<open>The core\<close>

datatype core_event =
    Core_run int
  | Core_heartbeat
  | Core_forward cm_event
  | Core_rotate key_state
  | Core_reload json_lib file_system
  | Core_stop

text \<open>
  One operation of the core. \<open>stop\<close> takes effect when \<open>ConnectionManager::shutdown\<close> returns; a
  rotation that throws changes nothing.
\<close>

fun core_step :: "core_env \<Rightarrow> env \<Rightarrow> core_event \<Rightarrow> core \<Rightarrow> core" where
  "core_step C E (Core_run threads) k = run_async C threads k"
| "core_step C E Core_heartbeat k = on_heartbeat_timer E k"
| "core_step C E (Core_forward ev) k = core_call E ev k"
| "core_step C E (Core_rotate st) k = (case core_rotate_identity C st k of Inl _ \<Rightarrow> k | Inr (k1, _) \<Rightarrow> k1)"
| "core_step C E (Core_reload J F) k = snd (reload_config J F k)"
| "core_step C E Core_stop k = (case core_stop k of None \<Rightarrow> k | Some k1 \<Rightarrow> k1)"

lemma upd_cm_cm [simp]: "nc_cm (upd_cm f k) = f (nc_cm k)"
  by (simp add: upd_cm_def)

lemma cm_inv_config: "cm_inv s \<Longrightarrow> cm_inv (s\<lparr> config := c \<rparr>)"
  by (erule cm_inv_ishape [rotated]) (simp add: ishape_cm_def)

lemma cm_inv_heartbeat_timer:
  assumes "env_ok E" "next_id s \<noteq> - 1" "cm_inv s"
  shows "cm_inv (cleanup_stale_pending E (check_heartbeat_timeouts E s))"
  using cm_inv_cleanup [OF cm_inv_exec [OF assms(1,3,2), of EvHeartbeats]] by simp

lemma core_keeps_inv:
  assumes env: "env_ok E" and n: "next_id (nc_cm k) \<noteq> - 1" and inv: "cm_inv (nc_cm k)"
  shows "cm_inv (nc_cm (core_step C E ev k))"
proof (cases ev)
  case Core_heartbeat
  then show ?thesis using cm_inv_heartbeat_timer [OF env n inv] inv by (simp add: on_heartbeat_timer_def)
next
  case (Core_forward cev)
  then show ?thesis using cm_inv_exec [OF env inv n] by (simp add: core_call_def)
next
  case (Core_rotate st)
  then show ?thesis
    using inv cm_inv_irrelevant(9) [OF inv]
    by (auto simp: core_rotate_identity_def rotate_identity_keys_def Let_def split: sum.split prod.split)
next
  case (Core_reload J F)
  then show ?thesis using cm_inv_config [OF inv] by (simp add: reload_config_def upd_cm_def split: prod.split)
next
  case Core_stop
  have "cm_inv s" if "shutdown (nc_cm k) = Some s" for s
    using cm_inv_exec [OF env inv n, of EvShutdown] that by simp
  then show ?thesis using Core_stop inv by (auto simp: core_stop_def unload_all_def pm_note_def split: option.split)
qed (use inv in \<open>simp add: run_async_def Let_def\<close>)

interpretation core_driver: cm_driver nc_cm "\<lambda>_ _. True" "core_step C" "\<lambda>_. True" for C
  by unfold_locales (simp, rule core_keeps_inv)

subsection \<open>Both together\<close>

record node =
  no_core :: core
  no_tcp :: tcp_node

datatype node_event =
    Core_turn core_event
  | Tcp_turn tcp_event
  | Tcp_listens listen_result
  | Tcp_shuts_down

definition core_turn :: "(core \<Rightarrow> core) \<Rightarrow> node \<Rightarrow> node" where
  "core_turn f nd = (let k = f (no_core nd) in nd\<lparr> no_core := k, no_tcp := via_core (\<lambda>_. nc_cm k) (no_tcp nd) \<rparr>)"

definition tcp_turn :: "(tcp_node \<Rightarrow> tcp_node) \<Rightarrow> node \<Rightarrow> node" where
  "tcp_turn f nd = (let t = f (no_tcp nd) in nd\<lparr> no_core := upd_cm (\<lambda>_. tn_cm t) (no_core nd), no_tcp := t \<rparr>)"

fun node_step :: "core_env \<Rightarrow> env \<Rightarrow> node_event \<Rightarrow> node \<Rightarrow> node" where
  "node_step C E (Core_turn ev) nd = core_turn (core_step C E ev) nd"
| "node_step C E (Tcp_turn ev) nd = tcp_turn (tcp_step E ev) nd"
| "node_step C E (Tcp_listens res) nd = tcp_turn (\<lambda>t. snd (tcp_do_listen res t)) nd"
| "node_step C E Tcp_shuts_down nd = tcp_turn tcp_on_shutdown nd"

fun node_enabled :: "node_event \<Rightarrow> node \<Rightarrow> bool" where
  "node_enabled (Tcp_turn ev) nd = tcp_live ev (no_tcp nd)"
| "node_enabled _ nd = True"

definition node_init :: "core \<Rightarrow> nat \<Rightarrow> node" where
  "node_init k ident = \<lparr> no_core = k, no_tcp = tcp_init (nc_cm k) ident \<rparr>"

text \<open>The states a node reaches from the end of \<open>Core::Core\<close> on.\<close>

abbreviation node_cm :: "node \<Rightarrow> cm" where
  "node_cm nd \<equiv> tn_cm (no_tcp nd)"

definition node_reach :: "core_env \<Rightarrow> node \<Rightarrow> bool" where
  "node_reach C nd \<longleftrightarrow> plugins_ok C \<and> (\<exists>cfg st k st1 ident. core_construct C cfg st = Inr (k, st1)
     \<and> driven node_cm node_enabled (node_step C) (node_init k ident) nd)"

definition node_ok :: "node \<Rightarrow> bool" where
  "node_ok nd \<longleftrightarrow> nc_cm (no_core nd) = node_cm nd \<and> tcp_ok (no_tcp nd)"

lemma tcp_ok_calls [simp]: "tcp_ok (via_core f nd) = tcp_ok nd"
  by (simp add: tcp_ok_def table_ok_def)

lemma tcp_ok_listen: "tcp_ok nd \<Longrightarrow> tcp_ok (snd (tcp_do_listen res nd))" "tn_cm (snd (tcp_do_listen res nd)) = tn_cm nd"
  by (simp_all add: tcp_ok_def table_ok_def tcp_do_listen_def split: listen_result.split)

lemma tcp_ok_shutdown: "tcp_ok nd \<Longrightarrow> tcp_ok (tcp_on_shutdown nd)" "tn_cm (tcp_on_shutdown nd) = tn_cm nd"
  by (simp_all add: tcp_ok_def table_ok_def tcp_on_shutdown_def tcp_post_def)

interpretation node_driver: cm_driver node_cm node_enabled "node_step C" node_ok for C
proof
  show "node_ok nd \<Longrightarrow> node_enabled ev nd \<Longrightarrow> node_ok (node_step C E ev nd)" for nd ev E
    by (cases ev) (simp_all add: node_ok_def core_turn_def tcp_turn_def Let_def tcp_ok_listen tcp_ok_shutdown tcp_driver.keeps_ok)
  show "cm_inv (node_cm (node_step C E ev nd))"
    if "node_ok nd" "env_ok E" "next_id (node_cm nd) \<noteq> - 1" "node_enabled ev nd" "cm_inv (node_cm nd)" for nd ev E
  proof (cases ev)
    case (Core_turn cev)
    then show ?thesis
      using core_driver.keeps_inv [of E "no_core nd"] that by (simp add: node_ok_def core_turn_def Let_def)
  next
    case (Tcp_turn tev)
    then show ?thesis
      using tcp_driver.keeps_inv [of "no_tcp nd" E tev] that by (simp add: node_ok_def tcp_turn_def Let_def)
  qed (use that in \<open>simp_all add: tcp_turn_def Let_def tcp_ok_listen tcp_ok_shutdown\<close>)
qed

lemma node_reach_consistent:
  assumes "node_reach C nd"
  shows "node_ok nd \<and> cm_inv (node_cm nd)"
proof -
  obtain cfg st k st1 ident where k: "plugins_ok C" "core_construct C cfg st = Inr (k, st1)"
    "driven node_cm node_enabled (node_step C) (node_init k ident) nd"
    using assms by (auto simp: node_reach_def)
  have "cm_inv (nc_cm k)" using constructed_manager(1) [OF k(2,1)] cm_reach_inv by blast
  then show ?thesis
    by (intro node_driver.driven_consistent [OF k(3)]) (simp_all add: node_ok_def node_init_def, simp_all add: tcp_init_def)
qed

subsection \<open>A concrete node\<close>

lemma demo_manager:
  assumes "core_construct demo_core_env demo_core_config st = Inr (k, st1)"
  shows "nc_cm k = register_connector ''tcp'' demo_ops (cm_init fresh_bus (nc_identity k) (Some (compression_of demo_core_config)))"
proof -
  obtain ident where "nc_identity k = ident" "start_plugins demo_core_env (ks_files st1) (cf_plugins demo_core_config)
      \<lparr> pm_handlers = [], pm_connectors = [], pm_log = [], pm_cm = cm_init fresh_bus ident (Some (compression_of demo_core_config)) \<rparr> = Some (nc_pm k)"
    using core_constructD [OF assms] by metis
  then have "nc_cm k = pm_cm (the (start_plugins demo_core_env (ks_files st1) (cf_plugins demo_core_config)
      \<lparr> pm_handlers = [], pm_connectors = [], pm_log = [], pm_cm = cm_init fresh_bus (nc_identity k) (Some (compression_of demo_core_config)) \<rparr>))"
    by simp
  then show ?thesis
    by (simp add: start_plugins_def load_all_plugins_def register_plugins_def load_static_plugins_def load_static_plugin_def add_connector_def
      run_init_def load_extra_dirs_def demo_core_env_def demo_core_config_def default_config_def split_dirs.simps get_active_connectors_def
      get_active_handlers_def pm_note_def Let_def)
qed

text \<open>Every run of the connector is a run of the node.\<close>

lemma tcp_runs_in_node:
  assumes "driven tn_cm tcp_live tcp_step t t'" "no_tcp nd = t"
  shows "\<exists>nd'. driven node_cm node_enabled (node_step C) nd nd' \<and> no_tcp nd' = t'"
  using assms
proof (induction rule: driven.induct)
  case (driven_step n m E ev)
  then obtain nd' where nd': "driven node_cm node_enabled (node_step C) nd nd'" "no_tcp nd' = m" by blast
  have "driven node_cm node_enabled (node_step C) nd (node_step C E (Tcp_turn ev) nd')"
    by (rule driven.driven_step [OF nd'(1)]) (use driven_step nd'(2) in simp_all)
  moreover have "no_tcp (node_step C E (Tcp_turn ev) nd') = tcp_step E ev m" by (simp add: tcp_turn_def Let_def nd'(2))
  ultimately show ?case by blast
qed (auto intro: driven_refl)

text \<open>A node that connects to a peer: the first handshake message waits to be queued.\<close>

lemma connect_next_id: "\<not> shutting_down s \<Longrightarrow> next_id (snd (handle_connect E ep s)) = next_id s + 1"
proof -
  have f: "next_id (send_frame E c t p s) = next_id s" for c t p s
    using shape_send_frame [of E c t p s] by (simp add: shape_cm_def)
  have cl: "next_id (close_now c s) = next_id s" for c s
    using shape_close_now [of c s] by (simp add: shape_cm_def)
  have "next_id (send_noise_init E c s) = next_id s" for c s
    by (auto simp: send_noise_init_def cm_write_message_def f cl set_handshake_def upd_rec_def split: option.split prod.split)
  then show "\<not> shutting_down s \<Longrightarrow> ?thesis" by (simp add: handle_connect_def cm_stat_def upd_bus_def Let_def)
qed

lemma outbound_node:
  "\<exists>nd f ep. node_reach demo_core_env nd \<and> tn_tasks (no_tcp nd) = [Tcp_send 1 [f]] \<and> tn_connections (no_tcp nd) = [(1, 0)]
     \<and> tn_objects (no_tcp nd) = [start_read_header (new_connection 1 ep)]"
proof -
  obtain k st1 where k: "core_construct demo_core_env demo_core_config \<lparr> ks_files = demo_fs, ks_draws = 3 \<rparr> = Inr (k, st1)"
    by (rule demo_core_start)
  let ?ep = "socket_endpoint (Some demo_peer) True" and ?run = "driven tn_cm tcp_live tcp_step (tcp_init (nc_cm k) 1)"
  have s: "\<not> shutting_down (nc_cm k)" "find_connector (nc_cm k) ''tcp'' = Some demo_ops" "next_id (nc_cm k) = 1"
    by (simp_all add: demo_manager [OF k] register_connector_def cm_init_def find_connector_def)
  define nd0 where "nd0 = tcp_init (nc_cm k) 1"
  define nd1 where "nd1 = tcp_step demo_env (Core_call (EvConnect demo_target)) nd0"
  define nd2 where "nd2 = tcp_step demo_env (Run_task 0) nd1"
  define nd3 where "nd3 = tcp_step demo_env (Connect_done 0 (Some (Some demo_peer))) nd2"
  obtain f where nds: "nd1 = nd0\<lparr> tn_cm := ext (OpsConnect demo_ops demo_target) (nc_cm k), tn_tasks := [Tcp_connect ''10.0.0.9'' ''9000''] \<rparr>"
    "nd2 = nd1\<lparr> tn_tasks := [], tn_resolving := [(''10.0.0.9'', ''9000'')] \<rparr>"
    "nd3 = nd2\<lparr> tn_resolving := [], tn_cm := snd (handle_connect demo_env ?ep (tn_cm nd2)), tn_tasks := [Tcp_send 1 [f]], tn_registering := [(1, ?ep, True)] \<rparr>"
    using outbound_nodes [OF s(1,2)] s(3) by (auto simp: CONN_ID_INVALID_def nd0_def nd1_def nd2_def nd3_def)
  have nd0: "tn_cm nd0 = nc_cm k" "tn_tasks nd0 = []" "tn_resolving nd0 = []" "tn_registering nd0 = []" "tn_connections nd0 = []"
    "tn_objects nd0 = []" "\<not> tn_stopped nd0"
    by (simp_all add: nd0_def tcp_init_def)
  have n: "next_id (ext x (nc_cm k)) \<noteq> - 1" for x by (simp add: ext_def s(3))
  have n3: "next_id (tn_cm nd3) \<noteq> - 1"
    using connect_next_id [of "ext (OpsConnect demo_ops demo_target) (nc_cm k)"] s(1,3) by (simp add: nds) (simp add: ext_def)
  have "?run nd1" unfolding nd1_def nd0_def [symmetric] by (rule driven_step [OF driven_refl demo_env_ok]) (simp_all add: tcp_live_def nd0 s(3))
  then have "?run nd2" unfolding nd2_def by (rule driven_step [OF _ demo_env_ok]) (simp_all add: tcp_live_def nds(1) nd0 n)
  then have "?run nd3" unfolding nd3_def by (rule driven_step [OF _ demo_env_ok]) (simp_all add: tcp_live_def nds(1,2) nd0 n)
  then have "?run (tcp_step demo_env (Registered 0) nd3)"
    by (rule driven_step [OF _ demo_env_ok]) (simp_all add: n3, simp_all add: tcp_live_def nds nd0)
  then obtain nd where nd: "driven node_cm node_enabled (node_step demo_core_env) (node_init k 1) nd" "no_tcp nd = tcp_step demo_env (Registered 0) nd3"
    using tcp_runs_in_node [of "tcp_init (nc_cm k) 1" _ "node_init k 1"] by (auto simp: node_init_def)
  then have "node_reach demo_core_env nd" unfolding node_reach_def using demo_plugins_ok k by blast
  then show ?thesis
    by (intro exI conjI) (assumption, simp_all add: nd(2) nds nd0 finish_registration_def accepted_next_def)
qed

text \<open>
  Property C17. A node stays consistent from its construction on, however the operations of its core
  and the events of its TCP connector interleave: the core and the connector see the same manager,
  which satisfies its invariant; the connector's map leads from a connection id to the object of that
  id, so that a posted send queues its frames on that object and on no other; and on every object the
  bytes written, under way and queued are the queued frames in order, while no write has failed.
\<close>

theorem node_consistent:
  assumes "node_reach C nd"
  defines "t \<equiv> no_tcp nd"
  shows "nc_cm (no_core nd) = tn_cm t \<and> cm_inv (tn_cm t)
    \<and> (\<forall>E i c fs k. i < length (tn_tasks t) \<and> tn_tasks t ! i = Tcp_send c fs \<and> map_of (tn_connections t) c = Some k
         \<longrightarrow> k < length (tn_objects t) \<and> tc_id (tn_objects t ! k) = c
           \<and> tn_objects (no_tcp (node_step C E (Tcp_turn (Run_task i)) nd)) = (tn_objects t)[k := queue_frames fs (tn_objects t ! k)])
    \<and> (\<forall>x \<in> set (tn_objects t). \<not> tc_write_failed x
         \<longrightarrow> tc_written x @ in_flight_bytes x @ concat (tc_write_queue x) = concat (tc_queued x))"
proof -
  have ok: "nc_cm (no_core nd) = tn_cm t" "cm_inv (tn_cm t)" "objects_ok t" "table_ok t"
    using node_reach_consistent [OF assms(1)] by (simp_all add: node_ok_def tcp_ok_def t_def)
  have "k < length (tn_objects t) \<and> tc_id (tn_objects t ! k) = c
      \<and> tn_objects (no_tcp (node_step C E (Tcp_turn (Run_task i)) nd)) = (tn_objects t)[k := queue_frames fs (tn_objects t ! k)]"
    if "tn_tasks t ! i = Tcp_send c fs" "map_of (tn_connections t) c = Some k" for E i c fs k
    using ok(4) that by (simp add: table_ok_def tcp_turn_def upd_object_def Let_def flip: t_def)
  moreover have "\<forall>x \<in> set (tn_objects t). \<not> tc_write_failed x
      \<longrightarrow> tc_written x @ in_flight_bytes x @ concat (tc_write_queue x) = concat (tc_queued x)"
    using ok(3) by (simp add: objects_ok_def list_all_iff write_ok_def)
  ultimately show ?thesis using ok(1,2) by blast
qed

theorem node_consistent_witness:
  "\<exists>nd f. node_reach demo_core_env nd \<and> cm_inv (nc_cm (no_core nd))
     \<and> tc_queued (tn_objects (no_tcp (node_step demo_core_env demo_env (Tcp_turn (Run_task 0)) nd)) ! 0) = [f]"
proof -
  obtain nd f ep where nd: "node_reach demo_core_env nd" "tn_tasks (no_tcp nd) = [Tcp_send 1 [f]]" "tn_connections (no_tcp nd) = [(1, 0)]"
    "tn_objects (no_tcp nd) = [start_read_header (new_connection 1 ep)]"
    using outbound_node by blast
  from node_consistent [OF nd(1)] have "cm_inv (nc_cm (no_core nd))"
    "tn_objects (no_tcp (node_step demo_core_env demo_env (Tcp_turn (Run_task 0)) nd)) = [queue_frames [f] (start_read_header (new_connection 1 ep))]"
    using nd(2-4) by (simp_all del: node_step.simps)
  then show ?thesis
    using nd(1) by (auto simp: queue_frames_def start_read_header_def new_connection_def Let_def simp del: node_step.simps)
qed

end
