(* ===== verification/Store_Messages.thy ===== *)
theory Store_Messages
  imports Wire
begin

section \<open>Messages of the store\<close>

text \<open>
  The packed payloads of the key-value store protocol (\<open>core/data/messages.hpp\<close>): each is a
  record with its encoder and decoder, and an interpretation of the contract of packed structs.
\<close>

definition MSG_TYPE_SYS_STORE_RESULT :: u32 where [wire_consts]: "MSG_TYPE_SYS_STORE_RESULT = 0x0602"
definition MSG_TYPE_SYS_STORE_NOTIFY :: u32 where [wire_consts]: "MSG_TYPE_SYS_STORE_NOTIFY = 0x0605"
definition MSG_TYPE_SYS_STORE_SYNC :: u32 where [wire_consts]: "MSG_TYPE_SYS_STORE_SYNC = 0x0606"

definition STORE_KEY_MAX_LEN :: u16 where "STORE_KEY_MAX_LEN = 128"
definition STORE_VALUE_MAX_LEN :: u16 where "STORE_VALUE_MAX_LEN = 4096"

record store_put_payload =
  pp_request_id :: u64
  pp_ttl_s :: u64
  pp_key_len :: u16
  pp_value_len :: u16
  pp_flags :: u8
  pp_pad :: bytes

definition store_put_payload_enc :: "store_put_payload \<Rightarrow> bytes" where
  "store_put_payload_enc x = put_u64 (pp_request_id x) @ put_u64 (pp_ttl_s x) @ put_u16 (pp_key_len x) @ put_u16 (pp_value_len x) @ put_u8 (pp_flags x) @ pp_pad x"

definition store_put_payload_dec :: "bytes \<Rightarrow> store_put_payload" where
  "store_put_payload_dec bs = \<lparr> pp_request_id = get_u64 0 bs, pp_ttl_s = get_u64 8 bs, pp_key_len = get_u16 16 bs, pp_value_len = get_u16 18 bs, pp_flags = get_u8 20 bs, pp_pad = get_arr 21 3 bs \<rparr>"

definition store_put_payload_wf :: "store_put_payload \<Rightarrow> bool" where
  "store_put_payload_wf x \<longleftrightarrow> length (pp_pad x) = 3"

interpretation put_pl: pod store_put_payload_enc store_put_payload_dec 24 store_put_payload_wf
  by unfold_locales (simp_all add: store_put_payload_enc_def store_put_payload_dec_def store_put_payload_wf_def pod_join)

record store_get_payload =
  gp_request_id :: u64
  gp_key_len :: u16
  gp_query_type :: u8
  gp_pad :: u8
  gp_max_results :: u32

definition store_get_payload_enc :: "store_get_payload \<Rightarrow> bytes" where
  "store_get_payload_enc x = put_u64 (gp_request_id x) @ put_u16 (gp_key_len x) @ put_u8 (gp_query_type x) @ put_u8 (gp_pad x) @ put_u32 (gp_max_results x)"

definition store_get_payload_dec :: "bytes \<Rightarrow> store_get_payload" where
  "store_get_payload_dec bs = \<lparr> gp_request_id = get_u64 0 bs, gp_key_len = get_u16 8 bs, gp_query_type = get_u8 10 bs, gp_pad = get_u8 11 bs, gp_max_results = get_u32 12 bs \<rparr>"

interpretation get_pl: pod store_get_payload_enc store_get_payload_dec 16 "\<lambda>_. True"
  by unfold_locales (simp_all add: store_get_payload_enc_def store_get_payload_dec_def pod_join)

record store_result_payload =
  rs_request_id :: u64
  rs_entry_count :: u8
  rs_status :: u8
  rs_pad :: bytes
  rs_total_count :: u32

definition store_result_payload_enc :: "store_result_payload \<Rightarrow> bytes" where
  "store_result_payload_enc x = put_u64 (rs_request_id x) @ put_u8 (rs_entry_count x) @ put_u8 (rs_status x) @ rs_pad x @ put_u32 (rs_total_count x)"

definition store_result_payload_dec :: "bytes \<Rightarrow> store_result_payload" where
  "store_result_payload_dec bs = \<lparr> rs_request_id = get_u64 0 bs, rs_entry_count = get_u8 8 bs, rs_status = get_u8 9 bs, rs_pad = get_arr 10 2 bs, rs_total_count = get_u32 12 bs \<rparr>"

definition store_result_payload_wf :: "store_result_payload \<Rightarrow> bool" where
  "store_result_payload_wf x \<longleftrightarrow> length (rs_pad x) = 2"

interpretation result_pl: pod store_result_payload_enc store_result_payload_dec 16 store_result_payload_wf
  by unfold_locales (simp_all add: store_result_payload_enc_def store_result_payload_dec_def store_result_payload_wf_def pod_join)

record store_entry =
  se_key_len :: u16
  se_value_len :: u16
  se_timestamp_us :: u64
  se_ttl_s :: u64
  se_flags :: u8
  se_pad :: bytes

definition store_entry_enc :: "store_entry \<Rightarrow> bytes" where
  "store_entry_enc x = put_u16 (se_key_len x) @ put_u16 (se_value_len x) @ put_u64 (se_timestamp_us x) @ put_u64 (se_ttl_s x) @ put_u8 (se_flags x) @ se_pad x"

definition store_entry_dec :: "bytes \<Rightarrow> store_entry" where
  "store_entry_dec bs = \<lparr> se_key_len = get_u16 0 bs, se_value_len = get_u16 2 bs, se_timestamp_us = get_u64 4 bs, se_ttl_s = get_u64 12 bs, se_flags = get_u8 20 bs, se_pad = get_arr 21 3 bs \<rparr>"

definition store_entry_wf :: "store_entry \<Rightarrow> bool" where
  "store_entry_wf x \<longleftrightarrow> length (se_pad x) = 3"

interpretation entry_pl: pod store_entry_enc store_entry_dec 24 store_entry_wf
  by unfold_locales (simp_all add: store_entry_enc_def store_entry_dec_def store_entry_wf_def pod_join)

record store_delete_payload =
  dp_request_id :: u64
  dp_key_len :: u16
  dp_pad :: bytes

definition store_delete_payload_enc :: "store_delete_payload \<Rightarrow> bytes" where
  "store_delete_payload_enc x = put_u64 (dp_request_id x) @ put_u16 (dp_key_len x) @ dp_pad x"

definition store_delete_payload_dec :: "bytes \<Rightarrow> store_delete_payload" where
  "store_delete_payload_dec bs = \<lparr> dp_request_id = get_u64 0 bs, dp_key_len = get_u16 8 bs, dp_pad = get_arr 10 6 bs \<rparr>"

definition store_delete_payload_wf :: "store_delete_payload \<Rightarrow> bool" where
  "store_delete_payload_wf x \<longleftrightarrow> length (dp_pad x) = 6"

interpretation delete_pl: pod store_delete_payload_enc store_delete_payload_dec 16 store_delete_payload_wf
  by unfold_locales (simp_all add: store_delete_payload_enc_def store_delete_payload_dec_def store_delete_payload_wf_def pod_join)

record store_subscribe_payload =
  sp_request_id :: u64
  sp_key_len :: u16
  sp_action :: u8
  sp_query_type :: u8
  sp_pad :: bytes

definition store_subscribe_payload_enc :: "store_subscribe_payload \<Rightarrow> bytes" where
  "store_subscribe_payload_enc x = put_u64 (sp_request_id x) @ put_u16 (sp_key_len x) @ put_u8 (sp_action x) @ put_u8 (sp_query_type x) @ sp_pad x"

definition store_subscribe_payload_dec :: "bytes \<Rightarrow> store_subscribe_payload" where
  "store_subscribe_payload_dec bs = \<lparr> sp_request_id = get_u64 0 bs, sp_key_len = get_u16 8 bs, sp_action = get_u8 10 bs, sp_query_type = get_u8 11 bs, sp_pad = get_arr 12 4 bs \<rparr>"

definition store_subscribe_payload_wf :: "store_subscribe_payload \<Rightarrow> bool" where
  "store_subscribe_payload_wf x \<longleftrightarrow> length (sp_pad x) = 4"

interpretation subscribe_pl: pod store_subscribe_payload_enc store_subscribe_payload_dec 16 store_subscribe_payload_wf
  by unfold_locales (simp_all add: store_subscribe_payload_enc_def store_subscribe_payload_dec_def store_subscribe_payload_wf_def pod_join)

record store_notify_payload =
  np_event :: u8
  np_pad :: bytes
  np_timestamp_us :: u64

definition store_notify_payload_enc :: "store_notify_payload \<Rightarrow> bytes" where
  "store_notify_payload_enc x = put_u8 (np_event x) @ np_pad x @ put_u64 (np_timestamp_us x)"

definition store_notify_payload_dec :: "bytes \<Rightarrow> store_notify_payload" where
  "store_notify_payload_dec bs = \<lparr> np_event = get_u8 0 bs, np_pad = get_arr 1 3 bs, np_timestamp_us = get_u64 4 bs \<rparr>"

definition store_notify_payload_wf :: "store_notify_payload \<Rightarrow> bool" where
  "store_notify_payload_wf x \<longleftrightarrow> length (np_pad x) = 3"

interpretation notify_pl: pod store_notify_payload_enc store_notify_payload_dec 12 store_notify_payload_wf
  by unfold_locales (simp_all add: store_notify_payload_enc_def store_notify_payload_dec_def store_notify_payload_wf_def pod_join)

record store_sync_payload =
  sy_request_id :: u64
  sy_sync_type :: u8
  sy_entry_count :: u8
  sy_pad :: bytes
  sy_since_timestamp :: u64

definition store_sync_payload_enc :: "store_sync_payload \<Rightarrow> bytes" where
  "store_sync_payload_enc x = put_u64 (sy_request_id x) @ put_u8 (sy_sync_type x) @ put_u8 (sy_entry_count x) @ sy_pad x @ put_u64 (sy_since_timestamp x)"

definition store_sync_payload_dec :: "bytes \<Rightarrow> store_sync_payload" where
  "store_sync_payload_dec bs = \<lparr> sy_request_id = get_u64 0 bs, sy_sync_type = get_u8 8 bs, sy_entry_count = get_u8 9 bs, sy_pad = get_arr 10 2 bs, sy_since_timestamp = get_u64 12 bs \<rparr>"

definition store_sync_payload_wf :: "store_sync_payload \<Rightarrow> bool" where
  "store_sync_payload_wf x \<longleftrightarrow> length (sy_pad x) = 2"

interpretation sync_pl: pod store_sync_payload_enc store_sync_payload_dec 20 store_sync_payload_wf
  by unfold_locales (simp_all add: store_sync_payload_enc_def store_sync_payload_dec_def store_sync_payload_wf_def pod_join)

end
