(* ===== verification/Store_Backend.thy ===== *)
theory Store_Backend
  imports Store_Messages "HOL-Library.List_Lexorder"
begin

section \<open>The store's backend\<close>

text \<open>
  \<open>apps/store/backend.hpp\<close> (the interface \<open>IStore\<close>) and \<open>sqlite_backend.cpp\<close>. The table is a
  list of rows; a prepared statement is the function on tables that its SQL text says. SQLite
  compares texts bytewise, which is the lexicographic order of byte lists; 64-bit values are bound
  as signed integers. The clock and the success of writing are arguments. The rows of a query
  with equal timestamps come in table order, which SQL leaves open.

  The functions \<open>sq_put\<close>, \<open>sq_get\<close>, \<open>sq_get_prefix\<close> and \<open>sq_del\<close> are the statements with texts and
  blobs bound to them; the methods of the backend take a \<open>string_view\<close>, whose pointer may be null.
  SQLite binds a null pointer as \<open>NULL\<close>, with which no comparison holds and which \<open>value\<close> refuses.
\<close>

record entry =
  en_key :: bytes
  en_value :: bytes
  en_timestamp_us :: u64
  en_ttl_s :: u64
  en_flags :: u8

subsection \<open>The contract of a backend\<close>

text \<open>
  A history of writes, the latest first: what was put under a key and when, or that the key was
  deleted.
\<close>

type_synonym kv_write = "u64 \<times> bytes \<times> (bytes \<times> u64 \<times> u8) option"

primrec replay :: "(u64 \<Rightarrow> bytes \<Rightarrow> bytes \<Rightarrow> u64 \<Rightarrow> u8 \<Rightarrow> 's \<Rightarrow> 's) \<Rightarrow> (bytes \<Rightarrow> 's \<Rightarrow> 's) \<Rightarrow> kv_write list \<Rightarrow> 's \<Rightarrow> 's" where
  "replay put del [] s = s"
| "replay put del (w # ws) s =
     (case w of (now, k, Some (v, ttl, f)) \<Rightarrow> put now k v ttl f (replay put del ws s) | (_, k, None) \<Rightarrow> del k (replay put del ws s))"

text \<open>
  What a client of \<open>IStore\<close> relies on: \<open>put\<close> makes the entry visible until it expires and leaves
  the other keys alone, \<open>del\<close> removes it and says whether there was one.
\<close>

locale kv_backend =
  fixes put :: "u64 \<Rightarrow> bytes \<Rightarrow> bytes \<Rightarrow> u64 \<Rightarrow> u8 \<Rightarrow> 's \<Rightarrow> 's"
    and get :: "u64 \<Rightarrow> bytes \<Rightarrow> 's \<Rightarrow> entry option"
    and del :: "bytes \<Rightarrow> 's \<Rightarrow> 's"
    and ok :: "'s \<Rightarrow> bool"
    and key_ok :: "bytes \<Rightarrow> bool"
    and live :: "u64 \<Rightarrow> u64 \<Rightarrow> u64 \<Rightarrow> bool"
  assumes put_ok: "ok s \<Longrightarrow> ok (put now k v ttl f s)"
    and del_ok: "ok s \<Longrightarrow> ok (del k s)"
    and get_put: "ok s \<Longrightarrow> key_ok k \<Longrightarrow> get now' k (put now k v ttl f s) =
      (if live now ttl now' then Some \<lparr> en_key = k, en_value = v, en_timestamp_us = now, en_ttl_s = ttl, en_flags = f \<rparr> else None)"
    and get_put_other: "ok s \<Longrightarrow> k' \<noteq> k \<Longrightarrow> get now' k' (put now k v ttl f s) = get now' k' s"
    and get_del: "ok s \<Longrightarrow> get now' k (del k s) = None"
    and get_del_other: "ok s \<Longrightarrow> k' \<noteq> k \<Longrightarrow> get now' k' (del k s) = get now' k' s"
begin

lemma replay_ok: "ok s \<Longrightarrow> ok (replay put del ws s)"
  by (induction ws) (auto simp: put_ok del_ok split: prod.splits option.splits)

lemma get_replay:
  assumes "ok s" "key_ok k"
  shows "get now' k (replay put del ws s) =
    (case List.find (\<lambda>(_, j, _). j = k) ws of
       None \<Rightarrow> get now' k s
     | Some (_, _, None) \<Rightarrow> None
     | Some (now, _, Some (v, ttl, f)) \<Rightarrow>
         if live now ttl now' then Some \<lparr> en_key = k, en_value = v, en_timestamp_us = now, en_ttl_s = ttl, en_flags = f \<rparr> else None)"
proof (induction ws)
  case (Cons w ws)
  obtain now j what where w: "w = (now, j, what)" by (cases w) auto
  note r = replay_ok [OF assms(1), of ws]
  show ?case
    using Cons r assms w by (cases "j = k"; cases what) (auto simp: get_put get_put_other get_del get_del_other split: prod.splits)
qed simp

end

subsection \<open>SQLite\<close>

record row =
  ro_key :: bytes
  ro_value :: bytes
  ro_timestamp_us :: int
  ro_ttl_s :: int
  ro_expires_at :: int
  ro_flags :: u8

type_synonym table = "row list"

definition now_s :: "u64 \<Rightarrow> int" where
  "now_s now = sint (now div 1000000)"

definition row_live :: "int \<Rightarrow> row \<Rightarrow> bool" where
  "row_live t r \<longleftrightarrow> ro_expires_at r = 0 \<or> ro_expires_at r > t"

text \<open>The key is read back as a C string, up to its first NUL.\<close>

definition row_to_entry :: "row \<Rightarrow> entry" where
  "row_to_entry r = \<lparr> en_key = takeWhile (\<lambda>b. b \<noteq> 0) (ro_key r), en_value = ro_value r,
     en_timestamp_us = word_of_int (ro_timestamp_us r), en_ttl_s = word_of_int (ro_ttl_s r), en_flags = ro_flags r \<rparr>"

definition sq_put :: "bool \<Rightarrow> u64 \<Rightarrow> bytes \<Rightarrow> bytes \<Rightarrow> u64 \<Rightarrow> u8 \<Rightarrow> table \<Rightarrow> bool \<times> table" where
  "sq_put writable ts key value ttl_s flags t =
     (let expires = (if ttl_s > 0 then ts div 1000000 + ttl_s else 0)
      in if \<not> writable then (False, t)
         else (True, filter (\<lambda>r. ro_key r \<noteq> key) t
                @ [\<lparr> ro_key = key, ro_value = value, ro_timestamp_us = sint ts, ro_ttl_s = sint ttl_s,
                     ro_expires_at = sint expires, ro_flags = flags \<rparr>]))"

definition sq_get :: "u64 \<Rightarrow> bytes \<Rightarrow> table \<Rightarrow> entry option" where
  "sq_get now key t = map_option row_to_entry (List.find (\<lambda>r. ro_key r = key \<and> row_live (now_s now) r) t)"

definition limited :: "u32 \<Rightarrow> 'a list \<Rightarrow> 'a list" where
  "limited n xs = (if sint n < 0 then xs else take (nat (sint n)) xs)"

definition prefix_end :: "bytes \<Rightarrow> bytes" where
  "prefix_end prefix = (if prefix \<noteq> [] then butlast prefix @ [last prefix + 1] else [0xFF])"

definition sq_get_prefix :: "u64 \<Rightarrow> bytes \<Rightarrow> u32 \<Rightarrow> table \<Rightarrow> entry list" where
  "sq_get_prefix now prefix max_results t =
     (let n = (if max_results = 0 then 32 else max_results)
      in map row_to_entry (limited n (sort_key ro_key
           (filter (\<lambda>r. prefix \<le> ro_key r \<and> ro_key r < prefix_end prefix \<and> row_live (now_s now) r) t))))"

definition sq_del :: "bytes \<Rightarrow> table \<Rightarrow> bool \<times> table" where
  "sq_del key t = (list_ex (\<lambda>r. ro_key r = key) t, filter (\<lambda>r. ro_key r \<noteq> key) t)"

text \<open>
  The methods of the backend: \<open>None\<close> is a view whose pointer is null. The key and the value of a \<open>put\<close>
  are null together (\<open>extract_kv\<close>).
\<close>

definition sqlite_put :: "bool \<Rightarrow> u64 \<Rightarrow> (bytes \<times> bytes) option \<Rightarrow> u64 \<Rightarrow> u8 \<Rightarrow> table \<Rightarrow> bool \<times> table" where
  "sqlite_put writable ts kv ttl_s flags t =
     (case kv of None \<Rightarrow> (False, t) | Some (key, value) \<Rightarrow> sq_put writable ts key value ttl_s flags t)"

definition sqlite_get :: "u64 \<Rightarrow> bytes option \<Rightarrow> table \<Rightarrow> entry option" where
  "sqlite_get now key t = (case key of None \<Rightarrow> None | Some k \<Rightarrow> sq_get now k t)"

definition sqlite_get_prefix :: "u64 \<Rightarrow> bytes option \<Rightarrow> u32 \<Rightarrow> table \<Rightarrow> entry list" where
  "sqlite_get_prefix now prefix max_results t = (case prefix of None \<Rightarrow> [] | Some p \<Rightarrow> sq_get_prefix now p max_results t)"

definition sqlite_del :: "bytes option \<Rightarrow> table \<Rightarrow> bool \<times> table" where
  "sqlite_del key t = (case key of None \<Rightarrow> (False, t) | Some k \<Rightarrow> sq_del k t)"

definition sq_get_since :: "u64 \<Rightarrow> u64 \<Rightarrow> u32 \<Rightarrow> table \<Rightarrow> entry list" where
  "sq_get_since now since_timestamp max_results t =
     (let n = (if max_results = 0 then 256 else max_results)
      in map row_to_entry (limited n (sort_key ro_timestamp_us
           (filter (\<lambda>r. ro_timestamp_us r > sint since_timestamp \<and> row_live (now_s now) r) t))))"

definition sq_cleanup_expired :: "u64 \<Rightarrow> table \<Rightarrow> nat \<times> table" where
  "sq_cleanup_expired now t =
     (let dead = (\<lambda>r. ro_expires_at r > 0 \<and> ro_expires_at r \<le> now_s now)
      in (length (filter dead t), filter (\<lambda>r. \<not> dead r) t))"

subsection \<open>The SQLite backend keeps the contract\<close>

definition table_ok :: "table \<Rightarrow> bool" where
  "table_ok t \<longleftrightarrow> distinct (map ro_key t)"

definition entry_live :: "u64 \<Rightarrow> u64 \<Rightarrow> u64 \<Rightarrow> bool" where
  "entry_live ts ttl now \<longleftrightarrow> ttl = 0 \<or> sint (ts div 1000000 + ttl) = 0 \<or> sint (ts div 1000000 + ttl) > now_s now"

lemma find_filter: "List.find P (filter Q xs) = List.find (\<lambda>x. P x \<and> Q x) xs"
  by (induction xs) auto

lemma find_append: "List.find P (xs @ ys) = (case List.find P xs of None \<Rightarrow> List.find P ys | Some x \<Rightarrow> Some x)"
  by (induction xs) auto

lemma find_cong_key: "(\<And>r. r \<in> set xs \<Longrightarrow> P r = Q r) \<Longrightarrow> List.find P xs = List.find Q xs"
  by (induction xs) auto

lemma find_other_key:
  "k' \<noteq> k \<Longrightarrow> List.find (\<lambda>r. ro_key r = k' \<and> L r \<and> ro_key r \<noteq> k) s = List.find (\<lambda>r. ro_key r = k' \<and> L r) s"
  by (intro find_cong_key) auto

lemma table_ok_ops [simp]:
  "table_ok t \<Longrightarrow> table_ok (snd (sq_put w ts k v ttl f t))" "table_ok t \<Longrightarrow> table_ok (snd (sq_del k t))"
  "table_ok t \<Longrightarrow> table_ok (snd (sq_cleanup_expired now t))"
  by (auto simp: table_ok_def sq_put_def sq_del_def sq_cleanup_expired_def Let_def distinct_map_filter)

interpretation sqlite: kv_backend "\<lambda>now k v ttl f t. snd (sq_put True now k v ttl f t)" sq_get "\<lambda>k t. snd (sq_del k t)"
  table_ok "\<lambda>k. 0 \<notin> set k" entry_live
proof
  fix s :: table and k k' v :: bytes and now now' ttl :: u64 and f :: u8
  assume "table_ok s"
  then show "table_ok (snd (sq_put True now k v ttl f s))" "table_ok (snd (sq_del k s))" by simp_all
  show "sq_get now' k (snd (sq_del k s)) = None"
  proof -
    have "List.find (\<lambda>r. (ro_key r = k \<and> row_live (now_s now') r) \<and> ro_key r \<noteq> k) s = None" by (simp add: find_None_iff)
    then show ?thesis by (simp add: sq_get_def sq_del_def find_filter)
  qed
  show "k' \<noteq> k \<Longrightarrow> sq_get now' k' (snd (sq_del k s)) = sq_get now' k' s"
    by (simp add: sq_get_def sq_del_def find_filter find_other_key)
  show "k' \<noteq> k \<Longrightarrow> sq_get now' k' (snd (sq_put True now k v ttl f s)) = sq_get now' k' s"
    by (simp add: sq_get_def sq_put_def find_append find_filter find_other_key Let_def split: option.splits)
  assume k: "0 \<notin> set k"
  have none: "List.find (\<lambda>r. (ro_key r = k \<and> row_live (now_s now') r) \<and> ro_key r \<noteq> k) s = None" by (simp add: find_None_iff)
  have "takeWhile (\<lambda>b. b \<noteq> 0) k = k" using k by (induction k) auto
  then show "sq_get now' k (snd (sq_put True now k v ttl f s)) =
      (if entry_live now ttl now' then Some \<lparr> en_key = k, en_value = v, en_timestamp_us = now, en_ttl_s = ttl, en_flags = f \<rparr> else None)"
    using none by (auto simp: sq_get_def sq_put_def find_append find_filter Let_def row_to_entry_def row_live_def entry_live_def word_greater_zero_iff)
qed

subsection \<open>Prefix ranges\<close>

lemma prefix_range:
  assumes "p \<noteq> []" "last p \<noteq> 0xFF"
  shows "(p \<le> k \<and> k < prefix_end p) = (\<exists>z. k = p @ z)"
proof -
  have step: "(d < c + 1) = (d \<le> c)" if "c \<noteq> 0xFF" for c d :: byte
  proof -
    have "unat c \<noteq> 255" using that word_unat_eq_iff [of c "0xFF"] by simp
    then have "unat c < 255" using unat_byte_less [of c] by linarith
    then have "unat (c + 1) = unat c + 1" by (simp add: unat_word_ariths)
    then show ?thesis by (simp add: word_less_nat_alt word_le_nat_alt less_Suc_eq_le)
  qed
  have "(a # p \<le> k \<and> k < butlast (a # p) @ [last (a # p) + 1]) = (\<exists>z. k = (a # p) @ z)" if "last (a # p) \<noteq> 0xFF" for a p
    using that
  proof (induction p arbitrary: a k)
    case Nil
    then show ?case by (cases k) (auto simp: step)
  next
    case (Cons b p)
    have ih: "(b # p \<le> ks \<and> ks < butlast (b # p) @ [last (b # p) + 1]) = (\<exists>z. ks = (b # p) @ z)" for ks
      using Cons.IH [of b ks] Cons.prems by simp
    show ?case
    proof (cases k)
      case (Cons d ks)
      have "(a # b # p \<le> d # ks \<and> d # ks < a # (butlast (b # p) @ [last (b # p) + 1])) =
          (a = d \<and> (b # p \<le> ks \<and> ks < butlast (b # p) @ [last (b # p) + 1]))"
        by auto
      then show ?thesis using Cons ih [of ks] by auto
    qed simp
  qed
  then show ?thesis using assms by (cases p) (simp_all add: prefix_end_def)
qed

subsection \<open>Properties\<close>

text \<open>
  Property C24. The SQLite backend is a map with expiry: after any sequence of \<open>put\<close> and \<open>del\<close>,
  \<open>get\<close> returns what the last write of that key put there, with its time, TTL and flags, or
  nothing when that write was a deletion, there was none, or its time to live is over. (Keys
  hold no NUL byte.)
\<close>

theorem sqlite_refines_map:
  assumes "0 \<notin> set k"
  shows "sq_get now' k (replay (\<lambda>now k v ttl f t. snd (sq_put True now k v ttl f t)) (\<lambda>k t. snd (sq_del k t)) ws []) =
    (case List.find (\<lambda>(_, j, _). j = k) ws of
       None \<Rightarrow> None
     | Some (_, _, None) \<Rightarrow> None
     | Some (now, _, Some (v, ttl, f)) \<Rightarrow>
         if entry_live now ttl now' then Some \<lparr> en_key = k, en_value = v, en_timestamp_us = now, en_ttl_s = ttl, en_flags = f \<rparr> else None)"
proof -
  have "table_ok []" "sq_get now' k [] = None" by (simp_all add: table_ok_def sq_get_def)
  then show ?thesis using sqlite.get_replay [of "[]" k now' ws] assms by (simp split: option.splits)
qed

theorem sqlite_refines_map_witness:
  "sq_get 5 [1, 2] (replay (\<lambda>now k v ttl f t. snd (sq_put True now k v ttl f t)) (\<lambda>k t. snd (sq_del k t))
     [(4, [7], None), (3, [1, 2], Some ([9], 0, 1)), (2, [1, 2], None)] []) =
   Some \<lparr> en_key = [1, 2], en_value = [9], en_timestamp_us = 3, en_ttl_s = 0, en_flags = 1 \<rparr>"
  using sqlite_refines_map [of "[1, 2]" 5 "[(4, [7], None), (3, [1, 2], Some ([9], 0, 1)), (2, [1, 2], None)]"]
  by (simp add: entry_live_def)

text \<open>
  Property C40. The key range of the prefix query is the prefix: for a non-empty prefix that does not end in
  the byte 0xFF and a positive limit below \<open>2 ^ 31\<close>, \<open>get_prefix\<close> returns the first entries, in
  the order of their keys, of exactly the live rows whose key starts with the prefix.
\<close>

theorem prefix_query_exact:
  assumes "prefix \<noteq> []" "last prefix \<noteq> 0xFF" "n \<noteq> 0" "unat n < 2 ^ 31"
  shows "sq_get_prefix now prefix n t = map row_to_entry (take (unat n) (sort_key ro_key
    (filter (\<lambda>r. (\<exists>z. ro_key r = prefix @ z) \<and> row_live (now_s now) r) t)))"
proof -
  have "uint n < 2 ^ 31" using assms(4) by (metis of_nat_less_iff of_nat_numeral of_nat_power of_nat_unat)
  moreover have "- (2 ^ 31) \<le> uint n" by (rule order_trans [of _ 0]) simp_all
  ultimately have "signed_take_bit 31 (uint n) = uint n" by (intro signed_take_bit_int_eq_self)
  then have sn: "sint n = int (unat n)" by (simp add: sint_uint)
  have "(\<lambda>r. prefix \<le> ro_key r \<and> ro_key r < prefix_end prefix \<and> row_live (now_s now) r)
      = (\<lambda>r. (\<exists>z. ro_key r = prefix @ z) \<and> row_live (now_s now) r)"
    using prefix_range [OF assms(1,2)] by metis
  then show ?thesis using assms(3) sn by (simp add: sq_get_prefix_def limited_def)
qed

theorem prefix_query_exact_witness:
  "sq_get_prefix 0 [112, 47] 8 (snd (sq_put True 2 [113] [6] 0 0 (snd (sq_put True 1 [112, 47, 97] [5] 0 0 []))))
   = [\<lparr> en_key = [112, 47, 97], en_value = [5], en_timestamp_us = 1, en_ttl_s = 0, en_flags = 0 \<rparr>]"
  using prefix_query_exact [of "[112, 47]" 8 0 "snd (sq_put True 2 [113] [6] 0 0 (snd (sq_put True 1 [112, 47, 97] [5] 0 0 [])))"]
  by (simp add: sq_put_def row_live_def row_to_entry_def)

text \<open>
  A time to live so large that the sum with the clock exceeds 63 bits makes an entry
  that no query returns and no cleanup ever removes.
\<close>

theorem huge_ttl_unreachable:
  assumes "0 \<notin> set k" "0 < ttl" "sint (ts div 1000000 + ttl) < 0" "0 \<le> now_s now"
  shows "sq_get now k (snd (sq_put True ts k v ttl f t)) = None
    \<and> (\<exists>r \<in> set (snd (sq_cleanup_expired now (snd (sq_put True ts k v ttl f t)))). ro_key r = k \<and> ro_value r = v)"
proof -
  let ?r = "\<lparr> ro_key = k, ro_value = v, ro_timestamp_us = sint ts, ro_ttl_s = sint ttl, ro_expires_at = sint (ts div 1000000 + ttl), ro_flags = f \<rparr>"
  have p: "snd (sq_put True ts k v ttl f t) = filter (\<lambda>r. ro_key r \<noteq> k) t @ [?r]"
    using assms(2) by (simp add: sq_put_def)
  have "List.find (\<lambda>r. (ro_key r = k \<and> row_live (now_s now) r) \<and> ro_key r \<noteq> k) t = None" by (simp add: find_None_iff)
  then have "sq_get now k (snd (sq_put True ts k v ttl f t)) = None"
    unfolding p using assms(3,4) by (simp add: sq_get_def find_append find_filter row_live_def)
  moreover have "?r \<in> set (snd (sq_cleanup_expired now (snd (sq_put True ts k v ttl f t))))"
    unfolding p using assms(3) by (simp add: sq_cleanup_expired_def)
  ultimately show ?thesis by force
qed

theorem huge_ttl_unreachable_witness:
  "sq_get 5000000 [1] (snd (sq_put True 4000000 [1] [9] 0x8000000000000000 0 [])) = None"
  using huge_ttl_unreachable [of "[1]" "0x8000000000000000" 4000000 5000000] by (simp add: now_s_def)

end
