(* ===== verification/Store_Handler.thy ===== *)
theory Store_Handler
  imports Store_Backend
begin

section \<open>The store's message handlers\<close>

text \<open>
  \<open>apps/store/handler.cpp\<close>: the requests of the store protocol over the SQLite backend, the
  subscriptions and the synchronisation of two stores. A handler returns its propagation code and
  the new state; what it gives to \<open>core_.send\<close> is appended to \<open>st_sent\<close>. All readings of the clock
  in one handler run give the same time. \<open>start\<close> and \<open>stop\<close> (subscriptions at the bus) are those
  of the signal bus.
\<close>

record store_sub =
  su_conn_id :: conn_id
  su_key :: bytes
  su_query_type :: u8

record store =
  st_table :: table
  st_subs :: "store_sub list"
  st_sent :: "(conn_id \<times> u32 \<times> bytes) list"

record store_env =
  sv_now :: u64
  sv_writable :: bool

definition st_send :: "conn_id \<Rightarrow> u32 \<Rightarrow> bytes \<Rightarrow> store \<Rightarrow> store" where
  "st_send c t p s = s\<lparr> st_sent := st_sent s @ [(c, t, p)] \<rparr>"

subsection \<open>Serialization\<close>

definition serialize_entry :: "entry \<Rightarrow> bytes" where
  "serialize_entry e =
     (let se = \<lparr> se_key_len = word_of_nat (length (en_key e)), se_value_len = word_of_nat (length (en_value e)),
                 se_timestamp_us = en_timestamp_us e, se_ttl_s = en_ttl_s e, se_flags = en_flags e, se_pad = replicate 3 0 \<rparr>
      in store_entry_enc se @ take (unat (se_key_len se)) (en_key e) @ take (unat (se_value_len se)) (en_value e))"

definition serialize_result :: "u64 \<Rightarrow> entry list \<Rightarrow> u8 \<Rightarrow> bytes" where
  "serialize_result request_id entries status =
     (let n = min (length entries) 255
      in store_result_payload_enc \<lparr> rs_request_id = request_id, rs_entry_count = word_of_nat n, rs_status = status,
           rs_pad = replicate 2 0, rs_total_count = word_of_nat (length entries) \<rparr>
         @ concat (map serialize_entry (take n entries)))"

definition serialize_notify :: "u64 \<Rightarrow> entry \<Rightarrow> u8 \<Rightarrow> bytes" where
  "serialize_notify now e event =
     store_notify_payload_enc \<lparr> np_event = event, np_pad = replicate 3 0,
       np_timestamp_us = (if en_timestamp_us e \<noteq> 0 then en_timestamp_us e else now) \<rparr> @ serialize_entry e"

subsection \<open>Subscribers\<close>

definition sub_matches :: "bytes \<Rightarrow> store_sub \<Rightarrow> bool" where
  "sub_matches key sub =
     (if su_query_type sub = 0 then su_key sub = key else take (length (su_key sub)) key = su_key sub)"

definition notify_subscribers :: "store_env \<Rightarrow> entry \<Rightarrow> u8 \<Rightarrow> store \<Rightarrow> store" where
  "notify_subscribers V e event s =
     foldl (\<lambda>s sub. if sub_matches (en_key e) sub
                    then st_send (su_conn_id sub) MSG_TYPE_SYS_STORE_NOTIFY (serialize_notify (sv_now V) e event) s else s)
       s (st_subs s)"

definition st_on_disconnect :: "conn_id \<Rightarrow> store \<Rightarrow> store" where
  "st_on_disconnect c s = s\<lparr> st_subs := filter (\<lambda>sub. su_conn_id sub \<noteq> c) (st_subs s) \<rparr>"

subsection \<open>Requests\<close>

text \<open>
  A request that is too short for the lengths it names gives default-constructed views, whose
  pointers are null (\<open>None\<close>); so does a query, a deletion or a subscription with an empty key. The
  empty key of a \<open>put\<close> that is long enough points behind the header and is not null.
\<close>

definition extract_kv :: "bytes \<Rightarrow> nat \<Rightarrow> u16 \<Rightarrow> u16 \<Rightarrow> (bytes \<times> bytes) option" where
  "extract_kv payload header_sz key_len value_len =
     (if length payload < header_sz + unat key_len + unat value_len then None
      else Some (get_arr header_sz (unat key_len) payload, get_arr (header_sz + unat key_len) (unat value_len) payload))"

definition on_put :: "store_env \<Rightarrow> conn_id \<Rightarrow> bytes \<Rightarrow> store \<Rightarrow> propagation_t \<times> store" where
  "on_put V peer raw s =
     (if length raw < 24 then (PROPAGATION_REJECT, s)
      else let put = store_put_payload_dec raw
           in if pp_key_len put > STORE_KEY_MAX_LEN \<or> pp_value_len put > STORE_VALUE_MAX_LEN then (PROPAGATION_REJECT, s)
              else let kv = extract_kv raw 24 (pp_key_len put) (pp_value_len put);
                       (key, value) = (case kv of None \<Rightarrow> ([], []) | Some kv \<Rightarrow> kv)
                   in if key = [] \<and> pp_key_len put > 0 then (PROPAGATION_REJECT, s)
                      else let (ok, t) = sqlite_put (sv_writable V) (sv_now V) kv (pp_ttl_s put) (pp_flags put) (st_table s);
                               s1 = st_send peer MSG_TYPE_SYS_STORE_RESULT
                                      (serialize_result (pp_request_id put) [] (if ok then 0 else 2)) (s\<lparr> st_table := t \<rparr>);
                               e = \<lparr> en_key = key, en_value = value, en_timestamp_us = sv_now V, en_ttl_s = pp_ttl_s put, en_flags = pp_flags put \<rparr>
                           in (PROPAGATION_CONSUMED, if ok then notify_subscribers V e 0 s1 else s1))"

definition request_key :: "bytes \<Rightarrow> nat \<Rightarrow> u16 \<Rightarrow> bytes option" where
  "request_key raw header_sz key_len =
     (if key_len > 0 \<and> length raw \<ge> header_sz + unat key_len then Some (get_arr header_sz (unat key_len) raw) else None)"

text \<open>The \<open>std::string\<close> made of a view.\<close>

definition view_string :: "bytes option \<Rightarrow> bytes" where
  "view_string key = (case key of None \<Rightarrow> [] | Some k \<Rightarrow> k)"

definition on_get :: "store_env \<Rightarrow> conn_id \<Rightarrow> bytes \<Rightarrow> store \<Rightarrow> propagation_t \<times> store" where
  "on_get V peer raw s =
     (if length raw < 16 then (PROPAGATION_REJECT, s)
      else let get = store_get_payload_dec raw
           in if gp_key_len get > STORE_KEY_MAX_LEN then (PROPAGATION_REJECT, s)
              else let key = request_key raw 16 (gp_key_len get);
                       max_results = (if gp_max_results get \<noteq> 0 then gp_max_results get else 32);
                       entries =
                         (if gp_query_type get = 0 then (case sqlite_get (sv_now V) key (st_table s) of Some e \<Rightarrow> [e] | None \<Rightarrow> [])
                          else if gp_query_type get = 1 \<or> gp_query_type get = 2
                          then sqlite_get_prefix (sv_now V) key max_results (st_table s)
                          else [])
                   in (PROPAGATION_CONSUMED, st_send peer MSG_TYPE_SYS_STORE_RESULT
                         (serialize_result (gp_request_id get) entries (if entries = [] then 1 else 0)) s))"

definition on_delete :: "store_env \<Rightarrow> conn_id \<Rightarrow> bytes \<Rightarrow> store \<Rightarrow> propagation_t \<times> store" where
  "on_delete V peer raw s =
     (if length raw < 16 then (PROPAGATION_REJECT, s)
      else let del = store_delete_payload_dec raw
           in if dp_key_len del > STORE_KEY_MAX_LEN then (PROPAGATION_REJECT, s)
              else let key = request_key raw 16 (dp_key_len del);
                       (existed, t) = sqlite_del key (st_table s);
                       s1 = st_send peer MSG_TYPE_SYS_STORE_RESULT
                              (serialize_result (dp_request_id del) [] (if existed then 0 else 1)) (s\<lparr> st_table := t \<rparr>);
                       e = \<lparr> en_key = view_string key, en_value = [], en_timestamp_us = sv_now V, en_ttl_s = 0, en_flags = 0 \<rparr>
                   in (PROPAGATION_CONSUMED, if existed then notify_subscribers V e 2 s1 else s1))"

definition on_subscribe :: "store_env \<Rightarrow> conn_id \<Rightarrow> bytes \<Rightarrow> store \<Rightarrow> propagation_t \<times> store" where
  "on_subscribe V peer raw s =
     (if length raw < 16 then (PROPAGATION_REJECT, s)
      else let sub = store_subscribe_payload_dec raw;
               key = view_string (request_key raw 16 (sp_key_len sub));
               subs = (if sp_action sub = 0
                       then st_subs s @ [\<lparr> su_conn_id = peer, su_key = key, su_query_type = sp_query_type sub \<rparr>]
                       else filter (\<lambda>u. \<not> (su_conn_id u = peer \<and> su_key u = key)) (st_subs s))
           in (PROPAGATION_CONSUMED, st_send peer MSG_TYPE_SYS_STORE_RESULT (serialize_result (sp_request_id sub) [] 0)
                 (s\<lparr> st_subs := subs \<rparr>)))"

subsection \<open>Synchronisation\<close>

definition import_entry :: "store_env \<Rightarrow> entry \<Rightarrow> table \<Rightarrow> table" where
  "import_entry V e t =
     (let existing = sq_get (sv_now V) (en_key e) t
      in if existing = None \<or> en_timestamp_us (the existing) < en_timestamp_us e
         then snd (sq_put (sv_writable V) (sv_now V) (en_key e) (en_value e) (en_ttl_s e) (en_flags e) t)
         else t)"

fun import_entries :: "store_env \<Rightarrow> nat \<Rightarrow> bytes \<Rightarrow> table \<Rightarrow> table" where
  "import_entries V 0 buf t = t"
| "import_entries V (Suc n) buf t =
     (if length buf < 24 then t
      else let se = store_entry_dec buf; kl = unat (se_key_len se); vl = unat (se_value_len se); rest = drop 24 buf
           in if length rest < kl + vl then t
              else import_entries V n (drop (kl + vl) rest)
                     (import_entry V \<lparr> en_key = take kl rest, en_value = take vl (drop kl rest),
                        en_timestamp_us = se_timestamp_us se, en_ttl_s = se_ttl_s se, en_flags = se_flags se \<rparr> t))"

definition on_sync :: "store_env \<Rightarrow> conn_id \<Rightarrow> bytes \<Rightarrow> store \<Rightarrow> propagation_t \<times> store" where
  "on_sync V peer raw s =
     (if length raw < 20 then (PROPAGATION_REJECT, s)
      else let sync = store_sync_payload_dec raw
           in if sy_sync_type sync = 0
              then let entries = sq_get_since (sv_now V) (sy_since_timestamp sync) 256 (st_table s);
                       n = min (length entries) 255;
                       buf = store_sync_payload_enc \<lparr> sy_request_id = sy_request_id sync, sy_sync_type = 1,
                               sy_entry_count = word_of_nat n, sy_pad = replicate 2 0, sy_since_timestamp = 0 \<rparr>
                             @ concat (map serialize_entry (take n entries))
                   in (PROPAGATION_CONSUMED, st_send peer MSG_TYPE_SYS_STORE_SYNC buf s)
              else if sy_sync_type sync = 1 \<or> sy_sync_type sync = 2
              then (PROPAGATION_CONSUMED,
                    s\<lparr> st_table := import_entries V (unat (sy_entry_count sync)) (drop 20 raw) (st_table s) \<rparr>)
              else (PROPAGATION_CONSUMED, s))"

subsection \<open>Lemmas\<close>

definition entry_wf :: "entry \<Rightarrow> bool" where
  "entry_wf e \<longleftrightarrow> length (en_key e) < 65536 \<and> length (en_value e) < 65536"

lemma import_serialized:
  assumes "list_all entry_wf es"
  shows "import_entries V (length es) (concat (map serialize_entry es) @ rest) t = foldl (\<lambda>t e. import_entry V e t) t es"
  using assms
proof (induction es arbitrary: t)
  case (Cons e es)
  let ?se = "\<lparr> se_key_len = word_of_nat (length (en_key e)), se_value_len = word_of_nat (length (en_value e)),
    se_timestamp_us = en_timestamp_us e, se_ttl_s = en_ttl_s e, se_flags = en_flags e, se_pad = replicate 3 0 \<rparr>"
  have wf: "store_entry_wf ?se" by (simp add: store_entry_wf_def)
  have l: "unat (word_of_nat (length (en_key e)) :: u16) = length (en_key e)"
    "unat (word_of_nat (length (en_value e)) :: u16) = length (en_value e)"
    using Cons.prems by (simp_all add: entry_wf_def unat_of_nat)
  have ser: "serialize_entry e = store_entry_enc ?se @ en_key e @ en_value e"
    by (simp add: serialize_entry_def Let_def l)
  have e: "\<lparr> en_key = en_key e, en_value = en_value e, en_timestamp_us = en_timestamp_us e, en_ttl_s = en_ttl_s e, en_flags = en_flags e \<rparr> = e"
    by (cases e) simp
  show ?case
    using Cons entry_pl.dec_enc [OF wf] entry_pl.length_enc [OF wf] by (simp add: ser Let_def l e)
qed simp

lemma notify_keeps [simp]: "st_table (notify_subscribers V e ev s) = st_table s" "st_subs (notify_subscribers V e ev s) = st_subs s"
proof -
  have "st_table (foldl (\<lambda>s sub. if sub_matches (en_key e) sub then st_send (su_conn_id sub) m p s else s) s subs) = st_table s
      \<and> st_subs (foldl (\<lambda>s sub. if sub_matches (en_key e) sub then st_send (su_conn_id sub) m p s else s) s subs) = st_subs s" for m p subs
    by (induction subs arbitrary: s) (auto simp: st_send_def)
  then show "st_table (notify_subscribers V e ev s) = st_table s" "st_subs (notify_subscribers V e ev s) = st_subs s"
    by (simp_all add: notify_subscribers_def)
qed


text \<open>A put request on the wire, and what the handler does with it.\<close>

definition put_request :: "u64 \<Rightarrow> u64 \<Rightarrow> u8 \<Rightarrow> bytes \<Rightarrow> bytes \<Rightarrow> bytes" where
  "put_request rid ttl flags key value =
     store_put_payload_enc \<lparr> pp_request_id = rid, pp_ttl_s = ttl, pp_key_len = word_of_nat (length key),
       pp_value_len = word_of_nat (length value), pp_flags = flags, pp_pad = replicate 3 0 \<rparr> @ key @ value"

definition get_request :: "u64 \<Rightarrow> u8 \<Rightarrow> u32 \<Rightarrow> bytes \<Rightarrow> bytes" where
  "get_request rid query_type max_results key =
     store_get_payload_enc \<lparr> gp_request_id = rid, gp_key_len = word_of_nat (length key), gp_query_type = query_type,
       gp_pad = 0, gp_max_results = max_results \<rparr> @ key"

lemma unat_len16: "n < 65536 \<Longrightarrow> unat (word_of_nat n :: u16) = n"
  by (simp add: unat_of_nat)

lemma on_put_request:
  assumes "length key \<le> 128" "length value \<le> 4096" "sv_writable V"
  shows "on_put V peer (put_request rid ttl flags key value) s =
    (PROPAGATION_CONSUMED, notify_subscribers V
       \<lparr> en_key = key, en_value = value, en_timestamp_us = sv_now V, en_ttl_s = ttl, en_flags = flags \<rparr> 0
       (st_send peer MSG_TYPE_SYS_STORE_RESULT (serialize_result rid [] 0)
          (s\<lparr> st_table := snd (sq_put True (sv_now V) key value ttl flags (st_table s)) \<rparr>)))"
proof -
  let ?p = "\<lparr> pp_request_id = rid, pp_ttl_s = ttl, pp_key_len = word_of_nat (length key),
       pp_value_len = word_of_nat (length value), pp_flags = flags, pp_pad = replicate 3 0 \<rparr>"
  have wf: "store_put_payload_wf ?p" by (simp add: store_put_payload_wf_def)
  have k: "unat (word_of_nat (length key) :: u16) = length key" "unat (word_of_nat (length value) :: u16) = length value"
    using assms by (simp_all add: unat_len16)
  have lim: "\<not> (word_of_nat (length key) :: u16) > STORE_KEY_MAX_LEN" "\<not> (word_of_nat (length value) :: u16) > STORE_VALUE_MAX_LEN"
    using assms k by (simp_all add: word_less_nat_alt STORE_KEY_MAX_LEN_def STORE_VALUE_MAX_LEN_def)
  have ex: "extract_kv (put_request rid ttl flags key value) 24 (word_of_nat (length key)) (word_of_nat (length value)) = Some (key, value)"
    using put_pl.length_enc [OF wf] by (simp add: extract_kv_def put_request_def k)
  have zero: "\<not> (key = [] \<and> (word_of_nat (length key) :: u16) > 0)" by auto
  have ok: "fst (sq_put True ts k v t f tb)" for ts k v t f tb by (simp add: sq_put_def Let_def)
  show ?thesis
    using put_pl.dec_enc [OF wf] put_pl.length_enc [OF wf] lim ex zero assms(3) ok [of "sv_now V" key "value" ttl flags "st_table s"]
    by (auto simp: on_put_def sqlite_put_def put_request_def Let_def split: prod.splits)
qed


subsection \<open>Importing\<close>

lemma import_table_ok [simp]: "table_ok t \<Longrightarrow> table_ok (import_entry V e t)"
  by (simp add: import_entry_def Let_def)

lemma get_import:
  assumes "table_ok t" "sv_writable V" "0 \<notin> set k" "0 \<notin> set (en_key e)" "entry_live (sv_now V) (en_ttl_s e) (sv_now V)"
  shows "sq_get (sv_now V) k (import_entry V e t) =
    (if k = en_key e \<and> (sq_get (sv_now V) k t = None \<or> en_timestamp_us (the (sq_get (sv_now V) k t)) < en_timestamp_us e)
     then Some (e\<lparr> en_timestamp_us := sv_now V \<rparr>) else sq_get (sv_now V) k t)"
proof -
  have "\<lparr> en_key = en_key e, en_value = en_value e, en_timestamp_us = sv_now V, en_ttl_s = en_ttl_s e, en_flags = en_flags e \<rparr>
      = e\<lparr> en_timestamp_us := sv_now V \<rparr>" by (cases e) simp
  then show ?thesis
    using assms sqlite.get_put [OF assms(1), of "en_key e" "sv_now V" "sv_now V" "en_value e" "en_ttl_s e" "en_flags e"]
      sqlite.get_put_other [OF assms(1), of k "en_key e" "sv_now V" "sv_now V" "en_value e" "en_ttl_s e" "en_flags e"]
    by (auto simp: import_entry_def Let_def)
qed

definition import_ok :: "store_env \<Rightarrow> entry \<Rightarrow> bool" where
  "import_ok V e \<longleftrightarrow> entry_wf e \<and> 0 \<notin> set (en_key e) \<and> entry_live (sv_now V) (en_ttl_s e) (sv_now V)"

lemma get_import_list:
  assumes "table_ok t" "sv_writable V" "0 \<notin> set k" "list_all (import_ok V) es" "distinct (map en_key es)"
  shows "sq_get (sv_now V) k (foldl (\<lambda>t e. import_entry V e t) t es) =
    (case List.find (\<lambda>e. en_key e = k) es of
       None \<Rightarrow> sq_get (sv_now V) k t
     | Some e \<Rightarrow> if sq_get (sv_now V) k t = None \<or> en_timestamp_us (the (sq_get (sv_now V) k t)) < en_timestamp_us e
                 then Some (e\<lparr> en_timestamp_us := sv_now V \<rparr>) else sq_get (sv_now V) k t)"
  using assms
proof (induction es arbitrary: t)
  case (Cons e es)
  have g: "sq_get (sv_now V) k (import_entry V e t) =
    (if k = en_key e \<and> (sq_get (sv_now V) k t = None \<or> en_timestamp_us (the (sq_get (sv_now V) k t)) < en_timestamp_us e)
     then Some (e\<lparr> en_timestamp_us := sv_now V \<rparr>) else sq_get (sv_now V) k t)"
    using Cons.prems by (intro get_import) (auto simp: import_ok_def)
  have none: "List.find (\<lambda>e. en_key e = k) es = None" if "k = en_key e"
    using Cons.prems(5) that by (force simp: find_None_iff image_iff)
  show ?case
    using Cons.IH [of "import_entry V e t"] Cons.prems g none by (auto split: option.splits)
qed simp

subsection \<open>Properties\<close>


definition demo_store_env :: "u64 \<Rightarrow> store_env" where
  "demo_store_env now = \<lparr> sv_now = now, sv_writable = True \<rparr>"

definition demo_store :: store where
  "demo_store = \<lparr> st_table = [], st_subs = [], st_sent = [] \<rparr>"


text \<open>
  Synchronisation copies: the message a store sends for a sync request, given to
  another store, leaves there, for every entry sent, the entry's value, TTL and flags, unless the
  receiving store has an entry of that key that is not older; all other keys are untouched.
\<close>

theorem sync_copies_entries:
  fixes s u :: store and V V' :: store_env and since :: u64
  defines "es \<equiv> take 255 (sq_get_since (sv_now V) since 256 (st_table s))"
  assumes req: "req = store_sync_payload_enc \<lparr> sy_request_id = rid, sy_sync_type = 0, sy_entry_count = 0,
      sy_pad = replicate 2 0, sy_since_timestamp = since \<rparr>"
    and ok: "table_ok (st_table u)" "sv_writable V'" "list_all (import_ok V') es" "distinct (map en_key es)" "0 \<notin> set k"
  shows "\<exists>buf. on_sync V p req s = (PROPAGATION_CONSUMED, st_send p MSG_TYPE_SYS_STORE_SYNC buf s)
    \<and> (let (r, u') = on_sync V' q buf u; old = sq_get (sv_now V') k (st_table u)
       in r = PROPAGATION_CONSUMED \<and> sq_get (sv_now V') k (st_table u') =
         (case List.find (\<lambda>e. en_key e = k) es of
            None \<Rightarrow> old
          | Some e \<Rightarrow> if old = None \<or> en_timestamp_us (the old) < en_timestamp_us e
                      then Some (e\<lparr> en_timestamp_us := sv_now V' \<rparr>) else old))"
proof -
  let ?all = "sq_get_since (sv_now V) since 256 (st_table s)"
  let ?n = "min (length ?all) 255"
  let ?q = "\<lparr> sy_request_id = rid, sy_sync_type = 0, sy_entry_count = 0, sy_pad = replicate 2 0, sy_since_timestamp = since \<rparr>"
  let ?h = "\<lparr> sy_request_id = rid, sy_sync_type = 1, sy_entry_count = word_of_nat ?n, sy_pad = replicate 2 0, sy_since_timestamp = 0 \<rparr>"
  define buf where "buf = store_sync_payload_enc ?h @ concat (map serialize_entry (take ?n ?all))"
  have wf: "store_sync_payload_wf ?q" "store_sync_payload_wf ?h" by (simp_all add: store_sync_payload_wf_def)
  have es: "take ?n ?all = es" "length es = ?n" unfolding es_def by (simp_all add: min_def)
  have n: "unat (word_of_nat ?n :: u8) = ?n" by (simp add: unat_of_nat)
  have sent: "on_sync V p req s = (PROPAGATION_CONSUMED, st_send p MSG_TYPE_SYS_STORE_SYNC buf s)"
    using sync_pl.dec_exact [OF wf(1)] sync_pl.length_enc [OF wf(1)] by (simp add: on_sync_def req buf_def Let_def)
  have "list_all entry_wf es" using ok(3) by (simp add: list_all_iff import_ok_def)
  from import_serialized [OF this, of V' "[]"]
  have imp: "import_entries V' ?n (concat (map serialize_entry es)) t = foldl (\<lambda>t e. import_entry V' e t) t es" for t
    by (simp add: es(2))
  have "on_sync V' q buf u = (PROPAGATION_CONSUMED, u\<lparr> st_table := foldl (\<lambda>t e. import_entry V' e t) (st_table u) es \<rparr>)"
    using sync_pl.dec_enc [OF wf(2)] sync_pl.length_enc [OF wf(2)] sync_pl.drop_enc [OF wf(2)] imp
    by (simp add: on_sync_def buf_def Let_def es(1) n del: import_entries.simps)
  then show ?thesis
    using sent get_import_list [OF ok(1,2,5,3,4)] by (intro exI [of _ buf]) (simp add: Let_def)
qed

definition demo_entry :: "u64 \<Rightarrow> bytes \<Rightarrow> entry" where
  "demo_entry ts v = \<lparr> en_key = [112], en_value = v, en_timestamp_us = ts, en_ttl_s = 0, en_flags = 0 \<rparr>"

definition demo_source :: store where
  "demo_source = demo_store\<lparr> st_table := snd (sq_put True 3 [112] [9] 0 0 []) \<rparr>"

lemma demo_sync: "take 255 (sq_get_since (sv_now (demo_store_env 4)) 0 256 (st_table demo_source)) = [demo_entry 3 [9]]"
  by (simp add: sq_get_since_def demo_source_def sq_put_def row_live_def row_to_entry_def limited_def demo_entry_def)

lemma demo_import_ok: "import_ok (demo_store_env n) (demo_entry ts v) = (length v < 65536)"
  by (simp add: import_ok_def entry_wf_def demo_entry_def entry_live_def)

theorem sync_copies_entries_witness:
  "\<exists>buf. on_sync (demo_store_env 4) 1 (store_sync_payload_enc \<lparr> sy_request_id = 1, sy_sync_type = 0, sy_entry_count = 0,
        sy_pad = replicate 2 0, sy_since_timestamp = 0 \<rparr>) demo_source
      = (PROPAGATION_CONSUMED, st_send 1 MSG_TYPE_SYS_STORE_SYNC buf demo_source)
    \<and> (let (r, u') = on_sync (demo_store_env 8) 2 buf demo_store in sq_get 8 [112] (st_table u') = Some (demo_entry 8 [9]))"
proof -
  have h: "table_ok (st_table demo_store)" "sv_writable (demo_store_env 8)" "0 \<notin> set [112 :: byte]" "sv_now (demo_store_env 8) = 8"
    "sq_get 8 [112] (st_table demo_store) = None"
    by (simp_all add: demo_store_def table_ok_def demo_store_env_def sq_get_def)
  have "list_all (import_ok (demo_store_env 8)) [demo_entry 3 [9]]" "distinct (map en_key [demo_entry 3 [9]])"
    by (simp_all add: demo_import_ok)
  note c = sync_copies_entries [OF refl h(1,2) _ _ h(3), of "demo_store_env 4" 0 demo_source 1 1 2, unfolded demo_sync, OF this]
  have "List.find (\<lambda>e. en_key e = [112]) [demo_entry 3 [9]] = Some (demo_entry 3 [9])"
    "(demo_entry 3 [9])\<lparr> en_timestamp_us := 8 \<rparr> = demo_entry 8 [9]" by (simp_all add: demo_entry_def)
  note d = c [unfolded this(1) h(4) h(5) Let_def] this(2)
  show ?thesis
    by (rule exE [OF d(1)], rule exI, rule conjI, erule conjunct1) (auto simp: d(2) Let_def split: prod.splits)
qed

text \<open>
  Synchronisation can keep a stale entry for good: an imported entry is stored with
  the time of the import instead of its own, so a newer version of it, changed at the source
  before that import, is refused ever after.
\<close>

theorem sync_refuses_newer:
  assumes "table_ok t" "sv_writable V" "import_ok V e1" "sq_get (sv_now V) (en_key e1) t = None"
    "en_key e2 = en_key e1" "en_timestamp_us e1 < en_timestamp_us e2" "en_timestamp_us e2 \<le> sv_now V"
    "entry_live (sv_now V) (en_ttl_s e1) (sv_now V')"
  shows "let t1 = import_entry V e1 t
    in import_entry V' e2 t1 = t1 \<and> map_option en_value (sq_get (sv_now V') (en_key e2) t1) = Some (en_value e1)"
proof -
  have "import_entry V e1 t = snd (sq_put True (sv_now V) (en_key e1) (en_value e1) (en_ttl_s e1) (en_flags e1) t)"
    using assms(2,4) by (simp add: import_entry_def Let_def)
  then have g: "sq_get (sv_now V') (en_key e1) (import_entry V e1 t) =
      Some \<lparr> en_key = en_key e1, en_value = en_value e1, en_timestamp_us = sv_now V, en_ttl_s = en_ttl_s e1, en_flags = en_flags e1 \<rparr>"
    using sqlite.get_put [OF assms(1), of "en_key e1" "sv_now V'"] assms(3,8) by (simp add: import_ok_def)
  then have "import_entry V' e2 (import_entry V e1 t) = import_entry V e1 t"
    using assms(5) leD [OF assms(7)] unfolding import_entry_def [of V' e2] by simp
  then show ?thesis using g assms(5) by simp
qed

theorem sync_refuses_newer_witness:
  "let t1 = import_entry (demo_store_env 8) (demo_entry 3 [9]) []
   in import_entry (demo_store_env 9) (demo_entry 5 [10]) t1 = t1"
proof -
  have "table_ok []" "sv_writable (demo_store_env 8)" "import_ok (demo_store_env 8) (demo_entry 3 [9])"
    "sq_get (sv_now (demo_store_env 8)) (en_key (demo_entry 3 [9])) [] = None" "en_key (demo_entry 5 [10]) = en_key (demo_entry 3 [9])"
    "en_timestamp_us (demo_entry 3 [9]) < en_timestamp_us (demo_entry 5 [10])" "en_timestamp_us (demo_entry 5 [10]) \<le> sv_now (demo_store_env 8)"
    "entry_live (sv_now (demo_store_env 8)) (en_ttl_s (demo_entry 3 [9])) (sv_now (demo_store_env 9))"
    by (simp_all add: demo_import_ok) (simp_all add: table_ok_def demo_store_env_def sq_get_def demo_entry_def entry_live_def)
  from sync_refuses_newer [OF this] show ?thesis by (simp add: Let_def)
qed

text \<open>
  A query or a deletion whose key is empty, or was cut off on the way, is neither rejected nor
  answered for the empty key: its view is null, so an exact query finds nothing even when a value
  was put under the empty key, the prefix query meant to list all keys finds nothing either, and
  nothing is deleted.
\<close>

definition delete_request :: "u64 \<Rightarrow> bytes \<Rightarrow> bytes" where
  "delete_request rid key =
     store_delete_payload_enc \<lparr> dp_request_id = rid, dp_key_len = word_of_nat (length key), dp_pad = replicate 6 0 \<rparr> @ key"

lemma cut_off_key:
  assumes "length key \<le> 128" "n < length key \<or> key = []" "length h = 16"
  shows "request_key (h @ take n key) 16 (word_of_nat (length key)) = None" "\<not> (word_of_nat (length key) :: u16) > STORE_KEY_MAX_LEN"
proof -
  have k: "unat (word_of_nat (length key) :: u16) = length key" using assms(1) by (simp add: unat_len16)
  show "\<not> (word_of_nat (length key) :: u16) > STORE_KEY_MAX_LEN"
    using assms(1) k by (simp add: word_less_nat_alt STORE_KEY_MAX_LEN_def)
  show "request_key (h @ take n key) 16 (word_of_nat (length key)) = None"
    using assms(2,3) k by (auto simp: request_key_def)
qed

theorem null_key_finds_nothing:
  assumes "length key \<le> 128" "n < length key \<or> key = []"
  shows "on_get V p (take (16 + n) (get_request rid qt mr key)) s
      = (PROPAGATION_CONSUMED, st_send p MSG_TYPE_SYS_STORE_RESULT (serialize_result rid [] 1) s)
    \<and> on_delete V p (take (16 + n) (delete_request rid key)) s
      = (PROPAGATION_CONSUMED, st_send p MSG_TYPE_SYS_STORE_RESULT (serialize_result rid [] 1) s)"
proof
  let ?g = "\<lparr> gp_request_id = rid, gp_key_len = word_of_nat (length key), gp_query_type = qt, gp_pad = 0, gp_max_results = mr \<rparr>"
  let ?d = "\<lparr> dp_request_id = rid, dp_key_len = word_of_nat (length key), dp_pad = replicate 6 0 \<rparr>"
  have wf: "store_delete_payload_wf ?d" by (simp add: store_delete_payload_wf_def)
  have t: "take (16 + n) (get_request rid qt mr key) = store_get_payload_enc ?g @ take n key"
    "take (16 + n) (delete_request rid key) = store_delete_payload_enc ?d @ take n key"
    using get_pl.length_enc [of ?g] delete_pl.length_enc [OF wf] by (simp_all add: get_request_def delete_request_def)
  show "on_get V p (take (16 + n) (get_request rid qt mr key)) s
      = (PROPAGATION_CONSUMED, st_send p MSG_TYPE_SYS_STORE_RESULT (serialize_result rid [] 1) s)"
    unfolding t using get_pl.dec_enc [of ?g "take n key"] get_pl.length_enc [of ?g] cut_off_key [OF assms, of "store_get_payload_enc ?g"]
    by (simp add: on_get_def sqlite_get_def sqlite_get_prefix_def Let_def)
  show "on_delete V p (take (16 + n) (delete_request rid key)) s
      = (PROPAGATION_CONSUMED, st_send p MSG_TYPE_SYS_STORE_RESULT (serialize_result rid [] 1) s)"
    unfolding t using delete_pl.dec_enc [OF wf, of "take n key"] delete_pl.length_enc [OF wf] cut_off_key [OF assms, of "store_delete_payload_enc ?d"]
    by (simp add: on_delete_def sqlite_del_def Let_def)
qed

theorem null_key_finds_nothing_witness:
  "let s1 = snd (on_put (demo_store_env 3) 1 (put_request 5 0 0 [] [9]) demo_store)
   in st_table s1 \<noteq> []
     \<and> on_get (demo_store_env 4) 1 (get_request 6 0 0 []) s1
       = (PROPAGATION_CONSUMED, st_send 1 MSG_TYPE_SYS_STORE_RESULT (serialize_result 6 [] 1) s1)"
proof -
  have "sv_writable (demo_store_env 3)" by (simp add: demo_store_env_def)
  then have "st_table (snd (on_put (demo_store_env 3) 1 (put_request 5 0 0 [] [9]) demo_store)) \<noteq> []"
    by (simp add: on_put_request sq_put_def st_send_def Let_def)
  then show ?thesis
    using null_key_finds_nothing [of "[]" 0 "demo_store_env 4" 1 6 0 0 "snd (on_put (demo_store_env 3) 1 (put_request 5 0 0 [] [9]) demo_store)"]
      get_pl.length_enc [of "\<lparr> gp_request_id = 6, gp_key_len = 0, gp_query_type = 0, gp_pad = 0, gp_max_results = 0 \<rparr>"]
    by (simp add: get_request_def Let_def)
qed

end
