(* ===== verification/Store_App.thy ===== *)
theory Store_App
  imports Node_Core Store_Handler
begin

section \<open>The store application\<close>

text \<open>
  \<open>apps/store/store_app.cpp\<close> and \<open>StoreHandler::start\<close>/\<open>stop\<close> of \<open>apps/store/handler.cpp\<close>: a core, the
  backend and the handler are created, the handler subscribes to the messages of the store at the
  bus, and a thread cleans the table up. A function given to \<open>Core::subscribe\<close> is an entry of the
  bus without a plugin name, identified by its number. Opening the database is a parameter:
  the table found behind a path, or nothing when SQLite refuses it. Threads are flags of the state
  and the events that they cause.
\<close>

record store_config =
  sc_listen_address :: string
  sc_listen_port :: u16
  sc_backend_type :: string
  sc_db_path :: string
  sc_cleanup_interval_s :: u32
  sc_seed_peers :: "string list"

definition default_store_config :: store_config where
  "default_store_config = \<lparr> sc_listen_address = ''0.0.0.0'', sc_listen_port = 25566, sc_backend_type = ''sqlite'',
     sc_db_path = ''store.db'', sc_cleanup_interval_s = 600, sc_seed_peers = [] \<rparr>"

record store_app =
  sa_cfg :: store_config
  sa_core :: core
  sa_store :: store
  sa_sub_ids :: "u64 list"
  sa_running :: bool
  sa_cleaning :: bool

datatype store_app_error = Core_failed core_error | Open_failed string | Unknown_backend string

subsection \<open>Construction\<close>

definition store_core_config :: "store_config \<Rightarrow> config" where
  "store_core_config cfg = default_config
     \<lparr> cf_core := (cf_core default_config)\<lparr> listen_port := ucast (sc_listen_port cfg), listen_address := sc_listen_address cfg \<rparr>,
       cf_plugins := (cf_plugins default_config)\<lparr> auto_load := False \<rparr> \<rparr>"

definition store_app_construct :: "core_env \<Rightarrow> (string \<Rightarrow> table option) \<Rightarrow> store_config \<Rightarrow> key_state
    \<Rightarrow> store_app_error + (store_app \<times> key_state)" where
  "store_app_construct C open_db cfg st =
     (case core_construct C (store_core_config cfg) st of Inl e \<Rightarrow> Inl (Core_failed e)
      | Inr (k, st1) \<Rightarrow>
          if sc_backend_type cfg \<noteq> ''sqlite'' then Inl (Unknown_backend (sc_backend_type cfg))
          else case open_db (sc_db_path cfg) of None \<Rightarrow> Inl (Open_failed (sc_db_path cfg))
            | Some t \<Rightarrow> Inr (\<lparr> sa_cfg = cfg, sa_core = k, sa_store = \<lparr> st_table = t, st_subs = [], st_sent = [] \<rparr>,
                               sa_sub_ids = [], sa_running = False, sa_cleaning = False \<rparr>, st1))"

subsection \<open>Subscriptions of the handler\<close>

definition bus_function :: "nat \<Rightarrow> handler_t" where
  "bus_function i = \<lparr> h_ident = i, h_name = None, h_info_priority = None, h_types = [], h_has_message = True, h_has_result = True,
     h_has_conn_state = False \<rparr>"

definition core_subscribe :: "u32 \<Rightarrow> string \<Rightarrow> handler_t \<Rightarrow> u8 \<Rightarrow> core \<Rightarrow> u64 \<times> core" where
  "core_subscribe t name cb prio k =
     (fst (subscribe t name cb prio (bus (nc_cm k))), upd_cm (upd_bus (\<lambda>b. snd (subscribe t name cb prio b))) k)"

definition core_unsubscribe :: "u64 \<Rightarrow> core \<Rightarrow> core" where
  "core_unsubscribe sid k = upd_cm (upd_bus (unsubscribe sid)) k"

definition MSG_TYPE_SYS_STORE_PUT :: u32 where "MSG_TYPE_SYS_STORE_PUT = 0x0600"
definition MSG_TYPE_SYS_STORE_GET :: u32 where "MSG_TYPE_SYS_STORE_GET = 0x0601"
definition MSG_TYPE_SYS_STORE_DELETE :: u32 where "MSG_TYPE_SYS_STORE_DELETE = 0x0603"
definition MSG_TYPE_SYS_STORE_SUBSCRIBE :: u32 where "MSG_TYPE_SYS_STORE_SUBSCRIBE = 0x0604"

text \<open>The calls of \<open>sub\<close> in \<open>start\<close>: the message types and the methods that are to handle them.\<close>

type_synonym store_handler_method = "store_env \<Rightarrow> conn_id \<Rightarrow> bytes \<Rightarrow> store \<Rightarrow> propagation_t \<times> store"

definition store_methods :: "(u32 \<times> store_handler_method) list" where
  "store_methods =
     [(MSG_TYPE_SYS_STORE_PUT, on_put), (MSG_TYPE_SYS_STORE_GET, on_get), (MSG_TYPE_SYS_STORE_DELETE, on_delete),
      (MSG_TYPE_SYS_STORE_SUBSCRIBE, on_subscribe), (MSG_TYPE_SYS_STORE_SYNC, on_sync)]"


definition handler_start :: "store_app \<Rightarrow> store_app" where
  "handler_start a =
     foldl (\<lambda>a (t, i). let (sid, k) = core_subscribe t ''store'' (bus_function i) 128 (sa_core a)
                       in a\<lparr> sa_sub_ids := sa_sub_ids a @ [sid], sa_core := k \<rparr>)
       a (zip (map fst store_methods) [0..<length store_methods])"

definition handler_stop :: "store_app \<Rightarrow> store_app" where
  "handler_stop a = a\<lparr> sa_core := foldl (\<lambda>k sid. core_unsubscribe sid k) (sa_core a) (sa_sub_ids a), sa_sub_ids := [] \<rparr>"

subsection \<open>Running and stopping\<close>

definition tracking_handler :: nat where "tracking_handler = 0"

definition setup_connection_tracking :: "store_app \<Rightarrow> store_app" where
  "setup_connection_tracking a =
     a\<lparr> sa_core := upd_cm (upd_bus (\<lambda>b. b\<lparr> on_conn_state := ev_connect tracking_handler (on_conn_state b) \<rparr>)) (sa_core a) \<rparr>"

text \<open>What the tracking function does with an event of the bus.\<close>

definition on_tracked_state :: "conn_id \<Rightarrow> conn_state_t \<Rightarrow> store_app \<Rightarrow> store_app" where
  "on_tracked_state c cst a =
     (if cst = STATE_CLOSED \<or> cst = STATE_CLOSING then a\<lparr> sa_store := st_on_disconnect c (sa_store a) \<rparr> else a)"

text \<open>\<open>run\<close> up to its blocking loop, which lasts while \<open>sa_running\<close> is set.\<close>

definition store_run :: "core_env \<Rightarrow> env \<Rightarrow> store_app \<Rightarrow> store_app" where
  "store_run C E a =
     (let a1 = a\<lparr> sa_running := True \<rparr>;
          a2 = a1\<lparr> sa_core := run_async C 0 (sa_core a1) \<rparr>;
          a3 = setup_connection_tracking (handler_start a2);
          a4 = a3\<lparr> sa_core := foldl (\<lambda>k peer. core_call E (EvConnect peer) k) (sa_core a3) (sc_seed_peers (sa_cfg a3)) \<rparr>
      in a4\<lparr> sa_cleaning := True \<rparr>)"

text \<open>A turn of the clean-up thread after its interval.\<close>

definition cleanup_turn :: "u64 \<Rightarrow> store_app \<Rightarrow> store_app" where
  "cleanup_turn now a =
     (if \<not> sa_cleaning a then a
      else if \<not> sa_running a then a\<lparr> sa_cleaning := False \<rparr>
      else a\<lparr> sa_store := (sa_store a)\<lparr> st_table := snd (sq_cleanup_expired now (st_table (sa_store a))) \<rparr> \<rparr>)"

text \<open>\<open>None\<close> while the core waits for dispatches in flight.\<close>

definition store_stop :: "store_app \<Rightarrow> store_app option" where
  "store_stop a =
     (if \<not> sa_running a then Some a
      else let a1 = handler_stop (a\<lparr> sa_running := False \<rparr>); a2 = a1\<lparr> sa_cleaning := False \<rparr>
           in map_option (\<lambda>k. a2\<lparr> sa_core := k \<rparr>) (core_stop (sa_core a2)))"

text \<open>\<open>main\<close> waits for the application's thread, which ends when its loop has seen the flag cleared.\<close>

definition app_thread_ends :: "store_app \<Rightarrow> bool" where
  "app_thread_ends a \<longleftrightarrow> \<not> sa_running a"

subsection \<open>Dispatch of a request\<close>



subsection \<open>Start and stop of the handler\<close>










lemma handler_start_inv:
  assumes step: "\<And>b g ids. P b \<Longrightarrow> P (b\<lparr> sa_sub_ids := ids, sa_core := upd_cm (upd_bus g) (sa_core b) \<rparr>)" and start: "P a"
  shows "P (handler_start a)"
proof -
  have "P (foldl (\<lambda>a (t, i). let (sid, k) = core_subscribe t n (f i) p (sa_core a) in a\<lparr> sa_sub_ids := sa_sub_ids a @ [sid], sa_core := k \<rparr>) a tis)"
    for n f p and tis :: "(u32 \<times> nat) list"
    using start by (induction tis arbitrary: a) (auto simp: core_subscribe_def intro: step)
  then show ?thesis by (simp add: handler_start_def)
qed


lemma connect_empty: "pipe_connect p n f [] = [\<lparr> en_priority = p, en_name = n, en_fn = f \<rparr>]"
  by (simp add: pipe_connect_def)


subsection \<open>Properties\<close>


definition demo_store_app :: store_app where
  "demo_store_app = \<lparr> sa_cfg = default_store_config,
     sa_core = \<lparr> nc_config = default_config, nc_identity = demo_identity,
       nc_pm = \<lparr> pm_handlers = [], pm_connectors = [], pm_log = [], pm_cm = cm_init fresh_bus demo_identity None \<rparr>,
       nc_running = True, nc_threads = 2, nc_timer = True, nc_stopped = False \<rparr>,
     sa_store = demo_store, sa_sub_ids = [], sa_running = True, sa_cleaning = False \<rparr>"


text \<open>
  A running store is cut off: it switches \<open>auto_load\<close> off, so that no connector is known to
  its manager, and connecting to the seed peers of its configuration calls no connector.
\<close>

theorem store_app_isolated:
  assumes start: "store_app_construct C open_db cfg st = Inr (a, st1)" and C: "plugins_ok C"
  shows "connectors (nc_cm (sa_core (store_run C E a))) = []
    \<and> ext_calls (nc_cm (sa_core (store_run C E a))) = ext_calls (nc_cm (sa_core a))"
proof -
  define P where "P = (\<lambda>k. connectors (nc_cm k) = [] \<and> ext_calls (nc_cm k) = ext_calls (nc_cm (sa_core a)))"
  have k: "core_construct C (store_core_config cfg) st = Inr (sa_core a, st1)"
    using start by (auto simp: store_app_construct_def split: sum.splits if_splits option.splits)
  have a: "P (sa_core a)"
    using static_plugins_unregistered [OF k C] by (simp add: P_def store_core_config_def)
  have bus: "P (upd_cm (upd_bus g) k)" if "P k" for g k using that by (simp add: P_def upd_cm_def upd_bus_def)
  have "P (run_async C 0 k)" if "P k" for k using that by (simp add: P_def run_async_def Let_def)
  moreover have "P (sa_core (handler_start b))" if "P (sa_core b)" for b
    using that bus by (intro handler_start_inv [where P = "\<lambda>b. P (sa_core b)"]) simp_all
  moreover have "P (foldl (\<lambda>k peer. core_call E (EvConnect peer) k) k peers)" if "P k" for k peers
    using that by (induction peers arbitrary: k) (simp_all add: P_def core_call_def upd_cm_def cm_connect_def find_connector_def)
  ultimately have "P (sa_core (store_run C E a))"
    using a bus by (simp add: store_run_def setup_connection_tracking_def Let_def)
  then show ?thesis by (simp add: P_def)
qed

theorem store_app_isolated_witness:
  "\<exists>a st1. store_app_construct demo_core_env (\<lambda>_. Some []) (default_store_config\<lparr> sc_seed_peers := [''tcp://10.0.0.1:25566''] \<rparr>)
       \<lparr> ks_files = demo_fs, ks_draws = 3 \<rparr> = Inr (a, st1)
     \<and> connectors (nc_cm (sa_core (store_run demo_core_env demo_env a))) = []
     \<and> ext_calls (nc_cm (sa_core (store_run demo_core_env demo_env a))) = ext_calls (nc_cm (sa_core a))"
proof -
  let ?cfg = "default_store_config\<lparr> sc_seed_peers := [''tcp://10.0.0.1:25566''] \<rparr>" and ?st = "\<lparr> ks_files = demo_fs, ks_draws = 3 \<rparr>"
  let ?id = "(cf_identity (store_core_config ?cfg))\<lparr> id_dir := expand_home demo_identity_env (id_dir (cf_identity (store_core_config ?cfg))) \<rparr>"
  have "use_machine_id ?id" by (simp add: store_core_config_def default_config_def)
  then obtain ident st1 where id: "load_or_generate demo_identity_env ?id ?st = Inr (ident, st1)" by (rule demo_identity_start)
  have env: "ce_identity demo_core_env = demo_identity_env" by (simp add: demo_core_env_def)
  have auto: "\<not> auto_load (cf_plugins (store_core_config ?cfg))" by (simp add: store_core_config_def)
  obtain k where "core_construct demo_core_env (store_core_config ?cfg) ?st = Inr (k, st1)"
    unfolding core_construct_def Let_def env using id auto by (simp add: start_plugins_def)
  then obtain a where "store_app_construct demo_core_env (\<lambda>_. Some []) ?cfg ?st = Inr (a, st1)"
    by (simp add: store_app_construct_def default_store_config_def)
  then show ?thesis using store_app_isolated [OF _ demo_plugins_ok] by blast
qed

text \<open>
  A stop that comes before the application's thread has set \<open>running_\<close> is lost: the thread then runs,
  and \<open>main\<close> waits for it without end.
\<close>

lemma early_stop_lost:
  assumes "\<not> sa_running a"
  shows "store_stop a = Some a \<and> \<not> app_thread_ends (store_run C E a)"
proof -
  have "sa_running (handler_start b)" if "sa_running b" for b by (rule handler_start_inv [where P = sa_running]) (simp_all add: that)
  then show ?thesis using assms by (simp add: store_stop_def store_run_def app_thread_ends_def setup_connection_tracking_def Let_def)
qed

subsection \<open>Cleaning up\<close>

lemma cleanup_live:
  assumes "now_s now \<le> now_s now'"
  shows "filter (\<lambda>r. P r \<and> row_live (now_s now') r) (snd (sq_cleanup_expired now t)) = filter (\<lambda>r. P r \<and> row_live (now_s now') r) t"
  using assms by (auto simp: sq_cleanup_expired_def row_live_def Let_def intro!: filter_cong)

lemma find_filter_hd: "List.find P xs = (case filter P xs of [] \<Rightarrow> None | x # _ \<Rightarrow> Some x)"
  by (induction xs) auto

text \<open>
  Property C28. A turn of the clean-up thread cannot be noticed: from then on every lookup, prefix query
  and synchronisation request gives what it would have given without it, and the table stays a
  table with one row for each key.
\<close>

theorem cleanup_invisible:
  fixes a :: store_app and now :: u64
  assumes "now_s now \<le> now_s now'"
  defines "t \<equiv> st_table (sa_store a)" and "t' \<equiv> st_table (sa_store (cleanup_turn now a))"
  shows "(table_ok t \<longrightarrow> table_ok t') \<and> sq_get now' k t' = sq_get now' k t
    \<and> sq_get_prefix now' k m t' = sq_get_prefix now' k m t \<and> sq_get_since now' since m t' = sq_get_since now' since m t"
proof (cases "sa_cleaning a \<and> sa_running a")
  case True
  then have t': "t' = snd (sq_cleanup_expired now t)" by (simp add: t'_def t_def cleanup_turn_def)
  show ?thesis
    unfolding t' sq_get_def sq_get_prefix_def sq_get_since_def find_filter_hd
    using cleanup_live [OF assms(1), of _ t] cleanup_live [OF assms(1), of "\<lambda>r. k \<le> ro_key r \<and> ro_key r < prefix_end k" t] by simp
next
  case False
  then have "t' = t" by (auto simp: t'_def t_def cleanup_turn_def)
  then show ?thesis by simp
qed

theorem cleanup_invisible_witness:
  "let a = demo_store_app\<lparr> sa_cleaning := True, sa_store := demo_store\<lparr> st_table := [\<lparr> ro_key = [112], ro_value = [9], ro_timestamp_us = 5,
         ro_ttl_s = 7, ro_expires_at = 7, ro_flags = 0 \<rparr>] \<rparr> \<rparr>
   in st_table (sa_store (cleanup_turn 8000000 a)) = []
      \<and> sq_get 9000000 [112] (st_table (sa_store (cleanup_turn 8000000 a))) = sq_get 9000000 [112] (st_table (sa_store a))"
proof -
  have n: "now_s 8000000 = 8" "now_s 8000000 \<le> now_s 9000000" by (simp_all add: now_s_def)
  show ?thesis
    unfolding Let_def
  proof (rule conjI [OF _ cleanup_invisible [OF n(2), THEN conjunct2, THEN conjunct1]])
  qed (simp add: cleanup_turn_def demo_store_app_def sq_cleanup_expired_def n(1))
qed

end
