(* ===== verification/C_Api.thy ===== *)
theory C_Api
  imports Store_App
begin

section \<open>The C interface\<close>

text \<open>
  \<open>src/capi.cpp\<close> over the core: a handle owns a configuration and a core, and a process-wide table
  maps subscription tokens to C callbacks. A null handle is \<open>None\<close>. A callback runs while the lock of
  the table is held, so it can act on the core but not on the table. An exception of the
  constructor leaves \<open>gn_core_create\<close> as an error. \<open>gn_version\<close>, which returns a constant of the
  build, is left out; the JSON dump is in the theory \<open>Diagnostics\<close>.
\<close>

record gn_config_t =
  gc_config_dir :: "string option"
  gc_log_level :: "string option"
  gc_listen_port :: u16

record csub_state =
  cs_cb :: nat
  cs_user_data :: nat

record capi =
  ca_core :: "core option"
  ca_subs :: "(u64 \<times> csub_state) list"
  ca_token :: u64

subsection \<open>Lifecycle\<close>

definition apply_config :: "gn_config_t option \<Rightarrow> config \<Rightarrow> config" where
  "apply_config cfg c =
     (case cfg of None \<Rightarrow> c
      | Some g \<Rightarrow>
          (let c1 = (case gc_config_dir g of Some d \<Rightarrow> c\<lparr> cf_identity := (cf_identity c)\<lparr> id_dir := d \<rparr> \<rparr> | None \<Rightarrow> c);
               c2 = (case gc_log_level g of Some l \<Rightarrow> c1\<lparr> cf_logging := (cf_logging c1)\<lparr> log_level := l \<rparr> \<rparr> | None \<Rightarrow> c1)
           in c2\<lparr> cf_core := (cf_core c2)\<lparr> listen_port := ucast (gc_listen_port g) \<rparr> \<rparr>))"

definition gn_core_create :: "core_env \<Rightarrow> gn_config_t option \<Rightarrow> key_state \<Rightarrow> capi \<Rightarrow> core_error + (capi \<times> key_state)" where
  "gn_core_create C cfg st a =
     (case core_construct C (apply_config cfg default_config) st of Inl e \<Rightarrow> Inl e
      | Inr (k, st1) \<Rightarrow> Inr (a\<lparr> ca_core := Some k \<rparr>, st1))"

text \<open>The destructor of the core stops it first; \<open>None\<close> while it waits for dispatches in flight.\<close>

definition gn_core_destroy :: "capi \<Rightarrow> capi option" where
  "gn_core_destroy a =
     (case ca_core a of None \<Rightarrow> Some a | Some k \<Rightarrow> (case core_stop k of None \<Rightarrow> None | Some _ \<Rightarrow> Some (a\<lparr> ca_core := None \<rparr>)))"

definition with_core :: "(core \<Rightarrow> core) \<Rightarrow> capi \<Rightarrow> capi" where
  "with_core f a = a\<lparr> ca_core := map_option f (ca_core a) \<rparr>"

definition gn_core_run_async :: "core_env \<Rightarrow> int \<Rightarrow> capi \<Rightarrow> capi" where
  "gn_core_run_async C threads a = with_core (run_async C threads) a"

definition gn_core_stop :: "capi \<Rightarrow> capi option" where
  "gn_core_stop a = (case ca_core a of None \<Rightarrow> Some a | Some k \<Rightarrow> map_option (\<lambda>k'. a\<lparr> ca_core := Some k' \<rparr>) (core_stop k))"

definition gn_core_reload_config :: "json_lib \<Rightarrow> file_system \<Rightarrow> capi \<Rightarrow> int \<times> capi" where
  "gn_core_reload_config J F a =
     (case ca_core a of None \<Rightarrow> (-1, a)
      | Some k \<Rightarrow> (let (ok, k') = reload_config J F k in (if ok then 0 else -1, a\<lparr> ca_core := Some k' \<rparr>)))"

definition gn_core_is_running :: "capi \<Rightarrow> int" where
  "gn_core_is_running a = (case ca_core a of None \<Rightarrow> 0 | Some k \<Rightarrow> if nc_running k then 1 else 0)"

subsection \<open>Network\<close>

definition gn_core_send :: "env \<Rightarrow> string \<Rightarrow> u32 \<Rightarrow> bytes \<Rightarrow> capi \<Rightarrow> capi" where
  "gn_core_send E uri t data a = with_core (core_call E (EvSendUri uri t data)) a"

definition gn_core_broadcast :: "env \<Rightarrow> u32 \<Rightarrow> bytes \<Rightarrow> capi \<Rightarrow> capi" where
  "gn_core_broadcast E t data a = with_core (core_call E (EvBroadcast t data)) a"

definition gn_core_disconnect :: "env \<Rightarrow> conn_id \<Rightarrow> capi \<Rightarrow> capi" where
  "gn_core_disconnect E c a = with_core (core_call E (EvDisconnect c)) a"

definition gn_core_rekey :: "env \<Rightarrow> conn_id \<Rightarrow> capi \<Rightarrow> int \<times> capi" where
  "gn_core_rekey E c a =
     (case ca_core a of None \<Rightarrow> (-1, a)
      | Some k \<Rightarrow> (if fst (rekey_session E c (nc_cm k)) then 0 else -1, with_core (core_call E (EvRekey c)) a))"

subsection \<open>Identity and statistics\<close>

text \<open>
  The buffer is its old contents, of which the first bytes are overwritten; \<open>None\<close> is a null pointer.
\<close>

definition copy_text :: "string \<Rightarrow> bytes option \<Rightarrow> nat \<Rightarrow> nat \<times> bytes option" where
  "copy_text txt buffer max_len =
     (case buffer of None \<Rightarrow> (0, None)
      | Some old \<Rightarrow>
          if max_len = 0 then (0, Some old)
          else let len = min (length txt) (max_len - 1)
               in (len, Some (bytes_of_string (take len txt) @ [0] @ drop (len + 1) old)))"

definition gn_core_get_user_pubkey :: "capi \<Rightarrow> bytes option \<Rightarrow> nat \<Rightarrow> nat \<times> bytes option" where
  "gn_core_get_user_pubkey a buffer max_len =
     (case ca_core a of None \<Rightarrow> (0, buffer) | Some k \<Rightarrow> copy_text (bytes_to_hex (user_pubkey (nc_identity k))) buffer max_len)"

record gn_stats_t =
  gs_counters :: "u64 list"
  gs_connections :: u32
  gs_total_conn :: u32
  gs_total_disc :: u32
  gs_drops :: "u64 list"
  gs_dispatch_lat_avg :: u64

definition gn_core_get_stats :: "capi \<Rightarrow> gn_stats_t option \<Rightarrow> gn_stats_t option" where
  "gn_core_get_stats a out =
     (case (ca_core a, out) of
        (Some k, Some _) \<Rightarrow>
          (let s = stats_snapshot (bus (nc_cm k))
           in Some \<lparr> gs_counters = [rx_bytes s, tx_bytes s, rx_packets s, tx_packets s, auth_ok s, auth_fail s, decrypt_fail s,
                       backpressure s, consumed s, rejected s],
                     gs_connections = connections s, gs_total_conn = total_conn s, gs_total_disc = total_disc s,
                     gs_drops = drops s, gs_dispatch_lat_avg = avg_ns (dispatch_lat s) \<rparr>)
      | _ \<Rightarrow> out)"

definition gn_core_connection_count :: "capi \<Rightarrow> u32" where
  "gn_core_connection_count a = (case ca_core a of None \<Rightarrow> 0 | Some k \<Rightarrow> word_of_nat (connection_count (nc_cm k)))"

definition gn_core_handler_count :: "capi \<Rightarrow> u32" where
  "gn_core_handler_count a = (case ca_core a of None \<Rightarrow> 0 | Some k \<Rightarrow> word_of_nat (get_enabled_handler_count (nc_pm k)))"

definition gn_core_connector_count :: "capi \<Rightarrow> u32" where
  "gn_core_connector_count a = (case ca_core a of None \<Rightarrow> 0 | Some k \<Rightarrow> word_of_nat (get_enabled_connector_count (nc_pm k)))"

subsection \<open>Subscriptions\<close>







subsection \<open>Properties\<close>





definition demo_capi :: capi where
  "demo_capi = \<lparr> ca_core = Some (sa_core demo_store_app), ca_subs = [], ca_token = 1 \<rparr>"


text \<open>
  Copying the public key into a buffer of the caller stays inside it: at most \<open>max_len\<close> bytes are
  written, the buffer then holds the returned number of characters of the key and a NUL, and what
  is behind them is as before; without a core, a buffer or room nothing is written.
\<close>

theorem pubkey_copy_bounded:
  assumes "max_len \<le> length old"
  shows "case gn_core_get_user_pubkey a (Some old) max_len of (n, buf) \<Rightarrow>
    (if ca_core a = None \<or> max_len = 0 then n = 0 \<and> buf = Some old
     else \<exists>k new. ca_core a = Some k \<and> buf = Some new \<and> length new = length old \<and> n < max_len
       \<and> n = min (length (bytes_to_hex (user_pubkey (nc_identity k)))) (max_len - 1)
       \<and> new = bytes_of_string (take n (bytes_to_hex (user_pubkey (nc_identity k)))) @ 0 # drop (n + 1) old)"
  using assms by (auto simp: gn_core_get_user_pubkey_def copy_text_def Let_def split: option.split)

theorem pubkey_copy_bounded_witness:
  "case gn_core_get_user_pubkey demo_capi (Some [1, 2, 3, 4]) 3 of (n, buf) \<Rightarrow> n < 3 \<and> map_option length buf = Some 4"
  using pubkey_copy_bounded [of 3 "[1, 2, 3, 4]" demo_capi] by (auto simp: demo_capi_def split: prod.splits)

end
