(* ===== verification/Node_Logger.thy ===== *)
theory Node_Logger
  imports Node_Core
begin

section \<open>The logger\<close>

text \<open>
  \<open>include/logger.hpp\<close> and \<open>src/logger.cpp\<close>: the static settings, the logger that is made from them once, and
  the source label of the custom format flag \<open>%Q\<close>. spdlog and the formatting of messages are outside:
  a line that is written is recorded with its level, the sink and the text. Whether the log file can
  be opened is a parameter, and so is the kind of build.
\<close>

datatype log_level_t = L_trace | L_debug | L_info | L_warn | L_err | L_critical | L_off

fun level_num :: "log_level_t \<Rightarrow> nat" where
  "level_num L_trace = 0" | "level_num L_debug = 1" | "level_num L_info = 2" | "level_num L_warn = 3"
| "level_num L_err = 4" | "level_num L_critical = 5" | "level_num L_off = 6"

definition parse_level :: "string \<Rightarrow> log_level_t" where
  "parse_level s =
     (if s = ''trace'' then L_trace else if s = ''debug'' then L_debug else if s = ''warn'' \<or> s = ''warning'' then L_warn
      else if s = ''error'' then L_err else if s = ''critical'' then L_critical else if s = ''off'' then L_off else L_info)"

record log_settings =
  ls_level :: string
  ls_file :: string
  ls_max_size :: u64
  ls_max_files :: i32
  ls_root :: string
  ls_strip_extension :: bool
  ls_detail_mode :: int

datatype log_sink = File_sink string u64 i32 | Console_sink log_level_t

record log_instance =
  li_level :: log_level_t
  li_sinks :: "log_sink list"

record log_env =
  le_ndebug :: bool
  le_openable :: "string \<Rightarrow> bool"

record logger =
  lg_settings :: log_settings
  lg_instance :: "log_instance option"
  lg_once :: bool
  lg_lines :: "(log_sink \<times> log_level_t \<times> string) list"

subsection \<open>Settings\<close>

definition set_log_level :: "string \<Rightarrow> logger \<Rightarrow> logger" where
  "set_log_level l g = g\<lparr> lg_settings := (lg_settings g)\<lparr> ls_level := l \<rparr> \<rparr>"

definition set_log_file :: "string \<Rightarrow> logger \<Rightarrow> logger" where
  "set_log_file p g = g\<lparr> lg_settings := (lg_settings g)\<lparr> ls_file := p \<rparr> \<rparr>"

definition set_max_size :: "u64 \<Rightarrow> logger \<Rightarrow> logger" where
  "set_max_size n g = g\<lparr> lg_settings := (lg_settings g)\<lparr> ls_max_size := n \<rparr> \<rparr>"

definition set_max_files :: "i32 \<Rightarrow> logger \<Rightarrow> logger" where
  "set_max_files n g = g\<lparr> lg_settings := (lg_settings g)\<lparr> ls_max_files := n \<rparr> \<rparr>"

definition set_strip_extension :: "bool \<Rightarrow> logger \<Rightarrow> logger" where
  "set_strip_extension b g = g\<lparr> lg_settings := (lg_settings g)\<lparr> ls_strip_extension := b \<rparr> \<rparr>"

definition set_source_detail_mode :: "int \<Rightarrow> logger \<Rightarrow> logger" where
  "set_source_detail_mode m g = g\<lparr> lg_settings := (lg_settings g)\<lparr> ls_detail_mode := m \<rparr> \<rparr>"

definition set_project_root :: "string \<Rightarrow> logger \<Rightarrow> logger" where
  "set_project_root r g = g\<lparr> lg_settings := (lg_settings g)\<lparr> ls_root := r \<rparr> \<rparr>"

subsection \<open>The source label\<close>

definition is_slash :: "char \<Rightarrow> bool" where "is_slash c \<longleftrightarrow> c = CHR ''/'' \<or> c = CHR 0x5C"

definition after_last :: "(char \<Rightarrow> bool) \<Rightarrow> string \<Rightarrow> string" where
  "after_last P s = rev (takeWhile (\<lambda>c. \<not> P c) (rev s))"

definition relative_source :: "string \<Rightarrow> string \<Rightarrow> string" where
  "relative_source root full =
     (if root \<noteq> []
      then if starts_with full root
           then let rel = drop (length root) full in if rel \<noteq> [] \<and> is_slash (hd rel) then tl rel else rel
           else full
      else after_last is_slash full)"

definition strip_extension :: "string \<Rightarrow> string" where
  "strip_extension s = (if CHR ''.'' \<in> set s then take (length s - length (after_last (\<lambda>c. c = CHR ''.'') s) - 1) s else s)"

definition source_label :: "log_settings \<Rightarrow> log_level_t \<Rightarrow> string \<Rightarrow> nat \<Rightarrow> string" where
  "source_label S lvl full ln =
     (if full = [] then []
      else let rel = relative_source (ls_root S) full;
               name = (if ls_strip_extension S then strip_extension rel else rel);
               verbose = (lvl = L_trace \<or> lvl = L_debug);
               show_path = (ls_detail_mode S = 0 \<and> verbose \<or> ls_detail_mode S = 1);
               show_line = (ls_detail_mode S = 0 \<and> verbose \<or> ls_detail_mode S = 1 \<or> ls_detail_mode S = 2);
               display = (if show_path then rel else name)
           in if show_line then ''['' @ display @ '':'' @ to_string ln @ ''] '' else ''['' @ display @ ''] '')"

subsection \<open>Life cycle\<close>

definition log_to :: "log_level_t \<Rightarrow> string \<Rightarrow> logger \<Rightarrow> logger" where
  "log_to lvl msg g =
     (case lg_instance g of None \<Rightarrow> g
      | Some i \<Rightarrow>
          if level_num lvl < level_num (li_level i) then g
          else g\<lparr> lg_lines := lg_lines g @ map (\<lambda>k. (k, lvl, msg))
                 (filter (\<lambda>k. case k of File_sink _ _ _ \<Rightarrow> True | Console_sink l \<Rightarrow> level_num l \<le> level_num lvl) (li_sinks i)) \<rparr>)"

text \<open>\<open>None\<close>: spdlog throws, and \<open>call_once\<close> stays open for a later try.\<close>

definition init_internal :: "log_env \<Rightarrow> logger \<Rightarrow> logger option" where
  "init_internal L g =
     (let S = lg_settings g;
          console = Console_sink (if le_ndebug L then L_warn else L_trace)
      in if ls_file S \<noteq> [] \<and> \<not> le_openable L (ls_file S) then None
         else let sinks = (if ls_file S = [] then [] else [File_sink (ls_file S) (ls_max_size S) (ls_max_files S)]) @ [console]
              in Some (log_to L_info ''Logger initialized'' (g\<lparr> lg_instance := Some \<lparr> li_level = parse_level (ls_level S), li_sinks = sinks \<rparr> \<rparr>)))"

definition ensure_initialized :: "log_env \<Rightarrow> logger \<Rightarrow> logger option" where
  "ensure_initialized L g =
     (if lg_instance g \<noteq> None \<or> lg_once g then Some g
      else map_option (\<lambda>g1. g1\<lparr> lg_once := True \<rparr>) (init_internal L g))"

definition should_log :: "log_level_t \<Rightarrow> logger \<Rightarrow> bool" where
  "should_log lvl g = (case lg_instance g of None \<Rightarrow> False | Some i \<Rightarrow> level_num (li_level i) \<le> level_num lvl)"

definition log_fmt :: "log_env \<Rightarrow> log_level_t \<Rightarrow> string \<Rightarrow> nat \<Rightarrow> string \<Rightarrow> logger \<Rightarrow> logger option" where
  "log_fmt L lvl file ln msg g =
     (case ensure_initialized L g of None \<Rightarrow> None
      | Some g1 \<Rightarrow> Some (if should_log lvl g1 then log_to lvl (source_label (lg_settings g1) lvl file ln @ msg) g1 else g1))"

definition log_shutdown :: "logger \<Rightarrow> logger" where
  "log_shutdown g = (if lg_instance g = None then g else (log_to L_info ''Logger shutting down'' g)\<lparr> lg_instance := None \<rparr>)"

text \<open>\<open>LOG_TRACE\<close> and \<open>LOG_DEBUG\<close> are empty in a release build.\<close>

definition log_macro :: "log_env \<Rightarrow> log_level_t \<Rightarrow> string \<Rightarrow> nat \<Rightarrow> string \<Rightarrow> logger \<Rightarrow> logger option" where
  "log_macro L lvl file ln msg g = (if le_ndebug L \<and> lvl \<in> {L_trace, L_debug} then Some g else log_fmt L lvl file ln msg g)"

subsection \<open>What the core does with it\<close>

definition core_log_setup :: "config \<Rightarrow> logger \<Rightarrow> logger" where
  "core_log_setup cfg g =
     (let g1 = set_log_level (log_level (cf_logging cfg)) g; lc = cf_logging cfg
      in if log_file lc = [] then g1 else set_max_files (log_max_files lc) (set_max_size (scast (log_max_size lc)) (set_log_file (log_file lc) g1)))"

definition core_reload_logging :: "config \<Rightarrow> logger \<Rightarrow> logger" where
  "core_reload_logging cfg g = set_log_level (log_level (cf_logging cfg)) g"

subsection \<open>Properties\<close>

text \<open>
  The first message through the macros makes the logger from the settings the core has applied: the
  log file gets the message, with its label, exactly when its level is at least the configured one
  (and, in a release build, above debug), and the console exactly the warnings and worse.
\<close>

theorem log_settings_applied:
  assumes new: "lg_instance g = None" "\<not> lg_once g" "lg_lines g = []"
    and f: "log_file (cf_logging cfg) = f" "f \<noteq> []" "le_openable L f" and L: "le_ndebug L"
    and lvl: "lvl \<noteq> L_off" and logged: "log_macro L lvl src ln msg (core_log_setup cfg g) = Some g'"
    and other: "source_label (lg_settings (core_log_setup cfg g)) lvl src ln @ msg \<noteq> ''Logger initialized''"
  defines "line \<equiv> source_label (lg_settings (core_log_setup cfg g)) lvl src ln @ msg" and "min_level \<equiv> parse_level (log_level (cf_logging cfg))"
  shows "((File_sink f (scast (log_max_size (cf_logging cfg))) (log_max_files (cf_logging cfg)), lvl, line) \<in> set (lg_lines g')
        \<longleftrightarrow> lvl \<notin> {L_trace, L_debug} \<and> level_num min_level \<le> level_num lvl)
    \<and> ((Console_sink L_warn, lvl, line) \<in> set (lg_lines g') \<longleftrightarrow> level_num (if level_num min_level \<le> 3 then L_warn else min_level) \<le> level_num lvl)"
proof -
  let ?S = "lg_settings (core_log_setup cfg g)"
  have S: "ls_file ?S = f" "ls_level ?S = log_level (cf_logging cfg)" "ls_max_size ?S = scast (log_max_size (cf_logging cfg))"
    "ls_max_files ?S = log_max_files (cf_logging cfg)" "lg_instance (core_log_setup cfg g) = None" "\<not> lg_once (core_log_setup cfg g)"
    "lg_lines (core_log_setup cfg g) = []"
    using f new by (simp_all add: core_log_setup_def set_log_level_def set_log_file_def set_max_size_def set_max_files_def Let_def)
  show ?thesis
  proof (cases "lvl \<in> {L_trace, L_debug}")
    case True
    then show ?thesis using logged L S(7) by (auto simp: log_macro_def)
  next
    case False
    then have "log_fmt L lvl src ln msg (core_log_setup cfg g) = Some g'" using logged by (simp add: log_macro_def)
    then show ?thesis
      using False S f L lvl other
      by (cases lvl; cases min_level)
        (auto simp: log_fmt_def ensure_initialized_def init_internal_def log_to_def should_log_def line_def min_level_def Let_def)
  qed
qed

text \<open>
  Once there is a logger, a new level in a reloaded configuration changes nothing that is written.
\<close>

lemma reload_level_ignored:
  assumes "lg_instance g \<noteq> None"
  shows "map_option lg_lines (log_macro L lvl src ln msg (core_reload_logging cfg g)) = map_option lg_lines (log_macro L lvl src ln msg g)"
  using assms
  by (auto simp: log_macro_def log_fmt_def ensure_initialized_def core_reload_logging_def set_log_level_def should_log_def log_to_def source_label_def
      Let_def split: option.splits)

text \<open>After \<open>shutdown\<close> the logger is not made again: later messages are lost.\<close>

lemma shutdown_ends_logging:
  assumes "lg_once g"
  shows "log_macro L lvl src ln msg (log_shutdown g) = Some (log_shutdown g)"
proof -
  have "lg_instance (log_shutdown g) = None" "lg_once (log_shutdown g)"
    using assms by (simp_all add: log_shutdown_def log_to_def split: option.split)
  then show ?thesis by (simp add: log_macro_def log_fmt_def ensure_initialized_def should_log_def)
qed

text \<open>Without a project root the label is the name of the file without its directories.\<close>

lemma label_basename:
  assumes "\<forall>c \<in> set base. \<not> is_slash c" "ls_root S = []" "ls_detail_mode S = 1"
  shows "source_label S lvl (dir @ ''/'' @ base) ln = ''['' @ base @ '':'' @ to_string ln @ ''] ''"
proof -
  have "takeWhile (\<lambda>c. \<not> is_slash c) (rev base @ CHR ''/'' # rev dir) = rev base"
    using assms(1) by (subst takeWhile_append2) (auto simp: is_slash_def)
  then show ?thesis using assms(2,3) by (simp add: source_label_def relative_source_def after_last_def Let_def)
qed

end
