(* ===== verification/Plugin_Sdk.thy ===== *)
theory Plugin_Sdk
  imports Node_Core
begin

section \<open>The host interface and the handler plugins\<close>

text \<open>
  The C interface the core hands to plugins (\<open>fill_host_api\<close> and the functions \<open>s_*\<close> of
  \<open>core/cm/lifecycle.cpp\<close>), the base class \<open>IHandler\<close> of \<open>sdk/cpp/handler.hpp\<close> with the entry point its
  macro generates, and the two handler plugins of the repository, \<open>MsgLogger\<close> and \<open>TemplateHandler\<close>. A
  table of function pointers is a record of optional functions; the configuration behind the context
  pointer is an argument. The members of the table for logging are left out.
\<close>

subsection \<open>Functions behind the host interface\<close>

definition s_on_connect :: "env \<Rightarrow> endpoint_t \<Rightarrow> cm \<Rightarrow> conn_id \<times> cm" where
  "s_on_connect E ep s = handle_connect E ep s"

definition s_on_data :: "env \<Rightarrow> conn_id \<Rightarrow> bytes \<Rightarrow> cm \<Rightarrow> cm" where
  "s_on_data E c raw s = handle_data E c raw s"

definition s_on_disconnect :: "env \<Rightarrow> conn_id \<Rightarrow> int \<Rightarrow> cm \<Rightarrow> cm" where
  "s_on_disconnect E c err s = handle_disconnect E c err s"

definition s_send :: "env \<Rightarrow> string \<Rightarrow> u32 \<Rightarrow> bytes \<Rightarrow> cm \<Rightarrow> cm" where
  "s_send E uri t p s = snd (send_uri E uri t p s)"

definition s_send_response :: "env \<Rightarrow> conn_id \<Rightarrow> u32 \<Rightarrow> bytes \<Rightarrow> cm \<Rightarrow> cm" where
  "s_send_response E c t p s = snd (send_id E c t p s)"

definition s_broadcast :: "env \<Rightarrow> u32 \<Rightarrow> bytes \<Rightarrow> cm \<Rightarrow> cm" where
  "s_broadcast E t p s = broadcast E t p s"

definition s_disconnect :: "conn_id \<Rightarrow> cm \<Rightarrow> cm" where
  "s_disconnect c s = disconnect c s"

definition s_sign :: "env \<Rightarrow> bytes \<Rightarrow> cm \<Rightarrow> int \<times> bytes" where
  "s_sign E d s = (0, sign_detached (e_sodium E) d (device_seckey (identity s)))"

definition s_verify :: "env \<Rightarrow> bytes \<Rightarrow> bytes \<Rightarrow> bytes \<Rightarrow> int" where
  "s_verify E d pk sig = (if sign_verify (e_sodium E) sig d pk then 0 else -1)"

definition s_find_conn_by_pk :: "string \<Rightarrow> cm \<Rightarrow> conn_id" where
  "s_find_conn_by_pk hex s = find_conn_by_pubkey s hex"

definition s_get_peer_info :: "conn_id \<Rightarrow> endpoint_t \<Rightarrow> cm \<Rightarrow> int \<times> endpoint_t" where
  "s_get_peer_info c ep s = (case get_peer_endpoint s c of None \<Rightarrow> (-1, ep) | Some e \<Rightarrow> (0, e))"

text \<open>
  \<open>s_config_get\<close> on a buffer of the caller; \<open>None\<close> when it would write outside of it, which happens
  for a buffer of size 0. What it returns is the size of the setting, not of what it copied.
\<close>

definition s_config_get :: "config option \<Rightarrow> string \<Rightarrow> bytes \<Rightarrow> (int \<times> bytes) option" where
  "s_config_get cfg key buf =
     (case cfg of None \<Rightarrow> Some (-1, buf)
      | Some cf \<Rightarrow> (case get_raw cf key of None \<Rightarrow> Some (-1, buf)
          | Some v \<Rightarrow> if buf = [] then None else Some (sint (word_of_nat (length v) :: i32), strn_field (length buf) v)))"

definition s_register_handler :: "handler_t \<Rightarrow> cm \<Rightarrow> cm" where
  "s_register_handler h s = register_handler_from_connector h s"

definition s_add_transport :: "env \<Rightarrow> string \<Rightarrow> endpoint_t \<Rightarrow> string \<Rightarrow> cm \<Rightarrow> conn_id \<times> cm" where
  "s_add_transport E hex ep sch s = handle_add_transport E hex ep sch s"

record host_api =
  ha_on_connect :: "(endpoint_t \<Rightarrow> cm \<Rightarrow> conn_id \<times> cm) option"
  ha_on_data :: "(conn_id \<Rightarrow> bytes \<Rightarrow> cm \<Rightarrow> cm) option"
  ha_on_disconnect :: "(conn_id \<Rightarrow> int \<Rightarrow> cm \<Rightarrow> cm) option"
  ha_send :: "(string \<Rightarrow> u32 \<Rightarrow> bytes \<Rightarrow> cm \<Rightarrow> cm) option"
  ha_send_response :: "(conn_id \<Rightarrow> u32 \<Rightarrow> bytes \<Rightarrow> cm \<Rightarrow> cm) option"
  ha_broadcast :: "(u32 \<Rightarrow> bytes \<Rightarrow> cm \<Rightarrow> cm) option"
  ha_disconnect :: "(conn_id \<Rightarrow> cm \<Rightarrow> cm) option"
  ha_sign_with_device :: "(bytes \<Rightarrow> cm \<Rightarrow> int \<times> bytes) option"
  ha_verify_signature :: "(bytes \<Rightarrow> bytes \<Rightarrow> bytes \<Rightarrow> int) option"
  ha_find_conn_by_pubkey :: "(string \<Rightarrow> cm \<Rightarrow> conn_id) option"
  ha_get_peer_info :: "(conn_id \<Rightarrow> endpoint_t \<Rightarrow> cm \<Rightarrow> int \<times> endpoint_t) option"
  ha_config_get :: "(string \<Rightarrow> bytes \<Rightarrow> (int \<times> bytes) option) option"
  ha_register_handler :: "(handler_t \<Rightarrow> cm \<Rightarrow> cm) option"
  ha_add_transport :: "(string \<Rightarrow> endpoint_t \<Rightarrow> string \<Rightarrow> cm \<Rightarrow> conn_id \<times> cm) option"

definition fill_host_api :: "env \<Rightarrow> config option \<Rightarrow> host_api" where
  "fill_host_api E cfg = \<lparr> ha_on_connect = Some (s_on_connect E), ha_on_data = Some (s_on_data E),
     ha_on_disconnect = Some (s_on_disconnect E), ha_send = Some (s_send E), ha_send_response = Some (s_send_response E),
     ha_broadcast = Some (s_broadcast E), ha_disconnect = Some s_disconnect, ha_sign_with_device = Some (s_sign E),
     ha_verify_signature = Some (s_verify E), ha_find_conn_by_pubkey = Some s_find_conn_by_pk,
     ha_get_peer_info = Some s_get_peer_info, ha_config_get = Some (s_config_get cfg),
     ha_register_handler = Some s_register_handler, ha_add_transport = Some (s_add_transport E) \<rparr>"

subsection \<open>IHandler\<close>

text \<open>The helper functions do nothing, or fail, without the interface or the function in it.\<close>

definition ih_send :: "host_api option \<Rightarrow> string \<Rightarrow> u32 \<Rightarrow> bytes \<Rightarrow> cm \<Rightarrow> cm" where
  "ih_send api uri t d s = (case Option.bind api ha_send of Some f \<Rightarrow> f uri t d s | None \<Rightarrow> s)"

definition ih_send_response :: "host_api option \<Rightarrow> conn_id \<Rightarrow> u32 \<Rightarrow> bytes \<Rightarrow> cm \<Rightarrow> cm" where
  "ih_send_response api c t d s = (case Option.bind api ha_send_response of Some f \<Rightarrow> f c t d s | None \<Rightarrow> s)"

definition ih_broadcast :: "host_api option \<Rightarrow> u32 \<Rightarrow> bytes \<Rightarrow> cm \<Rightarrow> cm" where
  "ih_broadcast api t d s = (case Option.bind api ha_broadcast of Some f \<Rightarrow> f t d s | None \<Rightarrow> s)"

definition ih_disconnect :: "host_api option \<Rightarrow> conn_id \<Rightarrow> cm \<Rightarrow> cm" where
  "ih_disconnect api c s = (case Option.bind api ha_disconnect of Some f \<Rightarrow> f c s | None \<Rightarrow> s)"

definition ih_find_conn :: "host_api option \<Rightarrow> string \<Rightarrow> cm \<Rightarrow> conn_id" where
  "ih_find_conn api hex s = (case Option.bind api ha_find_conn_by_pubkey of Some f \<Rightarrow> f hex s | None \<Rightarrow> CONN_ID_INVALID)"

definition ih_get_peer_info :: "host_api option \<Rightarrow> conn_id \<Rightarrow> endpoint_t \<Rightarrow> cm \<Rightarrow> bool \<times> endpoint_t" where
  "ih_get_peer_info api c ep s =
     (case Option.bind api ha_get_peer_info of Some f \<Rightarrow> (let (rc, e) = f c ep s in (rc = 0, e)) | None \<Rightarrow> (False, ep))"

definition ih_config_get :: "host_api option \<Rightarrow> string \<Rightarrow> string option" where
  "ih_config_get api key =
     (case Option.bind api ha_config_get of None \<Rightarrow> Some []
      | Some f \<Rightarrow> map_option (\<lambda>(_, b). cstr b) (f key (replicate 1024 0)))"

definition ih_sign :: "host_api option \<Rightarrow> bytes \<Rightarrow> bytes \<Rightarrow> cm \<Rightarrow> int \<times> bytes" where
  "ih_sign api d sig s = (case Option.bind api ha_sign_with_device of Some f \<Rightarrow> f d s | None \<Rightarrow> (-1, sig))"

definition ih_verify :: "host_api option \<Rightarrow> bytes \<Rightarrow> bytes \<Rightarrow> bytes \<Rightarrow> int" where
  "ih_verify api d pk sig = (case Option.bind api ha_verify_signature of Some f \<Rightarrow> f d pk sig | None \<Rightarrow> -1)"

text \<open>\<open>IConnector::config_get\<close> (\<open>sdk/cpp/connector.hpp\<close>) does the same with a smaller buffer.\<close>

definition ic_config_get :: "host_api option \<Rightarrow> string \<Rightarrow> string option" where
  "ic_config_get api key =
     (case Option.bind api ha_config_get of None \<Rightarrow> Some []
      | Some f \<Rightarrow> map_option (\<lambda>(_, b). cstr b) (f key (replicate 256 0)))"

record ihandler =
  ih_ident :: nat
  ih_name :: string
  ih_priority :: u8
  ih_types :: "u32 list"
  ih_api :: "host_api option"

definition new_ihandler :: "nat \<Rightarrow> string \<Rightarrow> ihandler" where
  "new_ihandler ident name = \<lparr> ih_ident = ident, ih_name = name, ih_priority = 128, ih_types = [], ih_api = None \<rparr>"

definition set_supported_types :: "u32 list \<Rightarrow> ihandler \<Rightarrow> ihandler" where
  "set_supported_types ts h = h\<lparr> ih_types := ts \<rparr>"

definition to_c_handler :: "ihandler \<Rightarrow> handler_t" where
  "to_c_handler h = \<lparr> h_ident = ih_ident h, h_name = Some (ih_name h), h_info_priority = Some (ih_priority h), h_types = ih_types h,
     h_has_message = True, h_has_result = True, h_has_conn_state = True \<rparr>"

text \<open>\<open>init\<close> and the entry point of \<open>HANDLER_PLUGIN\<close>, given the plugin's \<open>on_init\<close>.\<close>

definition ih_init :: "(ihandler \<Rightarrow> ihandler) \<Rightarrow> host_api \<Rightarrow> ihandler \<Rightarrow> ihandler" where
  "ih_init on_init api h = on_init (h\<lparr> ih_api := Some api \<rparr>)"

definition handler_init :: "(ihandler \<Rightarrow> ihandler) \<Rightarrow> ihandler \<Rightarrow> host_api \<Rightarrow> cm \<Rightarrow> handler_t option \<times> cm" where
  "handler_init on_init inst api s = (Some (to_c_handler (ih_init on_init api inst)), s)"

subsection \<open>MsgLogger\<close>

record log_line =
  ln_count :: u64
  ln_type :: u16
  ln_type_name :: string
  ln_addr :: string
  ln_port :: u16
  ln_size :: nat
  ln_pkt :: u64
  ln_pk :: string

text \<open>The state of the plugin, with the lines it has logged and the report of its shutdown.\<close>

record msg_logger =
  ml_base :: ihandler
  ml_count :: u64
  ml_start_ts :: u64
  ml_lines :: "log_line list"
  ml_report :: "(u64 \<times> u64) option"

definition msg_logger_instance :: "nat \<Rightarrow> msg_logger" where
  "msg_logger_instance ident = \<lparr> ml_base = new_ihandler ident ''MsgLogger'', ml_count = 0, ml_start_ts = 0, ml_lines = [], ml_report = None \<rparr>"

definition logger_types :: "u32 list" where "logger_types = [1, 2, 3, 4, 10, 11, 100, 200]"

definition type_str :: "u32 \<Rightarrow> string" where
  "type_str t =
     (if t = 1 then ''NOISE_INIT'' else if t = 2 then ''NOISE_RESP'' else if t = 3 then ''NOISE_FIN'' else if t = 4 then ''HEARTBEAT''
      else if t = 10 then ''RELAY'' else if t = 11 then ''ICE_SIGNAL'' else if t = 100 then ''CHAT'' else if t = 200 then ''FILE'' else ''USER'')"

definition logger_on_init :: "u64 \<Rightarrow> msg_logger \<Rightarrow> msg_logger" where
  "logger_on_init now_us m = m\<lparr> ml_base := set_supported_types logger_types (ml_base m), ml_start_ts := now_us \<rparr>"

definition logger_handle_message :: "header_t option \<Rightarrow> endpoint_t option \<Rightarrow> bytes \<Rightarrow> msg_logger \<Rightarrow> msg_logger" where
  "logger_handle_message header ep payload m =
     (case header of None \<Rightarrow> m
      | Some hdr \<Rightarrow>
          (let n = ml_count m + 1;
               addr = (case ep of Some e \<Rightarrow> if ep_address e \<noteq> [] then ep_address e else ''?'' | None \<Rightarrow> ''?'');
               port = (case ep of Some e \<Rightarrow> ep_port e | None \<Rightarrow> 0);
               pk = (case ep of Some e \<Rightarrow> bytes_to_hex (take 4 (ep_pubkey e)) | None \<Rightarrow> ''????????'')
           in m\<lparr> ml_count := n,
                 ml_lines := ml_lines m @ [\<lparr> ln_count = n, ln_type = payload_type hdr, ln_type_name = type_str (ucast (payload_type hdr)),
                   ln_addr = addr, ln_port = port, ln_size = length payload, ln_pkt = packet_id hdr, ln_pk = pk \<rparr>] \<rparr>))"

definition logger_on_shutdown :: "u64 \<Rightarrow> msg_logger \<Rightarrow> msg_logger" where
  "logger_on_shutdown now_us m = m\<lparr> ml_report := Some (ml_count m, (now_us - ml_start_ts m) div 1000) \<rparr>"

definition logger_init :: "nat \<Rightarrow> u64 \<Rightarrow> host_api \<Rightarrow> cm \<Rightarrow> handler_t option \<times> cm" where
  "logger_init ident now_us api =
     handler_init (\<lambda>h. ml_base (logger_on_init now_us ((msg_logger_instance ident)\<lparr> ml_base := h \<rparr>))) (ml_base (msg_logger_instance ident)) api"

subsection \<open>TemplateHandler\<close>

definition template_on_init :: "ihandler \<Rightarrow> ihandler" where
  "template_on_init h = set_supported_types [100] h"

definition template_handle_message :: "host_api option \<Rightarrow> header_t \<Rightarrow> endpoint_t \<Rightarrow> bytes \<Rightarrow> cm \<Rightarrow> cm" where
  "template_handle_message api hdr ep payload s =
     (if payload \<noteq> [] then ih_send_response api (ep_peer_id ep) (ucast (payload_type hdr)) payload s else s)"

definition template_on_result :: "header_t \<Rightarrow> u16 \<Rightarrow> propagation_t" where
  "template_on_result hdr t = PROPAGATION_CONSUMED"

definition template_init :: "nat \<Rightarrow> host_api \<Rightarrow> cm \<Rightarrow> handler_t option \<times> cm" where
  "template_init ident api = handler_init template_on_init (new_ihandler ident ''template_handler'') api"

subsection \<open>Handlers that use the core through the host interface\<close>

text \<open>
  What a handler can do to the core: any sequence of the functions \<open>IHandler\<close> offers, each with the
  environment of its moment; the other helper functions read only.
\<close>

inductive api_calls :: "cm \<Rightarrow> cm \<Rightarrow> bool" where
  api_none: "api_calls s s"
| api_send: "api_calls s s1 \<Longrightarrow> api_calls s (ih_send (Some (fill_host_api E cfg)) uri t d s1)"
| api_response: "api_calls s s1 \<Longrightarrow> api_calls s (ih_send_response (Some (fill_host_api E cfg)) c t d s1)"
| api_broadcast: "api_calls s s1 \<Longrightarrow> api_calls s (ih_broadcast (Some (fill_host_api E cfg)) t d s1)"
| api_disconnect: "api_calls s s1 \<Longrightarrow> api_calls s (ih_disconnect (Some (fill_host_api E cfg)) c s1)"

definition api_handlers :: "env \<Rightarrow> bool" where
  "api_handlers E \<longleftrightarrow> (\<forall>h hdr ep d s. api_calls s (e_message E h hdr ep d s))
     \<and> (\<forall>h hdr t s. api_calls s (snd (e_result E h hdr t s))) \<and> (\<forall>h u st s. api_calls s (e_conn_state E h u st s))"

lemma api_functions [simp]:
  "ih_send (Some (fill_host_api E cfg)) uri t d s = snd (send_uri E uri t d s)"
  "ih_send_response (Some (fill_host_api E cfg)) c t d s = snd (send_id E c t d s)"
  "ih_broadcast (Some (fill_host_api E cfg)) t d s = broadcast E t d s"
  "ih_disconnect (Some (fill_host_api E cfg)) c s = disconnect c s"
  by (simp_all add: ih_send_def ih_send_response_def ih_broadcast_def ih_disconnect_def fill_host_api_def s_send_def s_send_response_def
      s_broadcast_def s_disconnect_def)

lemma api_calls_inv: "api_calls s s1 \<Longrightarrow> cm_inv s \<Longrightarrow> cm_inv s1"
proof (induction rule: api_calls.induct)
  case (api_response s s1 E cfg c t d)
  then show ?case by (simp add: send_id_def cm_inv_quiet)
qed (simp_all add: cm_inv_send_uri cm_inv_quiet)

lemma api_handlers_keep: "api_handlers E \<Longrightarrow> handlers_keep cm_inv E"
  unfolding api_handlers_def handlers_keep_def using api_calls_inv by blast

text \<open>The entry points of the handler plugins leave the manager alone.\<close>

lemma shipped_plugins_register: "init_registers (logger_init ident now_us api)" "init_registers (template_init ident api)"
  unfolding init_registers_def logger_init_def template_init_def handler_init_def
  by (auto intro: exI [of _ "[]"])

subsection \<open>Which handlers are called\<close>

lemma subscribe_types_bus:
  "bus (foldl (\<lambda>s t. upd_bus (\<lambda>b. snd (subscribe t n h p b)) s) s ts) = foldl (\<lambda>b t. snd (subscribe t n h p b)) (bus s) ts"
  by (induction ts arbitrary: s) (simp_all add: upd_bus_def)

lemma subscribe_types_channel:
  assumes "distinct ts"
  shows "channel (foldl (\<lambda>b t. snd (subscribe t n h p b)) b ts) t' = (if t' \<in> set ts then pipe_connect p n h (channel b t') else channel b t')"
    and "wildcards (foldl (\<lambda>b t. snd (subscribe t n h p b)) b ts) = wildcards b"
proof -
  show "channel (foldl (\<lambda>b t. snd (subscribe t n h p b)) b ts) t' = (if t' \<in> set ts then pipe_connect p n h (channel b t') else channel b t')"
    using assms by (induction ts arbitrary: b) (auto simp: subscribe_channel)
  show "wildcards (foldl (\<lambda>b t. snd (subscribe t n h p b)) b ts) = wildcards b"
    by (induction ts arbitrary: b) (simp_all add: subscribe_def Let_def)
qed

lemma register_handler_bus:
  assumes "h_name h = Some n" "h_types h \<noteq> []" "distinct (h_types h)" "h_info_priority h = Some p" "p \<noteq> 0"
  shows "channel (bus (register_handler h s)) t = (if t \<in> set (h_types h) then pipe_connect p n h (channel (bus s) t) else channel (bus s) t)"
    and "wildcards (bus (register_handler h s)) = wildcards (bus s)"
  using assms subscribe_types_channel [OF assms(3), of n h p "bus s"]
  by (simp_all add: register_handler_def register_handler_internal_def Let_def subscribe_types_bus)

definition bus_calls :: "('f \<Rightarrow> string \<Rightarrow> propagation_t) \<Rightarrow> 'f signal_bus \<Rightarrow> u32 \<Rightarrow> ('f \<times> string) list" where
  "bus_calls answer b t = snd (bus_dispatch (\<lambda>_. b) (log_call answer) t [])"

lemma pipe_calls_set:
  fixes es :: "'f pipe_entry list"
  shows "fst ` set (snd (pipe_emit (log_call answer) es s)) \<subseteq> fst ` set s \<union> en_fn ` set es"
    and "(\<forall>f n. answer f n = PROPAGATION_CONTINUE) \<Longrightarrow>
      pipe_emit (log_call answer) es s = ((PROPAGATION_CONTINUE, []), s @ map (\<lambda>e. (en_fn e, en_name e)) es)"
proof -
  show "fst ` set (snd (pipe_emit (log_call answer) es s)) \<subseteq> fst ` set s \<union> en_fn ` set es"
  proof (induction es arbitrary: s)
    case (Cons e es)
    from Cons.IH [of "s @ [(en_fn e, en_name e)]"]
    have "fst ` set (snd (pipe_emit (log_call answer) es (s @ [(en_fn e, en_name e)]))) \<subseteq> fst ` set s \<union> en_fn ` set (e # es)" by simp
    moreover have "fst ` set (s @ [(en_fn e, en_name e)]) \<subseteq> fst ` set s \<union> en_fn ` set (e # es)" by auto
    moreover have "snd (pipe_emit (log_call answer) (e # es) s)
        \<in> {s @ [(en_fn e, en_name e)], snd (pipe_emit (log_call answer) es (s @ [(en_fn e, en_name e)]))}"
      unfolding pipe_emit.simps Let_def log_call_def [of answer "en_fn e" "en_name e" s] by simp
    ultimately show ?case by (metis insert_iff empty_iff)
  qed simp
  show "(\<forall>f n. answer f n = PROPAGATION_CONTINUE) \<Longrightarrow>
      pipe_emit (log_call answer) es s = ((PROPAGATION_CONTINUE, []), s @ map (\<lambda>e. (en_fn e, en_name e)) es)"
    by (induction es arbitrary: s) (simp_all add: log_call_def)
qed

lemma bus_calls_set:
  "fst ` set (bus_calls answer b t) \<subseteq> en_fn ` set (channel b t @ wildcards b)"
  "(\<forall>f n. answer f n = PROPAGATION_CONTINUE) \<Longrightarrow> fst ` set (bus_calls answer b t) = en_fn ` set (channel b t @ wildcards b)"
proof -
  let ?e = "pipe_emit (log_call answer)"
  have "bus_calls answer b t \<in> {snd (?e (channel b t) []), snd (?e (wildcards b) (snd (?e (channel b t) [])))}"
    by (auto simp: bus_calls_def bus_dispatch_channel Let_def split: prod.split)
  moreover have "fst ` set (snd (?e (channel b t) [])) \<subseteq> en_fn ` set (channel b t)"
    using pipe_calls_set(1) [of answer "channel b t" "[]"] by simp
  moreover note pipe_calls_set(1) [of answer "wildcards b" "snd (?e (channel b t) [])"]
  ultimately show "fst ` set (bus_calls answer b t) \<subseteq> en_fn ` set (channel b t @ wildcards b)"
    unfolding set_append image_Un by (elim insertE emptyE) (simp_all, blast+)
  show "fst ` set (bus_calls answer b t) = en_fn ` set (channel b t @ wildcards b)" if "\<forall>f n. answer f n = PROPAGATION_CONTINUE"
    using pipe_calls_set(2) [OF that] unfolding bus_calls_def by (simp add: bus_dispatch_channel Let_def image_image image_Un)
qed

lemma cstr_strn_take:
  assumes "nul_free v" "0 < n"
  shows "cstr (strn_field n v) = take (n - 1) v"
proof -
  have nf: "nul_free (take k v)" for k
    using assms(1) in_set_takeD [of 0 k "bytes_of_string v"] unfolding nul_free_def bytes_of_string_def take_map by blast
  have tw: "takeWhile (\<lambda>b. b \<noteq> 0) (bytes_of_string s) = bytes_of_string s" if "nul_free s" for s
    unfolding takeWhile_eq_all_conv using that by (auto simp: nul_free_def)
  have "take (n - 1) (bytes_of_string v) = bytes_of_string (take (n - 1) v)" by (simp add: bytes_of_string_def take_map)
  then have "strn_field n v = strn_field n (take (n - 1) v)"
    unfolding strn_field_def tw [OF assms(1)] tw [OF nf] by simp
  then show ?thesis using cstr_strn_field [OF nf, of "n - 1" n] assms(2) by simp
qed

subsection \<open>Properties\<close>

text \<open>
  Property C18. Handlers that use the core through the functions of \<open>IHandler\<close> only cannot break it: with
  such handlers every entry point of the manager keeps the state invariant, whatever the handlers
  decide to send, broadcast or disconnect while they run.
\<close>

theorem api_handlers_safe:
  assumes "sodium_ok (e_sodium E)" "fill_ok (e_sodium E)" "api_handlers E" "cm_inv s" "next_id s \<noteq> - 1"
  shows "env_ok E \<and> cm_inv (exec E ev s)"
proof -
  have "env_ok E" using assms(1,2) api_handlers_keep [OF assms(3)] by (simp add: env_ok_def)
  with cm_inv_exec [OF this assms(4,5)] show ?thesis by blast
qed

definition echo_env :: env where
  "echo_env = demo_env
     \<lparr> e_message := \<lambda>h hdr ep d s. template_handle_message (Some (fill_host_api demo_env None)) hdr ep d s,
       e_result := \<lambda>h hdr t s. (template_on_result hdr t, s) \<rparr>"

theorem api_handlers_safe_witness:
  "api_handlers echo_env \<and> cm_inv (exec echo_env (EvData 1 [1, 2]) (cm_init fresh_bus demo_identity None))"
proof -
  have "api_calls s (template_handle_message (Some (fill_host_api demo_env None)) hdr ep d s)" for hdr ep d s
    unfolding template_handle_message_def
    by (cases "d = []") (simp_all add: api_none del: api_functions, rule api_response, rule api_none)
  then have h: "api_handlers echo_env" by (simp add: api_handlers_def echo_env_def demo_env_def api_none)
  moreover have "sodium_ok (e_sodium echo_env)" "fill_ok (e_sodium echo_env)"
    using demo_env_ok by (simp_all add: env_ok_def echo_env_def)
  moreover have "next_id (cm_init fresh_bus demo_identity None) \<noteq> - 1" by (simp add: cm_init_def)
  ultimately show ?thesis using api_handlers_safe [OF _ _ h cm_inv_init] by blast
qed

text \<open>
  \<open>MsgLogger\<close> does not see every message, although it is written to log all of them: the
  handler its entry point returns subscribes to eight types. Once the core has registered it, a
  message of another type never reaches it, and one of the eight does when the other handlers let
  it pass.
\<close>

theorem msg_logger_misses:
  assumes reg: "logger_init ident now_us api s0 = (Some h, s0')" and new: "h \<notin> en_fn ` set (channel (bus s) t @ wildcards (bus s))"
  defines "b \<equiv> bus (register_handler h s)"
  shows "(t \<notin> set logger_types \<longrightarrow> h \<notin> fst ` set (bus_calls answer b t))
    \<and> (t \<in> set logger_types \<and> (\<forall>f n. answer f n = PROPAGATION_CONTINUE) \<longrightarrow> h \<in> fst ` set (bus_calls answer b t))"
proof -
  have h: "h = to_c_handler (set_supported_types logger_types ((new_ihandler ident ''MsgLogger'')\<lparr> ih_api := Some api \<rparr>))"
    using reg by (simp add: logger_init_def handler_init_def ih_init_def logger_on_init_def msg_logger_instance_def)
  have f: "h_name h = Some ''MsgLogger''" "h_types h = logger_types" "h_info_priority h = Some 128" "logger_types \<noteq> []" "distinct logger_types"
    by (simp_all add: h to_c_handler_def set_supported_types_def new_ihandler_def logger_types_def)
  have b: "channel b t = (if t \<in> set logger_types then pipe_connect 128 ''MsgLogger'' h (channel (bus s) t) else channel (bus s) t)"
    "wildcards b = wildcards (bus s)"
    unfolding b_def using register_handler_bus [OF f(1) _ _ f(3)] f(2,4,5) by simp_all
  show ?thesis
    using bus_calls_set(1) [of answer b t] bus_calls_set(2) [of answer b t] new by (auto simp: b pipe_connect_def)
qed

theorem msg_logger_misses_witness:
  "\<exists>h. logger_init 7 0 (fill_host_api demo_env None) demo_cm = (Some h, demo_cm)
     \<and> h \<notin> fst ` set (bus_calls (\<lambda>_ _. PROPAGATION_CONTINUE) (bus (register_handler h demo_cm)) 101)
     \<and> h \<in> fst ` set (bus_calls (\<lambda>_ _. PROPAGATION_CONTINUE) (bus (register_handler h demo_cm)) 100)"
proof -
  obtain h where h: "logger_init 7 0 (fill_host_api demo_env None) demo_cm = (Some h, demo_cm)" "h_ident h = 7"
    by (simp add: logger_init_def handler_init_def to_c_handler_def ih_init_def logger_on_init_def msg_logger_instance_def
        set_supported_types_def new_ihandler_def)
  have "h \<notin> en_fn ` set (channel (bus demo_cm) t @ wildcards (bus demo_cm))" for t
    by (simp add: demo_cm_def cm_init_def fresh_bus_def channel_def)
  from msg_logger_misses [OF h(1) this] show ?thesis using h(1) by (auto simp: logger_types_def)
qed

text \<open>
  Settings reach plugins through a buffer of the caller: \<open>config_get\<close> of the host interface fills
  exactly the buffer, ends it with a NUL and gives as many characters of the setting as fit, 1023 for
  handlers and 255 for connectors; the latter is the function that the model of the ICE connector uses.
\<close>

theorem config_get_bounded:
  assumes v: "get_raw cf key = Some v" "nul_free v" and "buf \<noteq> []"
  shows "\<exists>rc buf'. s_config_get (Some cf) key buf = Some (rc, buf') \<and> length buf' = length buf \<and> cstr buf' = take (length buf - 1) v
    \<and> ih_config_get (Some (fill_host_api E (Some cf))) key = Some (take 1023 v)
    \<and> ic_config_get (Some (fill_host_api E (Some cf))) key = Some (config_get (get_raw cf) key)"
  using assms cstr_strn_take [OF v(2), of 1024] cstr_strn_take [OF v(2), of 256]
  by (simp add: s_config_get_def cstr_strn_take ih_config_get_def ic_config_get_def fill_host_api_def config_get_def)

text \<open>A handler cannot read a setting of its own: the core answers for the keys it knows only.\<close>

lemma own_settings_unknown: "ih_config_get (Some (fill_host_api E (Some cf))) ''template.greeting'' = Some []"
  by (simp add: ih_config_get_def fill_host_api_def s_config_get_def get_raw_def raw_settings_def cstr_def string_of_bytes_def)

end
