(* ===== verification/Diagnostics.thy ===== *)
theory Diagnostics
  imports C_Api
begin

section \<open>The diagnostic dump of the connections\<close>

text \<open>
  \<open>dump_connections\<close> of \<open>core/cm/queries.cpp\<close> and its forwarding through \<open>src/core.cpp\<close> and
  \<open>src/capi.cpp\<close>. The document is built here; turning it into text is the JSON library, which throws
  (\<open>None\<close>) on text that is not UTF-8.
\<close>

fun conn_state_int :: "conn_state_t \<Rightarrow> int" where
  "conn_state_int STATE_CONNECTING = 0" | "conn_state_int STATE_NOISE_HANDSHAKE = 1" | "conn_state_int STATE_ESTABLISHED = 2"
| "conn_state_int STATE_CLOSING = 3" | "conn_state_int STATE_CLOSED = 4"

definition path_json :: "transport_path \<Rightarrow> json" where
  "path_json tp = j_object [(''transport_id'', J_int (uint (tp_id tp))), (''scheme'', J_string (tp_scheme tp)),
     (''priority'', J_int (uint (tp_priority tp))), (''active'', J_bool (tp_active tp)),
     (''rtt_us'', J_int (uint (tp_last_rtt_us tp))), (''errors'', J_int (uint (tp_errors tp)))]"

definition queue_bytes :: "cm \<Rightarrow> conn_id \<Rightarrow> nat" where
  "queue_bytes s cid = (case map_of (send_queues s) cid of Some q \<Rightarrow> pending_bytes q | None \<Rightarrow> 0)"

definition connection_json :: "cm \<Rightarrow> conn_id \<Rightarrow> connection_record \<Rightarrow> json" where
  "connection_json s cid r = j_object (
     [(''id'', J_int (uint cid)), (''state'', J_int (conn_state_int (c_state r))), (''address'', J_string (ep_address (c_remote r))),
      (''port'', J_int (uint (ep_port (c_remote r)))),
      (''scheme'', J_string (if c_negotiated_scheme r = [] then c_local_scheme r else c_negotiated_scheme r)),
      (''authenticated'', J_bool (c_peer_authenticated r)), (''localhost'', J_bool (c_is_localhost r)),
      (''initiator'', J_bool (c_is_initiator r))]
     @ (if c_peer_authenticated r then [(''peer_pubkey'', J_string (bytes_to_hex (c_peer_user_pubkey r)))] else [])
     @ [(''pending_bytes'', J_int (int (queue_bytes s cid))), (''transport_paths'', J_array (map path_json (c_transport_paths r)))])"

definition dump_json :: "cm \<Rightarrow> json" where
  "dump_json s = J_array (map (\<lambda>(cid, r). connection_json s cid r) (records s))"

definition dump_connections :: "json_lib \<Rightarrow> cm \<Rightarrow> string option" where
  "dump_connections J s = js_dump J (dump_json s)"

text \<open>\<open>None\<close>: the exception leaves the C function.\<close>

definition gn_core_dump_connections :: "json_lib \<Rightarrow> capi \<Rightarrow> bytes option \<Rightarrow> nat \<Rightarrow> (nat \<times> bytes option) option" where
  "gn_core_dump_connections J a buffer max_len =
     (case ca_core a of None \<Rightarrow> Some (0, buffer)
      | Some k \<Rightarrow>
          if buffer = None \<or> max_len = 0 then Some (0, buffer)
          else map_option (\<lambda>t. copy_text t buffer max_len) (dump_connections J (nc_cm k)))"

subsection \<open>Properties\<close>

definition dump_member :: "cm \<Rightarrow> nat \<Rightarrow> string \<Rightarrow> json option" where
  "dump_member s i key = (case dump_json s of J_array es \<Rightarrow> j_get (es ! i) key | _ \<Rightarrow> None)"

lemma connection_member:
  "j_get (connection_json s cid r) ''id'' = Some (J_int (uint cid))"
  "j_get (connection_json s cid r) ''state'' = Some (J_int (conn_state_int (c_state r)))"
  "j_get (connection_json s cid r) ''address'' = Some (J_string (ep_address (c_remote r)))"
  "j_get (connection_json s cid r) ''port'' = Some (J_int (uint (ep_port (c_remote r))))"
  "j_get (connection_json s cid r) ''peer_pubkey'' = (if c_peer_authenticated r then Some (J_string (bytes_to_hex (c_peer_user_pubkey r))) else None)"
  "j_get (connection_json s cid r) ''scheme'' = Some (J_string (if c_negotiated_scheme r = [] then c_local_scheme r else c_negotiated_scheme r))"
  "j_get (connection_json s cid r) ''authenticated'' = Some (J_bool (c_peer_authenticated r))"
  "j_get (connection_json s cid r) ''pending_bytes'' = Some (J_int (int (queue_bytes s cid)))"
  "j_get (connection_json s cid r) ''transport_paths'' = Some (J_array (map path_json (c_transport_paths r)))"
  unfolding connection_json_def by (subst j_get_object, simp, simp)+

text \<open>
  Property C38. The dump agrees with the queries of the manager: in every state that satisfies the
  invariant it has one entry per connection record, whatever the state of the connection, in the
  order of the map and with distinct ids. What an entry says of state, address, port, peer key and
  queued bytes is what the query functions answer for its id; the peer key is given, and the
  connection called authenticated, exactly when the query has a key to answer; the scheme is the
  negotiated one, and the scheme of the own transport while the query answers that none is negotiated.
\<close>

theorem dump_agrees_with_queries:
  assumes inv: "cm_inv s"
  defines "ids \<equiv> map fst (records s)"
  shows "(\<exists>es. dump_json s = J_array es \<and> length es = connection_count s) \<and> distinct ids
    \<and> (\<forall>i < connection_count s. let c = ids ! i in
        dump_member s i ''id'' = Some (J_int (uint c))
      \<and> dump_member s i ''state'' = map_option (\<lambda>st. J_int (conn_state_int st)) (get_state s c)
      \<and> dump_member s i ''address'' = map_option (\<lambda>ep. J_string (ep_address ep)) (get_peer_endpoint s c)
      \<and> dump_member s i ''port'' = map_option (\<lambda>ep. J_int (uint (ep_port ep))) (get_peer_endpoint s c)
      \<and> dump_member s i ''peer_pubkey'' = map_option (\<lambda>pk. J_string (bytes_to_hex pk)) (get_peer_pubkey s c)
      \<and> dump_member s i ''authenticated'' = Some (J_bool (get_peer_pubkey s c \<noteq> None))
      \<and> dump_member s i ''scheme'' = map_option (\<lambda>r. J_string (if get_negotiated_scheme s c = Some [] then c_local_scheme r
            else the (get_negotiated_scheme s c))) (rcu_find s c)
      \<and> dump_member s i ''pending_bytes'' = Some (J_int (int (get_pending_bytes s c))))"
proof (intro conjI allI impI)
  show "\<exists>es. dump_json s = J_array es \<and> length es = connection_count s" by (simp add: dump_json_def connection_count_def)
  show d: "distinct ids" using cm_invD(1) [OF inv] by (simp add: ids_def)
  fix i assume i: "i < connection_count s"
  obtain c r where cr: "records s ! i = (c, r)" by fastforce
  have c: "ids ! i = c" using i cr by (simp add: ids_def connection_count_def)
  have "(c, r) \<in> set (records s)" using i cr unfolding connection_count_def by (metis nth_mem)
  then have find: "rcu_find s c = Some r" using d by (simp add: rcu_find_def ids_def)
  then have "c \<noteq> CONN_ID_INVALID" using cm_invD(4) [OF inv] by (auto simp: CONN_ID_INVALID_def)
  then show "let c = ids ! i in
        dump_member s i ''id'' = Some (J_int (uint c))
      \<and> dump_member s i ''state'' = map_option (\<lambda>st. J_int (conn_state_int st)) (get_state s c)
      \<and> dump_member s i ''address'' = map_option (\<lambda>ep. J_string (ep_address ep)) (get_peer_endpoint s c)
      \<and> dump_member s i ''port'' = map_option (\<lambda>ep. J_int (uint (ep_port ep))) (get_peer_endpoint s c)
      \<and> dump_member s i ''peer_pubkey'' = map_option (\<lambda>pk. J_string (bytes_to_hex pk)) (get_peer_pubkey s c)
      \<and> dump_member s i ''authenticated'' = Some (J_bool (get_peer_pubkey s c \<noteq> None))
      \<and> dump_member s i ''scheme'' = map_option (\<lambda>r. J_string (if get_negotiated_scheme s c = Some [] then c_local_scheme r
            else the (get_negotiated_scheme s c))) (rcu_find s c)
      \<and> dump_member s i ''pending_bytes'' = Some (J_int (int (get_pending_bytes s c)))"
    using i cr unfolding c
    by (simp add: dump_member_def dump_json_def connection_member find get_state_def get_peer_endpoint_def get_peer_pubkey_def
        get_pending_bytes_def get_negotiated_scheme_def queue_bytes_def connection_count_def)
qed

theorem dump_agrees_with_queries_witness:
  "dump_member demo_cm 0 ''id'' = Some (J_int 1) \<and> dump_member demo_cm 0 ''state'' = Some (J_int 2)
     \<and> dump_member demo_cm 2 ''id'' = Some (J_int 3) \<and> dump_member demo_cm 2 ''peer_pubkey'' = None
     \<and> dump_member demo_cm 2 ''authenticated'' = Some (J_bool False)"
proof -
  have ids: "map fst (records demo_cm) = [1, 2, 3]" "connection_count demo_cm = 3" by (simp_all add: demo_cm_def connection_count_def)
  have "get_state demo_cm 1 = Some STATE_ESTABLISHED" "get_peer_pubkey demo_cm 3 = None"
    by (simp_all add: get_state_def get_peer_pubkey_def demo_established_def demo_connecting_def fresh_record_def)
  moreover note dump_agrees_with_queries [OF demo_cm_inv, THEN conjunct2, THEN conjunct2, rule_format, unfolded ids, of 0]
    dump_agrees_with_queries [OF demo_cm_inv, THEN conjunct2, THEN conjunct2, rule_format, unfolded ids, of 2]
  ultimately show ?thesis by (simp add: Let_def)
qed

text \<open>
  A buffer of the C caller that is too small gets a beginning of the document, which is not a JSON
  document, and the answer does not say how much is missing.
\<close>

lemma short_buffer_cuts_dump:
  assumes "ca_core a = Some k" "dump_connections J (nc_cm k) = Some t" "0 < n" "n \<le> length t"
  shows "gn_core_dump_connections J a (Some (replicate n 0)) n = Some (n - 1, Some (bytes_of_string (take (n - 1) t) @ [0]))"
proof -
  have "min (length t) (n - 1) = n - 1" using assms(4) by simp
  then show ?thesis using assms by (simp add: gn_core_dump_connections_def copy_text_def Let_def)
qed

end
