(* ===== verification/Sys_Messages.thy ===== *)
theory Sys_Messages
  imports Wire
begin

section \<open>System payloads without a user\<close>

text \<open>
  The payloads of \<open>core/data/messages.hpp\<close> for the DHT, health reports, RPC, routing and TUN. The protocol
  defines them and no code of the repository reads or writes them yet. Each is a packed struct with an
  encoder and a decoder, interpreted in the contract \<open>pod\<close> of \<open>Wire\<close> with the size that a
  \<open>static_assert\<close> of the source states, where there is one.
\<close>

unbundle bit_operations_syntax

subsection \<open>Message types\<close>

definition MSG_TYPE_SYS_DHT_PING :: u32 where [wire_consts]: "MSG_TYPE_SYS_DHT_PING = 0x0100"
definition MSG_TYPE_SYS_DHT_FIND_NODE :: u32 where [wire_consts]: "MSG_TYPE_SYS_DHT_FIND_NODE = 0x0101"
definition MSG_TYPE_SYS_DHT_ANNOUNCE :: u32 where [wire_consts]: "MSG_TYPE_SYS_DHT_ANNOUNCE = 0x0102"
definition MSG_TYPE_SYS_HEALTH_PING :: u32 where [wire_consts]: "MSG_TYPE_SYS_HEALTH_PING = 0x0200"
definition MSG_TYPE_SYS_HEALTH_PONG :: u32 where [wire_consts]: "MSG_TYPE_SYS_HEALTH_PONG = 0x0201"
definition MSG_TYPE_SYS_HEALTH_REPORT :: u32 where [wire_consts]: "MSG_TYPE_SYS_HEALTH_REPORT = 0x0202"
definition MSG_TYPE_SYS_RPC_REQUEST :: u32 where [wire_consts]: "MSG_TYPE_SYS_RPC_REQUEST = 0x0300"
definition MSG_TYPE_SYS_RPC_RESPONSE :: u32 where [wire_consts]: "MSG_TYPE_SYS_RPC_RESPONSE = 0x0301"
definition MSG_TYPE_SYS_ROUTE_ANNOUNCE :: u32 where [wire_consts]: "MSG_TYPE_SYS_ROUTE_ANNOUNCE = 0x0400"
definition MSG_TYPE_SYS_ROUTE_QUERY :: u32 where [wire_consts]: "MSG_TYPE_SYS_ROUTE_QUERY = 0x0401"
definition MSG_TYPE_SYS_TUN_CONFIG :: u32 where [wire_consts]: "MSG_TYPE_SYS_TUN_CONFIG = 0x0500"
definition MSG_TYPE_SYS_TUN_DATA :: u32 where [wire_consts]: "MSG_TYPE_SYS_TUN_DATA = 0x0501"

text \<open>They are distinct and lie in the range reserved for system services.\<close>

lemma sys_types_reserved:
  "let ts = [MSG_TYPE_SYS_DHT_PING, MSG_TYPE_SYS_DHT_FIND_NODE, MSG_TYPE_SYS_DHT_ANNOUNCE, MSG_TYPE_SYS_HEALTH_PING,
     MSG_TYPE_SYS_HEALTH_PONG, MSG_TYPE_SYS_HEALTH_REPORT, MSG_TYPE_SYS_RPC_REQUEST, MSG_TYPE_SYS_RPC_RESPONSE,
     MSG_TYPE_SYS_ROUTE_ANNOUNCE, MSG_TYPE_SYS_ROUTE_QUERY, MSG_TYPE_SYS_TUN_CONFIG, MSG_TYPE_SYS_TUN_DATA]
   in distinct ts \<and> list_all (\<lambda>t. MSG_TYPE_SYS_BASE \<le> t \<and> t \<le> MSG_TYPE_SYS_MAX) ts"
  by (simp add: wire_consts Let_def)

subsection \<open>DHT\<close>

record dht_ping_payload =
  dp_request_id :: u64
  dp_sender_pubkey :: bytes
  dp_listen_port :: u16
  dp_pad :: bytes

definition dht_ping_payload_enc :: "dht_ping_payload \<Rightarrow> bytes" where
  "dht_ping_payload_enc p = put_u64 (dp_request_id p) @ dp_sender_pubkey p @ put_u16 (dp_listen_port p) @ dp_pad p"

definition dht_ping_payload_dec :: "bytes \<Rightarrow> dht_ping_payload" where
  "dht_ping_payload_dec bs = \<lparr> dp_request_id = get_u64 0 bs, dp_sender_pubkey = get_arr 8 32 bs,
     dp_listen_port = get_u16 40 bs, dp_pad = get_arr 42 2 bs \<rparr>"

definition dht_ping_payload_wf :: "dht_ping_payload \<Rightarrow> bool" where
  "dht_ping_payload_wf p \<longleftrightarrow> length (dp_sender_pubkey p) = 32 \<and> length (dp_pad p) = 2"

interpretation dht_ping: pod dht_ping_payload_enc dht_ping_payload_dec 44 dht_ping_payload_wf
  by unfold_locales (simp_all add: dht_ping_payload_enc_def dht_ping_payload_dec_def dht_ping_payload_wf_def pod_join)

record dht_find_node_payload =
  df_request_id :: u64
  df_target_pubkey :: bytes
  df_k :: u8
  df_response_count :: u8
  df_pad :: bytes

definition dht_find_node_payload_enc :: "dht_find_node_payload \<Rightarrow> bytes" where
  "dht_find_node_payload_enc p = put_u64 (df_request_id p) @ df_target_pubkey p @ put_u8 (df_k p) @
     put_u8 (df_response_count p) @ df_pad p"

definition dht_find_node_payload_dec :: "bytes \<Rightarrow> dht_find_node_payload" where
  "dht_find_node_payload_dec bs = \<lparr> df_request_id = get_u64 0 bs, df_target_pubkey = get_arr 8 32 bs, df_k = get_u8 40 bs,
     df_response_count = get_u8 41 bs, df_pad = get_arr 42 2 bs \<rparr>"

definition dht_find_node_payload_wf :: "dht_find_node_payload \<Rightarrow> bool" where
  "dht_find_node_payload_wf p \<longleftrightarrow> length (df_target_pubkey p) = 32 \<and> length (df_pad p) = 2"

interpretation dht_find_node: pod dht_find_node_payload_enc dht_find_node_payload_dec 44 dht_find_node_payload_wf
  by unfold_locales (simp_all add: dht_find_node_payload_enc_def dht_find_node_payload_dec_def dht_find_node_payload_wf_def pod_join)

record dht_node_entry =
  dn_pubkey :: bytes
  dn_address :: bytes
  dn_port :: u16
  dn_pad :: bytes

definition dht_node_entry_enc :: "dht_node_entry \<Rightarrow> bytes" where
  "dht_node_entry_enc p = dn_pubkey p @ dn_address p @ put_u16 (dn_port p) @ dn_pad p"

definition dht_node_entry_dec :: "bytes \<Rightarrow> dht_node_entry" where
  "dht_node_entry_dec bs = \<lparr> dn_pubkey = get_arr 0 32 bs, dn_address = get_arr 32 64 bs, dn_port = get_u16 96 bs,
     dn_pad = get_arr 98 2 bs \<rparr>"

definition dht_node_entry_wf :: "dht_node_entry \<Rightarrow> bool" where
  "dht_node_entry_wf p \<longleftrightarrow> length (dn_pubkey p) = 32 \<and> length (dn_address p) = 64 \<and> length (dn_pad p) = 2"

interpretation dht_node: pod dht_node_entry_enc dht_node_entry_dec 100 dht_node_entry_wf
  by unfold_locales (simp_all add: dht_node_entry_enc_def dht_node_entry_dec_def dht_node_entry_wf_def pod_join)

record dht_announce_payload =
  da_pubkey :: bytes
  da_address :: bytes
  da_port :: u16
  da_flags :: u8
  da_pad :: u8

definition dht_announce_payload_enc :: "dht_announce_payload \<Rightarrow> bytes" where
  "dht_announce_payload_enc p = da_pubkey p @ da_address p @ put_u16 (da_port p) @ put_u8 (da_flags p) @
     put_u8 (da_pad p)"

definition dht_announce_payload_dec :: "bytes \<Rightarrow> dht_announce_payload" where
  "dht_announce_payload_dec bs = \<lparr> da_pubkey = get_arr 0 32 bs, da_address = get_arr 32 64 bs, da_port = get_u16 96 bs,
     da_flags = get_u8 98 bs, da_pad = get_u8 99 bs \<rparr>"

definition dht_announce_payload_wf :: "dht_announce_payload \<Rightarrow> bool" where
  "dht_announce_payload_wf p \<longleftrightarrow> length (da_pubkey p) = 32 \<and> length (da_address p) = 64"

interpretation dht_announce: pod dht_announce_payload_enc dht_announce_payload_dec 100 dht_announce_payload_wf
  by unfold_locales (simp_all add: dht_announce_payload_enc_def dht_announce_payload_dec_def dht_announce_payload_wf_def pod_join)

subsection \<open>Health\<close>

record health_ping_payload =
  hg_timestamp_us :: u64
  hg_seq :: u32
  hg_connection_count :: u32

definition health_ping_payload_enc :: "health_ping_payload \<Rightarrow> bytes" where
  "health_ping_payload_enc p = put_u64 (hg_timestamp_us p) @ put_u32 (hg_seq p) @ put_u32 (hg_connection_count p)"

definition health_ping_payload_dec :: "bytes \<Rightarrow> health_ping_payload" where
  "health_ping_payload_dec bs = \<lparr> hg_timestamp_us = get_u64 0 bs, hg_seq = get_u32 8 bs,
     hg_connection_count = get_u32 12 bs \<rparr>"

interpretation health_ping: pod health_ping_payload_enc health_ping_payload_dec 16 "\<lambda>_. True"
  by unfold_locales (simp_all add: health_ping_payload_enc_def health_ping_payload_dec_def pod_join)

record health_report_payload =
  hr_uptime_s :: u64
  hr_connections :: u32
  hr_rx_bytes_sec :: u32
  hr_tx_bytes_sec :: u32
  hr_cpu_percent :: u16
  hr_mem_mb :: u16
  hr_latency_p50_us :: u32
  hr_latency_p99_us :: u32

definition health_report_payload_enc :: "health_report_payload \<Rightarrow> bytes" where
  "health_report_payload_enc p = put_u64 (hr_uptime_s p) @ put_u32 (hr_connections p) @ put_u32 (hr_rx_bytes_sec p) @
     put_u32 (hr_tx_bytes_sec p) @ put_u16 (hr_cpu_percent p) @ put_u16 (hr_mem_mb p) @
     put_u32 (hr_latency_p50_us p) @ put_u32 (hr_latency_p99_us p)"

definition health_report_payload_dec :: "bytes \<Rightarrow> health_report_payload" where
  "health_report_payload_dec bs = \<lparr> hr_uptime_s = get_u64 0 bs, hr_connections = get_u32 8 bs,
     hr_rx_bytes_sec = get_u32 12 bs, hr_tx_bytes_sec = get_u32 16 bs,
     hr_cpu_percent = get_u16 20 bs, hr_mem_mb = get_u16 22 bs,
     hr_latency_p50_us = get_u32 24 bs, hr_latency_p99_us = get_u32 28 bs \<rparr>"

interpretation health_report: pod health_report_payload_enc health_report_payload_dec 32 "\<lambda>_. True"
  by unfold_locales (simp_all add: health_report_payload_enc_def health_report_payload_dec_def pod_join)

subsection \<open>RPC\<close>

text \<open>
  \<open>gn_rpc_hash\<close> mixes in each \<open>char\<close> converted to 32 bits; where \<open>char\<close> is signed (x86) this extends
  the sign. \<open>fnv1a\<close> is the published hash on bytes.
\<close>

definition rpc_step :: "u32 \<Rightarrow> byte \<Rightarrow> u32" where
  "rpc_step h c = (h XOR scast c) * 16777619"

definition gn_rpc_hash :: "bytes \<Rightarrow> u32" where
  "gn_rpc_hash s = foldl rpc_step 2166136261 s"

definition fnv1a :: "bytes \<Rightarrow> u32" where
  "fnv1a s = foldl (\<lambda>h c. (h XOR ucast c) * 16777619) 2166136261 s"

record rpc_request_payload =
  rq_request_id :: u64
  rq_method_hash :: u32
  rq_timeout_ms :: u32

definition rpc_request_payload_enc :: "rpc_request_payload \<Rightarrow> bytes" where
  "rpc_request_payload_enc p = put_u64 (rq_request_id p) @ put_u32 (rq_method_hash p) @ put_u32 (rq_timeout_ms p)"

definition rpc_request_payload_dec :: "bytes \<Rightarrow> rpc_request_payload" where
  "rpc_request_payload_dec bs = \<lparr> rq_request_id = get_u64 0 bs, rq_method_hash = get_u32 8 bs,
     rq_timeout_ms = get_u32 12 bs \<rparr>"

interpretation rpc_request: pod rpc_request_payload_enc rpc_request_payload_dec 16 "\<lambda>_. True"
  by unfold_locales (simp_all add: rpc_request_payload_enc_def rpc_request_payload_dec_def pod_join)

record rpc_response_payload =
  rr_request_id :: u64
  rr_status :: u32
  rr_reserved :: u32

definition rpc_response_payload_enc :: "rpc_response_payload \<Rightarrow> bytes" where
  "rpc_response_payload_enc p = put_u64 (rr_request_id p) @ put_u32 (rr_status p) @ put_u32 (rr_reserved p)"

definition rpc_response_payload_dec :: "bytes \<Rightarrow> rpc_response_payload" where
  "rpc_response_payload_dec bs = \<lparr> rr_request_id = get_u64 0 bs, rr_status = get_u32 8 bs, rr_reserved = get_u32 12 bs \<rparr>"

interpretation rpc_response: pod rpc_response_payload_enc rpc_response_payload_dec 16 "\<lambda>_. True"
  by unfold_locales (simp_all add: rpc_response_payload_enc_def rpc_response_payload_dec_def pod_join)

subsection \<open>Routing\<close>

record route_announce_payload =
  ra_dest_pubkey :: bytes
  ra_via_pubkey :: bytes
  ra_hop_count :: u8
  ra_flags :: u8
  ra_ttl_sec :: u16
  ra_seq_num :: u32

definition route_announce_payload_enc :: "route_announce_payload \<Rightarrow> bytes" where
  "route_announce_payload_enc p = ra_dest_pubkey p @ ra_via_pubkey p @ put_u8 (ra_hop_count p) @ put_u8 (ra_flags p) @
     put_u16 (ra_ttl_sec p) @ put_u32 (ra_seq_num p)"

definition route_announce_payload_dec :: "bytes \<Rightarrow> route_announce_payload" where
  "route_announce_payload_dec bs = \<lparr> ra_dest_pubkey = get_arr 0 32 bs, ra_via_pubkey = get_arr 32 32 bs,
     ra_hop_count = get_u8 64 bs, ra_flags = get_u8 65 bs, ra_ttl_sec = get_u16 66 bs,
     ra_seq_num = get_u32 68 bs \<rparr>"

definition route_announce_payload_wf :: "route_announce_payload \<Rightarrow> bool" where
  "route_announce_payload_wf p \<longleftrightarrow> length (ra_dest_pubkey p) = 32 \<and> length (ra_via_pubkey p) = 32"

interpretation route_announce: pod route_announce_payload_enc route_announce_payload_dec 72 route_announce_payload_wf
  by unfold_locales (simp_all add: route_announce_payload_enc_def route_announce_payload_dec_def route_announce_payload_wf_def pod_join)

record route_query_payload =
  ru_request_id :: u64
  ru_target_pubkey :: bytes
  ru_is_response :: u8
  ru_hop_count :: u8
  ru_pad :: bytes

definition route_query_payload_enc :: "route_query_payload \<Rightarrow> bytes" where
  "route_query_payload_enc p = put_u64 (ru_request_id p) @ ru_target_pubkey p @ put_u8 (ru_is_response p) @
     put_u8 (ru_hop_count p) @ ru_pad p"

definition route_query_payload_dec :: "bytes \<Rightarrow> route_query_payload" where
  "route_query_payload_dec bs = \<lparr> ru_request_id = get_u64 0 bs, ru_target_pubkey = get_arr 8 32 bs,
     ru_is_response = get_u8 40 bs, ru_hop_count = get_u8 41 bs, ru_pad = get_arr 42 2 bs \<rparr>"

definition route_query_payload_wf :: "route_query_payload \<Rightarrow> bool" where
  "route_query_payload_wf p \<longleftrightarrow> length (ru_target_pubkey p) = 32 \<and> length (ru_pad p) = 2"

interpretation route_query: pod route_query_payload_enc route_query_payload_dec 44 route_query_payload_wf
  by unfold_locales (simp_all add: route_query_payload_enc_def route_query_payload_dec_def route_query_payload_wf_def pod_join)

subsection \<open>TUN\<close>

record tun_config_payload =
  tu_tunnel_id :: u32
  tu_virtual_ip :: bytes
  tu_netmask :: bytes
  tu_gateway_pubkey :: bytes
  tu_mtu :: u16
  tu_flags :: u8
  tu_pad :: u8

definition tun_config_payload_enc :: "tun_config_payload \<Rightarrow> bytes" where
  "tun_config_payload_enc p = put_u32 (tu_tunnel_id p) @ tu_virtual_ip p @ tu_netmask p @ tu_gateway_pubkey p @
     put_u16 (tu_mtu p) @ put_u8 (tu_flags p) @ put_u8 (tu_pad p)"

definition tun_config_payload_dec :: "bytes \<Rightarrow> tun_config_payload" where
  "tun_config_payload_dec bs = \<lparr> tu_tunnel_id = get_u32 0 bs, tu_virtual_ip = get_arr 4 4 bs,
     tu_netmask = get_arr 8 4 bs, tu_gateway_pubkey = get_arr 12 32 bs,
     tu_mtu = get_u16 44 bs, tu_flags = get_u8 46 bs, tu_pad = get_u8 47 bs \<rparr>"

definition tun_config_payload_wf :: "tun_config_payload \<Rightarrow> bool" where
  "tun_config_payload_wf p \<longleftrightarrow> length (tu_virtual_ip p) = 4 \<and> length (tu_netmask p) = 4 \<and> length (tu_gateway_pubkey p) = 32"

interpretation tun_config: pod tun_config_payload_enc tun_config_payload_dec 48 tun_config_payload_wf
  by unfold_locales (simp_all add: tun_config_payload_enc_def tun_config_payload_dec_def tun_config_payload_wf_def pod_join)

record tun_data_payload =
  td_tunnel_id :: u32
  td_ip_len :: u16
  td_pad :: bytes

definition tun_data_payload_enc :: "tun_data_payload \<Rightarrow> bytes" where
  "tun_data_payload_enc p = put_u32 (td_tunnel_id p) @ put_u16 (td_ip_len p) @ td_pad p"

definition tun_data_payload_dec :: "bytes \<Rightarrow> tun_data_payload" where
  "tun_data_payload_dec bs = \<lparr> td_tunnel_id = get_u32 0 bs, td_ip_len = get_u16 4 bs, td_pad = get_arr 6 2 bs \<rparr>"

definition tun_data_payload_wf :: "tun_data_payload \<Rightarrow> bool" where
  "tun_data_payload_wf p \<longleftrightarrow> length (td_pad p) = 2"

interpretation tun_data: pod tun_data_payload_enc tun_data_payload_dec 8 tun_data_payload_wf
  by unfold_locales (simp_all add: tun_data_payload_enc_def tun_data_payload_dec_def tun_data_payload_wf_def pod_join)

subsection \<open>Properties\<close>

lemma sint_byte: "sint c = (if c < 128 then uint c else uint c - 256)" for c :: byte
proof (cases "c < 128")
  case True
  then show ?thesis
    using order_trans [of "-128" 0 "uint c"] by (simp add: sint_uint signed_take_bit_int_eq_self_iff word_less_def)
next
  case False
  have lt: "uint c < 256" using unsigned_less [of c, where 'a = int] by simp
  have "signed_take_bit 7 (uint c) = signed_take_bit 7 (uint c - 256)"
    unfolding signed_take_bit_eq_iff_take_bit_eq by (simp add: take_bit_eq_mod)
  also have "\<dots> = uint c - 256"
    using False lt by (simp add: signed_take_bit_int_eq_self_iff word_less_def)
  finally show ?thesis using False by (simp add: sint_uint)
qed

lemma scast_byte: "c < 128 \<Longrightarrow> (scast c :: u32) = ucast c" "128 \<le> c \<Longrightarrow> (scast c :: u32) = ucast c - 256" for c :: byte
proof -
  show "c < 128 \<Longrightarrow> (scast c :: u32) = ucast c" unfolding scast_eq ucast_eq sint_byte by simp
  show "128 \<le> c \<Longrightarrow> (scast c :: u32) = ucast c - 256" unfolding scast_eq ucast_eq sint_byte by (simp add: not_less)
qed

text \<open>
  \<open>GN_RPC_HASH\<close> is documented as FNV-1a. It is that on ASCII names; for a name of one byte above
  127 it is another value.
\<close>

theorem rpc_hash_fnv1a:
  "(list_all (\<lambda>c. c < 128) s \<longrightarrow> gn_rpc_hash s = fnv1a s) \<and> (128 \<le> c \<longrightarrow> gn_rpc_hash [c] \<noteq> fnv1a [c])"
proof (intro conjI impI)
  have "foldl rpc_step h s = foldl (\<lambda>h c. (h XOR ucast c) * 16777619) h s" if "list_all (\<lambda>c. c < 128) s" for h
    using that by (induction s arbitrary: h) (simp_all add: rpc_step_def scast_byte)
  then show "list_all (\<lambda>c. c < 128) s \<Longrightarrow> gn_rpc_hash s = fnv1a s" by (simp add: gn_rpc_hash_def fnv1a_def)
next
  assume c: "128 \<le> c"
  have inj: "x = y" if "x * 16777619 = y * 16777619" for x y :: u32
  proof -
    have "(16777619 * 899433627 :: u32) = 1" by code_simp
    then have one: "z * 16777619 * 899433627 = z" for z :: u32 unfolding mult.assoc by (simp only: mult_1_right)
    have "x * 16777619 * 899433627 = y * 16777619 * 899433627" unfolding that ..
    then show ?thesis unfolding one .
  qed
  have cancel: "x = y" if "k XOR x = k XOR y" for k x y :: u32
  proof -
    have "k XOR (k XOR x) = k XOR (k XOR y)" unfolding that ..
    then show ?thesis by (simp flip: xor.assoc)
  qed
  have ne: "(ucast c - 256 :: u32) \<noteq> ucast c" by (simp add: diff_eq_eq)
  show "gn_rpc_hash [c] \<noteq> fnv1a [c]"
  proof
    assume "gn_rpc_hash [c] = fnv1a [c]"
    then have "(2166136261 XOR (ucast c - 256 :: u32)) * 16777619 = (2166136261 XOR ucast c) * 16777619"
      unfolding gn_rpc_hash_def fnv1a_def rpc_step_def foldl.simps scast_byte(2) [OF c] .
    from ne cancel [OF inj [OF this]] show False by contradiction
  qed
qed

end
