(* ===== verification/Typed_Data.thy ===== *)
theory Typed_Data
  imports Sys_Messages Store_Messages
begin

section \<open>Typed messages of the SDK\<close>

text \<open>
  \<open>sdk/cpp/data.hpp\<close>: the interface \<open>IData\<close> as a locale, its two implementations \<open>PodData<T>\<close> (whose
  contract is the locale \<open>pod\<close> of the theory \<open>Wire\<close>, so that it is a sublocale of \<open>IData\<close>) and
  \<open>VarData\<close>, and the free functions. A pointer with a length is the list behind the pointer and the
  number of bytes read from it.
\<close>

subsection \<open>Data and functions\<close>

definition pod_min_size :: "nat \<Rightarrow> nat" where "pod_min_size sz = sz"

definition var_serialize :: "bytes \<Rightarrow> bytes" where "var_serialize v = v"
definition var_deserialize :: "bytes \<Rightarrow> pod_error + bytes" where "var_deserialize b = Inr b"
definition var_min_size :: nat where "var_min_size = 0"

definition from_bytes :: "(bytes \<Rightarrow> pod_error + 'a) \<Rightarrow> bytes \<Rightarrow> nat \<Rightarrow> pod_error + 'a" where
  "from_bytes deserialize data len = deserialize (take len data)"

definition to_bytes :: "('a \<Rightarrow> bytes) \<Rightarrow> 'a \<Rightarrow> bytes" where
  "to_bytes serialize obj = serialize obj"

definition make_packet :: "bytes \<Rightarrow> nat \<Rightarrow> bytes" where
  "make_packet data len = take len data"

subsection \<open>IData\<close>

text \<open>
  What the documentation of \<open>IData\<close> promises: \<open>deserialize\<close> fails exactly on buffers shorter than
  \<open>min_size\<close>, and what \<open>serialize\<close> wrote is read back.
\<close>

locale idata =
  fixes serialize :: "'a \<Rightarrow> bytes" and deserialize :: "bytes \<Rightarrow> pod_error + 'a" and min_size :: nat and valid :: "'a \<Rightarrow> bool"
  assumes short: "length b < min_size \<Longrightarrow> deserialize b = Inl Buffer_too_small"
    and enough: "min_size \<le> length b \<Longrightarrow> \<exists>x. deserialize b = Inr x \<and> valid x"
    and written: "valid x \<Longrightarrow> deserialize (serialize x) = Inr x"
begin

lemma bytes_roundtrip:
  assumes "valid x" "length (serialize x) \<le> length data" "take (length (serialize x)) data = serialize x"
  shows "from_bytes deserialize data (length (serialize x)) = Inr x"
  using assms by (simp add: from_bytes_def written)

lemma from_bytes_iff: "(\<exists>x. from_bytes deserialize data len = Inr x) \<longleftrightarrow> min_size \<le> min (length data) len"
  using short [of "take len data"] enough [of "take len data"] unfolding from_bytes_def length_take
  by (cases "min_size \<le> min (length data) len") auto

lemma serialized_size: "valid x \<Longrightarrow> min_size \<le> length (serialize x)"
  using short [of "serialize x"] written [of x] by (cases "min_size \<le> length (serialize x)") auto

end

sublocale pod \<subseteq> wrapped: idata "pod_serialize enc" "pod_deserialize sz dec" "pod_min_size sz" wf
proof unfold_locales
  show "length b < pod_min_size sz \<Longrightarrow> pod_deserialize sz dec b = Inl Buffer_too_small" for b
    by (simp add: pod_min_size_def deserialize_short)
  show "pod_min_size sz \<le> length b \<Longrightarrow> \<exists>x. pod_deserialize sz dec b = Inr x \<and> wf x" for b
    by (simp add: pod_min_size_def pod_deserialize_def wf_dec)
  show "wf x \<Longrightarrow> pod_deserialize sz dec (pod_serialize enc x) = Inr x" for x
    using deserialize_serialize [of x "[]"] by simp
qed

interpretation var_data: idata var_serialize var_deserialize var_min_size "\<lambda>_. True"
  by unfold_locales (simp_all add: var_serialize_def var_deserialize_def var_min_size_def)

subsection \<open>Properties\<close>

text \<open>
  Every typed message of the wire format is read back by \<open>from_bytes\<close> from what \<open>to_bytes\<close> wrote,
  and \<open>from_bytes\<close> fails on exactly the buffers that are too short.
\<close>

theorem typed_messages_roundtrip:
  "from_bytes (pod_deserialize 20 header_dec) (to_bytes (pod_serialize header_enc) h) 20 = Inr h
   \<and> from_bytes var_deserialize (to_bytes var_serialize v) (length v) = Inr v
   \<and> ((\<exists>r. from_bytes (pod_deserialize 16 rpc_request_payload_dec) data len = Inr r) \<longleftrightarrow> 16 \<le> min (length data) len)
   \<and> ((\<exists>r. from_bytes (pod_deserialize 16 health_ping_payload_dec) data len = Inr r) \<longleftrightarrow> 16 \<le> min (length data) len)"
proof (intro conjI)
  show "from_bytes (pod_deserialize 20 header_dec) (to_bytes (pod_serialize header_enc) h) 20 = Inr h"
    using header.wrapped.bytes_roundtrip [of h "header_enc h"] by (simp add: to_bytes_def pod_serialize_def)
  show "from_bytes var_deserialize (to_bytes var_serialize v) (length v) = Inr v"
    using var_data.bytes_roundtrip [of v v] by (simp add: to_bytes_def var_serialize_def)
  show "(\<exists>r. from_bytes (pod_deserialize 16 rpc_request_payload_dec) data len = Inr r) \<longleftrightarrow> 16 \<le> min (length data) len"
    using rpc_request.wrapped.from_bytes_iff [of data len] by (simp add: pod_min_size_def)
  show "(\<exists>r. from_bytes (pod_deserialize 16 health_ping_payload_dec) data len = Inr r) \<longleftrightarrow> 16 \<le> min (length data) len"
    using health_ping.wrapped.from_bytes_iff [of data len] by (simp add: pod_min_size_def)
qed

end
