(* ===== verification/Dyn_Lib.thy ===== *)
theory Dyn_Lib
  imports Prelude
begin

section \<open>Library handles\<close>

text \<open>
  \<open>DynLib\<close> of \<open>core/dynlib.hpp\<close>, the move-only owner of a handle from \<open>dlopen\<close>, on POSIX. The program's
  \<open>DynLib\<close> objects are numbered; an object that is not in the table does not exist (yet, or any more).
  What the dynamic linker answers is an argument of \<open>open\<close> and \<open>symbol\<close>, and every handle it gives out
  counts as a new one. \<open>closed\<close> lists the calls of \<open>dlclose\<close>.
\<close>

record dl_world =
  dl_objects :: "nat \<rightharpoonup> nat option"
  dl_opened :: nat
  dl_closed :: "nat list"

definition dl_start :: dl_world where
  "dl_start = \<lparr> dl_objects = Map.empty, dl_opened = 0, dl_closed = [] \<rparr>"

subsection \<open>Operations\<close>

definition dl_new :: "nat \<Rightarrow> dl_world \<Rightarrow> dl_world" where
  "dl_new x w = w\<lparr> dl_objects := (dl_objects w)(x \<mapsto> None) \<rparr>"

definition dl_close :: "nat \<Rightarrow> dl_world \<Rightarrow> dl_world" where
  "dl_close x w =
     (case dl_objects w x of
        Some (Some h) \<Rightarrow> w\<lparr> dl_closed := dl_closed w @ [h], dl_objects := (dl_objects w)(x \<mapsto> None) \<rparr>
      | _ \<Rightarrow> w)"

definition dl_destroy :: "nat \<Rightarrow> dl_world \<Rightarrow> dl_world" where
  "dl_destroy x w = (let w1 = dl_close x w in w1\<lparr> dl_objects := (dl_objects w1)(x := None) \<rparr>)"

definition dl_move_construct :: "nat \<Rightarrow> nat \<Rightarrow> dl_world \<Rightarrow> dl_world" where
  "dl_move_construct x other w =
     w\<lparr> dl_objects := (dl_objects w)(x := dl_objects w other, other \<mapsto> None) \<rparr>"

definition dl_move_assign :: "nat \<Rightarrow> nat \<Rightarrow> dl_world \<Rightarrow> dl_world" where
  "dl_move_assign x other w =
     (if x = other then w
      else let w1 = dl_close x w
           in w1\<lparr> dl_objects := (dl_objects w1)(x := dl_objects w1 other, other \<mapsto> None) \<rparr>)"

text \<open>
  \<open>open\<close> makes the object of its result, which holds the handle. \<open>err\<close> is what \<open>dlerror\<close> says when
  \<open>dlopen\<close> has failed; the local object is then destroyed.
\<close>

definition dl_open :: "bool \<Rightarrow> string option \<Rightarrow> nat \<Rightarrow> dl_world \<Rightarrow> (string + nat) \<times> dl_world" where
  "dl_open found err x w =
     (let w1 = dl_new x w
      in if \<not> found then (Inl (case err of Some e \<Rightarrow> e | None \<Rightarrow> ''dlopen failed''), dl_destroy x w1)
         else (Inr x, w1\<lparr> dl_objects := (dl_objects w1)(x \<mapsto> Some (dl_opened w)), dl_opened := dl_opened w + 1 \<rparr>))"

definition dl_symbol :: "(nat \<Rightarrow> string \<Rightarrow> string + 's) \<Rightarrow> nat \<Rightarrow> string \<Rightarrow> dl_world \<Rightarrow> string + 's" where
  "dl_symbol dlsym x name w =
     (case dl_objects w x of Some (Some h) \<Rightarrow> dlsym h name | _ \<Rightarrow> Inl ''Library not loaded'')"

definition dl_is_open :: "nat \<Rightarrow> dl_world \<Rightarrow> bool" where
  "dl_is_open x w \<longleftrightarrow> (\<exists>h. dl_objects w x = Some (Some h))"

subsection \<open>Programs\<close>

text \<open>Operations on objects as C++ allows them: new objects are new, and the operands of a move exist.\<close>

inductive dl_reach :: "dl_world \<Rightarrow> bool" where
  dl_init: "dl_reach dl_start"
| dl_makes: "dl_reach w \<Longrightarrow> dl_objects w x = None \<Longrightarrow> dl_reach (dl_new x w)"
| dl_opens: "dl_reach w \<Longrightarrow> dl_objects w x = None \<Longrightarrow> dl_reach (snd (dl_open found err x w))"
| dl_constructs: "dl_reach w \<Longrightarrow> dl_objects w x = None \<Longrightarrow> dl_objects w y \<noteq> None \<Longrightarrow> dl_reach (dl_move_construct x y w)"
| dl_assigns: "dl_reach w \<Longrightarrow> dl_objects w x \<noteq> None \<Longrightarrow> dl_objects w y \<noteq> None \<Longrightarrow> dl_reach (dl_move_assign x y w)"
| dl_closes: "dl_reach w \<Longrightarrow> dl_objects w x \<noteq> None \<Longrightarrow> dl_reach (dl_close x w)"
| dl_destroys: "dl_reach w \<Longrightarrow> dl_objects w x \<noteq> None \<Longrightarrow> dl_reach (dl_destroy x w)"

text \<open>Every handle given out is owned by exactly one object or was closed exactly once.\<close>

definition owns :: "dl_world \<Rightarrow> nat \<Rightarrow> nat \<Rightarrow> bool" where
  "owns w x h \<longleftrightarrow> dl_objects w x = Some (Some h)"

definition owned_once :: "(nat \<Rightarrow> nat \<Rightarrow> bool) \<Rightarrow> nat \<Rightarrow> nat list \<Rightarrow> bool" where
  "owned_once R n cs \<longleftrightarrow> distinct cs \<and> (\<forall>x y h. R x h \<longrightarrow> R y h \<longrightarrow> x = y)
     \<and> (\<forall>h. h < n \<longleftrightarrow> h \<in> set cs \<or> (\<exists>x. R x h)) \<and> (\<forall>x h. R x h \<longrightarrow> h \<notin> set cs)"

definition dl_ok :: "dl_world \<Rightarrow> bool" where
  "dl_ok w \<longleftrightarrow> owned_once (owns w) (dl_opened w) (dl_closed w)"

lemma owned_once_close:
  assumes o: "owned_once R n cs" and "R x h" "\<And>k. R x k \<Longrightarrow> k = h"
  shows "owned_once (\<lambda>y k. y \<noteq> x \<and> R y k) n (cs @ [h])"
proof -
  have u: "\<And>x y h. R x h \<Longrightarrow> R y h \<Longrightarrow> x = y" and d: "\<And>x h. R x h \<Longrightarrow> h \<notin> set cs" and "distinct cs"
    and a: "\<And>h. h < n \<longleftrightarrow> h \<in> set cs \<or> (\<exists>x. R x h)" using o unfolding owned_once_def by blast+
  have "(\<exists>y. R y k) \<longleftrightarrow> k = h \<or> (\<exists>y. y \<noteq> x \<and> R y k)" for k using assms(2,3) by metis
  then have "\<forall>k. k < n \<longleftrightarrow> k \<in> set (cs @ [h]) \<or> (\<exists>y. y \<noteq> x \<and> R y k)" unfolding a by (simp add: disj_left_commute)
  moreover have "\<forall>y k. y \<noteq> x \<and> R y k \<longrightarrow> k \<notin> set (cs @ [h])" using u d assms(2) by auto
  moreover have "distinct (cs @ [h])" using \<open>distinct cs\<close> d [OF assms(2)] by simp
  moreover have "\<forall>y z k. y \<noteq> x \<and> R y k \<longrightarrow> z \<noteq> x \<and> R z k \<longrightarrow> y = z" using u by blast
  ultimately show ?thesis unfolding owned_once_def by (intro conjI)
qed

lemma owned_once_transfer:
  assumes o: "owned_once R n cs" and ne: "\<And>h. \<not> R x h"
  shows "owned_once (\<lambda>z h. if z = x then R y h else z \<noteq> y \<and> R z h) n cs"
proof -
  have "(\<exists>z. if z = x then R y h else z \<noteq> y \<and> R z h) \<longleftrightarrow> (\<exists>z. R z h)" for h using ne by metis
  then show ?thesis using o unfolding owned_once_def by (elim conjE) (intro conjI, simp_all, metis, metis)
qed

lemma owned_once_open:
  assumes o: "owned_once R n cs" and ne: "\<And>h. \<not> R x h"
  shows "owned_once (\<lambda>z h. if z = x then h = n else R z h) (n + 1) cs"
proof -
  have u: "\<And>x y h. R x h \<Longrightarrow> R y h \<Longrightarrow> x = y" and d: "\<And>x h. R x h \<Longrightarrow> h \<notin> set cs" and "distinct cs"
    and a: "\<And>h. h < n \<longleftrightarrow> h \<in> set cs \<or> (\<exists>x. R x h)" using o unfolding owned_once_def by blast+
  have l: "R z h \<Longrightarrow> h < n" "h \<in> set cs \<Longrightarrow> h < n" for z h using a by blast+
  have "(\<exists>z. if z = x then h = n else R z h) \<longleftrightarrow> h = n \<or> (\<exists>z. R z h)" for h using ne by metis
  then have "h < n + 1 \<longleftrightarrow> h \<in> set cs \<or> (\<exists>z. if z = x then h = n else R z h)" for h using a [of h] by (auto simp: less_Suc_eq)
  moreover have "h \<notin> set cs" if "if z = x then h = n else R z h" for z h
    using that d [of z h] l(2) [of h] by (auto split: if_splits)
  moreover have "z = z'" if "if z = x then h = n else R z h" "if z' = x then h = n else R z' h" for z z' h
    using that u l by (metis less_irrefl)
  ultimately show ?thesis using \<open>distinct cs\<close> unfolding owned_once_def by blast
qed

lemma dl_ok_same:
  "dl_ok w \<Longrightarrow> dl_closed w' = dl_closed w \<Longrightarrow> dl_opened w' = dl_opened w \<Longrightarrow> owns w' = owns w \<Longrightarrow> dl_ok w'"
  by (simp add: dl_ok_def)

lemma dl_ok_new: "dl_ok w \<Longrightarrow> dl_objects w x = None \<Longrightarrow> dl_ok (dl_new x w)"
  by (rule dl_ok_same) (auto simp: dl_new_def owns_def fun_eq_iff)

lemma dl_ok_close:
  assumes ok: "dl_ok w"
  shows "dl_ok (dl_close x w)"
proof (cases "dl_is_open x w")
  case True
  then obtain h where h: "dl_objects w x = Some (Some h)" by (auto simp: dl_is_open_def)
  have "owns (dl_close x w) = (\<lambda>y k. y \<noteq> x \<and> owns w y k)" "dl_closed (dl_close x w) = dl_closed w @ [h]"
    "dl_opened (dl_close x w) = dl_opened w" using h by (auto simp: dl_close_def owns_def fun_eq_iff)
  moreover have "owned_once (\<lambda>y k. y \<noteq> x \<and> owns w y k) (dl_opened w) (dl_closed w @ [h])"
    by (rule owned_once_close [OF ok [unfolded dl_ok_def]]) (use h in \<open>simp_all add: owns_def\<close>)
  ultimately show ?thesis by (simp add: dl_ok_def)
next
  case False
  then have "dl_close x w = w" by (auto simp: dl_close_def dl_is_open_def split: option.splits)
  then show ?thesis using ok by simp
qed

lemma dl_close_empty: "dl_objects w x \<noteq> None \<Longrightarrow> dl_objects (dl_close x w) x = Some None"
  by (auto simp: dl_close_def split: option.splits)

lemma dl_ok_destroy:
  assumes "dl_ok w" "dl_objects w x \<noteq> None"
  shows "dl_ok (dl_destroy x w)"
  unfolding dl_destroy_def Let_def
  by (rule dl_ok_same [OF dl_ok_close [OF assms(1), of x]])
    (use dl_close_empty [OF assms(2)] in \<open>auto simp: owns_def fun_eq_iff\<close>)

text \<open>Moving: the new owner held nothing before, the old one holds nothing after.\<close>

lemma dl_ok_transfer:
  assumes ok: "dl_ok w" and free: "dl_objects w x \<in> {None, Some None}" and ne: "x \<noteq> y"
  shows "dl_ok (w\<lparr> dl_objects := (dl_objects w)(x := dl_objects w y, y \<mapsto> None) \<rparr>)"
proof -
  have "owns (w\<lparr> dl_objects := (dl_objects w)(x := dl_objects w y, y \<mapsto> None) \<rparr>) = (\<lambda>z h. if z = x then owns w y h else z \<noteq> y \<and> owns w z h)"
    using ne by (auto simp: owns_def fun_eq_iff)
  moreover have "owned_once (\<lambda>z h. if z = x then owns w y h else z \<noteq> y \<and> owns w z h) (dl_opened w) (dl_closed w)"
    by (rule owned_once_transfer [OF ok [unfolded dl_ok_def]]) (use free in \<open>auto simp: owns_def\<close>)
  ultimately show ?thesis by (simp add: dl_ok_def)
qed

lemma dl_ok_open:
  assumes "dl_ok w" "dl_objects w x = None"
  shows "dl_ok (snd (dl_open found err x w))"
proof (cases found)
  case False
  then show ?thesis using dl_ok_destroy [OF dl_ok_new [OF assms]] by (simp add: dl_open_def Let_def dl_new_def)
next
  case True
  then have "owns (snd (dl_open found err x w)) = (\<lambda>z h. if z = x then h = dl_opened w else owns w z h)"
    "dl_opened (snd (dl_open found err x w)) = dl_opened w + 1" "dl_closed (snd (dl_open found err x w)) = dl_closed w"
    by (auto simp: dl_open_def Let_def dl_new_def owns_def fun_eq_iff)
  moreover have "owned_once (\<lambda>z h. if z = x then h = dl_opened w else owns w z h) (dl_opened w + 1) (dl_closed w)"
    by (rule owned_once_open [OF assms(1) [unfolded dl_ok_def]]) (use assms(2) in \<open>auto simp: owns_def\<close>)
  ultimately show ?thesis by (simp add: dl_ok_def)
qed

subsection \<open>Properties\<close>

text \<open>
  Property C20. However the objects are made, moved, closed and destroyed: no library is closed twice, no two objects own
  the same one, an open one has not been closed, and once no object is left every library that was
  opened has been closed.
\<close>

theorem libraries_closed_once:
  assumes "dl_reach w"
  shows "distinct (dl_closed w) \<and> (\<forall>x h. dl_objects w x = Some (Some h) \<longrightarrow> h \<notin> set (dl_closed w))
    \<and> (dl_objects w = Map.empty \<longrightarrow> set (dl_closed w) = {..<dl_opened w})"
proof -
  have "dl_ok w" using assms
  proof induction
    case dl_init
    show ?case by (simp add: dl_ok_def owned_once_def owns_def dl_start_def)
  next
    case (dl_constructs w x y)
    then show ?case unfolding dl_move_construct_def by (intro dl_ok_transfer) auto
  next
    case (dl_assigns w x y)
    then show ?case
      using dl_ok_transfer [OF dl_ok_close [OF dl_assigns.IH, of x], of x y] dl_close_empty by (auto simp: dl_move_assign_def Let_def)
  qed (auto intro: dl_ok_new dl_ok_open dl_ok_close dl_ok_destroy)
  then show ?thesis by (auto simp: dl_ok_def owned_once_def owns_def)
qed

theorem libraries_closed_once_witness:
  "let w = dl_destroy 0 (dl_destroy 1 (dl_move_construct 1 0 (snd (dl_open True None 0 dl_start))))
   in dl_objects w = Map.empty \<and> dl_opened w = 1 \<and> dl_closed w = [0] \<and> set (dl_closed w) = {..<1}"
proof -
  define w1 where "w1 = snd (dl_open True None 0 dl_start)"
  define w2 where "w2 = dl_move_construct 1 0 w1"
  define w3 where "w3 = dl_destroy 1 w2"
  define w4 where "w4 = dl_destroy 0 w3"
  have o1: "dl_objects w1 = [0 \<mapsto> Some 0]" "dl_opened w1 = 1" "dl_closed w1 = []"
    by (auto simp: w1_def dl_open_def dl_new_def dl_start_def Let_def)
  have o2: "dl_objects w2 = [1 \<mapsto> Some 0, 0 \<mapsto> None]" "dl_opened w2 = 1" "dl_closed w2 = []"
    using o1 by (auto simp: w2_def dl_move_construct_def)
  have o3: "dl_objects w3 = [0 \<mapsto> None]" "dl_opened w3 = 1" "dl_closed w3 = [0]"
    using o2 by (auto simp: w3_def dl_destroy_def dl_close_def Let_def)
  have o4: "dl_objects w4 = Map.empty" "dl_opened w4 = 1" "dl_closed w4 = [0]"
    using o3 by (auto simp: w4_def dl_destroy_def dl_close_def Let_def)
  have "dl_reach w1" unfolding w1_def by (rule dl_opens [OF dl_init]) (simp add: dl_start_def)
  then have "dl_reach w2" unfolding w2_def by (rule dl_constructs) (simp_all add: o1)
  then have "dl_reach w3" unfolding w3_def by (rule dl_destroys) (simp add: o2)
  then have "dl_reach w4" unfolding w4_def by (rule dl_destroys) (simp add: o3)
  then have "set (dl_closed w4) = {..<dl_opened w4}" using libraries_closed_once [of w4] o4(1) by blast
  then show ?thesis using o4 by (simp add: Let_def w4_def w3_def w2_def w1_def)
qed

end
