(* ===== verification/Connector_Sdk.thy ===== *)
theory Connector_Sdk
  imports Plugin_Sdk Ice_Connector
begin

section \<open>The base class of the connectors\<close>

text \<open>
  \<open>IConnector\<close> of \<open>sdk/cpp/connector.hpp\<close>: the helper functions that notify the core, the table of C
  functions made from the virtual ones, the vectored send a subclass inherits, the entry point of the
  macro \<open>CONNECTOR_PLUGIN\<close>, and the template connector. The virtual functions are a record of
  functions on a state \<open>'x\<close>, which is the connector together with what it acts on.
\<close>

subsection \<open>Notifications\<close>

definition ic_notify_connect :: "host_api option \<Rightarrow> endpoint_t \<Rightarrow> cm \<Rightarrow> conn_id \<times> cm" where
  "ic_notify_connect api ep s = (case Option.bind api ha_on_connect of Some f \<Rightarrow> f ep s | None \<Rightarrow> (CONN_ID_INVALID, s))"

definition ic_notify_data :: "host_api option \<Rightarrow> conn_id \<Rightarrow> bytes \<Rightarrow> cm \<Rightarrow> cm" where
  "ic_notify_data api c d s = (case Option.bind api ha_on_data of Some f \<Rightarrow> f c d s | None \<Rightarrow> s)"

definition ic_notify_disconnect :: "host_api option \<Rightarrow> conn_id \<Rightarrow> int \<Rightarrow> cm \<Rightarrow> cm" where
  "ic_notify_disconnect api c err s = (case Option.bind api ha_on_disconnect of Some f \<Rightarrow> f c err s | None \<Rightarrow> s)"

definition ic_find_peer_conn :: "host_api option \<Rightarrow> string \<Rightarrow> cm \<Rightarrow> conn_id" where
  "ic_find_peer_conn api hex s = (case Option.bind api ha_find_conn_by_pubkey of Some f \<Rightarrow> f hex s | None \<Rightarrow> CONN_ID_INVALID)"

definition ic_get_peer_info :: "host_api option \<Rightarrow> conn_id \<Rightarrow> endpoint_t \<Rightarrow> cm \<Rightarrow> bool \<times> endpoint_t" where
  "ic_get_peer_info api c ep s =
     (case Option.bind api ha_get_peer_info of Some f \<Rightarrow> (let (rc, e) = f c ep s in (rc = 0, e)) | None \<Rightarrow> (False, ep))"

definition ic_register_extra_handler :: "host_api option \<Rightarrow> handler_t \<Rightarrow> cm \<Rightarrow> cm" where
  "ic_register_extra_handler api h s = (case Option.bind api ha_register_handler of Some f \<Rightarrow> f h s | None \<Rightarrow> s)"

definition ic_add_transport_path :: "host_api option \<Rightarrow> string \<Rightarrow> endpoint_t \<Rightarrow> string \<Rightarrow> cm \<Rightarrow> conn_id \<times> cm" where
  "ic_add_transport_path api hex ep sch s =
     (case Option.bind api ha_add_transport of Some f \<Rightarrow> f hex ep sch s | None \<Rightarrow> (CONN_ID_INVALID, s))"

subsection \<open>Virtual functions and the table made from them\<close>

record 'x iconnector =
  ic_on_init :: "host_api \<Rightarrow> 'x \<Rightarrow> 'x"
  ic_on_shutdown :: "'x \<Rightarrow> 'x"
  ic_get_scheme :: string
  ic_get_name :: string
  ic_do_connect :: "string \<Rightarrow> 'x \<Rightarrow> int \<times> 'x"
  ic_do_listen :: "string \<Rightarrow> u16 \<Rightarrow> 'x \<Rightarrow> int \<times> 'x"
  ic_do_send :: "conn_id \<Rightarrow> bytes \<Rightarrow> 'x \<Rightarrow> int \<times> 'x"
  ic_do_send_gather :: "conn_id \<Rightarrow> bytes list \<Rightarrow> 'x \<Rightarrow> int \<times> 'x"
  ic_do_close :: "conn_id \<Rightarrow> bool \<Rightarrow> 'x \<Rightarrow> 'x"

text \<open>The vectored send a subclass inherits: the segments one by one, up to the first that fails.\<close>

fun send_segments :: "(conn_id \<Rightarrow> bytes \<Rightarrow> 'x \<Rightarrow> int \<times> 'x) \<Rightarrow> conn_id \<Rightarrow> bytes list \<Rightarrow> 'x \<Rightarrow> int \<times> 'x" where
  "send_segments snd_one c [] x = (0, x)"
| "send_segments snd_one c (d # ds) x =
     (let (rc, x1) = snd_one c d x in if rc \<noteq> 0 then (rc, x1) else send_segments snd_one c ds x1)"

record 'x connector_table =
  ct_connect :: "string \<Rightarrow> 'x \<Rightarrow> int \<times> 'x"
  ct_listen :: "string \<Rightarrow> u16 \<Rightarrow> 'x \<Rightarrow> int \<times> 'x"
  ct_send_to :: "conn_id \<Rightarrow> bytes \<Rightarrow> 'x \<Rightarrow> int \<times> 'x"
  ct_send_gather :: "conn_id \<Rightarrow> bytes list \<Rightarrow> 'x \<Rightarrow> int \<times> 'x"
  ct_close :: "conn_id \<Rightarrow> 'x \<Rightarrow> 'x"
  ct_close_now :: "conn_id \<Rightarrow> 'x \<Rightarrow> 'x"
  ct_get_scheme :: "bytes \<Rightarrow> bytes option"
  ct_get_name :: "bytes \<Rightarrow> bytes option"
  ct_shutdown :: "'x \<Rightarrow> 'x"

text \<open>\<open>strncpy\<close> and the terminating zero; with a buffer of size 0 both write outside of it.\<close>

definition fill_text :: "string \<Rightarrow> bytes \<Rightarrow> bytes option" where
  "fill_text t buf = (if buf = [] then None else Some (strn_field (length buf) t))"

definition to_c_ops :: "'x iconnector \<Rightarrow> 'x connector_table" where
  "to_c_ops ic = \<lparr> ct_connect = ic_do_connect ic, ct_listen = ic_do_listen ic, ct_send_to = ic_do_send ic,
     ct_send_gather = ic_do_send_gather ic, ct_close = (\<lambda>c. ic_do_close ic c False), ct_close_now = (\<lambda>c. ic_do_close ic c True),
     ct_get_scheme = fill_text (ic_get_scheme ic), ct_get_name = fill_text (ic_get_name ic), ct_shutdown = ic_on_shutdown ic \<rparr>"

definition connector_init :: "'x iconnector \<Rightarrow> host_api \<Rightarrow> 'x \<Rightarrow> (int \<times> 'x connector_table) \<times> 'x" where
  "connector_init ic api x = ((0, to_c_ops ic), ic_on_init ic api x)"

subsection \<open>TemplateConnector\<close>

definition template_connector :: "host_api option \<Rightarrow> cm iconnector" where
  "template_connector api = \<lparr> ic_on_init = (\<lambda>_ s. s), ic_on_shutdown = (\<lambda>s. s), ic_get_scheme = ''myproto'',
     ic_get_name = ''Template Connector'', ic_do_connect = (\<lambda>_ s. (-1, s)), ic_do_listen = (\<lambda>_ _ s. (-1, s)),
     ic_do_send = (\<lambda>_ _ s. (-1, s)), ic_do_send_gather = send_segments (\<lambda>_ _ s. (-1, s)),
     ic_do_close = (\<lambda>c _ s. ic_notify_disconnect api c 0 s) \<rparr>"

subsection \<open>IceConnector as a subclass\<close>

text \<open>
  \<open>on_init\<close> reads the settings through the host interface and registers the handler of the signals; its
  threads are the tasks of the node. It does not listen, and it inherits the vectored send.
\<close>

definition ice_signal_handler :: "nat \<Rightarrow> handler_t" where
  "ice_signal_handler ident = \<lparr> h_ident = ident, h_name = Some ''ice_signal_handler'', h_info_priority = None,
     h_types = [MSG_TYPE_ICE_SIGNAL], h_has_message = True, h_has_result = False, h_has_conn_state = False \<rparr>"

definition ice_on_init :: "nat \<Rightarrow> (string \<Rightarrow> string option) \<Rightarrow> host_api \<Rightarrow> ice_node \<Rightarrow> ice_node" where
  "ice_on_init ident getenv api nd =
     nd\<lparr> nd_config := init_config (ic_config_get (Some api)) getenv,
         nd_cm := ic_register_extra_handler (Some api) (ice_signal_handler ident) (nd_cm nd) \<rparr>"

definition ice_iconnector :: "nat \<Rightarrow> (string \<Rightarrow> string option) \<Rightarrow> env \<Rightarrow> asio_env \<Rightarrow> ice_node iconnector" where
  "ice_iconnector ident getenv E W = \<lparr> ic_on_init = ice_on_init ident getenv, ic_on_shutdown = on_shutdown E W, ic_get_scheme = ''ice'',
     ic_get_name = ''GoodNet ICE (Boost.Asio)'', ic_do_connect = do_connect, ic_do_listen = (\<lambda>_ _ nd. (0, nd)),
     ic_do_send = do_send, ic_do_send_gather = send_segments do_send, ic_do_close = (\<lambda>c _. do_close c) \<rparr>"

subsection \<open>Notifications are entry points of the manager\<close>

lemma notifications_exec [simp]:
  "snd (ic_notify_connect (Some (fill_host_api E cfg)) ep s) = exec E (EvConnected ep) s"
  "ic_notify_data (Some (fill_host_api E cfg)) c d s = exec E (EvData c d) s"
  "ic_notify_disconnect (Some (fill_host_api E cfg)) c err s = exec E (EvDisconnected c err) s"
  "snd (ic_add_transport_path (Some (fill_host_api E cfg)) hex ep sch s) = exec E (EvAddTransport hex ep sch) s"
  "ic_register_extra_handler (Some (fill_host_api E cfg)) h s = exec E (EvRegisterConnectorHandler h) s"
  by (simp_all add: ic_notify_connect_def ic_notify_data_def ic_notify_disconnect_def ic_add_transport_path_def ic_register_extra_handler_def
      fill_host_api_def s_on_connect_def s_on_data_def s_on_disconnect_def s_add_transport_def s_register_handler_def)

text \<open>Read through the host interface, the settings of the ICE connector are those of the configuration.\<close>

lemma init_config_cong: "(\<And>k. config_get c1 k = config_get c2 k) \<Longrightarrow> init_config c1 g = init_config c2 g"
  by (simp add: init_config_def positive_setting_def)

lemma init_config_host:
  assumes "\<forall>key v. get_raw cf key = Some v \<longrightarrow> nul_free v"
  shows "init_config (ic_config_get (Some (fill_host_api E (Some cf)))) g = init_config (get_raw cf) g"
proof (rule init_config_cong)
  fix k
  show "config_get (ic_config_get (Some (fill_host_api E (Some cf)))) k = config_get (get_raw cf) k"
  proof (cases "get_raw cf k")
    case None
    then show ?thesis
      by (simp add: config_get_def ic_config_get_def fill_host_api_def s_config_get_def cstr_def string_of_bytes_def)
  next
    case (Some v)
    then have "nul_free v" using assms by blast
    then show ?thesis using Some cstr_strn_take [of v 256]
      by (simp add: config_get_def ic_config_get_def fill_host_api_def s_config_get_def)
  qed
qed

subsection \<open>Vectored sends\<close>

text \<open>A connector whose \<open>do_send\<close> only posts the data for later, and so never fails.\<close>

locale posting_sender =
  fixes snd_one :: "conn_id \<Rightarrow> bytes \<Rightarrow> 'x \<Rightarrow> int \<times> 'x" and posted :: "'x \<Rightarrow> (conn_id \<times> bytes) list"
  assumes accepts_all: "fst (snd_one c d x) = 0"
    and posts: "posted (snd (snd_one c d x)) = posted x @ [(c, d)]"
begin

lemma segments_posted:
  "fst (send_segments snd_one c ds x) = 0 \<and> posted (snd (send_segments snd_one c ds x)) = posted x @ map (Pair c) ds"
proof (induction ds arbitrary: x)
  case (Cons d ds)
  obtain x1 where x1: "snd_one c d x = (0, x1)" using accepts_all [of c d x] by (cases "snd_one c d x") simp
  then have "posted x1 = posted x @ [(c, d)]" using posts [of c d x] by simp
  then show ?case using Cons x1 by simp
qed simp

end

definition ice_posted :: "ice_node \<Rightarrow> (conn_id \<times> bytes) list" where
  "ice_posted nd = List.map_filter (\<lambda>t. case t of Task_send c d \<Rightarrow> Some (c, d) | _ \<Rightarrow> None) (nd_tasks nd)"

interpretation ice_sender: posting_sender do_send ice_posted
  by unfold_locales (simp_all add: do_send_def nd_post_def ice_posted_def List.map_filter_def)

text \<open>In general the segments are tried up to the first that fails, whose code is the result.\<close>

lemma send_segments_first_failure:
  "\<exists>k \<le> length ds. snd (send_segments snd_one c ds x) = fold (\<lambda>d x. snd (snd_one c d x)) (take k ds) x
     \<and> (\<forall>i < k. i + 1 < k \<or> fst (send_segments snd_one c ds x) = 0 \<longrightarrow> fst (snd_one c (ds ! i) (fold (\<lambda>d x. snd (snd_one c d x)) (take i ds) x)) = 0)
     \<and> (fst (send_segments snd_one c ds x) = 0 \<longrightarrow> k = length ds)"
proof (induction ds arbitrary: x)
  case (Cons d ds)
  obtain rc x1 where r: "snd_one c d x = (rc, x1)" by fastforce
  show ?case
  proof (cases "rc = 0")
    case False
    then show ?thesis using r by (intro exI [of _ 1]) simp
  next
    case True
    from Cons [of x1] obtain k where k: "k \<le> length ds" "snd (send_segments snd_one c ds x1) = fold (\<lambda>d x. snd (snd_one c d x)) (take k ds) x1"
      "\<forall>i < k. i + 1 < k \<or> fst (send_segments snd_one c ds x1) = 0 \<longrightarrow> fst (snd_one c (ds ! i) (fold (\<lambda>d x. snd (snd_one c d x)) (take i ds) x1)) = 0"
      "fst (send_segments snd_one c ds x1) = 0 \<longrightarrow> k = length ds" by blast
    have "fst (snd_one c ((d # ds) ! i) (fold (\<lambda>d x. snd (snd_one c d x)) (take i (d # ds)) x)) = 0"
      if "i < Suc k" "i + 1 < Suc k \<or> fst (send_segments snd_one c ds x1) = 0" for i
      using that k(3) r True by (cases i) auto
    then show ?thesis using k r True by (intro exI [of _ "Suc k"]) auto
  qed
qed simp

subsection \<open>Properties\<close>

text \<open>
  The table of the ICE connector takes any batch for any connection, also for one without a session: it
  posts the frames in their order and reports success.
\<close>

theorem ice_gather_accepts_all:
  "let r = ct_send_gather (to_c_ops (ice_iconnector ident getenv E W)) c batch nd
   in fst r = 0 \<and> ice_posted (snd r) = ice_posted nd @ map (Pair c) batch \<and> nd_cm (snd r) = nd_cm nd"
proof -
  have "nd_cm (snd (send_segments do_send c batch nd)) = nd_cm nd"
    by (induction batch arbitrary: nd) (simp_all add: do_send_def nd_post_def)
  then show ?thesis using ice_sender.segments_posted [of c batch nd] by (simp add: to_c_ops_def ice_iconnector_def)
qed

text \<open>The core reads the scheme and the name of a connector up to the size of its buffer.\<close>

theorem table_texts:
  assumes "buf \<noteq> []" "nul_free (ic_get_scheme ic)" "nul_free (ic_get_name ic)"
  shows "map_option cstr (ct_get_scheme (to_c_ops ic) buf) = Some (take (length buf - 1) (ic_get_scheme ic))
    \<and> map_option cstr (ct_get_name (to_c_ops ic) buf) = Some (take (length buf - 1) (ic_get_name ic))"
  using assms by (simp add: to_c_ops_def fill_text_def cstr_strn_take)

text \<open>
  The entry point of the ICE connector, called with the interface the manager fills in: the connector runs
  with the settings of the configuration, and the manager calls its handler for signals, and for no
  other type.
\<close>

theorem ice_connector_wired:
  assumes "\<forall>key v. get_raw cf key = Some v \<longrightarrow> nul_free v"
    and "\<forall>t. ice_signal_handler ident \<notin> en_fn ` set (channel (bus (nd_cm nd)) t @ wildcards (bus (nd_cm nd)))"
  shows "let nd' = snd (connector_init (ice_iconnector ident getenv E W) (fill_host_api E (Some cf)) nd)
    in nd_config nd' = init_config (get_raw cf) getenv
       \<and> (\<forall>t. ice_signal_handler ident \<in> fst ` set (bus_calls (\<lambda>_ _. PROPAGATION_CONTINUE) (bus (nd_cm nd')) t) \<longleftrightarrow> t = MSG_TYPE_ICE_SIGNAL)"
proof -
  let ?h = "ice_signal_handler ident" and ?s = "nd_cm nd"
  let ?nd = "snd (connector_init (ice_iconnector ident getenv E W) (fill_host_api E (Some cf)) nd)"
  have cfg: "nd_config ?nd = init_config (get_raw cf) getenv"
    unfolding connector_init_def ice_iconnector_def ice_on_init_def using init_config_host [OF assms(1)] by simp
  have w: "wildcards (snd (subscribe t' n h p b)) = wildcards b" for t' n h p and b :: "handler_t signal_bus" by (simp add: subscribe_def Let_def)
  have b: "channel (bus (nd_cm ?nd)) t = (if t = MSG_TYPE_ICE_SIGNAL then pipe_connect 128 ''ice_signal_handler'' ?h (channel (bus ?s) t) else channel (bus ?s) t)"
    "wildcards (bus (nd_cm ?nd)) = wildcards (bus ?s)" for t
    by (simp_all add: connector_init_def ice_iconnector_def ice_on_init_def register_handler_from_connector_def register_handler_internal_def
        ice_signal_handler_def is_connector_blocked_type_def MSG_TYPE_ICE_SIGNAL_def MSG_TYPE_SYS_BASE_def upd_bus_def subscribe_channel w Let_def)
  have "?h \<in> fst ` set (bus_calls (\<lambda>_ _. PROPAGATION_CONTINUE) (bus (nd_cm ?nd)) t) \<longleftrightarrow> t = MSG_TYPE_ICE_SIGNAL" for t
    using assms(2) unfolding bus_calls_set(2) [OF allI [OF allI [OF refl]]] b(2)
    by (cases "t = MSG_TYPE_ICE_SIGNAL") (simp_all add: b(1) pipe_connect_def image_Un)
  then show ?thesis using cfg by simp
qed

end
