(* ===== verification/Cli_Dashboard.thy ===== *)
theory Cli_Dashboard
  imports Node_Config "HOL-Library.Multiset"
begin

section \<open>Numbers of the command line: samples and formatting\<close>

text \<open>
  \<open>cli/dashboard.hpp\<close>: the ring of throughput samples, the formatting helpers, the two live lines and
  the summary table, as the bytes they print. A \<open>double\<close> is a value of any linear order (a NaN never
  arises from the clock and the counters), and the floating-point operations of the platform are the
  fields of the record \<open>fp\<close>, an argument of the definitions that use them.
\<close>

unbundle bit_operations_syntax

subsection \<open>Floating point, as an argument\<close>

text \<open>
  Conversion from an integer (the literals of the code are whole numbers too), the four operations,
  conversion to \<open>int\<close>, and \<open>printf\<close>'s \<open>%.nf\<close>.
\<close>

record 'd fp =
  fp_of :: "nat \<Rightarrow> 'd"
  fp_add :: "'d \<Rightarrow> 'd \<Rightarrow> 'd"
  fp_sub :: "'d \<Rightarrow> 'd \<Rightarrow> 'd"
  fp_mul :: "'d \<Rightarrow> 'd \<Rightarrow> 'd"
  fp_div :: "'d \<Rightarrow> 'd \<Rightarrow> 'd"
  fp_trunc :: "'d \<Rightarrow> nat"
  fp_fixed :: "nat \<Rightarrow> 'd \<Rightarrow> string"

subsection \<open>Samples\<close>

definition SAMPLE_RING :: nat where "SAMPLE_RING = 1200"

record 'd samples =
  sm_data :: "'d list"
  sm_head :: nat
  sm_count :: nat

definition no_samples :: "'d \<Rightarrow> 'd samples" where
  "no_samples z = \<lparr> sm_data = replicate SAMPLE_RING z, sm_head = 0, sm_count = 0 \<rparr>"

definition sample_push :: "'d \<Rightarrow> 'd samples \<Rightarrow> 'd samples" where
  "sample_push v s = \<lparr> sm_data = (sm_data s)[sm_head s := v], sm_head = (sm_head s + 1) mod SAMPLE_RING,
     sm_count = (if sm_count s < SAMPLE_RING then sm_count s + 1 else sm_count s) \<rparr>"

definition samples_sorted :: "'d :: linorder samples \<Rightarrow> 'd list" where
  "samples_sorted s = sort (take (sm_count s) (sm_data s))"

definition percentile :: "'d :: linorder fp \<Rightarrow> 'd \<Rightarrow> 'd samples \<Rightarrow> 'd" where
  "percentile F p s =
     (let v = samples_sorted s
      in if v = [] then fp_of F 0
         else let idx = fp_trunc F (fp_mul F (fp_div F p (fp_of F 100)) (fp_of F (length v - 1)))
              in v ! min idx (length v - 1))"

definition mean :: "'d fp \<Rightarrow> 'd samples \<Rightarrow> 'd" where
  "mean F s = (if sm_count s = 0 then fp_of F 0
     else fp_div F (foldl (fp_add F) (fp_of F 0) (take (sm_count s) (sm_data s))) (fp_of F (sm_count s)))"

definition peak :: "'d :: linorder fp \<Rightarrow> 'd samples \<Rightarrow> 'd" where
  "peak F s = (if sm_count s = 0 then fp_of F 0 else fold max (take (sm_count s) (sm_data s)) (hd (sm_data s)))"

subsection \<open>Formatting\<close>

definition pad_left :: "nat \<Rightarrow> string \<Rightarrow> string" where
  "pad_left n s = replicate (n - length s) CHR '' '' @ s"

definition pad_right :: "nat \<Rightarrow> string \<Rightarrow> string" where
  "pad_right n s = s @ replicate (n - length s) CHR '' ''"

text \<open>\<open>snprintf\<close> into a buffer of \<open>n\<close> bytes keeps at most \<open>n - 1\<close> of them.\<close>

definition snprintf :: "nat \<Rightarrow> 'a list \<Rightarrow> 'a list" where
  "snprintf n s = take (n - 1) s"

definition fmt_bytes :: "'d :: linorder fp \<Rightarrow> 'd \<Rightarrow> string" where
  "fmt_bytes F b =
     (if b < fp_of F 1000 then to_string (fp_trunc F b) @ '' B''
      else if b < fp_of F 1000000 then snprintf 32 (fp_fixed F 1 (fp_div F b (fp_of F 1000)) @ '' KB'')
      else if b < fp_of F 1000000000 then snprintf 32 (fp_fixed F 1 (fp_div F b (fp_of F 1000000)) @ '' MB'')
      else snprintf 32 (fp_fixed F 2 (fp_div F b (fp_of F 1000000000)) @ '' GB''))"

definition two_digits :: "nat \<Rightarrow> string" where
  "two_digits n = (let s = to_string n in replicate (2 - length s) CHR ''0'' @ s)"

text \<open>\<open>fmt_duration\<close> after the conversion to \<open>int\<close>; a duration is never negative.\<close>

definition fmt_seconds :: "nat \<Rightarrow> string" where
  "fmt_seconds t =
     (let h = t div 3600; m = t mod 3600 div 60; s = t mod 60
      in snprintf 32 (if h > 0 then to_string h @ ''h '' @ two_digits m @ ''m '' @ two_digits s @ ''s''
           else to_string m @ ''m '' @ two_digits s @ ''s''))"

definition fmt_duration :: "'d fp \<Rightarrow> 'd \<Rightarrow> string" where
  "fmt_duration F sec = fmt_seconds (fp_trunc F sec)"

text \<open>\<open>fmt_num\<close>: commas are inserted from the right, with a signed position.\<close>

function insert_commas :: "int \<Rightarrow> string \<Rightarrow> string" where
  "insert_commas at s = (if 0 < at then insert_commas (at - 3) (take (nat at) s @ CHR '','' # drop (nat at) s) else s)"
  by pat_completeness auto
termination by (relation "measure (\<lambda>(at, _). nat at)") auto

declare insert_commas.simps [simp del]

definition fmt_num :: "u64 \<Rightarrow> string" where
  "fmt_num n = (let s = to_string (unat n) in insert_commas (int (length s) - 3) s)"

definition FULL_BLOCK :: bytes where "FULL_BLOCK = [0xE2, 0x96, 0x88]"
definition LIGHT_SHADE :: bytes where "LIGHT_SHADE = [0xE2, 0x96, 0x91]"

definition bar :: "'d :: linorder fp \<Rightarrow> 'd \<Rightarrow> nat \<Rightarrow> bytes" where
  "bar F fraction width =
     (let filled = fp_trunc F (fp_mul F (max (fp_of F 0) (min fraction (fp_of F 1))) (fp_of F width))
      in concat (replicate filled FULL_BLOCK) @ concat (replicate (width - filled) LIGHT_SHADE))"

definition utf8_len :: "bytes \<Rightarrow> nat" where
  "utf8_len str = length (filter (\<lambda>b. b AND 0xC0 \<noteq> 0x80) str)"

subsection \<open>Rows and boxes\<close>

definition BOX_H :: bytes where "BOX_H = [0xE2, 0x95, 0x90]"
definition BOX_V :: bytes where "BOX_V = [0xE2, 0x95, 0x91]"
definition BOX_TL :: bytes where "BOX_TL = [0xE2, 0x95, 0x94]"
definition BOX_TR :: bytes where "BOX_TR = [0xE2, 0x95, 0x97]"
definition BOX_BL :: bytes where "BOX_BL = [0xE2, 0x95, 0x9A]"
definition BOX_BR :: bytes where "BOX_BR = [0xE2, 0x95, 0x9D]"
definition BOX_ML :: bytes where "BOX_ML = [0xE2, 0x95, 0xA0]"
definition BOX_MR :: bytes where "BOX_MR = [0xE2, 0x95, 0xA3]"
definition BOX_SEP :: bytes where "BOX_SEP = [0xE2, 0x94, 0x82]"

definition box_line :: "bytes \<Rightarrow> bytes \<Rightarrow> nat \<Rightarrow> bytes" where
  "box_line left right width = left @ concat (replicate width BOX_H) @ right @ [10]"

text \<open>An escape sequence that selects a colour, \<open>ESC [ ... m\<close>.\<close>

definition sgr :: "string \<Rightarrow> bytes" where
  "sgr code = [0x1B, 0x5B] @ bytes_of_string code @ [0x6D]"

definition row_prefix :: "bytes \<Rightarrow> bytes" where
  "row_prefix label = bytes_of_string ''  '' @ label @ bytes_of_string '' : ''"

definition row_padding :: "bytes \<Rightarrow> bytes \<Rightarrow> bytes" where
  "row_padding label val = replicate (58 - utf8_len (row_prefix label) - utf8_len val) 32"

definition print_row :: "bytes \<Rightarrow> bytes \<Rightarrow> bytes \<Rightarrow> bytes" where
  "print_row label val color =
     BOX_V @ row_prefix label @ color @ val @ sgr ''0'' @ row_padding label val @ BOX_V @ [10]"

subsection \<open>Live lines\<close>

definition u64_text :: "'a :: len word \<Rightarrow> bytes" where
  "u64_text n = bytes_of_string (to_string (unat n))"

definition CHECK_MARK :: bytes where "CHECK_MARK = [0xE2, 0x9C, 0x93]"
definition BALLOT_X :: bytes where "BALLOT_X = [0xE2, 0x9C, 0x97]"

definition print_live :: "'d :: linorder fp \<Rightarrow> 'd \<Rightarrow> 'd \<Rightarrow> 'd \<Rightarrow> 'd \<Rightarrow> u64 \<Rightarrow> u64 \<Rightarrow> 'd \<Rightarrow> accum \<Rightarrow> bytes" where
  "print_live F gbps gbps_peak pkt_s total_sec tot_bytes tot_pkts backlog_mb st =
     (let t = bytes_of_string
      in [0x1B] @ t ''[2K'' @ [13] @ t ''['' @ t (fmt_duration F total_sec) @ t ''] ''
         @ sgr ''1;36'' @ t (fp_fixed F 2 gbps) @ t '' Gbps'' @ sgr ''0'' @ t '' (peak '' @ sgr ''33'' @ t (fp_fixed F 2 gbps_peak) @ sgr ''0''
         @ t '') | '' @ sgr ''1;32'' @ t (pad_left 7 (fp_fixed F 0 pkt_s)) @ t '' pkt/s'' @ sgr ''0''
         @ t '' | Sent '' @ sgr ''1'' @ t (fmt_bytes F (fp_of F (unat tot_bytes))) @ sgr ''0'' @ t '' ('' @ u64_text tot_pkts @ t '' pkts) | ''
         @ t ''Backlog '' @ sgr (if fp_of F 64 < backlog_mb then ''1;31'' else ''0'') @ t (fp_fixed F 1 backlog_mb) @ t '' MB'' @ sgr ''0''
         @ t '' | RX '' @ t (fmt_bytes F (fp_of F (unat (rx_bytes st)))) @ t '' | TX '' @ t (fmt_bytes F (fp_of F (unat (tx_bytes st))))
         @ t '' | Auth '' @ CHECK_MARK @ u64_text (auth_ok st) @ t '' '' @ BALLOT_X @ u64_text (auth_fail st)
         @ t '' | Drops '' @ u64_text (backpressure st))"

definition print_server_line :: "'d :: linorder fp \<Rightarrow> 'd \<Rightarrow> u32 \<Rightarrow> 'd \<Rightarrow> 'd \<Rightarrow> 'd \<Rightarrow> accum \<Rightarrow> bytes" where
  "print_server_line F total_sec conns rx_gbps tx_gbps pkt_s st =
     (let t = bytes_of_string
      in [0x1B] @ t ''[2K'' @ [13] @ t ''[Server '' @ t (fmt_duration F total_sec) @ t ''] conns='' @ sgr ''1;32'' @ u64_text conns @ sgr ''0''
         @ t ''  RX '' @ sgr ''1;36'' @ t (fp_fixed F 2 rx_gbps) @ sgr ''0'' @ t '' Gbps  TX '' @ sgr ''1;33'' @ t (fp_fixed F 2 tx_gbps) @ sgr ''0''
         @ t '' Gbps  '' @ t (fp_fixed F 0 pkt_s) @ t '' pkt/s  auth'' @ CHECK_MARK @ sgr ''32'' @ u64_text (auth_ok st) @ sgr ''0''
         @ t '' '' @ BALLOT_X @ sgr ''31'' @ u64_text (auth_fail st) @ sgr ''0''
         @ t ''  dec_fail '' @ sgr (if decrypt_fail st \<noteq> 0 then ''1;31'' else ''0'') @ u64_text (decrypt_fail st) @ sgr ''0''
         @ t ''  drops='' @ u64_text (backpressure st))"

subsection \<open>Summary\<close>

definition has_errors :: "accum \<Rightarrow> bool" where
  "has_errors st \<longleftrightarrow> 0 < decrypt_fail st \<or> 0 < auth_fail st"

definition display_bytes :: "u64 \<Rightarrow> accum \<Rightarrow> u64" where
  "display_bytes tot st = (if 0 < tot then tot else rx_bytes st)"

definition display_pkts :: "u64 \<Rightarrow> accum \<Rightarrow> u64" where
  "display_pkts tot st = (if 0 < tot then tot else rx_packets st)"

definition BINS :: nat where "BINS = 8"
definition BAR_MAX_WIDTH :: nat where "BAR_MAX_WIDTH = 24"

definition bin_of :: "'d :: linorder fp \<Rightarrow> 'd \<Rightarrow> 'd \<Rightarrow> 'd \<Rightarrow> nat" where
  "bin_of F lo hi v = (if lo < hi then fp_trunc F (fp_mul F (fp_div F (fp_sub F v lo) (fp_sub F hi lo)) (fp_of F (BINS - 1))) else 0)"

definition bin_values :: "('d \<Rightarrow> nat) \<Rightarrow> 'd list \<Rightarrow> nat list" where
  "bin_values bin sv = foldl (\<lambda>bs v. let b = min (bin v) (BINS - 1) in bs[b := bs ! b + 1]) (replicate BINS 0) sv"

definition num_blocks :: "nat list \<Rightarrow> nat \<Rightarrow> nat \<Rightarrow> nat" where
  "num_blocks bins n i = bins ! i * BAR_MAX_WIDTH div (if n = 0 then 1 else n)"

definition bin_label :: "'d fp \<Rightarrow> 'd \<Rightarrow> 'd \<Rightarrow> nat \<Rightarrow> string" where
  "bin_label F lo hi i =
     (let b_start = fp_add F lo (fp_div F (fp_mul F (fp_sub F hi lo) (fp_of F i)) (fp_of F BINS));
          b_end = fp_add F lo (fp_div F (fp_mul F (fp_sub F hi lo) (fp_of F (i + 1))) (fp_of F BINS))
      in snprintf 64 (pad_left 5 (fp_fixed F 1 b_start) @ ''-'' @ pad_right 5 (fp_fixed F 1 b_end) @ '' Gbps''))"

definition histogram_row :: "string \<Rightarrow> nat \<Rightarrow> nat \<Rightarrow> bytes" where
  "histogram_row label blocks percent =
     (let t = bytes_of_string
      in BOX_V @ t ''  '' @ t label @ t '' '' @ BOX_SEP @ t '' '' @ concat (replicate blocks FULL_BLOCK)
         @ replicate (BAR_MAX_WIDTH - blocks) 32 @ BOX_SEP @ t '' '' @ t (pad_left 3 (to_string percent)) @ t ''%  '' @ BOX_V @ [10])"

definition histogram :: "'d :: linorder fp \<Rightarrow> 'd samples \<Rightarrow> bytes list" where
  "histogram F s =
     (let sv = samples_sorted s; lo = hd sv; hi = last sv; bins = bin_values (bin_of F lo hi) sv
      in map (\<lambda>i. histogram_row (bin_label F lo hi i) (num_blocks bins (length sv) i)
             (fp_trunc F (fp_div F (fp_mul F (fp_of F 100) (fp_of F (bins ! i))) (fp_of F (length sv))))) [0..<BINS])"

text \<open>The lines of the summary, in order; \<open>print_summary\<close> prints them after two empty ones.\<close>

definition summary_title :: bytes where
  "summary_title = BOX_V @ bytes_of_string ''                GoodNet Benchmark Results                 '' @ BOX_V @ [10]"

definition summary_lines :: "'d :: linorder fp \<Rightarrow> 'd samples \<Rightarrow> 'd \<Rightarrow> u64 \<Rightarrow> u64 \<Rightarrow> accum \<Rightarrow> bytes list" where
  "summary_lines F thr total_sec tot_bytes tot_pkts st =
     (let t = bytes_of_string; sep = box_line BOX_ML BOX_MR 58;
          c_red = sgr ''1;31''; c_green = sgr ''1;32''; c_none = [];
          avg_gbps = mean F thr; pk = peak F thr;
          pkts = display_pkts tot_pkts st;
          pkt_s_avg = (if fp_of F 0 < total_sec then fp_div F (fp_of F (unat pkts)) total_sec else fp_of F 0)
      in [box_line BOX_TL BOX_TR 58, summary_title, sep,
          print_row (t ''Duration'') (t (fmt_duration F total_sec)) [],
          print_row (t ''Status'') (t (if has_errors st then ''DONE (errors!)'' else ''DONE (OK)'')) (if has_errors st then c_red else c_green),
          sep,
          print_row (t ''Average'') (snprintf 128 (t (fp_fixed F 2 avg_gbps) @ t '' Gbps  ''
             @ bar F (fp_div F avg_gbps (if fp_of F 0 < pk then pk else fp_of F 1)) 20)) [],
          print_row (t ''Peak'') (t (fp_fixed F 2 pk @ '' Gbps'')) [],
          print_row (t ''p95'') (t (fp_fixed F 2 (percentile F (fp_of F 95) thr) @ '' Gbps'')) [],
          sep,
          print_row (t ''Total data'') (t (fmt_bytes F (fp_of F (unat (display_bytes tot_bytes st))))) [],
          print_row (t ''Total packets'') (t (fmt_num pkts)) [],
          print_row (t ''Avg pkt/s'') (t (fmt_num (of_nat (fp_trunc F pkt_s_avg)))) [],
          sep,
          print_row (t ''Connections (OK/Err)'') (snprintf 128 (u64_text (total_conn st) @ t '' / '' @ u64_text (total_disc st))) [],
          print_row (t ''Auth (ok/fail)'') (snprintf 128 (u64_text (auth_ok st) @ t '' / '' @ u64_text (auth_fail st))) [],
          print_row (t ''Decrypt failures'') (t (fmt_num (decrypt_fail st))) (if 0 < decrypt_fail st then c_red else c_none),
          print_row (t ''Backpressure drops'') (t (fmt_num (backpressure st))) []]
         @ (if 4 \<le> sm_count thr then sep # histogram F thr else [])
         @ [box_line BOX_BL BOX_BR 58])"

definition print_summary :: "'d :: linorder fp \<Rightarrow> 'd samples \<Rightarrow> 'd \<Rightarrow> u64 \<Rightarrow> u64 \<Rightarrow> accum \<Rightarrow> bytes" where
  "print_summary F thr total_sec tot_bytes tot_pkts st =
     [10, 10] @ concat (summary_lines F thr total_sec tot_bytes tot_pkts st)"

subsection \<open>The ring keeps the last samples\<close>

definition ring_holds :: "'a list \<Rightarrow> 'a samples \<Rightarrow> bool" where
  "ring_holds xs s \<longleftrightarrow> length (sm_data s) = SAMPLE_RING \<and> sm_head s = length xs mod SAMPLE_RING
     \<and> sm_count s = min (length xs) SAMPLE_RING
     \<and> (\<forall>i < length xs. length xs \<le> i + SAMPLE_RING \<longrightarrow> sm_data s ! (i mod SAMPLE_RING) = xs ! i)"

lemma ring_pos [simp]: "0 < SAMPLE_RING" by (simp add: SAMPLE_RING_def)

lemma mod_eq_dist: "i < n \<Longrightarrow> n < i + R \<Longrightarrow> i mod R \<noteq> n mod R" for i n R :: nat
  by (metis add_diff_inverse_nat add_less_cancel_left mod_eq_dvd_iff_nat nat_dvd_not_less not_less_iff_gr_or_eq
      order_less_imp_le zero_less_diff)

lemma ring_push:
  assumes "ring_holds xs s"
  shows "ring_holds (xs @ [v]) (sample_push v s)"
proof -
  have "(sm_data s)[sm_head s := v] ! (i mod SAMPLE_RING) = (xs @ [v]) ! i"
    if i: "i < length (xs @ [v])" "length (xs @ [v]) \<le> i + SAMPLE_RING" for i
  proof (cases "i = length xs")
    case True
    then show ?thesis using assms by (simp add: ring_holds_def)
  next
    case False
    then have "i < length xs" using i(1) by simp
    moreover from this have "i mod SAMPLE_RING \<noteq> length xs mod SAMPLE_RING" using i(2) by (intro mod_eq_dist) auto
    ultimately show ?thesis using assms i(2) by (simp add: ring_holds_def nth_append)
  qed
  then show ?thesis using assms by (auto simp: ring_holds_def sample_push_def mod_Suc_eq)
qed

lemma ring_fold: "ring_holds xs (fold sample_push xs (no_samples z))"
proof (induction xs rule: rev_induct)
  case Nil
  show ?case by (simp add: ring_holds_def no_samples_def)
next
  case (snoc x xs)
  then show ?case using ring_push by simp
qed

lemma ring_contents:
  assumes "ring_holds xs s"
  shows "\<exists>k. take (sm_count s) (sm_data s) = rotate k (drop (length xs - SAMPLE_RING) xs)"
proof (cases "length xs \<le> SAMPLE_RING")
  case True
  then have "take (sm_count s) (sm_data s) = xs"
    using assms by (intro nth_equalityI) (auto simp: ring_holds_def)
  then show ?thesis using True by (intro exI [of _ 0]) simp
next
  case False
  let ?k = "length xs - SAMPLE_RING"
  have "drop ?k xs = rotate ?k (sm_data s)"
  proof (rule nth_equalityI)
    fix j assume "j < length (drop ?k xs)"
    then have j: "j < SAMPLE_RING" using False by simp
    then have "sm_data s ! ((?k + j) mod SAMPLE_RING) = xs ! (?k + j)" using assms False by (auto simp: ring_holds_def)
    then show "drop ?k xs ! j = rotate ?k (sm_data s) ! j" using j assms False by (simp add: nth_rotate ring_holds_def)
  qed (use assms False in \<open>simp add: ring_holds_def\<close>)
  moreover have "rotate m (rotate ?k (sm_data s)) = rotate (m + ?k) (sm_data s)" for m by (simp add: rotate_rotate)
  moreover have "rotate ((SAMPLE_RING - ?k mod SAMPLE_RING) + ?k) (sm_data s) = sm_data s"
  proof (rule rotate_id)
    have "?k mod SAMPLE_RING < SAMPLE_RING" by simp
    then have "(SAMPLE_RING - ?k mod SAMPLE_RING + ?k) mod SAMPLE_RING = (SAMPLE_RING - ?k mod SAMPLE_RING + ?k mod SAMPLE_RING) mod SAMPLE_RING"
      by (simp only: mod_add_right_eq)
    then show "(SAMPLE_RING - ?k mod SAMPLE_RING + ?k) mod length (sm_data s) = 0"
      using assms \<open>?k mod SAMPLE_RING < SAMPLE_RING\<close> by (simp add: ring_holds_def)
  qed
  ultimately show ?thesis using assms False by (intro exI [of _ "SAMPLE_RING - ?k mod SAMPLE_RING"]) (simp add: ring_holds_def)
qed

subsection \<open>Commas, widths and bins\<close>

text \<open>The reference: the last three digits, a comma, and the rest in the same way.\<close>

function triples :: "string \<Rightarrow> string" where
  "triples ds = (if length ds \<le> 3 then ds else triples (take (length ds - 3) ds) @ CHR '','' # drop (length ds - 3) ds)"
  by pat_completeness auto
termination by (relation "measure length") auto

declare triples.simps [simp del]

lemma insert_commas_triples: "insert_commas (int (length xs) - 3) (xs @ ys) = triples xs @ ys"
proof (induction "length xs" arbitrary: xs ys rule: less_induct)
  case less
  show ?case
  proof (cases "length xs \<le> 3")
    case True
    then show ?thesis by (simp add: insert_commas.simps [of "int (length xs) - 3"] triples.simps [of xs])
  next
    case False
    let ?n = "length xs - 3"
    have n: "nat (int (length xs) - 3) = ?n" "int (length xs) - 3 - 3 = int (length (take ?n xs)) - 3" "0 < int (length xs) - 3"
      "take ?n (xs @ ys) = take ?n xs" "drop ?n (xs @ ys) = drop ?n xs @ ys"
      using False by auto
    have "insert_commas (int (length xs) - 3) (xs @ ys) = insert_commas (int (length (take ?n xs)) - 3) (take ?n xs @ CHR '','' # drop ?n xs @ ys)"
      unfolding insert_commas.simps [of "int (length xs) - 3" "xs @ ys"] n(1) n(2) n(4) n(5) using n(3) by (simp only: if_True)
    also have "\<dots> = triples (take ?n xs) @ CHR '','' # drop ?n xs @ ys" using False by (intro less) simp
    also have "\<dots> = triples xs @ ys" using False by (simp add: triples.simps [of xs])
    finally show ?thesis .
  qed
qed

lemma triples_digits: "CHR '','' \<notin> set ds \<Longrightarrow> filter (\<lambda>c. c \<noteq> CHR '','') (triples ds) = ds"
proof (induction ds rule: triples.induct)
  case (1 ds)
  have no: "filter (\<lambda>c. c \<noteq> CHR '','') (drop k ds) = drop k ds" for k using 1(2) by (auto simp: filter_id_conv dest: in_set_dropD)
  show ?case
  proof (cases "length ds \<le> 3")
    case True
    then show ?thesis using 1(2) by (simp add: triples.simps [of ds] filter_id_conv) blast
  next
    case False
    then have "filter (\<lambda>c. c \<noteq> CHR '','') (triples (take (length ds - 3) ds)) = take (length ds - 3) ds"
      using 1 by (auto dest: in_set_takeD)
    then show ?thesis using False no by (simp add: triples.simps [of ds])
  qed
qed

lemma digits_no_comma: "CHR '','' \<notin> set (to_string n)"
  using digits_atoi [of n] by (auto simp: to_string_def list_all_iff is_digit_def)

lemma mset_rotate: "mset (rotate k xs) = mset xs"
proof -
  have "mset (rotate k xs) = mset (take (k mod length xs) xs @ drop (k mod length xs) xs)"
    unfolding rotate_drop_take mset_append by (rule add.commute)
  then show ?thesis by simp
qed

lemma utf8_len_append [simp]: "utf8_len (a @ b) = utf8_len a + utf8_len b"
  by (simp add: utf8_len_def)

lemma utf8_len_spaces [simp]: "utf8_len (replicate n 32) = n"
  by (simp add: utf8_len_def)

lemma bin_values_count:
  "length (bin_values bin sv) = BINS" "sum_list (bin_values bin sv) = length sv"
proof -
  have "length bs = BINS \<Longrightarrow> length (foldl (\<lambda>bs v. let b = min (bin v) (BINS - 1) in bs[b := bs ! b + 1]) bs sv) = BINS
      \<and> sum_list (foldl (\<lambda>bs v. let b = min (bin v) (BINS - 1) in bs[b := bs ! b + 1]) bs sv) = sum_list bs + length sv" for bs :: "nat list"
  proof (induction sv arbitrary: bs)
    case (Cons v sv)
    let ?b = "min (bin v) (BINS - 1)"
    have "?b < length bs" using Cons.prems by (simp add: BINS_def)
    then have "sum_list (bs[?b := bs ! ?b + 1]) = sum_list bs + 1"
      by (simp add: sum_list_update elem_le_sum_list)
    then show ?case using Cons by (simp add: Let_def)
  qed simp
  from this [of "replicate BINS 0"] show "length (bin_values bin sv) = BINS" "sum_list (bin_values bin sv) = length sv"
    unfolding bin_values_def by simp_all
qed

lemma num_blocks_bound:
  assumes "i < BINS"
  shows "num_blocks (bin_values bin sv) (length sv) i \<le> BAR_MAX_WIDTH"
proof -
  have "bin_values bin sv ! i \<le> length sv"
    using elem_le_sum_list [of i "bin_values bin sv"] assms by (simp add: bin_values_count)
  then have "bin_values bin sv ! i * BAR_MAX_WIDTH \<le> length sv * BAR_MAX_WIDTH" by (rule mult_right_mono) simp
  from div_le_mono [OF this, of "length sv"] show ?thesis
    using \<open>bin_values bin sv ! i \<le> length sv\<close> by (cases "length sv = 0") (simp_all add: num_blocks_def)
qed

subsection \<open>Columns\<close>

text \<open>What a terminal shows of a line: escape sequences take no column, nor do continuation bytes.\<close>

function strip_sgr :: "bytes \<Rightarrow> bytes" where
  "strip_sgr [] = []"
| "strip_sgr (b # bs) = (if b = 0x1B then strip_sgr (tl (dropWhile (\<lambda>c. c \<noteq> 0x6D) bs)) else b # strip_sgr bs)"
  by pat_completeness auto
termination
proof (relation "measure length")
  fix b :: byte and bs :: bytes
  have "length (dropWhile (\<lambda>c. c \<noteq> 0x6D) bs) \<le> length bs" by (rule length_dropWhile_le)
  then show "(tl (dropWhile (\<lambda>c. c \<noteq> 0x6D) bs), b # bs) \<in> measure length" by auto
qed auto

definition columns :: "bytes \<Rightarrow> nat" where
  "columns l = utf8_len (strip_sgr l)"

definition plain :: "bytes \<Rightarrow> bool" where
  "plain bs \<longleftrightarrow> 0x1B \<notin> set bs"

lemma plain_append [simp]: "plain (a @ b) \<longleftrightarrow> plain a \<and> plain b"
  and plain_Nil [simp]: "plain []"
  and plain_Cons [simp]: "plain (c # bs) \<longleftrightarrow> c \<noteq> 0x1B \<and> plain bs"
  and plain_replicate [simp]: "c \<noteq> 0x1B \<Longrightarrow> plain (replicate n c)"
  by (auto simp: plain_def)

lemma plain_concat [simp]: "plain bs \<Longrightarrow> plain (concat (replicate n bs))"
  by (auto simp: plain_def)

lemma strip_plain [simp]: "plain a \<Longrightarrow> strip_sgr (a @ b) = a @ strip_sgr b"
  by (induction a) auto

lemma strip_plain_all: "plain a \<Longrightarrow> strip_sgr a = a"
  using strip_plain [of a "[]"] by simp

lemma strip_sgr_sgr [simp]:
  assumes "0x6D \<notin> set (bytes_of_string code)"
  shows "strip_sgr (sgr code @ b) = strip_sgr b"
proof -
  have "dropWhile (\<lambda>c. c \<noteq> 0x6D) (0x5B # bytes_of_string code @ 0x6D # b) = 0x6D # b"
    using assms by (simp add: dropWhile_append3 split: if_splits) (metis dropWhile_append2 dropWhile.simps(2) )
  then show ?thesis by (simp add: sgr_def)
qed

lemma utf8_len_concat [simp]: "utf8_len (concat (replicate n bs)) = n * utf8_len bs"
  by (induction n) (simp_all add: utf8_len_def)

lemmas box_defs = BOX_H_def BOX_V_def BOX_TL_def BOX_TR_def BOX_BL_def BOX_BR_def BOX_ML_def BOX_MR_def BOX_SEP_def FULL_BLOCK_def LIGHT_SHADE_def

lemma plain_box [simp]: "plain BOX_V" "plain BOX_H" "plain BOX_SEP" "plain FULL_BLOCK"
  and utf8_len_box [simp]: "utf8_len BOX_V = 1" "utf8_len BOX_H = 1" "utf8_len BOX_SEP = 1" "utf8_len FULL_BLOCK = 1" "utf8_len [10] = 1"
  by (simp_all add: box_defs utf8_len_def plain_def)

lemma columns_plain: "plain a \<Longrightarrow> columns (a @ b) = utf8_len a + columns b"
  by (simp add: columns_def)

lemma sgr_zero [simp]: "strip_sgr (sgr ''0'' @ b) = strip_sgr b"
  by (rule strip_sgr_sgr) (simp add: bytes_of_string_def byte_of_char_def)

lemma plain_prefix: "plain label \<Longrightarrow> plain (row_prefix label)"
  by (simp add: row_prefix_def bytes_of_string_def byte_of_char_def plain_def)

lemma utf8_len_prefix: "utf8_len (row_prefix label) = utf8_len label + 5"
  by (simp add: row_prefix_def utf8_len_def bytes_of_string_def byte_of_char_def)

lemma box_line_columns: "columns (box_line BOX_ML BOX_MR 58) = 61"
proof -
  have "plain (box_line BOX_ML BOX_MR 58)" by (simp add: box_line_def) (simp add: box_defs)
  moreover have "utf8_len (box_line BOX_ML BOX_MR 58) = 61" by (simp add: box_line_def) (simp add: box_defs utf8_len_def)
  ultimately show ?thesis by (simp add: columns_def strip_plain_all)
qed

definition printable :: "string \<Rightarrow> bool" where
  "printable s \<longleftrightarrow> (\<forall>c \<in> set s. 32 \<le> (of_char c :: nat) \<and> (of_char c :: nat) < 128)"

lemma printable_byte:
  assumes "32 \<le> (of_char c :: nat)" "(of_char c :: nat) < 128"
  shows "byte_of_char c \<noteq> 0x1B \<and> byte_of_char c AND 0xC0 \<noteq> 0x80"
proof -
  have u: "unat (byte_of_char c) = of_char c" using assms by (simp add: byte_of_char_def unat_of_nat)
  then have "byte_of_char c \<noteq> 0x1B" using assms(1) by auto
  moreover have "\<not> 0x80 \<le> byte_of_char c" using assms(2) u by (simp add: word_le_nat_alt)
  ultimately show ?thesis using word_and_le2 [of "byte_of_char c" "0xC0"] by auto
qed

lemma printable_plain [simp]:
  assumes "printable s"
  shows "plain (bytes_of_string s)" "utf8_len (bytes_of_string s) = length s"
  using assms printable_byte by (induction s) (auto simp: printable_def bytes_of_string_def utf8_len_def)

lemma printable_digits: "printable (to_string n)"
  using digits_atoi [of n] by (auto simp: printable_def to_string_def list_all_iff is_digit_def)

subsection \<open>Properties\<close>

text \<open>
  A row of the summary whose label and value fit has as many columns as the lines of the box around it,
  whatever colour its value has.
\<close>

theorem row_fits_box:
  assumes "plain label" "plain val" "color = [] \<or> (\<exists>code. color = sgr code \<and> 0x6D \<notin> set (bytes_of_string code))"
    and "utf8_len label + utf8_len val \<le> 53"
  shows "columns (print_row label val color) = columns (box_line BOX_ML BOX_MR 58)"
proof -
  have "strip_sgr (color @ b) = strip_sgr b" for b using assms(3) by auto
  then have "columns (print_row label val color) = 61"
    using assms by (simp add: print_row_def columns_def plain_prefix utf8_len_prefix row_padding_def strip_plain_all)
  then show ?thesis by (simp add: box_line_columns)
qed

text \<open>
  The rows of the histogram do not: with a label of 16 columns and a percentage of three digits, they end
  five columns before the right edge of the box.
\<close>

theorem histogram_row_short:
  assumes "plain (bytes_of_string label)" "utf8_len (bytes_of_string label) = 16" "blocks \<le> BAR_MAX_WIDTH" "percent < 1000"
  shows "columns (histogram_row label blocks percent) + 5 = columns (box_line BOX_ML BOX_MR 58)"
proof -
  have t: "printable (pad_left 3 (to_string percent))" "length (pad_left 3 (to_string percent)) = 3"
    using assms(4) printable_digits [of percent] by (auto simp: pad_left_def printable_def to_string_def digits.simps)
  have c: "columns (box_line BOX_ML BOX_MR 58) = 61" by (rule box_line_columns)
  have l: "printable ''  ''" "printable '' ''" "printable ''%  ''" by (simp_all add: printable_def)
  show ?thesis
    using assms t l unfolding c by (simp add: BAR_MAX_WIDTH_def histogram_row_def Let_def columns_def printable_plain strip_plain_all)
qed

text \<open>
  The number printed with commas reads back as the number, and its commas stand after every third digit
  from the right.
\<close>

theorem fmt_num_groups:
  "fmt_num n = triples (to_string (unat n))
   \<and> digits_value (filter (\<lambda>c. c \<noteq> CHR '','') (fmt_num n)) = int (unat n)"
proof -
  have f: "fmt_num n = triples (to_string (unat n))"
    unfolding fmt_num_def Let_def using insert_commas_triples [of "to_string (unat n)" "[]"] by simp
  show ?thesis
    using digits_atoi [of "unat n"] triples_digits [OF digits_no_comma [of "unat n"]] by (simp add: f to_string_def)
qed

text \<open>
  The ring of throughput samples is the list of the last 1200 samples, however many were
  pushed: sorted it is that list sorted, its peak is the largest of them, and every percentile is one of
  them, whatever position the floating-point computation gives.
\<close>

theorem samples_are_the_last:
  "let s = fold sample_push xs (no_samples (fp_of F 0)); recent = drop (length xs - SAMPLE_RING) xs
   in samples_sorted s = sort recent
      \<and> (xs \<noteq> [] \<longrightarrow> peak F s = Max (set recent) \<and> percentile F p s \<in> set recent)"
proof -
  define s where "s = fold sample_push xs (no_samples (fp_of F 0))"
  define recent where "recent = drop (length xs - SAMPLE_RING) xs"
  have r: "ring_holds xs s" unfolding s_def by (rule ring_fold)
  obtain k where k: "take (sm_count s) (sm_data s) = rotate k recent"
    using ring_contents [OF r] by (auto simp: recent_def)
  have sort: "samples_sorted s = sort recent"
    unfolding samples_sorted_def k by (rule properties_for_sort) (simp_all add: mset_rotate)
  have "peak F s = Max (set recent) \<and> percentile F p s \<in> set recent" if ne: "xs \<noteq> []"
  proof
    have ne': "recent \<noteq> []" using ne by (cases xs) (auto simp: recent_def SAMPLE_RING_def)
    have c: "sm_count s \<noteq> 0" "sm_data s \<noteq> []" using r ne by (auto simp: ring_holds_def SAMPLE_RING_def)
    let ?d = "take (sm_count s) (sm_data s)"
    have "hd (sm_data s) \<in> set ?d" using c by (cases "sm_data s"; cases "sm_count s") auto
    then have "insert (hd (sm_data s)) (set ?d) = set recent" unfolding k by (simp add: insert_absorb)
    moreover have "peak F s = Max (set (hd (sm_data s) # ?d))"
      unfolding peak_def Max.set_eq_fold using c by simp
    ultimately show "peak F s = Max (set recent)" by simp
    have "sort recent \<noteq> []" using ne' by (metis length_0_conv length_sort)
    then show "percentile F p s \<in> set recent"
      using ne' sort nth_mem [of "min i (length recent - 1)" "sort recent" for i]
      by (simp add: percentile_def Let_def min_less_iff_disj)
  qed
  with sort show ?thesis by (simp add: Let_def s_def [symmetric] recent_def [symmetric])
qed

definition whole_fp :: "nat fp" where
  "whole_fp = \<lparr> fp_of = (\<lambda>n. n), fp_add = (+), fp_sub = (-), fp_mul = (*), fp_div = (div), fp_trunc = (\<lambda>n. n), fp_fixed = (\<lambda>_. to_string) \<rparr>"

theorem samples_are_the_last_witness:
  "samples_sorted (fold sample_push [3, 1, 2] (no_samples (fp_of whole_fp 0))) = [1, 2, 3]
   \<and> peak whole_fp (fold sample_push [3, 1, 2] (no_samples (fp_of whole_fp 0))) = 3
   \<and> percentile whole_fp 50 (fold sample_push [3, 1, 2] (no_samples (fp_of whole_fp 0))) \<in> {1, 2, 3}"
  using samples_are_the_last [of "[3, 1, 2]" whole_fp 50] by (auto simp: Let_def SAMPLE_RING_def)

end
