(* ===== verification/Cli_Bench.thy ===== *)
theory Cli_Bench
  imports Cli_Dashboard Node_Core
begin

section \<open>The benchmark: workers, monitor and ICE upgrade\<close>

text \<open>
  \<open>cli/bench.cpp\<close>. The workers are threads: each step is one access to what they share (the stop
  flag, the two counters, the manager), in any order, with any events of the manager between them. The
  loops that wait and poll are functions of what they observe at each turn; a list of observations that
  ends too early gives \<open>None\<close>.
\<close>

record 'd bench_config =
  bc_target :: string
  bc_threads :: int
  bc_pkt_limit :: u64
  bc_pkt_size_kb :: u64
  bc_report_hz :: 'd
  bc_timeout :: 'd
  bc_no_color :: bool
  bc_ice_upgrade :: bool

definition default_bench_config :: "'d fp \<Rightarrow> 'd bench_config" where
  "default_bench_config F = \<lparr> bc_target = [], bc_threads = 4, bc_pkt_limit = 0, bc_pkt_size_kb = 64, bc_report_hz = fp_of F 2,
     bc_timeout = fp_of F 30, bc_no_color = False, bc_ice_upgrade = False \<rparr>"

record 'd bench_result =
  br_total_sec :: 'd
  br_total_bytes :: u64
  br_total_pkts :: u64
  br_throughput :: "'d samples"
  br_stats :: accum
  br_exit_status :: int

definition no_bench_result :: "'d fp \<Rightarrow> 'd bench_result" where
  "no_bench_result F = \<lparr> br_total_sec = fp_of F 0, br_total_bytes = 0, br_total_pkts = 0, br_throughput = no_samples (fp_of F 0),
     br_stats = zero_accum, br_exit_status = 0 \<rparr>"

subsection \<open>Worker threads\<close>

text \<open>The next access of a worker: the stop flag, the limit, \<open>core.send\<close>, and the two counters.\<close>

datatype worker = W_running | W_limit | W_send | W_bytes | W_pkts | W_done

record bench =
  be_keep :: bool
  be_bytes :: u64
  be_pkts :: u64
  be_workers :: "worker list"
  be_cm :: cm

definition bench_start :: "int \<Rightarrow> cm \<Rightarrow> bench" where
  "bench_start threads s =
     \<lparr> be_keep = True, be_bytes = 0, be_pkts = 0, be_workers = replicate (nat threads) W_running, be_cm = s \<rparr>"

definition goto :: "nat \<Rightarrow> worker \<Rightarrow> bench \<Rightarrow> bench" where
  "goto i w b = b\<lparr> be_workers := (be_workers b)[i := w] \<rparr>"

definition worker_step :: "env \<Rightarrow> u64 \<Rightarrow> conn_id \<Rightarrow> bytes \<Rightarrow> nat \<Rightarrow> bench \<Rightarrow> bench" where
  "worker_step E limit c payload i b =
     (case be_workers b ! i of
        W_running \<Rightarrow> goto i (if be_keep b then W_limit else W_done) b
      | W_limit \<Rightarrow> goto i (if 0 < limit \<and> limit \<le> be_pkts b then W_done else W_send) b
      | W_send \<Rightarrow> (let (ok, s) = send_id E c 100 payload (be_cm b)
                 in goto i (if ok then W_bytes else W_running) (b\<lparr> be_cm := s \<rparr>))
      | W_bytes \<Rightarrow> goto i W_pkts (b\<lparr> be_bytes := be_bytes b + word_of_nat (length payload) \<rparr>)
      | W_pkts \<Rightarrow> goto i W_running (b\<lparr> be_pkts := be_pkts b + 1 \<rparr>)
      | W_done \<Rightarrow> b)"

text \<open>\<open>pl i\<close> is the payload of worker \<open>i\<close>, made once from random bytes.\<close>

inductive bench_run :: "u64 \<Rightarrow> conn_id \<Rightarrow> (nat \<Rightarrow> bytes) \<Rightarrow> int \<Rightarrow> bench \<Rightarrow> bool"
  for limit :: u64 and c :: conn_id and pl :: "nat \<Rightarrow> bytes" and n :: int where
  begins: "bench_run limit c pl n (bench_start n s)"
| works: "bench_run limit c pl n b \<Longrightarrow> i < length (be_workers b) \<Longrightarrow> bench_run limit c pl n (worker_step E limit c (pl i) i b)"
| manages: "bench_run limit c pl n b \<Longrightarrow> bench_run limit c pl n (b\<lparr> be_cm := exec E ev (be_cm b) \<rparr>)"
| stops: "bench_run limit c pl n b \<Longrightarrow> bench_run limit c pl n (b\<lparr> be_keep := False \<rparr>)"

subsection \<open>Monitor\<close>

record 'd monitor =
  mo_last_bytes :: u64
  mo_gbps_peak :: 'd
  mo_throughput :: "'d samples"

definition monitor_start :: "'d fp \<Rightarrow> 'd monitor" where
  "monitor_start F = \<lparr> mo_last_bytes = 0, mo_gbps_peak = fp_of F 0, mo_throughput = no_samples (fp_of F 0) \<rparr>"

definition gbps_of :: "'d fp \<Rightarrow> 'd \<Rightarrow> u64 \<Rightarrow> 'd" where
  "gbps_of F dt delta = fp_div F (fp_div F (fp_mul F (fp_of F (unat delta)) (fp_of F 8)) dt) (fp_of F 1000000000)"

definition monitor_tick :: "'d :: linorder fp \<Rightarrow> 'd \<times> u64 \<Rightarrow> 'd monitor \<Rightarrow> 'd monitor" where
  "monitor_tick F tick m =
     (let (dt, cur) = tick; gbps = gbps_of F dt (cur - mo_last_bytes m)
      in \<lparr> mo_last_bytes = cur, mo_gbps_peak = (if mo_gbps_peak m < gbps then gbps else mo_gbps_peak m),
           mo_throughput = sample_push gbps (mo_throughput m) \<rparr>)"

text \<open>The line the monitor prints, and whether it is its last: the limit is reached.\<close>

definition monitor_line :: "'d :: linorder fp \<Rightarrow> bool \<Rightarrow> 'd \<Rightarrow> 'd \<Rightarrow> u64 \<Rightarrow> u64 \<Rightarrow> cm \<Rightarrow> 'd monitor \<Rightarrow> bytes" where
  "monitor_line F no_color gbps total_sec cur pkts s m =
     (let pkt_s = (if fp_of F 0 < total_sec then fp_div F (fp_of F (unat pkts)) total_sec else fp_of F 0);
          backlog_mb = fp_div F (fp_of F (get_pending_bytes s CONN_ID_INVALID)) (fp_of F 1000000);
          t = bytes_of_string
      in if \<not> no_color then print_live F gbps (mo_gbps_peak m) pkt_s total_sec cur pkts backlog_mb (stats_snapshot (bus s))
         else t ''['' @ t (fp_fixed F 0 total_sec) @ t ''s] '' @ t (fp_fixed F 2 gbps) @ t '' Gbps | '' @ t (fp_fixed F 0 pkt_s)
              @ t '' pkt/s | Sent '' @ t (fmt_bytes F (fp_of F (unat cur))) @ t '' | Backlog '' @ t (fp_fixed F 1 backlog_mb) @ t '' MB'' @ [10])"

definition monitor_ends :: "u64 \<Rightarrow> u64 \<Rightarrow> bool" where
  "monitor_ends limit pkts \<longleftrightarrow> 0 < limit \<and> limit \<le> pkts"

subsection \<open>Waiting\<close>

text \<open>
  One turn of a polling loop: the stop flag and the manager its condition reads, and the seconds on the
  clock after the sleep.
\<close>

record 'd poll =
  po_keep :: bool
  po_cm :: cm
  po_elapsed :: 'd

fun poll_until :: "(cm \<Rightarrow> bool) \<Rightarrow> 'd :: linorder \<Rightarrow> 'd poll list \<Rightarrow> bool option" where
  "poll_until stop_at timeout [] = None"
| "poll_until stop_at timeout (p # ps) =
     (if po_keep p \<and> \<not> stop_at (po_cm p)
      then if timeout < po_elapsed p then Some False else poll_until stop_at timeout ps
      else Some True)"

definition upgrade_peer :: "core \<Rightarrow> string" where
  "upgrade_peer k =
     (case filter (\<lambda>pk. pk \<noteq> []) (map (\<lambda>c. core_peer_pubkey c k) (get_active_conn_ids (nc_cm k))) of
        [] \<Rightarrow> [] | pk # _ \<Rightarrow> bytes_to_hex pk)"

text \<open>The core after the call of \<open>connect\<close>, and the connection to send on; \<open>s\<close> is the manager after the loop.\<close>

definition try_ice_upgrade :: "'d :: linorder fp \<Rightarrow> env \<Rightarrow> conn_id \<Rightarrow> 'd poll list \<Rightarrow> cm \<Rightarrow> core \<Rightarrow> (core \<times> conn_id) option" where
  "try_ice_upgrade F E primary ps s k =
     (let peer_hex = upgrade_peer k
      in if peer_hex = [] then Some (k, primary)
         else let k1 = core_call E (EvConnect (''ice://'' @ peer_hex)) k
              in case poll_until (\<lambda>s. 2 \<le> connection_count s) (fp_of F 30) ps of
                   None \<Rightarrow> None
                 | Some False \<Rightarrow> Some (k1, primary)
                 | Some True \<Rightarrow>
                     Some (k1, if 2 \<le> connection_count s
                       then (case filter (\<lambda>c. c \<noteq> primary) (get_active_conn_ids s) of [] \<Rightarrow> primary | c # _ \<Rightarrow> c)
                       else primary))"

text \<open>
  Connecting: the connection the workers send on, or how the benchmark ends before them. \<open>Undefined\<close> is
  \<open>front()\<close> of an empty vector: the list is read again after the loop.
\<close>

datatype connected = Timed_out | Interrupted | Primary conn_id | Undefined

definition bench_connect :: "'d :: linorder bench_config \<Rightarrow> 'd poll list \<Rightarrow> bool \<Rightarrow> cm \<Rightarrow> connected option" where
  "bench_connect cfg ps keep s =
     (case poll_until (\<lambda>s. get_active_conn_ids s \<noteq> []) (bc_timeout cfg) ps of
        None \<Rightarrow> None
      | Some False \<Rightarrow> Some Timed_out
      | Some True \<Rightarrow>
          Some (if \<not> keep then Interrupted
            else case get_active_conn_ids s of [] \<Rightarrow> Undefined | c # _ \<Rightarrow> Primary c))"

text \<open>After the workers have been joined: until the queues are empty, or five seconds have passed.\<close>

fun flush_wait :: "'d :: linorder \<Rightarrow> 'd poll list \<Rightarrow> bool option" where
  "flush_wait limit [] = None"
| "flush_wait limit (p # ps) =
     (if get_pending_bytes (po_cm p) CONN_ID_INVALID > 0
      then if limit < po_elapsed p then Some False else flush_wait limit ps
      else Some True)"

definition bench_ended :: "'d fp \<Rightarrow> connected \<Rightarrow> 'd bench_result" where
  "bench_ended F how = (no_bench_result F)\<lparr> br_exit_status := (if how = Timed_out then 1 else 0) \<rparr>"

definition fill_result :: "'d \<Rightarrow> bench \<Rightarrow> 'd monitor \<Rightarrow> 'd bench_result" where
  "fill_result secs b m = \<lparr> br_total_sec = secs, br_total_bytes = be_bytes b, br_total_pkts = be_pkts b,
     br_throughput = mo_throughput m, br_stats = stats_snapshot (bus (be_cm b)), br_exit_status = 0 \<rparr>"

subsection \<open>Counting\<close>

definition in_flight :: "worker list \<Rightarrow> nat" where
  "in_flight ws = length (filter (\<lambda>w. w \<in> {W_send, W_bytes, W_pkts}) ws)"

definition half_counted :: "worker list \<Rightarrow> nat" where
  "half_counted ws = length (filter (\<lambda>w. w = W_pkts) ws)"

lemma filter_update_count:
  assumes "i < length ws"
  shows "length (filter P (ws[i := w])) + (if P (ws ! i) then 1 else 0) = length (filter P ws) + (if P w then 1 else 0)"
  using assms
proof (induction ws arbitrary: i)
  case (Cons v ws)
  then show ?case by (cases i) auto
qed simp

lemma in_flight_update:
  "i < length ws \<Longrightarrow> in_flight (ws[i := w]) + (if ws ! i \<in> {W_send, W_bytes, W_pkts} then 1 else 0)
     = in_flight ws + (if w \<in> {W_send, W_bytes, W_pkts} then 1 else 0)"
  unfolding in_flight_def by (rule filter_update_count)

lemma half_counted_update:
  "i < length ws \<Longrightarrow> half_counted (ws[i := w]) + (if ws ! i = W_pkts then 1 else 0) = half_counted ws + (if w = W_pkts then 1 else 0)"
  unfolding half_counted_def by (rule filter_update_count)

lemma in_flight_bound: "in_flight ws \<le> length ws"
  by (simp add: in_flight_def)

definition bench_ok :: "u64 \<Rightarrow> nat \<Rightarrow> int \<Rightarrow> bench \<Rightarrow> bool" where
  "bench_ok limit psz n b \<longleftrightarrow>
     length (be_workers b) = nat n
     \<and> be_bytes b = (be_pkts b + word_of_nat (half_counted (be_workers b))) * word_of_nat psz
     \<and> (0 < limit \<longrightarrow> unat (be_pkts b) + in_flight (be_workers b) < unat limit + nat n)
     \<and> (be_keep b \<longrightarrow> W_done \<in> set (be_workers b) \<longrightarrow> 0 < limit \<and> limit \<le> be_pkts b)"

lemma worker_goto [simp]:
  "be_keep (goto i w b) = be_keep b" "be_bytes (goto i w b) = be_bytes b" "be_pkts (goto i w b) = be_pkts b"
  "be_workers (goto i w b) = (be_workers b)[i := w]" "be_cm (goto i w b) = be_cm b"
  by (simp_all add: goto_def)

lemma bench_ok_goto:
  assumes "bench_ok limit psz n b" "i < length (be_workers b)"
    and "be_workers b ! i \<noteq> W_pkts" "w \<noteq> W_pkts"
    and "w \<in> {W_send, W_bytes} \<Longrightarrow> be_workers b ! i \<in> {W_send, W_bytes} \<or> limit = 0 \<or> be_pkts b < limit"
    and "w = W_done \<Longrightarrow> be_keep b \<Longrightarrow> 0 < limit \<and> limit \<le> be_pkts b"
  shows "bench_ok limit psz n (goto i w b)"
proof -
  let ?ws = "be_workers b"
  have h: "half_counted (?ws[i := w]) = half_counted ?ws" using half_counted_update [OF assms(2), of w] assms(3,4) by simp
  have f: "unat (be_pkts b) + in_flight (?ws[i := w]) < unat limit + nat n" if l: "0 < limit"
  proof (cases "w \<in> {W_send, W_bytes} \<and> be_workers b ! i \<notin> {W_send, W_bytes}")
    case True
    then have "unat (be_pkts b) < unat limit" using assms(5) l by (auto simp: word_less_nat_alt)
    then show ?thesis using in_flight_bound [of "?ws[i := w]"] assms(1) by (simp add: bench_ok_def)
  next
    case False
    then have "in_flight (?ws[i := w]) \<le> in_flight ?ws" using in_flight_update [OF assms(2), of w] assms(3,4) by (auto split: if_splits)
    then show ?thesis using assms(1) l by (simp add: bench_ok_def)
  qed
  have d: "0 < limit \<and> limit \<le> be_pkts b" if "be_keep b" "W_done \<in> set (?ws[i := w])"
    using that set_update_subset_insert [of ?ws i w] assms(1,6) by (auto simp: bench_ok_def)
  show ?thesis using assms(1) f d by (auto simp: bench_ok_def h)
qed

lemma bench_ok_cm [simp]: "bench_ok limit psz n (b\<lparr> be_cm := s \<rparr>) = bench_ok limit psz n b"
  by (simp add: bench_ok_def)

lemma bench_ok_bytes:
  assumes "bench_ok limit psz n b" "i < length (be_workers b)" "be_workers b ! i = W_bytes"
  shows "bench_ok limit psz n (goto i W_pkts (b\<lparr> be_bytes := be_bytes b + word_of_nat psz \<rparr>))"
proof -
  have "in_flight ((be_workers b)[i := W_pkts]) = in_flight (be_workers b)" "half_counted ((be_workers b)[i := W_pkts]) = half_counted (be_workers b) + 1"
    using in_flight_update [OF assms(2), of W_pkts] half_counted_update [OF assms(2), of W_pkts] assms(3) by simp_all
  moreover have "W_done \<in> set ((be_workers b)[i := W_pkts]) \<Longrightarrow> W_done \<in> set (be_workers b)"
    using set_update_subset_insert [of "be_workers b" i W_pkts] by auto
  ultimately show ?thesis using assms(1) by (auto simp: bench_ok_def algebra_simps)
qed

lemma bench_ok_pkts:
  assumes "bench_ok limit psz n b" "i < length (be_workers b)" "be_workers b ! i = W_pkts"
    and "unat limit + nat n \<le> 2 ^ 64"
  shows "bench_ok limit psz n (goto i W_running (b\<lparr> be_pkts := be_pkts b + 1 \<rparr>))"
proof -
  let ?ws = "(be_workers b)[i := W_running]"
  have f: "in_flight ?ws + 1 = in_flight (be_workers b)" and h: "half_counted ?ws + 1 = half_counted (be_workers b)"
    using in_flight_update [OF assms(2), of W_running] half_counted_update [OF assms(2), of W_running] assms(3) by simp_all
  have d: "W_done \<in> set ?ws \<Longrightarrow> W_done \<in> set (be_workers b)"
    using set_update_subset_insert [of "be_workers b" i W_running] by auto
  have u: "unat (be_pkts b + 1) = unat (be_pkts b) + 1" if "0 < limit"
  proof -
    have "unat (be_pkts b) + 1 < 2 ^ 64" using that assms(1,4) f by (simp add: bench_ok_def)
    then show ?thesis by (simp add: unat_word_ariths)
  qed
  have "be_bytes b = (be_pkts b + 1 + word_of_nat (half_counted ?ws)) * word_of_nat psz"
    using assms(1) unfolding bench_ok_def h [symmetric] by (simp add: algebra_simps)
  moreover have "limit \<le> be_pkts b + 1" if "0 < limit" "limit \<le> be_pkts b" using that u by (simp add: word_le_nat_alt)
  ultimately show ?thesis using assms(1) f d u by (auto simp: bench_ok_def)
qed

lemma bench_ok_step:
  assumes "bench_ok limit psz n b" "i < length (be_workers b)" "length payload = psz" "unat limit + nat n \<le> 2 ^ 64"
  shows "bench_ok limit psz n (worker_step E limit c payload i b)"
proof (cases "be_workers b ! i")
  case W_send
  then show ?thesis using assms by (auto simp: worker_step_def split: prod.split intro!: bench_ok_goto)
next
  case W_bytes
  then show ?thesis using assms bench_ok_bytes [OF assms(1,2)] by (simp add: worker_step_def)
next
  case W_pkts
  then show ?thesis using assms bench_ok_pkts [OF assms(1,2)] by (simp add: worker_step_def)
qed (use assms in \<open>auto simp: worker_step_def not_le word_gt_0 intro!: bench_ok_goto\<close>)

lemma bench_run_ok:
  assumes "bench_run limit c pl n b" "unat limit + nat n \<le> 2 ^ 64" "\<And>i. length (pl i) = psz"
  shows "bench_ok limit psz n b"
  using assms(1)
proof induction
  case (begins s)
  have "in_flight (replicate (nat n) W_running) = 0" "half_counted (replicate (nat n) W_running) = 0"
    by (simp_all add: in_flight_def half_counted_def)
  then show ?case by (auto simp: bench_ok_def bench_start_def word_less_nat_alt)
next
  case (works b i E)
  then show ?case using bench_ok_step assms by blast
qed (auto simp: bench_ok_def)

subsection \<open>Joining\<close>

text \<open>Steps after the stop flag has been cleared: workers in any order, and events of the manager between them.\<close>

datatype bench_action = Works env nat | Manages env cm_event

fun bench_act :: "u64 \<Rightarrow> conn_id \<Rightarrow> (nat \<Rightarrow> bytes) \<Rightarrow> bench_action \<Rightarrow> bench \<Rightarrow> bench" where
  "bench_act limit c pl (Works E i) b = worker_step E limit c (pl i) i b"
| "bench_act limit c pl (Manages E ev) b = b\<lparr> be_cm := exec E ev (be_cm b) \<rparr>"

fun worker_rank :: "worker \<Rightarrow> nat" where
  "worker_rank W_limit = 5"
| "worker_rank W_send = 4"
| "worker_rank W_bytes = 3"
| "worker_rank W_pkts = 2"
| "worker_rank W_running = 1"
| "worker_rank W_done = 0"

definition turns :: "nat \<Rightarrow> bench_action list \<Rightarrow> nat" where
  "turns i acts = length (filter (\<lambda>a. case a of Works _ j \<Rightarrow> j = i | _ \<Rightarrow> False) acts)"

lemma bench_act_rank:
  assumes "\<not> be_keep b" "i < length (be_workers b)"
  shows "\<not> be_keep (bench_act limit c pl a b) \<and> length (be_workers (bench_act limit c pl a b)) = length (be_workers b)
    \<and> worker_rank (be_workers (bench_act limit c pl a b) ! i) + turns i [a] \<le> max (worker_rank (be_workers b ! i)) (turns i [a])"
proof (cases a)
  case (Works E j)
  then show ?thesis
    using assms by (cases "be_workers b ! j"; cases "j = i") (auto simp: worker_step_def turns_def split: prod.split)
qed (use assms in \<open>simp add: turns_def\<close>)

lemma bench_acts_rank:
  assumes "\<not> be_keep b" "i < length (be_workers b)"
  shows "worker_rank (be_workers (fold (bench_act limit c pl) acts b) ! i) \<le> worker_rank (be_workers b ! i) - turns i acts"
  using assms
proof (induction acts arbitrary: b)
  case (Cons a acts)
  have t: "turns i (a # acts) = turns i [a] + turns i acts" by (simp add: turns_def)
  have "turns i [a] \<le> 1" by (simp add: turns_def)
  then show ?case using Cons.IH [of "bench_act limit c pl a b"] bench_act_rank [OF Cons.prems, of limit c pl a] Cons.prems
    unfolding t by (auto simp: max_def split: if_splits)
qed (simp add: turns_def)

subsection \<open>Properties\<close>

text \<open>
  Property C27. However the worker threads interleave, with a packet limit they count at most \<open>threads - 1\<close>
  packets more than it; when all have ended the byte counter is the packet counter times the packet
  size, and unless the benchmark was stopped the limit has been reached.
\<close>

theorem bench_packet_limit:
  assumes "bench_run limit c pl threads b" "0 < limit" "unat limit + nat threads \<le> 2 ^ 64"
    and "\<forall>i. length (pl i) = psz"
  shows "unat (be_pkts b) < unat limit + nat threads
    \<and> (list_all (\<lambda>w. w = W_done) (be_workers b) \<longrightarrow> be_bytes b = be_pkts b * word_of_nat psz
         \<and> (be_keep b \<and> 0 < threads \<longrightarrow> limit \<le> be_pkts b))"
proof -
  have ok: "bench_ok limit psz threads b" using bench_run_ok [OF assms(1,3)] assms(4) by simp
  have "half_counted (be_workers b) = 0" if "list_all (\<lambda>w. w = W_done) (be_workers b)"
    using that by (auto simp: half_counted_def list_all_iff filter_empty_conv)
  moreover have "W_done \<in> set (be_workers b)" if "list_all (\<lambda>w. w = W_done) (be_workers b)" "0 < threads"
    using that ok by (cases "be_workers b") (auto simp: bench_ok_def)
  ultimately show ?thesis using ok assms(2) by (auto simp: bench_ok_def)
qed

theorem bench_packet_limit_witness:
  "\<exists>b. bench_run 1 1 (\<lambda>_. [7]) 1 b \<and> be_workers b = [W_done] \<and> be_keep b
     \<and> unat (be_pkts b) < 2 \<and> be_bytes b = be_pkts b * 1 \<and> 1 \<le> be_pkts b"
proof -
  let ?s = "bench_start 1 demo_cm" and ?step = "worker_step demo_env 1 1 [7] 0"
  have run: "bench_run 1 1 (\<lambda>_. [7]) 1 ((?step ^^ k) ?s) \<and> length (be_workers ((?step ^^ k) ?s)) = 1" for k
  proof (induction k)
    case 0
    have "bench_run 1 1 (\<lambda>_. [7]) 1 ?s" by (rule bench_run.begins)
    then show ?case by (simp add: bench_start_def)
  next
    case (Suc k)
    have "length (be_workers (?step b)) = length (be_workers b)" for b
      by (cases "be_workers b ! 0") (simp_all add: worker_step_def split: prod.split)
    then show ?case using Suc bench_run.works [of 1 1 "\<lambda>_. [7]" 1 "(?step ^^ k) ?s" 0 demo_env] by simp
  qed
  define b where "b = (?step ^^ 7) ?s"
  have r: "rcu_find demo_cm 1 \<noteq> None" by (simp add: rcu_find_def demo_cm_def)
  have b: "be_workers b = [W_done]" "be_keep b"
    using r by (simp_all add: b_def eval_nat_numeral worker_step_def bench_start_def send_id_def goto_def)
  have "unat (be_pkts b) < unat (1 :: u64) + nat 1
    \<and> (list_all (\<lambda>w. w = W_done) (be_workers b) \<longrightarrow> be_bytes b = be_pkts b * word_of_nat 1 \<and> (be_keep b \<and> 0 < (1 :: int) \<longrightarrow> 1 \<le> be_pkts b))"
    by (rule bench_packet_limit [of 1 1 "\<lambda>_. [7]" 1 b 1]) (use run [of 7] in \<open>simp_all add: b_def\<close>)
  then show ?thesis using b run [of 7] by (intro exI [of _ b]) (simp add: b_def [symmetric])
qed

text \<open>
  Once the stop flag is cleared, five turns of a worker end it, whatever the other threads do: the joins
  return.
\<close>

theorem bench_workers_join:
  assumes "\<not> be_keep b" "\<forall>i < length (be_workers b). 5 \<le> turns i acts"
  shows "\<forall>i < length (be_workers b). be_workers (fold (bench_act limit c pl) acts b) ! i = W_done"
proof (intro allI impI)
  fix i assume i: "i < length (be_workers b)"
  have "worker_rank (be_workers b ! i) \<le> 5" by (cases "be_workers b ! i") simp_all
  then have "worker_rank (be_workers (fold (bench_act limit c pl) acts b) ! i) = 0"
    using bench_acts_rank [OF assms(1) i, of limit c pl acts] assms(2) i by fastforce
  then show "be_workers (fold (bench_act limit c pl) acts b) ! i = W_done"
    by (cases "be_workers (fold (bench_act limit c pl) acts b) ! i") simp_all
qed

text \<open>
  A packet is counted as sent whenever the connection exists, also when the manager sends nothing.
\<close>

theorem bench_counts_unsent:
  assumes "i < length (be_workers b)" "be_workers b ! i = W_send" "shutting_down (be_cm b)" "rcu_find (be_cm b) c = Some r"
  shows "\<exists>b'. (worker_step E1 limit c payload i \<circ> worker_step E2 limit c payload i \<circ> worker_step E3 limit c payload i) b = b'
    \<and> be_pkts b' = be_pkts b + 1 \<and> be_cm b' = be_cm b"
  using assms by (simp add: worker_step_def send_id_def send_frame_def goto_def)

text \<open>
  The upgrade is not noticed. A transport that is added for a peer leaves the number of connections as it
  was, so with one connection the loop polls until it has timed out.
\<close>

lemma add_transport_count: "connection_count (snd (handle_add_transport E hex ep sch s)) = connection_count s"
  by (simp add: handle_add_transport_def connection_count_def Let_def upd_rec_def upd_bus_def modify_def split: option.split)

lemma poll_never: "\<forall>p \<in> set ps. po_keep p \<and> \<not> stop_at (po_cm p) \<Longrightarrow> \<exists>p \<in> set ps. timeout < po_elapsed p \<Longrightarrow> poll_until stop_at timeout ps = Some False"
  by (induction ps) auto

theorem ice_upgrade_unnoticed:
  assumes one: "connection_count s0 = 1"
    and polls: "\<forall>p \<in> set ps. po_keep p \<and> (po_cm p = s0 \<or> (\<exists>E hex ep sch. po_cm p = snd (handle_add_transport E hex ep sch s0)))"
    and late: "\<exists>p \<in> set ps. fp_of F 30 < po_elapsed p"
  shows "poll_until (\<lambda>s. 2 \<le> connection_count s) (fp_of F 30) ps = Some False"
  using polls one late by (intro poll_never) (auto simp: add_transport_count)

text \<open>
  The monitor: its samples are the rates between consecutive values of the byte counter, and the peak it
  shows is the largest of them (or 0).
\<close>

fun monitor_rates :: "'d fp \<Rightarrow> u64 \<Rightarrow> ('d \<times> u64) list \<Rightarrow> 'd list" where
  "monitor_rates F l [] = []"
| "monitor_rates F l ((dt, cur) # ts) = gbps_of F dt (cur - l) # monitor_rates F cur ts"

lemma monitor_fold:
  "fold (monitor_tick F) ts m =
     \<lparr> mo_last_bytes = last (mo_last_bytes m # map snd ts),
       mo_gbps_peak = fold max (monitor_rates F (mo_last_bytes m) ts) (mo_gbps_peak m),
       mo_throughput = fold sample_push (monitor_rates F (mo_last_bytes m) ts) (mo_throughput m) \<rparr>"
  by (induction ts arbitrary: m) (auto simp: monitor_tick_def Let_def max_def not_less le_less)

theorem monitor_peak_is_largest:
  "mo_gbps_peak (fold (monitor_tick F) ts (monitor_start F)) = Max (set (fp_of F 0 # monitor_rates F 0 ts))"
  unfolding monitor_fold Max.set_eq_fold by (simp add: monitor_start_def)

end
