(* ===== verification/Cli_Main.thy ===== *)
theory Cli_Main
  imports Cli_Bench
begin

section \<open>The command line: server mode and main\<close>

text \<open>
  \<open>cli/server.cpp\<close> and \<open>src/main.cpp\<close>. The server loop is a function of the clock readings and statistics
  of its turns. For \<open>main\<close> the result of Boost's option parser, the environment variable and what the
  benchmark or the server did while it ran are arguments; console output of \<open>main\<close> itself and
  the call of \<open>listen\<close>, which only reaches the connector, are left out.
\<close>

subsection \<open>Server mode\<close>

record 'd server_config =
  sf_report_hz :: 'd
  sf_exit_after :: 'd
  sf_no_color :: bool

text \<open>One turn: the stop flag, and after the sleep the seconds since the start and since the last turn.\<close>

record 'd server_reading =
  st_keep :: bool
  st_total_sec :: 'd
  st_dt :: 'd
  st_stats :: accum

record 'd server_state =
  sv_last_rx :: u64
  sv_last_tx :: u64
  sv_last_pkts :: u64
  sv_throughput :: "'d samples"
  sv_out :: bytes

definition server_start :: "'d fp \<Rightarrow> 'd server_state" where
  "server_start F = \<lparr> sv_last_rx = 0, sv_last_tx = 0, sv_last_pkts = 0, sv_throughput = no_samples (fp_of F 0), sv_out = [] \<rparr>"

definition rate_gbps :: "'d :: linorder fp \<Rightarrow> 'd \<Rightarrow> u64 \<Rightarrow> 'd" where
  "rate_gbps F dt delta = (if fp_of F 0 < dt then gbps_of F dt delta else fp_of F 0)"

definition plain_server_line :: "'d fp \<Rightarrow> 'd server_reading \<Rightarrow> 'd \<Rightarrow> 'd \<Rightarrow> 'd \<Rightarrow> bytes" where
  "plain_server_line F tn rx_gbps tx_gbps pkt_s =
     (let t = bytes_of_string; st = st_stats tn
      in t ''[Server '' @ t (fp_fixed F 0 (st_total_sec tn)) @ t ''s] conns='' @ u64_text (connections st) @ t ''  RX '' @ t (fp_fixed F 2 rx_gbps)
         @ t '' Gbps  TX '' @ t (fp_fixed F 2 tx_gbps) @ t '' Gbps  '' @ t (fp_fixed F 0 pkt_s) @ t '' pkt/s  auth ok='' @ u64_text (auth_ok st)
         @ t '' fail='' @ u64_text (auth_fail st) @ [10])"

definition server_step :: "'d :: linorder fp \<Rightarrow> 'd server_config \<Rightarrow> 'd server_reading \<Rightarrow> 'd server_state \<Rightarrow> 'd server_state" where
  "server_step F cfg tn sv =
     (let st = st_stats tn; dt = st_dt tn;
          rx_gbps = rate_gbps F dt (rx_bytes st - sv_last_rx sv);
          tx_gbps = rate_gbps F dt (tx_bytes st - sv_last_tx sv);
          pkt_s = (if fp_of F 0 < dt then fp_div F (fp_of F (unat (rx_packets st - sv_last_pkts sv))) dt else fp_of F 0)
      in \<lparr> sv_last_rx = rx_bytes st, sv_last_tx = tx_bytes st, sv_last_pkts = rx_packets st,
           sv_throughput = (if fp_of F 2 < st_total_sec tn then sample_push rx_gbps (sv_throughput sv) else sv_throughput sv),
           sv_out = sv_out sv @ (if \<not> sf_no_color cfg
             then print_server_line F (st_total_sec tn) (connections st) rx_gbps tx_gbps pkt_s st
             else plain_server_line F tn rx_gbps tx_gbps pkt_s) \<rparr>)"

fun run_server :: "'d :: linorder fp \<Rightarrow> 'd server_config \<Rightarrow> 'd server_reading list \<Rightarrow> 'd server_state \<Rightarrow> 'd server_state option" where
  "run_server F cfg [] sv = None"
| "run_server F cfg (tn # tns) sv =
     (if \<not> st_keep tn then Some (sv\<lparr> sv_out := sv_out sv @ [10] \<rparr>)
      else let sv1 = server_step F cfg tn sv
           in if fp_of F 0 < sf_exit_after cfg \<and> sf_exit_after cfg \<le> st_total_sec tn
              then Some (sv1\<lparr> sv_out := sv_out sv1 @ [10] @ bytes_of_string (''>>> [Server] --exit-after '' @ fp_fixed F 0 (sf_exit_after cfg)
                     @ ''s reached, stopping.'') @ [10, 10] \<rparr>)
              else run_server F cfg tns sv1)"

subsection \<open>main\<close>

record 'd cli_options =
  op_target :: string
  op_listen_port :: u16
  op_threads :: int
  op_pkts_limit :: u64
  op_kb_size :: u64
  op_report_hz :: 'd
  op_timeout :: 'd
  op_exit_after :: 'd
  op_no_color :: bool
  op_exit_code :: bool
  op_ice_upgrade :: bool
  op_config_path :: string

datatype 'd command_line = Bad_arguments | Help | Options "'d cli_options"

definition main_threads :: "int \<Rightarrow> 'd cli_options \<Rightarrow> int" where
  "main_threads hw opts = (if op_threads opts \<le> 0 then if 0 < hw then hw else 2 else op_threads opts)"

definition main_config :: "json_lib \<Rightarrow> file_system \<Rightarrow> string option \<Rightarrow> int \<Rightarrow> 'd cli_options \<Rightarrow> config" where
  "main_config J F env_dir hw opts =
     (let c0 = default_config;
          c1 = c0\<lparr> cf_core := (cf_core c0)\<lparr> io_threads := word_of_int (max 1 (main_threads hw opts)) \<rparr>,
                   cf_plugins := (cf_plugins c0)\<lparr> auto_load := True \<rparr> \<rparr>;
          c2 = (if op_config_path opts = [] then c1 else snd (load_from_file J F (op_config_path opts) c1))
      in case env_dir of
           Some d \<Rightarrow> c2\<lparr> cf_plugins := (cf_plugins c2)\<lparr> base_dir := d \<rparr> \<rparr>
         | None \<Rightarrow> c2\<lparr> cf_plugins := (cf_plugins c2)\<lparr> base_dir := ''./result/plugins'', extra_dirs := ''./plugins'' \<rparr> \<rparr>)"

definition main_bench_config :: "int \<Rightarrow> 'd cli_options \<Rightarrow> 'd bench_config" where
  "main_bench_config hw opts = \<lparr> bc_target = op_target opts, bc_threads = main_threads hw opts, bc_pkt_limit = op_pkts_limit opts,
     bc_pkt_size_kb = op_kb_size opts, bc_report_hz = op_report_hz opts, bc_timeout = op_timeout opts, bc_no_color = op_no_color opts,
     bc_ice_upgrade = op_ice_upgrade opts \<rparr>"

definition main_server_config :: "'d cli_options \<Rightarrow> 'd server_config" where
  "main_server_config opts = \<lparr> sf_report_hz = op_report_hz opts, sf_exit_after = op_exit_after opts, sf_no_color = op_no_color opts \<rparr>"

definition final_exit :: "bool \<Rightarrow> int \<Rightarrow> accum \<Rightarrow> int" where
  "final_exit exit_code status st =
     (if status \<noteq> 0 then status else if exit_code \<and> (0 < auth_fail st \<or> 0 < decrypt_fail st) then 1 else 0)"

text \<open>
  What \<open>run_benchmark\<close> or \<open>run_server\<close> leaves: the core, the status and the statistics. An exception of
  the core's constructor is not caught; \<open>Hangs\<close> stands for a \<open>stop\<close> that waits for dispatches.
\<close>

datatype main_result = Returns int | Terminates core_error | Hangs

definition stop_and_return :: "int \<Rightarrow> core \<Rightarrow> main_result" where
  "stop_and_return code k = (case core_stop k of None \<Rightarrow> Hangs | Some _ \<Rightarrow> Returns code)"

definition cli_main :: "bool \<Rightarrow> 'd command_line \<Rightarrow> json_lib \<Rightarrow> string option \<Rightarrow> core_env \<Rightarrow> key_state
    \<Rightarrow> ('d bench_config \<Rightarrow> core \<Rightarrow> core \<times> int \<times> accum) \<Rightarrow> ('d server_config \<Rightarrow> core \<Rightarrow> core \<times> accum) \<Rightarrow> main_result" where
  "cli_main init_ok args J env_dir C st bench server =
     (if \<not> init_ok then Returns 1
      else case args of Bad_arguments \<Rightarrow> Returns 1 | Help \<Rightarrow> Returns 0
      | Options opts \<Rightarrow>
          (let hw = ce_hardware_threads C; cfg = main_config J (ks_files st) env_dir hw opts
           in case core_construct C cfg st of Inl e \<Rightarrow> Terminates e
              | Inr (k0, _) \<Rightarrow>
                  (let k = run_async C 0 k0
                   in if 0 < op_listen_port opts \<and> find_connector_by_scheme ''tcp'' (nc_pm k) = None then stop_and_return 1 k
                      else if op_target opts \<noteq> []
                      then let (k1, status, stats) = bench (main_bench_config hw opts) k
                           in stop_and_return (final_exit (op_exit_code opts) status stats) k1
                      else let (k1, stats) = server (main_server_config opts) k
                           in stop_and_return (final_exit (op_exit_code opts) 0 stats) k1)))"

subsection \<open>Properties\<close>

text \<open>
  The plugin directories of a configuration file are never used: whatever the file says, the base
  directory is the environment variable or the built-in path.
\<close>

theorem main_overrides_plugin_dirs:
  "base_dir (cf_plugins (main_config J F env_dir hw opts)) = (case env_dir of Some d \<Rightarrow> d | None \<Rightarrow> ''./result/plugins'')
   \<and> (env_dir = None \<longrightarrow> extra_dirs (cf_plugins (main_config J F env_dir hw opts)) = ''./plugins'')"
  by (simp add: main_config_def Let_def split: option.split)

text \<open>
  Without a configuration file a missing plugin directory ends the program by an exception of the core's
  constructor, before \<open>main\<close> can report that no connector was found.
\<close>

theorem main_without_plugin_dir:
  assumes dir: "ce_files_below C (case env_dir of Some d \<Rightarrow> d | None \<Rightarrow> ''./result/plugins'') = None" and e: "env_dir \<noteq> Some []"
    and opts: "op_config_path opts = []"
  shows "\<exists>err. cli_main True (Options opts) J env_dir C st bench server = Terminates err"
proof -
  let ?cfg = "main_config J (ks_files st) env_dir (ce_hardware_threads C) opts"
  have b: "base_dir (cf_plugins ?cfg) = (case env_dir of Some d \<Rightarrow> d | None \<Rightarrow> ''./result/plugins'')" "auto_load (cf_plugins ?cfg)"
    using opts by (simp_all add: main_config_def Let_def split: option.split)
  then have "base_dir (cf_plugins ?cfg) \<noteq> []" using e by (auto split: option.splits)
  then have "start_plugins C F (cf_plugins ?cfg) pm = None" for F pm using b dir by (simp add: start_plugins_def Let_def)
  then have "\<exists>err. core_construct C ?cfg st = Inl err" by (auto simp: core_construct_def Let_def split: sum.split)
  then show ?thesis by (auto simp: cli_main_def Let_def)
qed

text \<open>
  With \<open>--exit-after\<close> the server ends at the latest with the first turn after that time.
\<close>

theorem server_ends:
  assumes "fp_of F 0 < sf_exit_after cfg" "\<exists>tn \<in> set tns. sf_exit_after cfg \<le> st_total_sec tn"
  shows "\<exists>sv'. run_server F cfg tns sv = Some sv'"
  using assms by (induction tns arbitrary: sv) (auto simp: Let_def)

end
