(* ===== verification/Spec2Isabelle.thy ===== *)
theory Spec2Isabelle
  imports Ice_Connector Node_System C_Api Node_Logger Plugin_Sdk Diagnostics Typed_Data Dyn_Lib Connector_Sdk Cli_Main
begin

text \<open>
  GoodNet: a connection manager for encrypted peer-to-peer messages, with its connectors and the
  key-value store built on it.

  \<^bold>\<open>The program.\<close> Connector plugins (TCP, ICE) move bytes; the core's connection manager
  (\<open>core/cm\<close>) gives each connection an id, authenticates the peer with a Noise XX handshake,
  frames, encrypts and queues what is sent, reassembles, checks and decrypts what arrives, and
  hands messages to handlers through the signal bus (\<open>include/signals.hpp\<close>). A peer may be reached
  over several transports; the manager fails over between them, measures them by heartbeats and
  relays frames for others. The ICE connector (\<open>plugins/connectors/ice\<close>) finds a UDP path with
  STUN and exchanges candidates over the manager itself. The store (\<open>apps/store\<close>) is a handler
  with an SQLite table behind it. The core (\<open>src/core.cpp\<close>) puts a node together: it reads the
  configuration, loads or makes the node's keys, creates the manager, loads the plugins and registers
  them.

  \<^bold>\<open>Theories and sources.\<close>

  \<^item> \<open>Prelude\<close>: machine types, little-endian codec, C strings, association lists
    (\<open>std::unordered_map\<close>, iterated in insertion order), collections of simp rules.
  \<^item> \<open>Wire\<close>: \<open>sdk/types.h\<close>, \<open>core/data/messages.hpp\<close>, \<open>sdk/cpp/data.hpp\<close>, \<open>core/util.cpp\<close>. Every
    packed struct is a record with an encoder and a decoder; the locale \<open>pod\<close> states the contract of
    \<open>PodData\<close> (fixed size, round trip) and is interpreted for each struct.
    \<open>Sys_Messages\<close> has the DHT, health, RPC, routing and TUN payloads; \<open>Typed_Data\<close> has \<open>IData\<close> (locale
    \<open>idata\<close>, of which \<open>pod\<close> is a sublocale), \<open>VarData\<close> and the free functions of \<open>data.hpp\<close>.
  \<^item> \<open>Nonce_Window\<close>: \<open>NonceWindow\<close>, a refinement of the set of accepted nonces (locale
    \<open>replay_filter\<close>).
  \<^item> \<open>Send_Queue\<close>: \<open>PerConnQueue\<close>, sequentially (locale \<open>bounded_fifo\<close>) and as a step relation of
    threads whose atomic actions interleave.
  \<^item> \<open>Noise\<close>: \<open>core/crypto/noise.cpp\<close>; libsodium is the parameter \<open>sodium\<close>.
  \<^item> \<open>Session\<close>: \<open>NoiseSession\<close> with \<open>encrypt\<close>, \<open>decrypt\<close> and \<open>rekey_session\<close>; zstd is a parameter.
  \<^item> \<open>Signal_Bus\<close>: pipelines, event signals (the posted events are a log), statistics.
  \<^item> \<open>CM_State\<close>, \<open>CM_Transport\<close>, \<open>CM_Handshake\<close>, \<open>CM_Lifecycle\<close>, \<open>CM_Dispatch\<close>, \<open>CM_System\<close>: the
    connection manager, file by file: \<open>impl.hpp\<close> and \<open>queries.cpp\<close>, \<open>transport.cpp\<close>,
    \<open>handshake.cpp\<close>, \<open>lifecycle.cpp\<close> with \<open>registration.cpp\<close> and \<open>disconnect.cpp\<close>,
    \<open>dispatch.cpp\<close> with \<open>relay.cpp\<close>, and the entry points as events with the reachable states.
  \<^item> \<open>Stun\<close>, \<open>Stun_Client\<close>: \<open>stun.cpp\<close>; HMAC-SHA1 is a parameter.
  \<^item> \<open>Ice_Candidate\<close>, \<open>Ice_Session\<close>, \<open>Ice_Connector\<close>: \<open>candidate.hpp\<close>, \<open>session.cpp\<close>, \<open>ice.cpp\<close>.
    \<open>ice_step\<close> is one asynchronous event of a session; the connector runs on the model of the manager.
  \<^item> \<open>Store_Messages\<close>, \<open>Store_Backend\<close>, \<open>Store_Handler\<close>: the store payloads, \<open>sqlite_backend.cpp\<close>
    (locale \<open>kv_backend\<close>: the contract of \<open>IStore\<close>) and \<open>handler.cpp\<close>.
  \<^item> \<open>Tcp_Connector\<close>: \<open>plugins/connectors/tcp/tcp.cpp\<close> with the base class of \<open>sdk/cpp/connector.hpp\<close>, on
    the model of the manager; \<open>tcp_step\<close> is one event of its threads, \<open>tcp_reach\<close> the reachable states.
  \<^item> \<open>Node_Config\<close>: \<open>config.hpp\<close>, \<open>config.cpp\<close>. \<open>Node_Identity\<close>: \<open>identity.cpp\<close>, \<open>machine_id.cpp\<close>.
    \<open>Plugin_Manager\<close>: \<open>core/pm\<close>. \<open>Node_Core\<close>: \<open>src/core.cpp\<close>. \<open>Node_Logger\<close>: \<open>logger.hpp\<close>, \<open>logger.cpp\<close>.
  \<^item> \<open>Store_App\<close>: \<open>store_app.cpp\<close> and the subscriptions of the store's handler, on the model of the core.
    \<open>C_Api\<close>: \<open>src/capi.cpp\<close>. \<open>Diagnostics\<close>: the JSON dump of \<open>queries.cpp\<close> and its C function.
  \<^item> \<open>Dyn_Lib\<close>: \<open>core/dynlib.hpp\<close>, the handles of a program as a transition system.
  \<^item> \<open>Plugin_Sdk\<close>: the host interface (\<open>sdk/plugin.h\<close>, the functions \<open>s_*\<close> of \<open>lifecycle.cpp\<close>), \<open>IHandler\<close>
    (\<open>sdk/cpp/handler.hpp\<close>) and the handler plugins \<open>MsgLogger\<close> and \<open>TemplateHandler\<close>.
    \<open>Connector_Sdk\<close>: \<open>IConnector\<close> (\<open>sdk/cpp/connector.hpp\<close>), the template connector, and the ICE connector as
    a subclass (locale \<open>posting_sender\<close>: a connector whose sends are posted).
  \<^item> \<open>Cli_Dashboard\<close>, \<open>Cli_Bench\<close>, \<open>Cli_Main\<close>: \<open>cli/dashboard.hpp\<close>, \<open>cli/bench.cpp\<close> (worker threads as a step
    relation), \<open>cli/server.cpp\<close> and \<open>src/main.cpp\<close>.
  \<^item> \<open>Node_System\<close>: the core and its TCP connector around one manager. The locale \<open>cm_driver\<close> is the
    contract of a component that drives a manager (it keeps its own invariant and the manager's); it is
    interpreted for the connector, for the core and for the node made of both.

  \<^bold>\<open>Groups of lemmas.\<close> \<open>CM_Frame\<close> says what the sending operations leave alone; \<open>CM_Invariant\<close>
  proves that every entry point preserves \<open>cm_inv\<close>; \<open>CM_Stable\<close> carries a predicate through the
  receive path (locales \<open>deliver_stable\<close>, \<open>receive_stable\<close>, \<open>data_stable\<close>); \<open>CM_Demo\<close> is the concrete
  node of the witnesses; \<open>CM_Receive\<close> shows that reassembly does not depend on how the stream is cut;
  \<open>Signal_Bus\<close> is the order of dispatch and of pipelines, and what subscribing and unsubscribing does to them;
  \<open>CM_Security\<close> is authentication, nonces and end-to-end delivery; \<open>CM_Sending\<close> is failover of
  \<open>flush_queue\<close> (the answers of connectors are arbitrary and may depend on all earlier calls),
  chunks and pending messages; \<open>CM_Peers\<close> is forgetting and relaying; \<open>Ice_Safety\<close> is the invariant of
  an ICE session, connectivity, consent and three defects. \<open>Tcp_Connector\<close> has the invariants of the
  write queue and of the read loop under every interleaving and two ordering defects; \<open>Node_Config\<close>
  reads back what it wrote and shows which settings reach the ICE connector; \<open>Node_Identity\<close> shows that
  a node keeps its keys and reads OpenSSH keys; \<open>Plugin_Manager\<close> that only verified libraries are
  loaded; \<open>Node_Core\<close> that a constructed node is wired up, so that its manager starts in the invariant
  \<open>cm_inv\<close>; \<open>Node_System\<close> that the node stays consistent whatever its core and its TCP connector do in
  turn; \<open>Plugin_Sdk\<close> that handlers which use the interface of \<open>IHandler\<close> satisfy what the invariant asks of
  handlers, and what \<open>MsgLogger\<close> misses; \<open>Store_Backend\<close> that the table is a map with expiry and that
  a prefix query finds its prefix; \<open>Store_Handler\<close> that a query finds what was put, what synchronisation
  copies, and that an empty key finds nothing; \<open>Store_App\<close> that requests reach the handler, that cleaning up cannot be noticed and that a
  running store has no connector; \<open>C_Api\<close> is about subscriptions and buffers of the caller; \<open>Node_Logger\<close>
  about levels and the life of the logger; \<open>Diagnostics\<close> shows that the dump says of every connection what
  the queries of the manager say, and how its scheme differs from theirs before the negotiation;
  \<open>Sys_Messages\<close> compares \<open>gn_rpc_hash\<close> with FNV-1a; \<open>Typed_Data\<close> shows that typed data is read back;
  \<open>Dyn_Lib\<close> that a library is closed exactly once; \<open>Connector_Sdk\<close> that the notifications of a connector
  are entry points of the manager and that the ICE connector starts with the node's settings and its
  signal handler in place; \<open>Cli_Bench\<close> bounds by how much the workers exceed the packet limit, shows that
  they end and that an ICE upgrade goes unnoticed; \<open>Cli_Dashboard\<close> is about the ring of samples, numbers
  and the width of rows; \<open>Cli_Main\<close> about the plugin directories and the end of the server mode.

  \<^bold>\<open>Modelling decisions.\<close> State is passed explicitly; an operation that returns a status returns a
  pair. Calls to connectors and handlers are recorded in a log. Handlers are arbitrary functions on
  the manager's state; the connectors do not re-enter it. Machine integers keep their width. Loops
  over packets are structural or have a measure; \<open>dispatch_packet\<close> calls itself for the frame
  inside a relayed one, and terminates because each call accepts a nonce the replay window could
  still accept or works on a shorter packet, so no fuel is needed. The STUN and session timers
  are pending waits and queues of handlers, so that a cancelled timer's handler may still run; the
  methods of a session run one at a time. Times are nanoseconds; the clock stands still within one
  store request. SQL statements are functions on the table of rows; a \<open>string_view\<close> whose pointer is null,
  which SQLite binds as NULL, is \<open>None\<close>. Where the ICE session reads memory past a packet, the bytes there
  are an argument of the model, and \<open>ses_fault\<close> records that it happened; \<open>get_schemes\<close> of a handshake
  payload that claims more than eight schemes reads on to the end of the struct in the model, and
  further in the code. Callbacks of the STUN client are recorded and run after the operation.
  \<open>std::sort\<close> is taken to be stable on equal keys. The functions posted to the TCP connector's
  threads and the completions of its socket operations are events that run in any order; the last
  fields of a TCP connection only record what happened. The JSON library, \<open>dlopen\<close>, libsodium, the
  environment and the contents of directories are parameters. A plugin's entry point is a function on
  the manager's state; where it matters, all it does there is to register handlers. The settings of
  type \<open>int\<close> are words of 32 bits. The floating-point operations of the dashboard are the fields of the
  record \<open>fp\<close> over any linear order. A loop that polls is a function of the list of what it observes,
  \<open>None\<close> when the list ends first; the theorems that it ends say which observations are enough.

  \<^bold>\<open>Not modelled.\<close> The socket calls of the connectors (I/O of boost::asio, events or parameters
  of the models); formatting and sinks of the logger; the option parser of both \<open>main.cpp\<close> files
  (boost::program_options) and the rest of the store's, which starts a thread and waits for a signal;
  opening the database; the machine id on Windows and macOS, and the library handles of Windows; the
  class declarations in the headers, whose methods are modelled with their definitions.
\<close>

section \<open>The connection manager in every reachable state\<close>

text \<open>
  Property C2. In every state the manager can reach through its entry points, connection ids are
  fresh and never reused, a connection is either in the handshake (with a handshake state and
  without a session) or established (with a session and an authenticated peer), plaintext
  passthrough exists on trusted connections only, the public-key index names established
  connections of that key, and the transport index names exactly the secondary paths of live
  connections.
\<close>

theorem reachable_states_consistent:
  assumes "cm_reach s"
  shows "cm_inv s"
  using assms by (rule cm_reach_inv)

theorem reachable_states_consistent_witness:
  "cm_inv (exec demo_env (EvConnected (demo_endpoint ''10.0.0.1'' 9000)) (cm_init fresh_bus demo_identity None))"
  by (rule reachable_states_consistent [OF cm_reach.step [OF cm_reach.start demo_env_ok]]) (simp add: cm_init_def)

end
